(* ===== verification/Prelude.thy ===== *)
theory Prelude
  imports Main "HOL-Library.Word"
begin

text \<open>
  Prelude of the development: the machine integers of the program, strings, and the byte
  layout of integers in memory with the lemmas every component shares.  Two collections
  gather facts for automation: \<open>wire_simps\<close> (what a stream primitive returns) and
  \<open>size_simps\<close> (how many bytes a writer puts on a stream).
\<close>

named_theorems wire_simps
named_theorems size_simps

unbundle bit_operations_syntax

section \<open>Machine integers\<close>

type_synonym u8 = "8 word"
type_synonym u16 = "16 word"
type_synonym u32 = "32 word"
type_synonym u64 = "64 word"
type_synonym bytes = "u8 list"

text \<open>The bytes of a string literal of the program (\<open>char\<close> is eight bits wide).\<close>

definition bytes_of_string :: "string \<Rightarrow> bytes" where
  "bytes_of_string s = map (\<lambda>c. word_of_nat (of_char c)) s"

lemma length_bytes_of_string [simp]: "length (bytes_of_string s) = length s"
  by (simp add: bytes_of_string_def)

section \<open>Little-endian memory\<close>

text \<open>
  An integer in the memory of the little-endian host the program is built for: byte \<open>i\<close>
  holds the bits \<open>8 * i\<close> to \<open>8 * i + 7\<close>.
\<close>

definition le_bytes :: "nat \<Rightarrow> 'a::len word \<Rightarrow> bytes" where
  "le_bytes n w = map (\<lambda>i. ucast (drop_bit (8 * i) w)) [0..<n]"

fun from_le :: "bytes \<Rightarrow> 'a::len word" where
  "from_le [] = 0"
| "from_le (b # bs) = ucast b OR push_bit 8 (from_le bs)"

lemma length_le_bytes [simp]: "length (le_bytes n w) = n"
  by (simp add: le_bytes_def)

lemma nth_le_bytes: "i < n \<Longrightarrow> le_bytes n w ! i = ucast (drop_bit (8 * i) w)"
  by (simp add: le_bytes_def)

lemma bit_from_le:
  "bit (from_le bs :: 'a::len word) i \<longleftrightarrow>
     i < LENGTH('a) \<and> i div 8 < length bs \<and> bit (bs ! (i div 8)) (i mod 8)"
proof (induction bs arbitrary: i)
  case Nil
  then show ?case by simp
next
  case (Cons b bs)
  show ?case
  proof (cases "i < 8")
    case True
    then show ?thesis
      by (auto simp: bit_or_iff bit_push_bit_iff bit_ucast_iff dest: bit_imp_le_length)
  next
    case False
    then obtain j where j: "i = j + 8" by (metis add.commute le_Suc_ex not_less)
    have "\<not> bit b i" using False by (auto dest: bit_imp_le_length)
    moreover have "(j + 8) div 8 = Suc (j div 8)" by simp
    ultimately show ?thesis
      using Cons.IH [of j] by (auto simp: j bit_or_iff bit_push_bit_iff bit_ucast_iff)
  qed
qed

lemma from_le_bytes [simp]:
  assumes "LENGTH('a::len) \<le> 8 * n"
  shows "from_le (le_bytes n (w :: 'a word)) = w"
proof (rule bit_word_eqI)
  fix i assume i: "i < LENGTH('a)"
  then have n: "i div 8 < n" using assms by (simp add: less_mult_imp_div_less mult.commute)
  have "8 * (i div 8) + i mod 8 = i" by simp
  with i n show "bit (from_le (le_bytes n w) :: 'a word) i = bit w i"
    by (auto simp: bit_from_le nth_le_bytes bit_ucast_iff bit_drop_bit_eq)
qed

lemma le_bytes_from_le [simp]:
  assumes "8 * n \<le> LENGTH('a::len)" and "length bs = n"
  shows "le_bytes n (from_le bs :: 'a word) = bs"
proof (rule nth_equalityI)
  show "length (le_bytes n (from_le bs :: 'a word)) = length bs" by (simp add: assms)
next
  fix k assume "k < length (le_bytes n (from_le bs :: 'a word))"
  then have k: "k < n" by simp
  show "le_bytes n (from_le bs :: 'a word) ! k = bs ! k"
  proof (rule bit_word_eqI)
    fix i assume "i < LENGTH(8)"
    then have i: "i < 8" by simp
    have "(8 * k + i) div 8 = k" and "(8 * k + i) mod 8 = i" using i by simp_all
    moreover have "8 * k + i < LENGTH('a)" using k i assms(1) by linarith
    ultimately show "bit (le_bytes n (from_le bs :: 'a word) ! k) i = bit (bs ! k) i"
      using k i assms(2) by (simp add: nth_le_bytes bit_ucast_iff bit_drop_bit_eq bit_from_le)
  qed
qed

end
