(* ===== verification/Digits.thy ===== *)
theory Digits
  imports Prelude
begin

text \<open>
  Decimal numbers: the digits of an unsigned value, as \<open>%d\<close> writes them, the value of a run of
  digits, and the facts that relate the two.
\<close>

text \<open>\<open>%d\<close> of an unsigned value.\<close>

fun digits :: "nat \<Rightarrow> string" where
  "digits n = (if n < 10 then [char_of (48 + n)] else digits (n div 10) @ [char_of (48 + n mod 10)])"

declare digits.simps [simp del]

definition signed_digits :: "int \<Rightarrow> string" where
  "signed_digits i = (if i < 0 then CHR ''-'' # digits (nat (- i)) else digits (nat i))"

definition is_digit :: "char \<Rightarrow> bool" where
  "is_digit c \<longleftrightarrow> 48 \<le> (of_char c :: nat) \<and> (of_char c :: nat) \<le> 57"

definition digits_value :: "string \<Rightarrow> nat" where
  "digits_value ds = foldl (\<lambda>n c. 10 * n + (of_char c - 48)) 0 ds"

lemma char_digit: "k < 10 \<Longrightarrow> is_digit (char_of (48 + k)) \<and> of_char (char_of (48 + k) :: char) = (48 + k :: nat)"
  by (simp add: is_digit_def)

lemma digits_all: "\<forall>c\<in>set (digits n). is_digit c"
proof (induction n rule: digits.induct)
  case (1 n)
  then show ?case using char_digit [of n] char_digit [of "n mod 10"]
    by (subst digits.simps) (auto simp del: char_of_nat)
qed

lemma digits_value_snoc: "digits_value (ds @ [c]) = 10 * digits_value ds + (of_char c - 48)"
  by (simp add: digits_value_def)

lemma digits_value_append: "digits_value (a @ b) = digits_value a * 10 ^ length b + digits_value b"
proof (induction b rule: rev_induct)
  case (snoc c b)
  show ?case unfolding append_assoc [symmetric] digits_value_snoc snoc by (simp add: algebra_simps)
qed (simp add: digits_value_def)

lemma digits_value_digits [simp]: "digits_value (digits n) = n"
proof (induction n rule: digits.induct)
  case (1 n)
  show ?case
  proof (cases "n < 10")
    case True
    then show ?thesis using char_digit [of n] by (subst digits.simps) (simp add: digits_value_def)
  next
    case False
    then show ?thesis
      using 1 char_digit [of "n mod 10"] by (subst digits.simps) (simp add: digits_value_snoc)
  qed
qed

lemma digits_nonempty [simp]: "digits n \<noteq> []"
  by (subst digits.simps) simp

lemma digits_head: "\<exists>c cs. digits n = c # cs \<and> is_digit c"
  using digits_all [of n] digits_nonempty [of n] by (cases "digits n") auto

lemma takeWhile_digits:
  "rest = [] \<or> \<not> is_digit (hd rest) \<Longrightarrow> takeWhile is_digit (digits n @ rest) = digits n"
  using digits_all [of n] by (cases rest) (auto simp: takeWhile_append2)

lemma length_digits: "n < 10 ^ Suc k \<Longrightarrow> length (digits n) \<le> Suc k"
proof (induction k arbitrary: n)
  case (Suc k)
  then show ?case by (subst digits.simps) (auto simp: less_mult_imp_div_less)
qed (simp add: digits.simps)

end
