(* ===== verification/Globals.thy ===== *)
theory Globals
  imports Digits
begin

text \<open>
  \<open>globals.h\<close> and \<open>conf.h\<close>: the message types of the benchmark with their names, the
  sets of types that are requested and whose latency is measured, and the paths of the
  configuration in etcd.
\<close>

datatype OFPT_T =
    PACKET_IN | FEATURES_REPLY | ECHO_REQUEST | STATS_REPLY | ECHO_REPLY | HELLO | ERROR
  | PORT_STATUS | FEATURE_REQUEST | STATS_REQUEST_PORT | STATS_REQUEST_FLOW | STATS_REQUEST
  | PACKET_OUT_UDP | FLOW_MOD | OFPT_UNKNOWN

fun ofpt_value :: "OFPT_T \<Rightarrow> nat" where
  "ofpt_value PACKET_IN = 10"
| "ofpt_value FEATURES_REPLY = 6"
| "ofpt_value ECHO_REQUEST = 2"
| "ofpt_value STATS_REPLY = 17"
| "ofpt_value ECHO_REPLY = 3"
| "ofpt_value HELLO = 0"
| "ofpt_value ERROR = 1"
| "ofpt_value PORT_STATUS = 12"
| "ofpt_value FEATURE_REQUEST = 99"
| "ofpt_value STATS_REQUEST_PORT = 101"
| "ofpt_value STATS_REQUEST_FLOW = 102"
| "ofpt_value STATS_REQUEST = 103"
| "ofpt_value PACKET_OUT_UDP = 104"
| "ofpt_value FLOW_MOD = 105"
| "ofpt_value OFPT_UNKNOWN = 199"

text \<open>\<open>std::map\<close> orders its keys by the value of the enumerator.\<close>

lemma ofpt_value_inject: "ofpt_value a = ofpt_value b \<longleftrightarrow> a = b"
  by (cases a; cases b; simp)

instantiation OFPT_T :: linorder
begin

definition less_eq_OFPT_T :: "OFPT_T \<Rightarrow> OFPT_T \<Rightarrow> bool" where
  "less_eq_OFPT_T a b \<longleftrightarrow> ofpt_value a \<le> ofpt_value b"

definition less_OFPT_T :: "OFPT_T \<Rightarrow> OFPT_T \<Rightarrow> bool" where
  "less_OFPT_T a b \<longleftrightarrow> ofpt_value a < ofpt_value b"

instance
  by standard
     (auto simp: less_eq_OFPT_T_def less_OFPT_T_def ofpt_value_inject [symmetric])

end

definition OFPT_STR :: "OFPT_T \<rightharpoonup> string" where
  "OFPT_STR = map_of
     [(PACKET_OUT_UDP, ''PACKET_OUT_UDP''), (ECHO_REQUEST, ''ECHO_REQUEST''),
      (FEATURE_REQUEST, ''FEATURE_REQUEST''), (STATS_REQUEST, ''STATS_REQUEST''),
      (FLOW_MOD, ''FLOW_MOD''), (STATS_REQUEST_PORT, ''STATS_REQUEST_PORT''),
      (STATS_REQUEST_FLOW, ''STATS_REQUEST_FLOW'')]"

definition OFPT_RSTR :: "string \<rightharpoonup> OFPT_T" where
  "OFPT_RSTR = map_of
     [(''PACKET_OUT_UDP'', PACKET_OUT_UDP), (''ECHO_REQUEST'', ECHO_REQUEST),
      (''FEATURE_REQUEST'', FEATURE_REQUEST), (''STATS_REQUEST'', STATS_REQUEST),
      (''FLOW_MOD'', FLOW_MOD), (''STATS_REQUEST_PORT'', STATS_REQUEST_PORT),
      (''STATS_REQUEST_FLOW'', STATS_REQUEST_FLOW)]"

definition req_types :: "OFPT_T list" where
  "req_types = [FEATURE_REQUEST, ECHO_REQUEST, STATS_REQUEST_PORT, STATS_REQUEST_FLOW,
                PACKET_OUT_UDP, FLOW_MOD]"

definition latency_types :: "OFPT_T list" where
  "latency_types = [FEATURE_REQUEST, ECHO_REQUEST, STATS_REQUEST_PORT, STATS_REQUEST_FLOW]"

text \<open>The two tables are inverse to each other, and name every requested type.\<close>

lemma OFPT_STR_RSTR: "OFPT_RSTR n = Some t \<longleftrightarrow> OFPT_STR t = Some n"
  by (cases t) (auto simp: OFPT_STR_def OFPT_RSTR_def split: if_splits)

lemma OFPT_RSTR_names:
  "OFPT_RSTR ''FEATURE_REQUEST'' = Some FEATURE_REQUEST"
  "OFPT_RSTR ''ECHO_REQUEST'' = Some ECHO_REQUEST"
  "OFPT_RSTR ''STATS_REQUEST_PORT'' = Some STATS_REQUEST_PORT"
  "OFPT_RSTR ''STATS_REQUEST_FLOW'' = Some STATS_REQUEST_FLOW"
  "OFPT_RSTR ''PACKET_OUT_UDP'' = Some PACKET_OUT_UDP"
  "OFPT_RSTR ''FLOW_MOD'' = Some FLOW_MOD"
  by (simp_all add: OFPT_RSTR_def)

lemma OFPT_STR_req_types: "t \<in> set req_types \<Longrightarrow> \<exists>n. OFPT_STR t = Some n"
  by (auto simp: req_types_def OFPT_STR_def)

lemma latency_types_requested: "set latency_types \<subseteq> set req_types"
  by (auto simp: latency_types_def req_types_def)

lemma distinct_req_types: "distinct req_types"
  by (simp add: req_types_def)

lemma OFPT_STR_inj: "OFPT_STR a = Some n \<Longrightarrow> OFPT_STR b = Some n \<Longrightarrow> a = b"
  by (metis OFPT_STR_RSTR option.inject)

section \<open>Time\<close>

text \<open>
  A \<open>time_point_t\<close> and the durations of \<open>boost::chrono\<close> are counts of nanoseconds
  (\<open>system_clock\<close>); \<open>duration_cast\<close> to a coarser unit truncates towards zero (the divisor is positive).
\<close>

type_synonym time_point = int

definition trunc_div :: "int \<Rightarrow> int \<Rightarrow> int" where
  "trunc_div a b = (if 0 \<le> a then a div b else - ((- a) div b))"

lemma trunc_div_nonneg: "0 \<le> a \<Longrightarrow> trunc_div a b = a div b"
  by (simp add: trunc_div_def)

section \<open>Exceptions\<close>

text \<open>
  What leaves a function other than by its return: the exceptions the code or the standard
  library throws, a failed \<open>BOOST_ASSERT\<close>, and behaviour the language leaves undefined
  (an index past the end of a vector, a null pointer, a conversion out of range).
\<close>

datatype exn =
    BadLexicalCast string
  | OutOfRange
  | AssertFailed
  | UndefinedBehaviour
  | ReplyException int string string
  | ClientException string
  | RuntimeError string

text \<open>\<open>boost::lexical_cast\<close> throws when the library's conversion gives nothing.\<close>

definition lexical_cast :: "(string \<Rightarrow> 'a option) \<Rightarrow> string \<Rightarrow> exn + 'a" where
  "lexical_cast conv s = (case conv s of None \<Rightarrow> Inl (BadLexicalCast s) | Some v \<Rightarrow> Inr v)"

section \<open>Paths of the configuration\<close>

definition c_etcd_pbase :: string where
  "c_etcd_pbase = ''/hvbench''"

definition c_etcd_phvbench :: string where
  "c_etcd_phvbench = c_etcd_pbase @ ''/instances''"

definition c_etcd_pglobals :: string where
  "c_etcd_pglobals = c_etcd_pbase @ ''/globals''"

definition c_etcd_ptenants_conf :: string where
  "c_etcd_ptenants_conf = c_etcd_pbase @ ''/tenants''"

definition c_etcd_pnodes_conf :: string where
  "c_etcd_pnodes_conf = c_etcd_pbase @ ''/nodes/conf''"

definition conf_api_version :: string where
  "conf_api_version = ''0.1''"

end
