(* ===== verification/ConcurrentQueue.thy ===== *)
theory ConcurrentQueue
  imports Globals
begin

text \<open>
  \<open>concurrentqueue/concurrentqueue.h\<close>, the part the benchmark runs: a queue with one
  implicit producer, \<open>try_enqueue\<close> (which never allocates a block) and \<open>try_dequeue\<close>.
  Every operation is one step of this model: interleavings inside an operation and the memory
  orders are not modelled, nor are the lists of several producers, bulk operations, tokens and
  the growth of the block index, which \<open>try_enqueue\<close> never asks for.

  A block is a piece of raw memory (\<open>None\<close> where no element is constructed) named by its
  place in the initial pool, the free list is the stack of \<open>FreeList\<close>, and the block index
  maps the base of a block to it.
\<close>

section \<open>Data\<close>

definition BLOCK_SIZE :: u64 where
  "BLOCK_SIZE = 32"

definition IMPLICIT_INITIAL_INDEX_SIZE :: u64 where
  "IMPLICIT_INITIAL_INDEX_SIZE = 32"

definition INVALID_BLOCK_BASE :: u64 where
  "INVALID_BLOCK_BASE = 1"

definition circular_less_than :: "u64 \<Rightarrow> u64 \<Rightarrow> bool" where
  "circular_less_than a b \<longleftrightarrow> push_bit 63 1 < a - b"

record 'a Block =
  elements :: "'a option list"
  elementsCompletelyDequeued :: u64

record BlockIndexEntry =
  key :: u64
  val :: "nat option"

record BlockIndexHeader =
  capacity :: u64
  tail_pos :: u64
  entries :: "BlockIndexEntry list"

record ImplicitProducer =
  tailIndex :: u64
  headIndex :: u64
  dequeueOptimisticCount :: u64
  dequeueOvercommit :: u64
  tailBlock :: "nat option"
  blockIndex :: BlockIndexHeader

record 'a ConcurrentQueue =
  initialBlockPool :: "'a Block list"
  initialBlockPoolIndex :: nat
  freeList :: "nat list"
  producer :: "ImplicitProducer option"

section \<open>Construction\<close>

definition Block_new :: "'a Block" where
  "Block_new = \<lparr>elements = replicate (unat BLOCK_SIZE) None, elementsCompletelyDequeued = 0\<rparr>"

definition populate_initial_block_list :: "nat \<Rightarrow> 'a Block list" where
  "populate_initial_block_list blockCount = replicate blockCount Block_new"

text \<open>The default capacity is six blocks.\<close>

definition ConcurrentQueue_new :: "'a ConcurrentQueue" where
  "ConcurrentQueue_new =
     (let cap = 6 * BLOCK_SIZE
      in \<lparr>initialBlockPool = populate_initial_block_list
            (unat (cap div BLOCK_SIZE + (if cap AND (BLOCK_SIZE - 1) = 0 then 0 else 1))),
          initialBlockPoolIndex = 0, freeList = [], producer = None\<rparr>)"

definition new_block_index :: BlockIndexHeader where
  "new_block_index =
     \<lparr>capacity = IMPLICIT_INITIAL_INDEX_SIZE,
      tail_pos = (0 - 1) AND (IMPLICIT_INITIAL_INDEX_SIZE - 1),
      entries = replicate (unat IMPLICIT_INITIAL_INDEX_SIZE) \<lparr>key = INVALID_BLOCK_BASE, val = None\<rparr>\<rparr>"

definition ImplicitProducer_new :: ImplicitProducer where
  "ImplicitProducer_new =
     \<lparr>tailIndex = 0, headIndex = 0, dequeueOptimisticCount = 0, dequeueOvercommit = 0,
      tailBlock = None, blockIndex = new_block_index\<rparr>"

section \<open>Blocks and the block pool\<close>

definition block_slot :: "u64 \<Rightarrow> nat" where
  "block_slot i = unat (i AND (BLOCK_SIZE - 1))"

definition Block_set_empty :: "'a Block \<Rightarrow> bool \<times> 'a Block" where
  "Block_set_empty b =
     (elementsCompletelyDequeued b = BLOCK_SIZE - 1,
      b\<lparr>elementsCompletelyDequeued := elementsCompletelyDequeued b + 1\<rparr>)"

definition Block_reset_empty :: "'a Block \<Rightarrow> 'a Block" where
  "Block_reset_empty b = b\<lparr>elementsCompletelyDequeued := 0\<rparr>"

definition try_get_block_from_initial_pool ::
    "'a ConcurrentQueue \<Rightarrow> nat option \<times> 'a ConcurrentQueue" where
  "try_get_block_from_initial_pool q =
     (if length (initialBlockPool q) \<le> initialBlockPoolIndex q then (None, q)
      else (Some (initialBlockPoolIndex q),
            q\<lparr>initialBlockPoolIndex := initialBlockPoolIndex q + 1\<rparr>))"

definition add_block_to_free_list :: "nat \<Rightarrow> 'a ConcurrentQueue \<Rightarrow> 'a ConcurrentQueue" where
  "add_block_to_free_list b q = q\<lparr>freeList := b # freeList q\<rparr>"

definition try_get_block_from_free_list ::
    "'a ConcurrentQueue \<Rightarrow> nat option \<times> 'a ConcurrentQueue" where
  "try_get_block_from_free_list q =
     (case freeList q of [] \<Rightarrow> (None, q) | b # bs \<Rightarrow> (Some b, q\<lparr>freeList := bs\<rparr>))"

definition requisition_block :: "'a ConcurrentQueue \<Rightarrow> nat option \<times> 'a ConcurrentQueue" where
  "requisition_block q =
     (case try_get_block_from_initial_pool q of
        (Some b, q') \<Rightarrow> (Some b, q')
      | (None, q') \<Rightarrow> try_get_block_from_free_list q')"

definition block_update :: "nat \<Rightarrow> ('a Block \<Rightarrow> 'a Block) \<Rightarrow> 'a ConcurrentQueue \<Rightarrow> 'a ConcurrentQueue" where
  "block_update b f q = q\<lparr>initialBlockPool := (initialBlockPool q)[b := f (initialBlockPool q ! b)]\<rparr>"

definition block_store :: "u64 \<Rightarrow> 'a option \<Rightarrow> 'a Block \<Rightarrow> 'a Block" where
  "block_store i x b = b\<lparr>elements := (elements b)[block_slot i := x]\<rparr>"

section \<open>The block index\<close>

text \<open>\<open>insert_block_index_entry\<close> gives the place of the entry it claimed.\<close>

definition insert_block_index_entry ::
    "u64 \<Rightarrow> BlockIndexHeader \<Rightarrow> (nat \<times> BlockIndexHeader) option" where
  "insert_block_index_entry blockStartIndex bi =
     (let newTail = (tail_pos bi + 1) AND (capacity bi - 1);
          i = unat newTail; e = entries bi ! i
      in if key e = INVALID_BLOCK_BASE \<or> val e = None
         then Some (i, bi\<lparr>entries := (entries bi)[i := e\<lparr>key := blockStartIndex\<rparr>], tail_pos := newTail\<rparr>)
         else None)"

definition rewind_block_index_tail :: "BlockIndexHeader \<Rightarrow> BlockIndexHeader" where
  "rewind_block_index_tail bi = bi\<lparr>tail_pos := (tail_pos bi - 1) AND (capacity bi - 1)\<rparr>"

definition entry_store :: "nat \<Rightarrow> nat option \<Rightarrow> BlockIndexHeader \<Rightarrow> BlockIndexHeader" where
  "entry_store i v bi = bi\<lparr>entries := (entries bi)[i := (entries bi ! i)\<lparr>val := v\<rparr>]\<rparr>"

text \<open>
  The signed difference is divided by \<open>BLOCK_SIZE\<close>, which is unsigned: the conversion of
  C++ makes this an unsigned division.
\<close>

definition get_block_index_index_for_index :: "u64 \<Rightarrow> BlockIndexHeader \<Rightarrow> nat" where
  "get_block_index_index_for_index index bi =
     (let base = index AND NOT (BLOCK_SIZE - 1);
          tailBase = key (entries bi ! unat (tail_pos bi));
          offset = (base - tailBase) div BLOCK_SIZE
      in unat ((tail_pos bi + offset) AND (capacity bi - 1)))"

section \<open>The implicit producer\<close>

definition size_approx :: "ImplicitProducer \<Rightarrow> u64" where
  "size_approx p =
     (if circular_less_than (headIndex p) (tailIndex p) then tailIndex p - headIndex p else 0)"

definition ImplicitProducer_enqueue ::
    "'a \<Rightarrow> ImplicitProducer \<Rightarrow> 'a ConcurrentQueue \<Rightarrow> exn + (bool \<times> 'a ConcurrentQueue)" where
  "ImplicitProducer_enqueue x p q =
     (let cur = tailIndex p; newTailIndex = 1 + cur
      in if cur AND (BLOCK_SIZE - 1) = 0 then
           (if \<not> circular_less_than (headIndex p) (cur + BLOCK_SIZE) then Inr (False, q)
            else case insert_block_index_entry cur (blockIndex p) of
                None \<Rightarrow> Inr (False, q)
              | Some (i, bi) \<Rightarrow>
                  (case requisition_block q of
                     (None, q1) \<Rightarrow>
                       Inr (False, q1\<lparr>producer :=
                              Some (p\<lparr>blockIndex := entry_store i None (rewind_block_index_tail bi)\<rparr>)\<rparr>)
                   | (Some b, q1) \<Rightarrow>
                       (let q2 = block_update b (block_store cur (Some x)) (block_update b Block_reset_empty q1)
                        in Inr (True, q2\<lparr>producer :=
                              Some (p\<lparr>blockIndex := entry_store i (Some b) bi, tailBlock := Some b,
                                      tailIndex := newTailIndex\<rparr>)\<rparr>))))
         else case tailBlock p of
             None \<Rightarrow> Inl UndefinedBehaviour
           | Some b \<Rightarrow>
               Inr (True, (block_update b (block_store cur (Some x)) q)
                            \<lparr>producer := Some (p\<lparr>tailIndex := newTailIndex\<rparr>)\<rparr>))"

definition ImplicitProducer_dequeue ::
    "ImplicitProducer \<Rightarrow> 'a ConcurrentQueue \<Rightarrow> exn + ('a option \<times> 'a ConcurrentQueue)" where
  "ImplicitProducer_dequeue p q =
     (if circular_less_than (dequeueOptimisticCount p - dequeueOvercommit p) (tailIndex p) then
        (let myDequeueCount = dequeueOptimisticCount p;
             p1 = p\<lparr>dequeueOptimisticCount := myDequeueCount + 1\<rparr>
         in if circular_less_than (myDequeueCount - dequeueOvercommit p1) (tailIndex p1) then
              (let index = headIndex p1;
                   p2 = p1\<lparr>headIndex := index + 1\<rparr>;
                   i = get_block_index_index_for_index index (blockIndex p2)
               in case val (entries (blockIndex p2) ! i) of
                    None \<Rightarrow> Inl UndefinedBehaviour
                  | Some b \<Rightarrow>
                      (case elements (initialBlockPool q ! b) ! block_slot index of
                         None \<Rightarrow> Inl UndefinedBehaviour
                       | Some x \<Rightarrow>
                           (let q1 = block_update b (block_store index None) q;
                                (emptied, blk) = Block_set_empty (initialBlockPool q1 ! b);
                                q2 = block_update b (\<lambda>_. blk) q1
                            in if emptied
                               then Inr (Some x, add_block_to_free_list b
                                      (q2\<lparr>producer := Some (p2\<lparr>blockIndex := entry_store i None (blockIndex p2)\<rparr>)\<rparr>))
                               else Inr (Some x, q2\<lparr>producer := Some p2\<rparr>))))
            else Inr (None, q\<lparr>producer := Some (p1\<lparr>dequeueOvercommit := dequeueOvercommit p1 + 1\<rparr>)\<rparr>))
      else Inr (None, q))"

section \<open>The queue\<close>

definition get_or_add_implicit_producer ::
    "'a ConcurrentQueue \<Rightarrow> ImplicitProducer \<times> 'a ConcurrentQueue" where
  "get_or_add_implicit_producer q =
     (case producer q of
        Some p \<Rightarrow> (p, q)
      | None \<Rightarrow> (ImplicitProducer_new, q\<lparr>producer := Some ImplicitProducer_new\<rparr>))"

definition try_enqueue :: "'a \<Rightarrow> 'a ConcurrentQueue \<Rightarrow> exn + (bool \<times> 'a ConcurrentQueue)" where
  "try_enqueue x q =
     (let (p, q1) = get_or_add_implicit_producer q in ImplicitProducer_enqueue x p q1)"

definition try_dequeue :: "'a ConcurrentQueue \<Rightarrow> exn + ('a option \<times> 'a ConcurrentQueue)" where
  "try_dequeue q =
     (case producer q of
        None \<Rightarrow> Inr (None, q)
      | Some p \<Rightarrow> if 0 < size_approx p then ImplicitProducer_dequeue p q else Inr (None, q))"

end
