(* ===== verification/QueueFacts.thy ===== *)
theory QueueFacts
  imports ConcurrentQueue
begin

text \<open>
  The queue refines a bounded list: the interface \<open>fifo\<close> states what a client of the queue
  relies on, the representation relation \<open>cq_rep\<close> connects the block structure to the list
  of the elements, and the interpretation shows that the model of the code keeps the laws.
\<close>

section \<open>The interface\<close>

locale fifo =
  fixes enq :: "'a \<Rightarrow> 'q \<Rightarrow> exn + (bool \<times> 'q)"
    and deq :: "'q \<Rightarrow> exn + ('a option \<times> 'q)"
    and rep :: "'q \<Rightarrow> 'a list \<Rightarrow> bool"
    and always never :: nat
  assumes enq_law: "rep q xs \<Longrightarrow> \<exists>b q'. enq x q = Inr (b, q') \<and> rep q' (if b then xs @ [x] else xs)"
    and enq_room: "rep q xs \<Longrightarrow> length xs \<le> always \<Longrightarrow> enq x q = Inr (b, q') \<Longrightarrow> b"
    and enq_full: "rep q xs \<Longrightarrow> never \<le> length xs \<Longrightarrow> enq x q = Inr (b, q') \<Longrightarrow> \<not> b"
    and deq_empty: "rep q [] \<Longrightarrow> \<exists>q'. deq q = Inr (None, q') \<and> rep q' []"
    and deq_law: "rep q (x # xs) \<Longrightarrow> \<exists>q'. deq q = Inr (Some x, q') \<and> rep q' xs"
begin

lemma deq_hd: "rep q xs \<Longrightarrow>
    \<exists>q'. deq q = Inr (if xs = [] then None else Some (hd xs), q') \<and> rep q' (tl xs)"
  using deq_empty deq_law by (cases xs) auto

end

section \<open>Words of the block structure\<close>

lemma and_31: "x AND 31 = take_bit 5 (x :: u64)"
  by (simp add: take_bit_eq_mask mask_eq_exp_minus_1)

lemma unat_of_nat_and_31: "unat ((word_of_nat n :: u64) AND 31) = n mod 32"
proof -
  have "take_bit 5 (take_bit 64 n) = n mod 32" by (simp add: take_bit_take_bit) (simp add: take_bit_eq_mod)
  then show ?thesis by (simp only: and_31 unsigned_take_bit_eq unsigned_of_nat word_size) simp
qed

lemma block_slot_of_nat: "block_slot (word_of_nat n) = n mod 32"
  using unat_of_nat_and_31 [of n] by (simp only: block_slot_def BLOCK_SIZE_def) simp

lemma of_nat_and_31: "(word_of_nat n :: u64) AND 31 = word_of_nat (n mod 32)"
  using arg_cong [OF unat_of_nat_and_31, of "word_of_nat :: nat \<Rightarrow> u64"]
  by (simp only: of_nat_unat ucast_id)

lemma of_nat_and_31_zero: "(word_of_nat n :: u64) AND 31 = 0 \<longleftrightarrow> n mod 32 = 0"
  by (simp only: unat_eq_zero [symmetric] unat_of_nat_and_31)

lemma and_not_31: "(x :: u64) AND NOT 31 = x - (x AND 31)"
proof -
  have "x - (x AND 31) = x AND NOT (x AND 31)"
    by (rule disjunctive_diff) (simp add: bit_and_iff)
  also have "\<dots> = x AND NOT 31"
    by (rule bit_eqI) (simp only: bit_and_iff bit_not_iff, blast)
  finally show ?thesis by simp
qed

lemma of_nat_and_not_31: "(word_of_nat n :: u64) AND NOT 31 = word_of_nat (32 * (n div 32))"
proof -
  have "(word_of_nat n :: u64) AND NOT 31 = word_of_nat n - word_of_nat (n mod 32)"
    by (simp only: and_not_31 of_nat_and_31)
  also have "\<dots> = word_of_nat (32 * (n div 32))"
    by (metis add_diff_cancel_right' mult_div_mod_eq of_nat_add)
  finally show ?thesis .
qed

lemma unat_minus_of_nat:
  assumes "0 < n" and "n < 2 ^ 64"
  shows "unat (- word_of_nat n :: u64) = 2 ^ 64 - n"
proof -
  have "(- word_of_nat n :: u64) = word_of_nat (2 ^ 64 - n)"
    using assms by (simp add: of_nat_diff)
  moreover have "unat (word_of_nat (2 ^ 64 - n) :: u64) = 2 ^ 64 - n"
    using assms by (simp add: unsigned_of_nat take_bit_nat_eq_self del: of_nat_diff)
  ultimately show ?thesis by (simp only:)
qed

lemma circular_less_than_of_nat:
  assumes "n < 2 ^ 63"
  shows "circular_less_than (word_of_nat h) (word_of_nat (h + n)) \<longleftrightarrow> 0 < n"
proof (cases "n = 0")
  case True
  then show ?thesis by (simp add: circular_less_than_def)
next
  case False
  have "(word_of_nat h :: u64) - word_of_nat (h + n) = - word_of_nat n" by simp
  with False assms show ?thesis
    by (simp add: circular_less_than_def word_less_nat_alt unat_minus_of_nat)
qed

text \<open>The arithmetic of the block index, whose unsigned division is right modulo 32.\<close>

lemma index_of_block:
  assumes "k + d = m" and "d < 32"
  shows "unat ((word_of_nat ((m + 32) mod 32) +
       ((word_of_nat (32 * k) :: u64) - word_of_nat (32 * m)) div 32) AND 31) = k mod 32"
proof -
  have diff: "(word_of_nat (32 * k) :: u64) - word_of_nat (32 * m) = - word_of_nat (32 * d)"
    using assms(1) by (auto simp: algebra_simps)
  have div: "(- word_of_nat (32 * d) :: u64) div 32 = word_of_nat (if d = 0 then 0 else 2 ^ 59 - d)"
  proof (cases "d = 0")
    case False
    then have "unat ((- word_of_nat (32 * d) :: u64) div 32) = (2 ^ 64 - 32 * d) div 32"
      using assms(2) by (simp add: unat_div unat_minus_of_nat del: of_nat_mult)
    also have "\<dots> = 2 ^ 59 - d" by simp
    finally have "word_of_nat (unat ((- word_of_nat (32 * d) :: u64) div 32)) = (word_of_nat (2 ^ 59 - d) :: u64)"
      by (rule arg_cong)
    with False show ?thesis by (simp only: of_nat_unat ucast_id if_False)
  qed simp
  have "((m + 32) mod 32 + (if d = 0 then 0 else 2 ^ 59 - d)) mod 32 = k mod 32"
  proof (cases "d = 0")
    case False
    have big: "(2 :: nat) ^ 59 mod 32 = 0" by simp
    have "(m + 32) mod 32 = m mod 32" by simp
    then have "((m + 32) mod 32 + (2 ^ 59 - d)) mod 32 = (m + (2 ^ 59 - d)) mod 32"
      by (simp only: mod_add_left_eq)
    also have "m + (2 ^ 59 - d) = k + 2 ^ 59" using assms by simp
    also have "(k + 2 ^ 59) mod 32 = k mod 32"
      by (subst mod_add_right_eq [symmetric]) (simp only: big add_0_right)
    finally show ?thesis using False by (simp only: if_False)
  qed (use assms in simp)
  then show ?thesis
    unfolding diff div of_nat_add [symmetric] unat_of_nat_and_31 .
qed

section \<open>The block index\<close>

text \<open>
  \<open>cq_index bi k bs\<close>: the blocks \<open>bs\<close> hold the elements from position \<open>32 * k\<close> on, each
  entered under its base in the slot of its number, and every other slot is free.
\<close>

definition cq_index :: "BlockIndexHeader \<Rightarrow> nat \<Rightarrow> nat list \<Rightarrow> bool" where
  "cq_index bi k bs \<longleftrightarrow> capacity bi = 32 \<and> length (entries bi) = 32 \<and>
     tail_pos bi = word_of_nat ((k + length bs + 31) mod 32) \<and> length bs < 32 \<and>
     (\<forall>j<length bs. entries bi ! ((k + j) mod 32) = \<lparr>key = word_of_nat (32 * (k + j)), val = Some (bs ! j)\<rparr>) \<and>
     (\<forall>i<32. (\<forall>j<length bs. (k + j) mod 32 \<noteq> i) \<longrightarrow> val (entries bi ! i) = None)"

lemma mod_32_eq:
  assumes "(k + i) mod 32 = (k + j) mod 32" and "i < 32" and "j < 32"
  shows "i = (j :: nat)"
proof -
  have *: "x = ((k + x) mod 32 + 31 * k) mod 32" if "x < 32" for x
  proof -
    have "((k + x) mod 32 + 31 * k) mod 32 = (k + x + 31 * k) mod 32" by (rule mod_add_left_eq)
    also have "k + x + 31 * k = x + k * 32" by simp
    also have "(x + k * 32) mod 32 = x" using that by simp
    finally show ?thesis ..
  qed
  show ?thesis using * [OF assms(2)] * [OF assms(3)] assms(1) by simp
qed

lemma mod_32_step:
  "((m + 31) mod 32 + 1) mod 32 = m mod (32 :: nat)"
  "(m mod 32 + 31) mod 32 = (m + 31) mod (32 :: nat)"
proof -
  have "((m + 31) mod 32 + 1) mod 32 = (m + 31 + 1) mod 32" by (rule mod_add_left_eq)
  also have "m + 31 + 1 = m + 32" by simp
  finally show "((m + 31) mod 32 + 1) mod 32 = m mod 32" by simp
  show "(m mod 32 + 31) mod 32 = (m + 31) mod 32" by (rule mod_add_left_eq)
qed

lemma tail_pos_succ:
  "((word_of_nat ((m + 31) mod 32) :: u64) + 1) AND 31 = word_of_nat (m mod 32)"
  using of_nat_and_31 [of "(m + 31) mod 32 + 1"] by (simp only: mod_32_step of_nat_add of_nat_1)

lemma tail_pos_pred:
  "((word_of_nat (m mod 32) :: u64) - 1) AND 31 = word_of_nat ((m + 31) mod 32)"
proof (cases "m mod 32")
  case 0
  then show ?thesis using mod_32_step(2) [of m] by simp
next
  case (Suc j)
  have "m mod 32 < 32" by simp
  with Suc have "(m mod 32 + 31) mod 32 = j" by simp
  with Suc mod_32_step(2) [of m] \<open>m mod 32 < 32\<close> of_nat_and_31 [of j] show ?thesis by simp
qed

lemma unat_of_nat_mod_32 [simp]: "unat (word_of_nat (m mod 32) :: u64) = m mod 32"
proof -
  have "m mod 32 < 2 ^ 64" by (rule less_trans [of _ 32]) simp_all
  then have "take_bit 64 (m mod 32) = m mod 32" by (rule take_bit_nat_eq_self)
  then show ?thesis by (simp only: unsigned_of_nat) simp
qed

lemma cq_index_insert:
  assumes "cq_index bi k bs" and "length bs < 31"
  shows "\<exists>i bi'. insert_block_index_entry (word_of_nat (32 * (k + length bs))) bi = Some (i, bi') \<and>
    (\<forall>b. cq_index (entry_store i (Some b) bi') k (bs @ [b])) \<and>
    cq_index (entry_store i None (rewind_block_index_tail bi')) k bs"
proof -
  let ?i = "(k + length bs) mod 32"
  let ?e = "entries bi ! ?i"
  define bi' where "bi' = bi\<lparr>entries := (entries bi)[?i := ?e\<lparr>key := word_of_nat (32 * (k + length bs))\<rparr>],
      tail_pos := word_of_nat ((k + length bs) mod 32)\<rparr>"
  have cap: "capacity bi = 32" and len: "length (entries bi) = 32"
    and tl: "tail_pos bi = word_of_nat ((k + length bs + 31) mod 32)"
    and used: "\<And>j. j < length bs \<Longrightarrow>
      entries bi ! ((k + j) mod 32) = \<lparr>key = word_of_nat (32 * (k + j)), val = Some (bs ! j)\<rparr>"
    and free: "\<And>i. i < 32 \<Longrightarrow> (\<forall>j<length bs. (k + j) mod 32 \<noteq> i) \<Longrightarrow> val (entries bi ! i) = None"
    using assms(1) by (auto simp: cq_index_def)
  have other: "(k + j) mod 32 \<noteq> ?i" if "j < length bs" for j
    using mod_32_eq [of k j "length bs"] that assms(2) by auto
  have i32: "?i < 32" by simp
  have nw: "(tail_pos bi + 1) AND (capacity bi - 1) = word_of_nat ?i"
    unfolding tl cap using tail_pos_succ [of "k + length bs"] by simp
  have "val ?e = None" using free [OF i32] other by blast
  then have "insert_block_index_entry (word_of_nat (32 * (k + length bs))) bi = Some (?i, bi')"
    unfolding insert_block_index_entry_def Let_def nw bi'_def by simp
  moreover have "cq_index (entry_store ?i (Some b) bi') k (bs @ [b])" for b
  proof -
    have "(Suc (k + length bs) + 31) mod 32 = ?i" by simp
    moreover have "entries (entry_store ?i (Some b) bi') =
        (entries bi)[?i := \<lparr>key = word_of_nat (32 * (k + length bs)), val = Some b\<rparr>]"
      using len i32 by (cases ?e) (simp add: entry_store_def bi'_def)
    ultimately show ?thesis
      using assms(2) used other other [symmetric] free
      by (auto simp: cq_index_def cap len entry_store_def bi'_def nth_append less_Suc_eq nth_list_update)
  qed
  moreover have "cq_index (entry_store ?i None (rewind_block_index_tail bi')) k bs"
  proof -
    have "(tail_pos bi' - 1) AND (capacity bi' - 1) = tail_pos bi"
      using tail_pos_pred [of "k + length bs"] by (simp add: bi'_def cap tl)
    then show ?thesis
      using assms used other other [symmetric] free
      by (auto simp: cq_index_def cap len entry_store_def bi'_def rewind_block_index_tail_def tl nth_list_update)
  qed
  ultimately show ?thesis by blast
qed

lemma cq_index_lookup:
  assumes "cq_index bi (h div 32) (b # bs)"
  shows "get_block_index_index_for_index (word_of_nat h) bi = (h div 32) mod 32"
    and "val (entries bi ! ((h div 32) mod 32)) = Some b"
proof -
  let ?k = "h div 32"
  let ?m = "?k + length bs"
  have "entries bi ! ((?k + length bs) mod 32) = \<lparr>key = word_of_nat (32 * ?m), val = Some ((b # bs) ! length bs)\<rparr>"
    using assms unfolding cq_index_def by (metis length_Cons lessI)
  moreover have tl: "tail_pos bi = word_of_nat ((?m + 32) mod 32)"
    using assms by (simp add: cq_index_def)
  moreover have "(?m + 32) mod 32 = ?m mod 32" by simp
  ultimately have key: "key (entries bi ! unat (tail_pos bi)) = word_of_nat (32 * ?m)"
    by (metis unat_of_nat_mod_32 BlockIndexEntry.select_convs(1))
  have "capacity bi - 1 = 31" and "length bs < 32" using assms by (simp_all add: cq_index_def)
  then show "get_block_index_index_for_index (word_of_nat h) bi = ?k mod 32"
    using index_of_block [of ?k "length bs" ?m] of_nat_and_not_31 [of h]
    unfolding get_block_index_index_for_index_def Let_def key
    unfolding tl by (simp only: BLOCK_SIZE_def) simp
  have "entries bi ! ((?k + 0) mod 32) = \<lparr>key = word_of_nat (32 * (?k + 0)), val = Some ((b # bs) ! 0)\<rparr>"
    using assms unfolding cq_index_def by (metis length_greater_0_conv list.distinct(1))
  then show "val (entries bi ! (?k mod 32)) = Some b" by simp
qed

lemma cq_index_drop:
  assumes "cq_index bi k (b # bs)"
  shows "cq_index (entry_store (k mod 32) None bi) (Suc k) bs"
proof -
  have len: "length (entries bi) = 32" and l: "length bs < 31"
    and used: "\<And>j. j < Suc (length bs) \<Longrightarrow>
      entries bi ! ((k + j) mod 32) = \<lparr>key = word_of_nat (32 * (k + j)), val = Some ((b # bs) ! j)\<rparr>"
    and free: "\<And>i. i < 32 \<Longrightarrow> (\<forall>j<Suc (length bs). (k + j) mod 32 \<noteq> i) \<Longrightarrow> val (entries bi ! i) = None"
    using assms by (auto simp: cq_index_def)
  have ne: "(Suc k + j) mod 32 \<noteq> k mod 32" if "j < length bs" for j
    using mod_32_eq [of k "Suc j" 0] that l by auto
  have "entries bi ! ((Suc k + j) mod 32) =
      \<lparr>key = word_of_nat (32 * (Suc k + j)), val = Some (bs ! j)\<rparr>" if "j < length bs" for j
    using used [of "Suc j"] that by simp
  moreover have "val (entries bi ! i) = None"
    if "i < 32" "\<forall>j<length bs. (Suc k + j) mod 32 \<noteq> i" "i \<noteq> k mod 32" for i
  proof (rule free [OF that(1)], intro allI impI)
    fix j assume "j < Suc (length bs)"
    then show "(k + j) mod 32 \<noteq> i" using that(2,3) by (cases j) auto
  qed
  ultimately show ?thesis
    using assms len ne ne [symmetric] by (auto simp: cq_index_def entry_store_def nth_list_update)
qed

section \<open>The block pool\<close>

definition cq_pool :: "'a ConcurrentQueue \<Rightarrow> nat list \<Rightarrow> bool" where
  "cq_pool q bs \<longleftrightarrow> length (initialBlockPool q) = 6 \<and> initialBlockPoolIndex q \<le> 6 \<and>
     distinct (bs @ freeList q) \<and> set (bs @ freeList q) = {..<initialBlockPoolIndex q} \<and>
     (\<forall>b\<in>set (initialBlockPool q). length (elements b) = 32)"

lemma cq_pool_length:
  assumes "cq_pool q bs"
  shows "length bs + length (freeList q) = initialBlockPoolIndex q" and "length bs \<le> 6"
    and "\<forall>b\<in>set bs. b < 6"
proof -
  have "card (set (bs @ freeList q)) = length (bs @ freeList q)"
    using assms by (intro distinct_card) (simp add: cq_pool_def)
  then show *: "length bs + length (freeList q) = initialBlockPoolIndex q"
    using assms by (simp add: cq_pool_def)
  then show "length bs \<le> 6" using assms by (simp add: cq_pool_def)
  have "set bs \<subseteq> {..<initialBlockPoolIndex q}" and "initialBlockPoolIndex q \<le> 6"
    using assms by (auto simp: cq_pool_def)
  then show "\<forall>b\<in>set bs. b < 6" by auto
qed

lemma requisition_block_cases:
  assumes "cq_pool q bs"
  shows "length bs < 6 \<Longrightarrow> \<exists>b q'. requisition_block q = (Some b, q') \<and> cq_pool q' (bs @ [b]) \<and>
       b \<notin> set bs \<and> b < 6 \<and> initialBlockPool q' = initialBlockPool q"
    and "length bs = 6 \<Longrightarrow> requisition_block q = (None, q)"
proof -
  note l = cq_pool_length [OF assms]
  show "\<exists>b q'. requisition_block q = (Some b, q') \<and> cq_pool q' (bs @ [b]) \<and>
       b \<notin> set bs \<and> b < 6 \<and> initialBlockPool q' = initialBlockPool q" if "length bs < 6"
  proof (cases "initialBlockPoolIndex q < 6")
    case True
    then have "requisition_block q =
        (Some (initialBlockPoolIndex q), q\<lparr>initialBlockPoolIndex := initialBlockPoolIndex q + 1\<rparr>)"
      using assms by (simp add: requisition_block_def try_get_block_from_initial_pool_def cq_pool_def)
    moreover have "cq_pool (q\<lparr>initialBlockPoolIndex := initialBlockPoolIndex q + 1\<rparr>) (bs @ [initialBlockPoolIndex q])"
      and "initialBlockPoolIndex q \<notin> set bs"
      using assms True by (auto simp: cq_pool_def)
    ultimately show ?thesis using True by auto
  next
    case False
    then have "initialBlockPoolIndex q = 6" using assms by (simp add: cq_pool_def)
    with that l obtain b fs where fl: "freeList q = b # fs" by (cases "freeList q") auto
    then have "requisition_block q = (Some b, q\<lparr>freeList := fs\<rparr>)"
      using assms False
      by (simp add: requisition_block_def try_get_block_from_initial_pool_def
          try_get_block_from_free_list_def cq_pool_def)
    moreover have "cq_pool (q\<lparr>freeList := fs\<rparr>) (bs @ [b])" and "b \<notin> set bs" and "b < 6"
      using assms fl by (auto simp: cq_pool_def)
    ultimately show ?thesis by auto
  qed
  show "requisition_block q = (None, q)" if "length bs = 6"
    using that l assms
    by (auto simp: requisition_block_def try_get_block_from_initial_pool_def
        try_get_block_from_free_list_def cq_pool_def split: list.splits)
qed

lemma cq_pool_update:
  assumes "cq_pool q bs" and "length (elements (f (initialBlockPool q ! b))) = 32"
  shows "cq_pool (block_update b f q) bs"
  using assms set_update_subset_insert [of "initialBlockPool q" b "f (initialBlockPool q ! b)"]
  by (auto simp: cq_pool_def block_update_def)

lemma cq_pool_free:
  "cq_pool q (b # bs) \<Longrightarrow> cq_pool (add_block_to_free_list b q) bs"
  by (auto simp: cq_pool_def add_block_to_free_list_def)

section \<open>The representation\<close>

text \<open>
  \<open>cq_data pool h xs bs\<close>: element \<open>j\<close> of the queue is at position \<open>h + j\<close> of the sequence
  of blocks, and only the first block has elements taken out of it.
\<close>

definition cq_data :: "'a Block list \<Rightarrow> nat \<Rightarrow> 'a list \<Rightarrow> nat list \<Rightarrow> bool" where
  "cq_data pool h xs bs \<longleftrightarrow>
     (\<forall>j<length xs. elements (pool ! (bs ! ((h + j) div 32 - h div 32))) ! ((h + j) mod 32) = Some (xs ! j)) \<and>
     (\<forall>j<length bs. elementsCompletelyDequeued (pool ! (bs ! j)) = word_of_nat (if j = 0 then h mod 32 else 0))"

definition cq_prod :: "ImplicitProducer \<Rightarrow> 'a ConcurrentQueue \<Rightarrow> nat \<Rightarrow> 'a list \<Rightarrow> nat list \<Rightarrow> bool" where
  "cq_prod p q h xs bs \<longleftrightarrow>
     (let t = h + length xs in
      tailIndex p = word_of_nat t \<and> headIndex p = word_of_nat h \<and>
      dequeueOptimisticCount p - dequeueOvercommit p = word_of_nat h \<and>
      h div 32 + length bs = (t + 31) div 32 \<and>
      (t mod 32 \<noteq> 0 \<longrightarrow> tailBlock p = Some (last bs)) \<and>
      cq_index (blockIndex p) (h div 32) bs \<and> cq_pool q bs \<and> cq_data (initialBlockPool q) h xs bs)"

definition cq_rep :: "'a ConcurrentQueue \<Rightarrow> 'a list \<Rightarrow> bool" where
  "cq_rep q xs \<longleftrightarrow> q = ConcurrentQueue_new \<and> xs = [] \<or>
     (\<exists>p h bs. producer q = Some p \<and> cq_prod p q h xs bs)"

lemma cq_rep_new [simp]: "cq_rep ConcurrentQueue_new []"
  by (simp add: cq_rep_def)

lemma new_blocks: "initialBlockPool (ConcurrentQueue_new :: 'a ConcurrentQueue) = replicate 6 Block_new"
  by (simp add: ConcurrentQueue_new_def populate_initial_block_list_def BLOCK_SIZE_def)

lemma cq_prod_new:
  "cq_prod ImplicitProducer_new
     ((ConcurrentQueue_new :: 'a ConcurrentQueue)\<lparr>producer := Some ImplicitProducer_new\<rparr>) 0 [] []"
proof -
  have "cq_pool (ConcurrentQueue_new\<lparr>producer := Some ImplicitProducer_new\<rparr> :: 'a ConcurrentQueue) []"
    by (auto simp: cq_pool_def new_blocks Block_new_def BLOCK_SIZE_def) (simp_all add: ConcurrentQueue_new_def Let_def)
  moreover have "cq_index new_block_index 0 []"
    by (simp add: cq_index_def new_block_index_def IMPLICIT_INITIAL_INDEX_SIZE_def and_31 take_bit_minus_one_eq_mask mask_eq_exp_minus_1)
  ultimately show ?thesis
    by (simp add: cq_prod_def ImplicitProducer_new_def cq_data_def)
qed

lemma get_or_add_implicit_producer_rep:
  assumes "cq_rep q xs"
  obtains p q1 h bs where "get_or_add_implicit_producer q = (p, q1)" and "producer q1 = Some p"
    and "cq_prod p q1 h xs bs"
proof (cases "producer q")
  case None
  with assms have "q = ConcurrentQueue_new" "xs = []" by (auto simp: cq_rep_def)
  then show ?thesis using that cq_prod_new None by (auto simp: get_or_add_implicit_producer_def)
next
  case (Some p)
  then have "q \<noteq> ConcurrentQueue_new" by (auto simp: ConcurrentQueue_new_def Let_def)
  with assms Some show ?thesis using that by (auto simp: cq_rep_def get_or_add_implicit_producer_def)
qed

lemma cq_prod_bound:
  assumes "cq_prod p q h xs bs"
  shows "length bs \<le> 6" and "length xs \<le> 192"
proof -
  show l: "length bs \<le> 6" using assms cq_pool_length(2) by (auto simp: cq_prod_def Let_def)
  have "h div 32 + length bs = (h + length xs + 31) div 32"
    using assms by (simp add: cq_prod_def Let_def)
  with l show "length xs \<le> 192" by linarith
qed


subsection \<open>Enqueueing\<close>

lemma block_update_simps [simp]:
  "producer (block_update b f q) = producer q"
  "initialBlockPool (block_update b f q) = (initialBlockPool q)[b := f (initialBlockPool q ! b)]"
  "initialBlockPool (add_block_to_free_list b q) = initialBlockPool q"
  "producer (add_block_to_free_list b q) = producer q"
  by (simp_all add: block_update_def add_block_to_free_list_def)

lemma cq_pool_producer [simp]: "cq_pool (q\<lparr>producer := p\<rparr>) bs = cq_pool q bs"
  by (simp add: cq_pool_def)

lemma add_block_to_free_list_producer [simp]:
  "add_block_to_free_list b (q\<lparr>producer := p\<rparr>) = (add_block_to_free_list b q)\<lparr>producer := p\<rparr>"
  by (simp add: add_block_to_free_list_def)

lemma block_store_simps [simp]:
  "elements (block_store i x b) = (elements b)[block_slot i := x]"
  "elementsCompletelyDequeued (block_store i x b) = elementsCompletelyDequeued b"
  "elements (Block_reset_empty b) = elements b"
  "elementsCompletelyDequeued (Block_reset_empty b) = 0"
  by (simp_all add: block_store_def Block_reset_empty_def)

lemma ceil_32: "(t + 31) div 32 = t div 32 + (if t mod 32 = 0 then 0 else 1)" for t :: nat
proof -
  have "t mod 32 < 32" by simp
  then have "(t mod 32 + 31) div 32 = (if t mod 32 = 0 then 0 else 1)" by (cases "t mod 32") simp_all
  then show ?thesis by (subst div_add1_eq) simp
qed

lemma ceil_32_Suc: "(Suc t + 31) div 32 = Suc (t div 32)"
  by simp

lemma enqueue_same_block:
  assumes "cq_prod p q h xs bs" and "(h + length xs) mod 32 \<noteq> 0"
  shows "\<exists>q' p'. ImplicitProducer_enqueue x p q = Inr (True, q') \<and> producer q' = Some p' \<and>
     cq_prod p' q' h (xs @ [x]) bs"
proof -
  let ?t = "h + length xs"
  let ?b = "last bs"
  let ?q = "block_update ?b (block_store (word_of_nat ?t) (Some x)) q"
  have tl: "tailIndex p = word_of_nat ?t" and tb: "tailBlock p = Some ?b"
    and lb: "h div 32 + length bs = (?t + 31) div 32"
    and pool: "cq_pool q bs" and data: "cq_data (initialBlockPool q) h xs bs"
    and bi: "cq_index (blockIndex p) (h div 32) bs"
    using assms by (auto simp: cq_prod_def Let_def)
  have ceil: "(?t + 31) div 32 = Suc (?t div 32)" and ceil': "(Suc ?t + 31) div 32 = Suc (?t div 32)"
    using assms(2) by (simp_all add: ceil_32)
  have "h div 32 \<le> ?t div 32" by (simp add: div_le_mono)
  with lb ceil have bs: "bs \<noteq> []" and lst: "?t div 32 - h div 32 = length bs - 1"
    by (auto, linarith)
  have b6: "?b < 6" and lenb: "length (elements (initialBlockPool q ! ?b)) = 32"
    and len6: "length (initialBlockPool q) = 6" and dist: "distinct bs" and bs6: "\<forall>b\<in>set bs. b < 6"
    using pool bs cq_pool_length(3) [OF pool] by (auto simp: cq_pool_def)
  have nt: "tailIndex p AND (BLOCK_SIZE - 1) \<noteq> 0"
    using assms(2) of_nat_and_31_zero [of ?t] unfolding tl by (simp add: BLOCK_SIZE_def)
  have "ImplicitProducer_enqueue x p q = Inr (True, ?q\<lparr>producer := Some (p\<lparr>tailIndex := 1 + tailIndex p\<rparr>)\<rparr>)"
    using nt tb by (simp add: ImplicitProducer_enqueue_def Let_def tl)
  moreover have "cq_data (initialBlockPool ?q) h (xs @ [x]) bs"
  proof -
    have "elements (initialBlockPool ?q ! (bs ! ((h + j) div 32 - h div 32))) ! ((h + j) mod 32) =
        Some ((xs @ [x]) ! j)" if "j \<le> length xs" for j
    proof (cases "j = length xs")
      case True
      then have "bs ! ((h + j) div 32 - h div 32) = ?b" using lst bs by (simp add: last_conv_nth)
      then show ?thesis using True b6 len6 lenb by (simp add: block_slot_of_nat del: of_nat_add)
    next
      case False
      then have j: "j < length xs" using that by simp
      let ?c = "bs ! ((h + j) div 32 - h div 32)"
      have "?c = ?b \<Longrightarrow> (h + j) mod 32 \<noteq> ?t mod 32"
      proof
        assume "?c = ?b" and m: "(h + j) mod 32 = ?t mod 32"
        have "(h + j) div 32 \<le> ?t div 32" using j by (simp add: div_le_mono)
        then have "(h + j) div 32 - h div 32 < length bs" using lst bs
          by (metis Suc_pred' diff_le_mono length_greater_0_conv le_imp_less_Suc)
        with \<open>?c = ?b\<close> dist bs have "(h + j) div 32 - h div 32 = length bs - 1"
          by (simp add: last_conv_nth nth_eq_iff_index_eq)
        moreover have "h div 32 \<le> (h + j) div 32" by (simp add: div_le_mono)
        ultimately have "(h + j) div 32 = ?t div 32" using lst \<open>h div 32 \<le> ?t div 32\<close> by linarith
        with m have "h + j = ?t" by (metis mult_div_mod_eq)
        with j show False by simp
      qed
      then show ?thesis using data j len6 b6
        by (auto simp: cq_data_def block_slot_of_nat nth_append nth_list_update simp del: of_nat_add)
    qed
    moreover have "elementsCompletelyDequeued (initialBlockPool ?q ! c) =
        elementsCompletelyDequeued (initialBlockPool q ! c)" if "c < 6" for c
      using that len6 by (cases "c = ?b") simp_all
    ultimately show ?thesis using data bs6 by (simp add: cq_data_def less_Suc_eq_le)
  qed
  moreover have "cq_pool ?q bs" using pool lenb by (simp add: cq_pool_update)
  ultimately show ?thesis
    using assms(1) ceil ceil' tb
    by (simp add: cq_prod_def Let_def add.commute)
qed

lemma enqueue_new_block:
  assumes "cq_prod p q h xs bs" and t0: "(h + length xs) mod 32 = 0" and l6: "length bs < 6"
  shows "\<exists>q' p'. ImplicitProducer_enqueue x p q = Inr (True, q') \<and> producer q' = Some p' \<and>
     (\<exists>b. cq_prod p' q' h (xs @ [x]) (bs @ [b]))"
proof -
  let ?t = "h + length xs"
  have tl: "tailIndex p = word_of_nat ?t" and hd: "headIndex p = word_of_nat h"
    and lb: "h div 32 + length bs = ?t div 32"
    and pool: "cq_pool q bs" and data: "cq_data (initialBlockPool q) h xs bs"
    and bi: "cq_index (blockIndex p) (h div 32) bs"
    using assms by (auto simp: cq_prod_def Let_def ceil_32)
  have t32: "32 * (?t div 32) = ?t" using mult_div_mod_eq [of 32 ?t] by (simp only: t0 add_0_right)
  have l192: "length xs \<le> 192" by (rule cq_prod_bound [OF assms(1)])
  have l31: "length bs < 31" using l6 by simp
  obtain i bi' where ins: "insert_block_index_entry (word_of_nat ?t) (blockIndex p) = Some (i, bi')"
    and idx: "\<And>b. cq_index (entry_store i (Some b) bi') (h div 32) (bs @ [b])"
    and idx': "cq_index (entry_store i None (rewind_block_index_tail bi')) (h div 32) bs"
    using cq_index_insert [OF bi l31] unfolding lb t32 by blast
  obtain b q1 where rq: "requisition_block q = (Some b, q1)" and pool1: "cq_pool q1 (bs @ [b])"
    and nb: "b \<notin> set bs" "b < 6" and same: "initialBlockPool q1 = initialBlockPool q"
    using requisition_block_cases(1) [OF pool l6] by blast
  let ?q2 = "block_update b (block_store (word_of_nat ?t) (Some x)) (block_update b Block_reset_empty q1)"
  let ?p = "p\<lparr>blockIndex := entry_store i (Some b) bi', tailBlock := Some b, tailIndex := 1 + tailIndex p\<rparr>"
  have nt: "tailIndex p AND (BLOCK_SIZE - 1) = 0"
    using t0 of_nat_and_31_zero [of ?t] unfolding tl by (simp add: BLOCK_SIZE_def)
  have "circular_less_than (word_of_nat h) (word_of_nat (h + (length xs + 32)))"
    using l192 by (subst circular_less_than_of_nat) simp_all
  then have "circular_less_than (headIndex p) (tailIndex p + BLOCK_SIZE)"
    by (simp add: hd tl BLOCK_SIZE_def add.assoc)
  then have enq: "ImplicitProducer_enqueue x p q = Inr (True, ?q2\<lparr>producer := Some ?p\<rparr>)"
    using nt ins rq by (simp add: ImplicitProducer_enqueue_def Let_def tl)
  have len6: "length (initialBlockPool q) = 6" and lenb: "length (elements (initialBlockPool q ! b)) = 32"
    using pool nb(2) by (auto simp: cq_pool_def)
  have bs6: "\<forall>b\<in>set bs. b < 6" by (rule cq_pool_length(3) [OF pool])
  have "cq_pool ?q2 (bs @ [b])"
    using pool1 lenb len6 nb by (intro cq_pool_update) (simp_all add: same)
  moreover have "cq_data (initialBlockPool ?q2) h (xs @ [x]) (bs @ [b])"
  proof -
    have blk: "(h + j) div 32 - h div 32 < length bs" if "j < length xs" for j
    proof -
      have "h + j < 32 * (?t div 32)" using that t32 by linarith
      then have "(h + j) div 32 < ?t div 32" by (simp add: div_less_iff_less_mult mult.commute)
      then show ?thesis using lb by linarith
    qed
    have "elements (initialBlockPool ?q2 ! ((bs @ [b]) ! ((h + j) div 32 - h div 32))) ! ((h + j) mod 32) =
        Some ((xs @ [x]) ! j)" if "j \<le> length xs" for j
    proof (cases "j = length xs")
      case True
      moreover have "?t div 32 - h div 32 = length bs" using lb by linarith
      ultimately show ?thesis using nb(2) len6 lenb
        by (simp add: block_slot_of_nat same del: of_nat_add)
    next
      case False
      then have j: "j < length xs" using that by simp
      then have "bs ! ((h + j) div 32 - h div 32) \<noteq> b" using nb(1) blk by (metis nth_mem)
      then show ?thesis using data j blk [OF j]
        by (simp add: cq_data_def nth_append same)
    qed
    moreover have "elementsCompletelyDequeued (initialBlockPool ?q2 ! ((bs @ [b]) ! j)) =
        word_of_nat (if j = 0 then h mod 32 else 0)" if "j < Suc (length bs)" for j
    proof (cases "j = length bs")
      case True
      have "h mod 32 = 0" if "bs = []"
      proof -
        have "h div 32 = ?t div 32" using lb that by simp
        with t32 have "?t \<le> h" by (metis mult_div_mod_eq le_add1)
        then have "h = ?t" by simp
        with t0 show ?thesis by metis
      qed
      with True nb(2) len6 show ?thesis by (auto simp: same)
    next
      case False
      then have "j < length bs" using that by simp
      moreover from this have "bs ! j \<noteq> b" using nb(1) by (metis nth_mem)
      ultimately show ?thesis using data by (simp add: cq_data_def nth_append same)
    qed
    ultimately show ?thesis by (simp add: cq_data_def less_Suc_eq_le)
  qed
  moreover have "h div 32 + length (bs @ [b]) = (h + length (xs @ [x]) + 31) div 32"
    using lb ceil_32_Suc [of ?t] by simp
  ultimately have "cq_prod ?p (?q2\<lparr>producer := Some ?p\<rparr>) h (xs @ [x]) (bs @ [b])"
    using assms(1) idx [of b]
    by (simp add: cq_prod_def Let_def add.commute)
  with enq show ?thesis by auto
qed

lemma enqueue_no_block:
  assumes "cq_prod p q h xs bs" and t0: "(h + length xs) mod 32 = 0" and l6: "length bs = 6"
    and pq: "producer q = Some p"
  shows "\<exists>q' p'. ImplicitProducer_enqueue x p q = Inr (False, q') \<and> producer q' = Some p' \<and>
     cq_prod p' q' h xs bs"
proof (cases "circular_less_than (headIndex p) (tailIndex p + BLOCK_SIZE)")
  case False
  then show ?thesis using assms of_nat_and_31_zero [of "h + length xs"]
    by (simp add: ImplicitProducer_enqueue_def Let_def cq_prod_def BLOCK_SIZE_def)
next
  case True
  let ?t = "h + length xs"
  have tl: "tailIndex p = word_of_nat ?t" and lb: "h div 32 + length bs = ?t div 32"
    and pool: "cq_pool q bs" and bi: "cq_index (blockIndex p) (h div 32) bs"
    using assms by (auto simp: cq_prod_def Let_def ceil_32)
  have t32: "32 * (?t div 32) = ?t" using mult_div_mod_eq [of 32 ?t] by (simp only: t0 add_0_right)
  have l31: "length bs < 31" using l6 by simp
  obtain i bi' where ins: "insert_block_index_entry (word_of_nat ?t) (blockIndex p) = Some (i, bi')"
    and idx': "\<And>b. cq_index (entry_store i (Some b) bi') (h div 32) (bs @ [b])"
    and idx: "cq_index (entry_store i None (rewind_block_index_tail bi')) (h div 32) bs"
    using cq_index_insert [OF bi l31] unfolding lb t32 by blast
  have nt: "tailIndex p AND (BLOCK_SIZE - 1) = 0"
    using t0 of_nat_and_31_zero [of ?t] unfolding tl by (simp add: BLOCK_SIZE_def)
  show ?thesis
    using True nt ins idx assms(1) requisition_block_cases(2) [OF pool l6]
    by (simp add: ImplicitProducer_enqueue_def Let_def tl cq_prod_def)
qed

subsection \<open>Dequeueing\<close>

lemma dequeue_empty:
  assumes "cq_prod p q h [] bs" and "producer q = Some p"
  shows "\<not> 0 < size_approx p" and "ImplicitProducer_dequeue p q = Inr (None, q)"
  using assms circular_less_than_of_nat [of 0 h]
  by (simp_all add: cq_prod_def Let_def size_approx_def ImplicitProducer_dequeue_def)

lemma cq_data_head:
  "cq_data pool h (x # xs) (b # bs) \<Longrightarrow>
     elements (pool ! b) ! (h mod 32) = Some x \<and> elementsCompletelyDequeued (pool ! b) = word_of_nat (h mod 32)"
  unfolding cq_data_def by (auto dest: spec [of _ 0])

lemma div_32_Suc: "Suc h div 32 = (if h mod 32 = 31 then Suc (h div 32) else h div 32)" for h :: nat
  by (simp add: div_Suc mod_Suc)

text \<open>Taking the head out of its block leaves the data of the rest in place.\<close>

lemma cq_data_tail:
  assumes data: "cq_data pool h (x # xs) (b # bs)" and "length pool = 6" "\<forall>c\<in>set (b # bs). c < 6"
    and dist: "distinct (b # bs)"
    and lb: "h div 32 + length (b # bs) = (h + length (x # xs) + 31) div 32"
    and pool': "pool' = pool[b := blk]"
    and blk: "elements blk = (elements (pool ! b))[h mod 32 := None]"
      "elementsCompletelyDequeued blk = elementsCompletelyDequeued (pool ! b) + 1"
  shows "cq_data pool' (Suc h) xs (if h mod 32 = 31 then bs else b # bs)"
proof -
  have count: "elementsCompletelyDequeued (pool ! b) = word_of_nat (h mod 32)"
    and rest: "\<And>j. j < length bs \<Longrightarrow> elementsCompletelyDequeued (pool ! (bs ! j)) = 0"
    using data by (auto simp: cq_data_def dest: spec [of _ 0] spec [of _ "Suc _"])
  have el: "elements (pool ! ((b # bs) ! ((h + Suc j) div 32 - h div 32))) ! ((h + Suc j) mod 32) = Some (xs ! j)"
    if "j < length xs" for j
    using data that unfolding cq_data_def by (metis Suc_less_eq length_Cons nth_Cons_Suc)
  have nb: "bs ! j \<noteq> b" if "j < length bs" for j using dist that by (auto dest: nth_mem)
  have blk_lt: "(h + Suc j) div 32 - h div 32 < length (b # bs)" if "j < length xs" for j
  proof -
    have "(h + Suc j) div 32 < (h + length (x # xs) + 31) div 32"
    proof -
      have "h + Suc j + 32 \<le> h + length (x # xs) + 31" using that by simp
      then have "(h + Suc j + 32) div 32 \<le> (h + length (x # xs) + 31) div 32" by (rule div_le_mono)
      then show ?thesis by simp
    qed
    then show ?thesis using lb by linarith
  qed
  have el': "elements (pool' ! ((b # bs) ! ((h + Suc j) div 32 - h div 32))) ! ((h + Suc j) mod 32) = Some (xs ! j)"
    if "j < length xs" for j
  proof (cases "(h + Suc j) div 32 - h div 32")
    case 0
    moreover have "h div 32 \<le> (h + Suc j) div 32" by (simp add: div_le_mono)
    ultimately have d: "(h + Suc j) div 32 = h div 32" by linarith
    have "(h + Suc j) mod 32 \<noteq> h mod 32"
    proof
      assume "(h + Suc j) mod 32 = h mod 32"
      with d have "h + Suc j = h" by (metis mult_div_mod_eq)
      then show False by simp
    qed
    then show ?thesis using 0 el [OF that] assms(2,3) blk by (simp add: pool')
  next
    case (Suc i)
    then have "bs ! i \<noteq> b" using nb blk_lt [OF that] by simp
    then show ?thesis using Suc el [OF that] by (simp add: pool')
  qed
  show ?thesis
  proof (cases "h mod 32 = 31")
    case True
    have el2: "elements (pool' ! (bs ! ((Suc h + j) div 32 - Suc h div 32))) ! ((Suc h + j) mod 32) = Some (xs ! j)"
      if "j < length xs" for j
    proof -
      have "Suc h div 32 \<le> (Suc h + j) div 32" by (simp add: div_le_mono)
      moreover have "Suc h div 32 = Suc (h div 32)" using True by (simp add: div_32_Suc)
      moreover have "h + Suc j = Suc h + j" by simp
      ultimately have "(h + Suc j) div 32 - h div 32 = Suc ((Suc h + j) div 32 - Suc h div 32)"
        by linarith
      then show ?thesis using el' [OF that] by simp
    qed
    have m0: "Suc h mod 32 = 0" using True by (simp add: mod_Suc)
    have co2: "elementsCompletelyDequeued (pool' ! (bs ! j)) = word_of_nat (if j = 0 then Suc h mod 32 else 0)"
      if "j < length bs" for j
      unfolding m0 using rest [OF that] nb [OF that] by (simp add: pool')
    have "cq_data pool' (Suc h) xs bs"
      unfolding cq_data_def by (intro conjI allI impI) (erule el2, erule co2)
    then show ?thesis using True by simp
  next
    case False
    then have "Suc h div 32 = h div 32" "Suc h mod 32 = Suc (h mod 32)"
      by (simp_all add: div_32_Suc mod_Suc)
    moreover have "elementsCompletelyDequeued (pool' ! ((b # bs) ! j)) =
        word_of_nat (if j = 0 then Suc (h mod 32) else 0)" if "j < length (b # bs)" for j
      using that rest nb [symmetric] assms(2,3) count blk by (cases j) (simp_all add: pool')
    ultimately show ?thesis using False el' by (simp add: cq_data_def)
  qed
qed

lemma dequeue_Cons:
  assumes "cq_prod p q h (x # xs) bs"
  shows "0 < size_approx p"
    and "\<exists>q' p' bs'. ImplicitProducer_dequeue p q = Inr (Some x, q') \<and> producer q' = Some p' \<and>
      cq_prod p' q' (Suc h) xs bs'"
proof -
  let ?t = "h + length (x # xs)"
  have tl: "tailIndex p = word_of_nat ?t" and hd: "headIndex p = word_of_nat h"
    and oc: "dequeueOptimisticCount p - dequeueOvercommit p = word_of_nat h"
    and lb: "h div 32 + length bs = (?t + 31) div 32"
    and tb: "?t mod 32 \<noteq> 0 \<longrightarrow> tailBlock p = Some (last bs)"
    and pool: "cq_pool q bs" and data: "cq_data (initialBlockPool q) h (x # xs) bs"
    and bi: "cq_index (blockIndex p) (h div 32) bs"
    using assms by (simp_all add: cq_prod_def Let_def)
  have l192: "length (x # xs) \<le> 192" by (rule cq_prod_bound [OF assms])
  have lt: "circular_less_than (word_of_nat h) (word_of_nat ?t)"
    using l192 by (subst circular_less_than_of_nat) simp_all
  have "(word_of_nat ?t :: u64) - word_of_nat h = word_of_nat (length (x # xs))" by simp
  moreover have "unat (word_of_nat (length (x # xs)) :: u64) = length (x # xs)"
    using l192 take_bit_nat_eq_self [of "length (x # xs)" 64] by (simp only: unsigned_of_nat) simp
  ultimately show "0 < size_approx p"
    using lt by (simp add: size_approx_def tl hd word_neq_0_conv [symmetric] unat_eq_zero [symmetric] del: of_nat_Suc)
  have "h div 32 < (?t + 31) div 32"
  proof -
    have "(h + 32) div 32 \<le> (?t + 31) div 32" by (rule div_le_mono) simp
    then show ?thesis by simp
  qed
  with lb obtain b bs0 where bs: "bs = b # bs0" by (cases bs) auto
  note look = cq_index_lookup [OF bi [unfolded bs]]
  note dh = cq_data_head [OF data [unfolded bs]]
  have b6: "b < 6" and len6: "length (initialBlockPool q) = 6" and bs6: "\<forall>c\<in>set (b # bs0). c < 6"
    and dist: "distinct (b # bs0)" and lenb: "length (elements (initialBlockPool q ! b)) = 32"
    using pool cq_pool_length(3) [OF pool] by (auto simp: bs cq_pool_def)
  let ?q1 = "block_update b (block_store (word_of_nat h) None) q"
  let ?blk = "initialBlockPool ?q1 ! b"
  let ?blk' = "?blk\<lparr>elementsCompletelyDequeued := elementsCompletelyDequeued ?blk + 1\<rparr>"
  let ?q2 = "block_update b (\<lambda>_. ?blk') ?q1"
  let ?p2 = "p\<lparr>dequeueOptimisticCount := dequeueOptimisticCount p + 1, headIndex := word_of_nat h + 1\<rparr>"
  have emp: "elementsCompletelyDequeued ?blk = BLOCK_SIZE - 1 \<longleftrightarrow> h mod 32 = 31"
  proof -
    have "(word_of_nat (h mod 32) :: u64) = 31 \<longleftrightarrow> unat (word_of_nat (h mod 32) :: u64) = unat (31 :: u64)"
      by (simp only: word_unat_eq_iff)
    then show ?thesis using dh b6 len6 by (simp add: BLOCK_SIZE_def)
  qed
  have deq: "ImplicitProducer_dequeue p q =
      (if h mod 32 = 31
       then Inr (Some x, add_block_to_free_list b (?q2\<lparr>producer :=
              Some (?p2\<lparr>blockIndex := entry_store ((h div 32) mod 32) None (blockIndex p)\<rparr>)\<rparr>))
       else Inr (Some x, ?q2\<lparr>producer := Some ?p2\<rparr>))"
    using lt dh look
    by (simp add: ImplicitProducer_dequeue_def Let_def tl hd oc Block_set_empty_def emp block_slot_of_nat
        del: of_nat_add block_update_simps)
  have pool2: "cq_pool ?q2 bs"
    using pool lenb b6 len6 by (intro cq_pool_update) (simp_all add: cq_pool_update)
  have "initialBlockPool ?q2 = (initialBlockPool q)[b := ?blk']" by simp
  then have data2: "cq_data (initialBlockPool ?q2) (Suc h) xs (if h mod 32 = 31 then bs0 else b # bs0)"
    by (rule cq_data_tail [OF data [unfolded bs] len6 bs6 dist lb [unfolded bs]])
       (use b6 len6 in \<open>simp_all add: block_slot_of_nat\<close>)
  have oc2: "dequeueOptimisticCount p + 1 - dequeueOvercommit p = word_of_nat h + 1"
    using oc by (metis add.commute add_diff_eq)
  show "\<exists>q' p' bs'. ImplicitProducer_dequeue p q = Inr (Some x, q') \<and> producer q' = Some p' \<and>
      cq_prod p' q' (Suc h) xs bs'"
  proof (cases "h mod 32 = 31")
    case True
    then have sh: "Suc h div 32 = Suc (h div 32)" by (simp add: div_32_Suc)
    have "cq_pool (add_block_to_free_list b ?q2) bs0" using pool2 bs cq_pool_free by simp
    moreover have "last bs = last bs0" if "(Suc h + length xs) mod 32 \<noteq> 0"
    proof -
      have "xs \<noteq> []" using that True by (auto simp: mod_Suc)
      then have "Suc (h div 32) < (?t + 31) div 32"
      proof -
        have "Suc h + 32 \<le> ?t + 31" using \<open>xs \<noteq> []\<close> by (cases xs) auto
        then have "(Suc h + 32) div 32 \<le> (?t + 31) div 32" by (rule div_le_mono)
        then show ?thesis using sh by simp
      qed
      then have "bs0 \<noteq> []" using lb bs by auto
      then show ?thesis by (simp add: bs)
    qed
    ultimately show ?thesis
      using deq True data2 cq_index_drop [OF bi [unfolded bs]] lb bs tb oc2
      by (auto simp: cq_prod_def Let_def sh tl)
  next
    case False
    then have sh: "Suc h div 32 = h div 32" by (simp add: div_32_Suc)
    then show ?thesis
      using deq False data2 bi lb bs tb oc2 pool2
      by (auto simp: cq_prod_def Let_def tl intro!: exI [of _ bs])
  qed
qed

lemma cq_repI: "producer q = Some p \<Longrightarrow> cq_prod p q h xs bs \<Longrightarrow> cq_rep q xs"
  by (auto simp: cq_rep_def)

section \<open>The queue is a bounded first-in first-out list\<close>

interpretation cq: fifo try_enqueue try_dequeue cq_rep 160 192
proof
  fix q :: "'a ConcurrentQueue" and xs :: "'a list" and x
  assume "cq_rep q xs"
  then obtain p q1 h bs where g: "get_or_add_implicit_producer q = (p, q1)" "producer q1 = Some p"
      "cq_prod p q1 h xs bs"
    by (rule get_or_add_implicit_producer_rep)
  consider "(h + length xs) mod 32 \<noteq> 0" | "(h + length xs) mod 32 = 0" "length bs < 6"
    | "(h + length xs) mod 32 = 0" "length bs = 6"
    using cq_prod_bound(1) [OF g(3)] by linarith
  note cs = this
  have ceil: "h div 32 + length bs = (h + length xs + 31) div 32"
    using g(3) by (simp add: cq_prod_def Let_def)
  show "\<exists>b q'. try_enqueue x q = Inr (b, q') \<and> cq_rep q' (if b then xs @ [x] else xs)"
    using cs
  proof cases
    case 1
    from enqueue_same_block [OF g(3) this, of x] show ?thesis
      by (auto simp: try_enqueue_def g(1) intro: cq_repI)
  next
    case 2
    from enqueue_new_block [OF g(3) this, of x] show ?thesis
      by (auto simp: try_enqueue_def g(1) intro: cq_repI)
  next
    case 3
    from enqueue_no_block [OF g(3) this g(2), of x] show ?thesis
      by (auto simp: try_enqueue_def g(1) intro: cq_repI)
  qed
  show b if "length xs \<le> 160" and e: "try_enqueue x q = Inr (b, q')" for b q'
    using cs
  proof cases
    case 1
    from enqueue_same_block [OF g(3) this, of x] e show ?thesis
      by (auto simp: try_enqueue_def g(1))
  next
    case 2
    from enqueue_new_block [OF g(3) this, of x] e show ?thesis
      by (auto simp: try_enqueue_def g(1))
  next
    case 3
    then have "h div 32 + 6 = (h + length xs) div 32" using ceil by (simp add: ceil_32)
    also have "\<dots> \<le> (h + 160) div 32" using that(1) by (intro div_le_mono) simp
    finally show ?thesis by simp
  qed
  show "\<not> b" if "192 \<le> length xs" and e: "try_enqueue x q = Inr (b, q')" for b q'
  proof -
    have len: "length xs = 192" using that(1) cq_prod_bound(2) [OF g(3)] by simp
    then have "h div 32 + length bs = (h + 31) div 32 + 6" using ceil by simp
    then have "(h + 31) div 32 \<le> h div 32" and "length bs = 6"
      using cq_prod_bound(1) [OF g(3)] div_le_mono [of h "h + 31" 32] by linarith+
    then have "(h + length xs) mod 32 = 0" using len by (auto simp: ceil_32 split: if_splits)
    from enqueue_no_block [OF g(3) this \<open>length bs = 6\<close> g(2), of x] e show ?thesis
      by (auto simp: try_enqueue_def g(1))
  qed
next
  fix q :: "'a ConcurrentQueue"
  assume r: "cq_rep q []"
  show "\<exists>q'. try_dequeue q = Inr (None, q') \<and> cq_rep q' []"
  proof (cases "producer q")
    case (Some p)
    then obtain h bs where "cq_prod p q h [] bs"
      using r by (auto simp: cq_rep_def ConcurrentQueue_new_def Let_def)
    from dequeue_empty [OF this Some] Some r show ?thesis by (simp add: try_dequeue_def)
  qed (use r in \<open>simp add: try_dequeue_def\<close>)
next
  fix q :: "'a ConcurrentQueue" and x xs
  assume "cq_rep q (x # xs)"
  then obtain p h bs where p: "producer q = Some p" "cq_prod p q h (x # xs) bs"
    by (auto simp: cq_rep_def)
  from dequeue_Cons [OF p(2)] p(1) show "\<exists>q'. try_dequeue q = Inr (Some x, q') \<and> cq_rep q' xs"
    by (force simp: try_dequeue_def cq_rep_def)
qed

end
