(* ===== verification/StdMap.thy ===== *)
theory StdMap
  imports Prelude "HOL-Library.List_Lexorder" "HOL-Library.Char_ord"
begin

text \<open>
  \<open>std::map\<close>: an association list in the order of its keys, which is the order in which
  the program iterates over it.  \<open>std_put\<close> is \<open>m[k] = v\<close> and \<open>map_of\<close> the lookup.
  The interface \<open>dictionary\<close> says what the components rely on.
\<close>

type_synonym ('k, 'v) std_map = "('k \<times> 'v) list"

fun std_put :: "'k::linorder \<Rightarrow> 'v \<Rightarrow> ('k, 'v) std_map \<Rightarrow> ('k, 'v) std_map" where
  "std_put k v [] = [(k, v)]"
| "std_put k v ((k', v') # m) =
     (if k < k' then (k, v) # (k', v') # m
      else if k = k' then (k, v) # m
      else (k', v') # std_put k v m)"

text \<open>\<open>m.insert({k, v})\<close> keeps the value a key already has; \<open>m.erase(k)\<close>.\<close>

definition std_insert :: "'k::linorder \<Rightarrow> 'v \<Rightarrow> ('k, 'v) std_map \<Rightarrow> ('k, 'v) std_map" where
  "std_insert k v m = (case map_of m k of None \<Rightarrow> std_put k v m | Some _ \<Rightarrow> m)"

definition std_erase :: "'k::linorder \<Rightarrow> ('k, 'v) std_map \<Rightarrow> ('k, 'v) std_map" where
  "std_erase k m = List.filter (\<lambda>(k', v). k' \<noteq> k) m"

definition std_ok :: "('k::linorder, 'v) std_map \<Rightarrow> bool" where
  "std_ok m \<longleftrightarrow> sorted_wrt (<) (map fst m)"

locale dictionary =
  fixes get :: "'m \<Rightarrow> 'k \<Rightarrow> 'v option"
    and put :: "'k \<Rightarrow> 'v \<Rightarrow> 'm \<Rightarrow> 'm"
    and items :: "'m \<Rightarrow> ('k \<times> 'v) list"
    and ok :: "'m \<Rightarrow> bool"
  assumes get_put: "get (put k v m) = (get m)(k \<mapsto> v)"
    and ok_put: "ok m \<Longrightarrow> ok (put k v m)"
    and items_get: "ok m \<Longrightarrow> (k, v) \<in> set (items m) \<longleftrightarrow> get m k = Some v"
begin

definition put_all :: "('k \<times> 'v) list \<Rightarrow> 'm \<Rightarrow> 'm" where
  "put_all kvs m = foldl (\<lambda>m (k, v). put k v m) m kvs"

lemma put_all_simps [simp]:
  "put_all [] m = m"
  "put_all ((k, v) # kvs) m = put_all kvs (put k v m)"
  by (simp_all add: put_all_def)

lemma get_put_all: "get (put_all kvs m) = get m ++ map_of (rev kvs)"
  by (induction kvs arbitrary: m) (auto simp: get_put)

lemma ok_put_all: "ok m \<Longrightarrow> ok (put_all kvs m)"
  by (induction kvs arbitrary: m) (auto simp: ok_put)

lemma items_put: "ok m \<Longrightarrow>
    (k', v') \<in> set (items (put k v m)) \<longleftrightarrow> (if k' = k then v' = v else (k', v') \<in> set (items m))"
  by (auto simp: items_get ok_put get_put)

end

lemma map_of_std_put: "map_of (std_put k v m) = (map_of m)(k \<mapsto> v)"
  by (induction k v m rule: std_put.induct) (auto simp: fun_eq_iff)

lemma keys_std_put: "fst ` set (std_put k v m) = insert k (fst ` set m)"
  by (induction k v m rule: std_put.induct) auto

lemma std_ok_put: "std_ok m \<Longrightarrow> std_ok (std_put k v m)"
proof (induction k v m rule: std_put.induct)
  case (2 k v k' v' m)
  have "\<forall>x\<in>set (map fst (std_put k v m)). k' < x" if "k' < k" "\<forall>x\<in>fst ` set m. k' < x"
    using that by (simp add: keys_std_put)
  with 2 show ?case by (auto simp: std_ok_def)
qed (simp add: std_ok_def)

lemma std_ok_distinct: "std_ok m \<Longrightarrow> distinct (map fst m)"
  by (simp add: std_ok_def strict_sorted_iff)

lemma std_ok_Nil [simp]: "std_ok []"
  by (simp add: std_ok_def)

interpretation std_dict: dictionary map_of std_put "\<lambda>m. m" std_ok
  by unfold_locales (simp_all add: map_of_std_put std_ok_put std_ok_distinct map_of_eq_Some_iff)

lemma map_of_std_insert:
  "map_of (std_insert k v m) = (case map_of m k of None \<Rightarrow> (map_of m)(k \<mapsto> v) | Some _ \<Rightarrow> map_of m)"
  by (simp add: std_insert_def map_of_std_put split: option.splits)

lemma std_ok_insert: "std_ok m \<Longrightarrow> std_ok (std_insert k v m)"
  by (simp add: std_insert_def std_ok_put split: option.splits)

lemma map_of_std_erase: "map_of (std_erase k m) = (map_of m)(k := None)"
  by (induction m) (auto simp: std_erase_def fun_eq_iff)

lemma std_ok_erase: "std_ok m \<Longrightarrow> std_ok (std_erase k m)"
  by (induction m) (auto simp: std_erase_def std_ok_def)

section \<open>Filling a map\<close>

definition std_insert_all :: "('k::linorder \<times> 'v) list \<Rightarrow> ('k, 'v) std_map \<Rightarrow> ('k, 'v) std_map" where
  "std_insert_all kvs m = fold (\<lambda>(k, v). std_insert k v) kvs m"

lemma std_insert_all_simps [simp]:
  "std_insert_all [] m = m"
  "std_insert_all ((k, v) # kvs) m = std_insert_all kvs (std_insert k v m)"
  by (simp_all add: std_insert_all_def)

lemma map_of_std_insert_all: "map_of (std_insert_all kvs m) = map_of kvs ++ map_of m"
proof (induction kvs arbitrary: m)
  case (Cons kv kvs)
  obtain k v where kv: "kv = (k, v)" by (cases kv)
  show ?case
    unfolding kv std_insert_all_simps Cons.IH
    by (auto simp: map_of_std_insert map_add_def fun_eq_iff split: option.splits)
qed simp

lemma std_ok_insert_all: "std_ok m \<Longrightarrow> std_ok (std_insert_all kvs m)"
  by (induction kvs arbitrary: m) (auto simp: std_ok_insert)

end
