(* ===== verification/LatencyStats.thy ===== *)
theory LatencyStats
  imports QueueFacts StdMap "HOL-Library.Sublist"
begin

text \<open>
  \<open>statistics/OFLatencyStats\<close>: the messages that await a reply and the latencies measured.
  An accumulator of Boost is the list of the samples the code gave it.  The operations of the
  waiting list are arguments of the definitions, which the interface \<open>fifo\<close> describes; the
  names without an argument are the ones on the queue of the program.
\<close>

section \<open>The object\<close>

type_synonym sent_msg = "u32 \<times> OFPT_T \<times> time_point"
type_synonym samples = "int list"

record 'q OFLatencyStats =
  reply_waiting_list :: 'q
  stats_latency :: "(OFPT_T, samples) std_map"

definition OFLatencyStats_reset :: "'q OFLatencyStats \<Rightarrow> 'q OFLatencyStats" where
  "OFLatencyStats_reset s =
     s\<lparr>stats_latency := foldl (\<lambda>m e. std_put e [] m) (stats_latency s) latency_types\<rparr>"

definition OFLatencyStats_new :: "'q \<Rightarrow> 'q OFLatencyStats" where
  "OFLatencyStats_new q = OFLatencyStats_reset \<lparr>reply_waiting_list = q, stats_latency = []\<rparr>"

definition sent_on ::
    "(sent_msg \<Rightarrow> 'q \<Rightarrow> exn + (bool \<times> 'q)) \<Rightarrow> u32 \<Rightarrow> OFPT_T \<Rightarrow> time_point \<Rightarrow>
     'q OFLatencyStats \<Rightarrow> exn + 'q OFLatencyStats" where
  "sent_on enq x t tp s =
     (case enq (x, t, tp) (reply_waiting_list s) of
        Inl e \<Rightarrow> Inl e
      | Inr (_, q) \<Rightarrow> Inr (s\<lparr>reply_waiting_list := q\<rparr>))"

text \<open>\<open>stats_latency_[t](v)\<close>: a missing key is constructed first.\<close>

definition add_sample :: "OFPT_T \<Rightarrow> int \<Rightarrow> (OFPT_T, samples) std_map \<Rightarrow> (OFPT_T, samples) std_map" where
  "add_sample t v m = std_put t ((case map_of m t of None \<Rightarrow> [] | Some a \<Rightarrow> a) @ [v]) m"

partial_function (option) received_on ::
    "('q \<Rightarrow> exn + (sent_msg option \<times> 'q)) \<Rightarrow> u32 \<Rightarrow> time_point \<Rightarrow>
     'q OFLatencyStats \<Rightarrow> (exn + 'q OFLatencyStats) option" where
  "received_on deq x tp s =
     (case deq (reply_waiting_list s) of
        Inl e \<Rightarrow> Some (Inl e)
      | Inr (None, q) \<Rightarrow> Some (Inr (s\<lparr>reply_waiting_list := q\<rparr>))
      | Inr (Some (x', t, tp0), q) \<Rightarrow>
          if x' \<noteq> x then received_on deq x tp (s\<lparr>reply_waiting_list := q\<rparr>)
          else Some (Inr (s\<lparr>reply_waiting_list := q,
                            stats_latency := add_sample t (trunc_div (tp - tp0) 1000) (stats_latency s)\<rparr>)))"

type_synonym latency_stats = "sent_msg ConcurrentQueue OFLatencyStats"

definition OFLatencyStats_sent ::
    "u32 \<Rightarrow> OFPT_T \<Rightarrow> time_point \<Rightarrow> latency_stats \<Rightarrow> exn + latency_stats" where
  "OFLatencyStats_sent x t tp s = sent_on try_enqueue x t tp s"

definition OFLatencyStats_received ::
    "u32 \<Rightarrow> time_point \<Rightarrow> latency_stats \<Rightarrow> (exn + latency_stats) option" where
  "OFLatencyStats_received x tp s = received_on try_dequeue x tp s"

section \<open>What a reply does to the waiting list\<close>

text \<open>
  The specification: everything up to the matching request leaves the list, and the match is
  the oldest request with the identifier of the reply.
\<close>

fun match_reply :: "u32 \<Rightarrow> sent_msg list \<Rightarrow> (OFPT_T \<times> time_point) option \<times> sent_msg list" where
  "match_reply x [] = (None, [])"
| "match_reply x ((x', t, tp0) # ws) = (if x' = x then (Some (t, tp0), ws) else match_reply x ws)"

lemma match_reply_found:
  "\<forall>w\<in>set ys. fst w \<noteq> x \<Longrightarrow> match_reply x (ys @ (x, t, tp0) # zs) = (Some (t, tp0), zs)"
  by (induction ys) auto

lemma match_reply_none: "\<forall>w\<in>set ws. fst w \<noteq> x \<Longrightarrow> match_reply x ws = (None, [])"
  by (induction ws) auto

definition record_match :: "time_point \<Rightarrow> (OFPT_T \<times> time_point) option \<Rightarrow>
    (OFPT_T, samples) std_map \<Rightarrow> (OFPT_T, samples) std_map" where
  "record_match tp hit m =
     (case hit of None \<Rightarrow> m | Some (t, tp0) \<Rightarrow> add_sample t (trunc_div (tp - tp0) 1000) m)"

text \<open>The interface of the queue at the messages of the waiting list.\<close>

locale waiting_list = fifo enq deq rep always never
  for enq :: "sent_msg \<Rightarrow> 'q \<Rightarrow> exn + (bool \<times> 'q)"
    and deq :: "'q \<Rightarrow> exn + (sent_msg option \<times> 'q)"
    and rep :: "'q \<Rightarrow> sent_msg list \<Rightarrow> bool"
    and always never :: nat
begin

lemma received_refines:
  assumes "rep (reply_waiting_list s) ws"
  shows "\<exists>q. received_on deq x tp s = Some (Inr (s\<lparr>reply_waiting_list := q,
           stats_latency := record_match tp (fst (match_reply x ws)) (stats_latency s)\<rparr>)) \<and>
         rep q (snd (match_reply x ws))"
  using assms
proof (induction ws arbitrary: s)
  case Nil
  then obtain q where "deq (reply_waiting_list s) = Inr (None, q)" "rep q []"
    using deq_empty by blast
  then show ?case by (subst received_on.simps) (auto simp: record_match_def)
next
  case (Cons w ws)
  obtain x' t tp0 where w: "w = (x', t, tp0)" by (cases w)
  obtain q where q: "deq (reply_waiting_list s) = Inr (Some w, q)" "rep q ws"
    using Cons.prems deq_law by blast
  show ?case
  proof (cases "x' = x")
    case True
    with q show ?thesis by (subst received_on.simps) (auto simp: w record_match_def)
  next
    case False
    with Cons.IH [of "s\<lparr>reply_waiting_list := q\<rparr>"] q show ?thesis
      by (subst received_on.simps) (auto simp: w)
  qed
qed

lemma sent_refines:
  assumes "rep (reply_waiting_list s) ws"
  shows "\<exists>q ws'. sent_on enq x t tp s = Inr (s\<lparr>reply_waiting_list := q\<rparr>) \<and> rep q ws' \<and>
      (ws' = ws \<or> ws' = ws @ [(x, t, tp)]) \<and>
      (length ws \<le> always \<longrightarrow> ws' = ws @ [(x, t, tp)]) \<and> (never \<le> length ws \<longrightarrow> ws' = ws)"
proof -
  obtain b q where q: "enq (x, t, tp) (reply_waiting_list s) = Inr (b, q)"
      "rep q (if b then ws @ [(x, t, tp)] else ws)"
    using enq_law [OF assms] by blast
  with enq_room [OF assms _ q(1)] enq_full [OF assms _ q(1)] show ?thesis
    unfolding sent_on_def by (cases b) auto
qed

end

interpretation wl: waiting_list try_enqueue try_dequeue cq_rep 160 192 ..

lemmas received_refines = wl.received_refines [folded OFLatencyStats_received_def]
lemmas sent_refines = wl.sent_refines [folded OFLatencyStats_sent_def]

section \<open>The latency of a reply\<close>

text \<open>
  C3.  A reply is matched with the oldest request that has its identifier: exactly one sample
  is added, the time that went by in microseconds, to the type of that request; the requests
  before it are given up and the later ones keep waiting.
\<close>

theorem received_matches:
  assumes "cq_rep (reply_waiting_list s) (ys @ (x, t, tp0) # zs)" and "\<forall>w\<in>set ys. fst w \<noteq> x"
    and "tp0 \<le> tp"
  shows "\<exists>s'. OFLatencyStats_received x tp s = Some (Inr s') \<and>
     cq_rep (reply_waiting_list s') zs \<and>
     map_of (stats_latency s') = (map_of (stats_latency s))
       (t \<mapsto> (case map_of (stats_latency s) t of None \<Rightarrow> [] | Some a \<Rightarrow> a) @ [(tp - tp0) div 1000])"
  using received_refines [OF assms(1), of x tp] assms(3)
  by (auto simp: match_reply_found [OF assms(2)] record_match_def add_sample_def map_of_std_put
      trunc_div_nonneg)

text \<open>Waiting lists of the queue, for the witnesses.\<close>

definition enqueue_all :: "sent_msg list \<Rightarrow> sent_msg ConcurrentQueue" where
  "enqueue_all ws = foldl (\<lambda>q w. case try_enqueue w q of Inl _ \<Rightarrow> q | Inr (_, q') \<Rightarrow> q') ConcurrentQueue_new ws"

lemma enqueue_all_rep: "length ws \<le> 161 \<Longrightarrow> cq_rep (enqueue_all ws) ws"
proof (induction ws rule: rev_induct)
  case Nil
  then show ?case by (simp add: enqueue_all_def)
next
  case (snoc w ws)
  then have r: "cq_rep (enqueue_all ws) ws" and l: "length ws \<le> 160" by simp_all
  obtain b q where q: "try_enqueue w (enqueue_all ws) = Inr (b, q)" "cq_rep q (if b then ws @ [w] else ws)"
    using cq.enq_law [OF r] by blast
  with cq.enq_room [OF r l q(1)] show ?case by (simp add: enqueue_all_def)
qed

definition demo_stats :: "sent_msg list \<Rightarrow> latency_stats" where
  "demo_stats ws = OFLatencyStats_new (enqueue_all ws)"

lemma demo_stats_queue [simp]: "reply_waiting_list (demo_stats ws) = enqueue_all ws"
  by (simp add: demo_stats_def OFLatencyStats_new_def OFLatencyStats_reset_def)

lemma received_matches_witness:
  "\<exists>s'. OFLatencyStats_received 2 9500 (demo_stats [(1, ECHO_REQUEST, 0), (2, STATS_REQUEST_FLOW, 2000),
       (3, ECHO_REQUEST, 3000)]) = Some (Inr s') \<and>
     cq_rep (reply_waiting_list s') [(3, ECHO_REQUEST, 3000)] \<and>
     map_of (stats_latency s') STATS_REQUEST_FLOW = Some [7]"
proof -
  let ?ws = "[(1 :: u32, ECHO_REQUEST, 0 :: int), (2, STATS_REQUEST_FLOW, 2000), (3, ECHO_REQUEST, 3000)]"
  have "cq_rep (reply_waiting_list (demo_stats ?ws))
      ([(1, ECHO_REQUEST, 0)] @ (2, STATS_REQUEST_FLOW, 2000) # [(3, ECHO_REQUEST, 3000)])"
    using enqueue_all_rep [of ?ws] by simp
  from received_matches [OF this, of 9500] obtain s' where
    "OFLatencyStats_received 2 9500 (demo_stats ?ws) = Some (Inr s')"
    "cq_rep (reply_waiting_list s') [(3, ECHO_REQUEST, 3000)]"
    "map_of (stats_latency s') = (map_of (stats_latency (demo_stats ?ws)))(STATS_REQUEST_FLOW \<mapsto>
        (case map_of (stats_latency (demo_stats ?ws)) STATS_REQUEST_FLOW of None \<Rightarrow> [] | Some a \<Rightarrow> a) @ [7])"
    by auto
  moreover have "map_of (stats_latency (demo_stats ?ws)) STATS_REQUEST_FLOW = Some []"
    by (simp add: demo_stats_def OFLatencyStats_new_def OFLatencyStats_reset_def latency_types_def map_of_std_put)
  ultimately show ?thesis by auto
qed

text \<open>
   A reply whose identifier no waiting request has measures nothing, but all the requests
  that were waiting are given up: their own replies will not be measured.
\<close>

theorem received_unmatched_drains:
  assumes "cq_rep (reply_waiting_list s) ws" and "x \<notin> fst ` set ws"
  shows "\<exists>s'. OFLatencyStats_received x tp s = Some (Inr s') \<and>
     cq_rep (reply_waiting_list s') [] \<and> stats_latency s' = stats_latency s"
proof -
  have "\<forall>w\<in>set ws. fst w \<noteq> x" using assms(2) by auto
  then show ?thesis
    using received_refines [OF assms(1), of x tp] by (auto simp: match_reply_none record_match_def)
qed

lemma received_unmatched_drains_witness:
  "\<exists>s'. OFLatencyStats_received 9 50 (demo_stats [(1, ECHO_REQUEST, 0), (2, ECHO_REQUEST, 5)]) = Some (Inr s') \<and>
     cq_rep (reply_waiting_list s') []"
  using received_unmatched_drains [of "demo_stats [(1, ECHO_REQUEST, 0), (2, ECHO_REQUEST, 5)]"
      "[(1, ECHO_REQUEST, 0), (2, ECHO_REQUEST, 5)]" 9 50]
    enqueue_all_rep [of "[(1, ECHO_REQUEST, 0), (2, ECHO_REQUEST, 5)]"]
  by auto

text \<open>
  C4.  The waiting list has a capacity: with at most 160 requests waiting the next one is
  always noted, with 192 it never is; the reply to a request that was not noted then empties
  the list without measuring anything.
\<close>

theorem sent_capacity:
  assumes "cq_rep (reply_waiting_list s) ws"
  shows "\<exists>s'. OFLatencyStats_sent x t tp s = Inr s' \<and> stats_latency s' = stats_latency s \<and>
     (length ws \<le> 160 \<longrightarrow> cq_rep (reply_waiting_list s') (ws @ [(x, t, tp)])) \<and>
     (length ws = 192 \<and> x \<notin> fst ` set ws \<longrightarrow>
        (\<exists>s''. OFLatencyStats_received x tp' s' = Some (Inr s'') \<and>
           cq_rep (reply_waiting_list s'') [] \<and> stats_latency s'' = stats_latency s))"
proof -
  obtain q ws' where s': "OFLatencyStats_sent x t tp s = Inr (s\<lparr>reply_waiting_list := q\<rparr>)" "cq_rep q ws'"
      "length ws \<le> 160 \<longrightarrow> ws' = ws @ [(x, t, tp)]" "192 \<le> length ws \<longrightarrow> ws' = ws"
    using sent_refines [OF assms, of x t tp] by blast
  have "\<exists>s''. OFLatencyStats_received x tp' (s\<lparr>reply_waiting_list := q\<rparr>) = Some (Inr s'') \<and>
           cq_rep (reply_waiting_list s'') [] \<and> stats_latency s'' = stats_latency s"
    if "length ws = 192" "x \<notin> fst ` set ws"
  proof -
    have r: "cq_rep (reply_waiting_list (s\<lparr>reply_waiting_list := q\<rparr>)) ws" using s' that by simp
    have "\<forall>w\<in>set ws. fst w \<noteq> x" using that(2) by auto
    with received_refines [OF r, of x tp'] show ?thesis by (auto simp: match_reply_none record_match_def)
  qed
  with s' show ?thesis by auto
qed

lemma sent_capacity_witness:
  "\<exists>s'. OFLatencyStats_sent 3 ECHO_REQUEST 10 (demo_stats [(1, ECHO_REQUEST, 0)]) = Inr s' \<and>
     cq_rep (reply_waiting_list s') [(1, ECHO_REQUEST, 0), (3, ECHO_REQUEST, 10)]"
  using sent_capacity [of "demo_stats [(1, ECHO_REQUEST, 0)]" "[(1, ECHO_REQUEST, 0)]" 3 ECHO_REQUEST 10]
    enqueue_all_rep [of "[(1, ECHO_REQUEST, 0)]"]
  by auto

section \<open>Replies in the order of the requests\<close>

fun received_all :: "(u32 \<times> time_point) list \<Rightarrow> latency_stats \<Rightarrow> (exn + latency_stats) option" where
  "received_all [] s = Some (Inr s)"
| "received_all ((x, tp) # rs) s =
     (case OFLatencyStats_received x tp s of
        None \<Rightarrow> None | Some (Inl e) \<Rightarrow> Some (Inl e) | Some (Inr s') \<Rightarrow> received_all rs s')"

definition samples_total :: "(OFPT_T, samples) std_map \<Rightarrow> nat" where
  "samples_total m = sum_list (map (\<lambda>(t, a). length a) m)"

lemma samples_total_put:
  "std_ok m \<Longrightarrow> samples_total (std_put t a m) + (case map_of m t of None \<Rightarrow> 0 | Some b \<Rightarrow> length b) =
     samples_total m + length a"
proof (induction t a m rule: std_put.induct)
  case (2 k v k' v' m)
  have "map_of m k = None" if "k < k'"
    using 2(2) that by (auto simp: std_ok_def map_of_eq_None_iff dest: order.strict_trans)
  with 2 show ?case by (auto simp: samples_total_def std_ok_def split: option.splits)
qed (simp add: samples_total_def)

lemma samples_total_add: "std_ok m \<Longrightarrow> samples_total (add_sample t v m) = Suc (samples_total m)"
  using samples_total_put [of m t "(case map_of m t of None \<Rightarrow> [] | Some a \<Rightarrow> a) @ [v]"]
  by (auto simp: add_sample_def split: option.splits)

lemma std_ok_add_sample: "std_ok m \<Longrightarrow> std_ok (add_sample t v m)"
  by (simp add: add_sample_def std_ok_put)

lemma match_reply_subseq:
  assumes "subseq (x # rs) (map fst ws)"
  shows "\<exists>t tp0 zs. match_reply x ws = (Some (t, tp0), zs) \<and> subseq rs (map fst zs)"
  using assms
proof (induction ws)
  case (Cons w ws)
  obtain x' t tp0 where w: "w = (x', t, tp0)" by (cases w)
  show ?case
  proof (cases "x' = x")
    case True
    with Cons.prems show ?thesis by (auto simp: w)
  next
    case False
    with Cons show ?thesis by (auto simp: w)
  qed
qed simp

text \<open>
   Replies that arrive in the order of their requests are all measured, whichever requests
  stay without a reply: one sample per reply, and every call returns.
\<close>

theorem in_order_replies_measured:
  assumes "cq_rep (reply_waiting_list s) ws" and "subseq (map fst rs) (map fst ws)"
    and "std_ok (stats_latency s)"
  shows "\<exists>s'. received_all rs s = Some (Inr s') \<and>
     samples_total (stats_latency s') = samples_total (stats_latency s) + length rs"
  using assms
proof (induction rs arbitrary: s ws)
  case Nil
  then show ?case by simp
next
  case (Cons r rs)
  obtain x tp where r: "r = (x, tp)" by (cases r)
  obtain t tp0 zs where m: "match_reply x ws = (Some (t, tp0), zs)" "subseq (map fst rs) (map fst zs)"
    using match_reply_subseq Cons.prems(2) by (fastforce simp: r)
  obtain q where q: "OFLatencyStats_received x tp s = Some (Inr (s\<lparr>reply_waiting_list := q,
        stats_latency := add_sample t (trunc_div (tp - tp0) 1000) (stats_latency s)\<rparr>))" "cq_rep q zs"
    using received_refines [OF Cons.prems(1), of x tp] by (auto simp: m record_match_def)
  from Cons.IH [OF _ m(2), of "s\<lparr>reply_waiting_list := q,
        stats_latency := add_sample t (trunc_div (tp - tp0) 1000) (stats_latency s)\<rparr>"] q Cons.prems(3)
  show ?case by (simp add: r samples_total_add std_ok_add_sample)
qed

lemma keys_foldl_put:
  "fst ` set (foldl (\<lambda>m e. std_put e v m) m ks) = fst ` set m \<union> set ks"
  by (induction ks arbitrary: m) (auto simp: keys_std_put)

lemma std_ok_foldl_put: "std_ok m \<Longrightarrow> std_ok (foldl (\<lambda>m e. std_put e v m) m ks)"
  by (induction ks arbitrary: m) (auto simp: std_ok_put)

lemma demo_stats_ok: "std_ok (stats_latency (demo_stats ws))"
  by (simp add: demo_stats_def OFLatencyStats_new_def OFLatencyStats_reset_def std_ok_foldl_put)

lemma in_order_replies_measured_witness:
  "\<exists>s'. received_all [(1, 70), (3, 90)] (demo_stats [(1, ECHO_REQUEST, 0), (2, ECHO_REQUEST, 5),
       (3, FEATURE_REQUEST, 6)]) = Some (Inr s') \<and>
     samples_total (stats_latency s') = samples_total (stats_latency (demo_stats [(1, ECHO_REQUEST, 0),
       (2, ECHO_REQUEST, 5), (3, FEATURE_REQUEST, 6)])) + 2"
  using in_order_replies_measured [of "demo_stats [(1, ECHO_REQUEST, 0), (2, ECHO_REQUEST, 5), (3, FEATURE_REQUEST, 6)]"
      "[(1, ECHO_REQUEST, 0), (2, ECHO_REQUEST, 5), (3, FEATURE_REQUEST, 6)]" "[(1, 70), (3, 90)]"]
  by (simp add: enqueue_all_rep demo_stats_ok)

section \<open>The types of the measurements\<close>

text \<open>
  An invariant of the object: the types measured are those of \<open>latency_types\<close>, so every one
  of them has a name in \<open>OFPT::STR\<close>.
\<close>

definition stats_ok :: "latency_stats \<Rightarrow> bool" where
  "stats_ok s \<longleftrightarrow> std_ok (stats_latency s) \<and> fst ` set (stats_latency s) = set latency_types \<and>
     (\<exists>ws. cq_rep (reply_waiting_list s) ws \<and> (\<forall>(x, t, tp)\<in>set ws. t \<in> set latency_types))"

lemma stats_ok_new: "stats_ok (OFLatencyStats_new ConcurrentQueue_new)"
  by (auto simp: stats_ok_def OFLatencyStats_new_def OFLatencyStats_reset_def keys_foldl_put std_ok_foldl_put
      intro!: exI [of _ "[]"])

lemma stats_ok_reset: "stats_ok s \<Longrightarrow> stats_ok (OFLatencyStats_reset s)"
  by (auto simp: stats_ok_def OFLatencyStats_reset_def keys_foldl_put std_ok_foldl_put)

lemma stats_ok_sent:
  assumes "stats_ok s" and "t \<in> set latency_types"
  shows "\<exists>s'. OFLatencyStats_sent x t tp s = Inr s' \<and> stats_ok s'"
proof -
  obtain ws where ws: "cq_rep (reply_waiting_list s) ws" "\<forall>(x, t, tp)\<in>set ws. t \<in> set latency_types"
    using assms(1) by (auto simp: stats_ok_def)
  from sent_refines [OF ws(1), of x t tp] obtain q ws' where
    "OFLatencyStats_sent x t tp s = Inr (s\<lparr>reply_waiting_list := q\<rparr>)" "cq_rep q ws'"
    "ws' = ws \<or> ws' = ws @ [(x, t, tp)]" by blast
  moreover from this ws(2) assms(2) have "\<forall>(x, t, tp)\<in>set ws'. t \<in> set latency_types" by auto
  ultimately show ?thesis using assms(1) by (auto simp: stats_ok_def)
qed

lemma match_reply_set:
  "match_reply x ws = (hit, ws') \<Longrightarrow> set ws' \<subseteq> set ws \<and> (\<forall>t tp0. hit = Some (t, tp0) \<longrightarrow> (x, t, tp0) \<in> set ws)"
  by (induction x ws rule: match_reply.induct) (auto split: if_splits)

lemma stats_ok_received:
  assumes "stats_ok s"
  shows "\<exists>s'. OFLatencyStats_received x tp s = Some (Inr s') \<and> stats_ok s'"
proof -
  obtain ws where ws: "cq_rep (reply_waiting_list s) ws" "\<forall>(x, t, tp)\<in>set ws. t \<in> set latency_types"
    using assms(1) by (auto simp: stats_ok_def)
  obtain hit ws' where m: "match_reply x ws = (hit, ws')" by force
  from received_refines [OF ws(1), of x tp] obtain q where
    "OFLatencyStats_received x tp s = Some (Inr (s\<lparr>reply_waiting_list := q,
       stats_latency := record_match tp hit (stats_latency s)\<rparr>))" "cq_rep q ws'"
    by (auto simp: m)
  moreover have "\<forall>(x, t, tp)\<in>set ws'. t \<in> set latency_types"
    using match_reply_set [OF m] ws(2) by blast
  moreover have "std_ok (record_match tp hit (stats_latency s))"
    using assms by (auto simp: stats_ok_def record_match_def std_ok_add_sample split: option.splits)
  moreover have "fst ` set (record_match tp hit (stats_latency s)) = set latency_types"
  proof (cases hit)
    case None
    with assms show ?thesis by (simp add: stats_ok_def record_match_def)
  next
    case (Some h)
    obtain t tp0 where h: "h = (t, tp0)" by (cases h)
    with Some match_reply_set [OF m] have "(x, t, tp0) \<in> set ws" by simp
    with ws(2) have "t \<in> set latency_types" by auto
    with assms show ?thesis
      by (simp add: Some h stats_ok_def record_match_def add_sample_def keys_std_put insert_absorb)
  qed
  ultimately show ?thesis by (auto simp: stats_ok_def)
qed

end
