(* ===== verification/Collector.thy ===== *)
theory Collector
  imports LatencyStats
begin

text \<open>
  \<open>statistics/Collector\<close>: the visitor that turns the state of the objects into named
  numbers.  The readings of an accumulator of Boost are the parameters \<open>mean\<close>, \<open>mini\<close>
  and \<open>maxi\<close> of its samples; the property tree and its JSON writer are parameters too.
\<close>

record Collector =
  statistics :: "(string, u64) std_map"
  meta :: "(string, string) std_map"

definition Collector_new :: Collector where
  "Collector_new = \<lparr>statistics = [], meta = []\<rparr>"

definition addMeta :: "string \<Rightarrow> string \<Rightarrow> Collector \<Rightarrow> Collector" where
  "addMeta k v c = c\<lparr>meta := std_put k v (meta c)\<rparr>"

definition toJson :: "'pt \<Rightarrow> (string \<Rightarrow> string \<Rightarrow> 'pt \<Rightarrow> 'pt) \<Rightarrow> ('pt \<Rightarrow> string) \<Rightarrow> Collector \<Rightarrow> string" where
  "toJson pt_empty pt_add write_json c =
     (let pt1 = foldl (\<lambda>pt (k, v). pt_add k (digits (unat v)) pt) pt_empty (statistics c);
          pt2 = foldl (\<lambda>pt (k, v). pt_add k v pt) pt1 (meta c)
      in write_json pt2)"

definition latency_key :: "string \<Rightarrow> string \<Rightarrow> string" where
  "latency_key name what = ''latency_'' @ name @ ''_'' @ what"

definition put_latency ::
    "(samples \<Rightarrow> u64) \<Rightarrow> (samples \<Rightarrow> u64) \<Rightarrow> (samples \<Rightarrow> u64) \<Rightarrow> string \<Rightarrow> samples \<Rightarrow>
     (string, u64) std_map \<Rightarrow> (string, u64) std_map" where
  "put_latency mean mini maxi n a m =
     (let key_mean = latency_key n ''mean''; key_min = latency_key n ''min''; key_max = latency_key n ''max''
      in if length a \<noteq> 0
         then std_put key_max (maxi a) (std_put key_min (mini a) (std_put key_mean (mean a) m))
         else std_put key_max 0 (std_put key_min 0 (std_put key_mean 0 m)))"

fun visit_latency_entries ::
    "(samples \<Rightarrow> u64) \<Rightarrow> (samples \<Rightarrow> u64) \<Rightarrow> (samples \<Rightarrow> u64) \<Rightarrow>
     (OFPT_T \<times> samples) list \<Rightarrow> Collector \<Rightarrow> exn + Collector" where
  "visit_latency_entries mean mini maxi [] c = Inr c"
| "visit_latency_entries mean mini maxi ((t, a) # es) c =
     (case OFPT_STR t of
        None \<Rightarrow> Inl OutOfRange
      | Some n \<Rightarrow> visit_latency_entries mean mini maxi es
                   (c\<lparr>statistics := put_latency mean mini maxi n a (statistics c)\<rparr>))"

definition visit_OFLatencyStats ::
    "(samples \<Rightarrow> u64) \<Rightarrow> (samples \<Rightarrow> u64) \<Rightarrow> (samples \<Rightarrow> u64) \<Rightarrow>
     'q OFLatencyStats \<Rightarrow> Collector \<Rightarrow> exn + Collector" where
  "visit_OFLatencyStats mean mini maxi s c = visit_latency_entries mean mini maxi (stats_latency s) c"

section \<open>Facts\<close>

lemma map_of_put_latency:
  "map_of (put_latency mean mini maxi n a m) = (map_of m)
     (latency_key n ''mean'' \<mapsto> if a = [] then 0 else mean a,
      latency_key n ''min'' \<mapsto> if a = [] then 0 else mini a,
      latency_key n ''max'' \<mapsto> if a = [] then 0 else maxi a)"
  by (simp add: put_latency_def Let_def map_of_std_put)

text \<open>No name of a message type is a proper beginning of another name followed by an underscore.\<close>

lemma append_underscore_inject:
  assumes "a @ CHR ''_'' # w1 = b @ CHR ''_'' # w2" and "CHR ''_'' \<notin> set w1" and "CHR ''_'' \<notin> set w2"
  shows "a = b \<and> w1 = w2"
proof -
  obtain us where us: "a = b @ us \<and> us @ CHR ''_'' # w1 = CHR ''_'' # w2 \<or>
      a @ us = b \<and> CHR ''_'' # w1 = us @ CHR ''_'' # w2"
    using assms(1) unfolding append_eq_append_conv2 by blast
  have "us = []"
  proof (rule ccontr)
    assume "us \<noteq> []"
    then obtain u us' where "us = u # us'" by (cases us) auto
    with us have "us' @ CHR ''_'' # w1 = w2 \<or> w1 = us' @ CHR ''_'' # w2" by auto
    with assms(2,3) show False by (metis in_set_conv_decomp)
  qed
  with us show ?thesis by auto
qed

lemma latency_key_inject:
  assumes "w1 \<in> {''mean'', ''min'', ''max''}" and "w2 \<in> {''mean'', ''min'', ''max''}"
  shows "latency_key n1 w1 = latency_key n2 w2 \<longleftrightarrow> n1 = n2 \<and> w1 = w2"
proof
  assume "latency_key n1 w1 = latency_key n2 w2"
  then have "n1 @ CHR ''_'' # w1 = n2 @ CHR ''_'' # w2" by (simp add: latency_key_def)
  then show "n1 = n2 \<and> w1 = w2" using assms by (intro append_underscore_inject) auto
qed simp

lemma visit_latency_entries_spec:
  assumes "\<forall>(t, a)\<in>set es. OFPT_STR t \<noteq> None" and "distinct (map fst es)"
  shows "\<exists>c'. visit_latency_entries mean mini maxi es c = Inr c' \<and> meta c' = meta c \<and>
     (\<forall>t n a w f. (t, a) \<in> set es \<and> OFPT_STR t = Some n \<and>
         (w, f) \<in> {(''mean'', mean), (''min'', mini), (''max'', maxi)} \<longrightarrow>
         map_of (statistics c') (latency_key n w) = Some (if a = [] then 0 else f a)) \<and>
     (\<forall>k. (\<forall>t n w. t \<in> fst ` set es \<and> OFPT_STR t = Some n \<and> w \<in> {''mean'', ''min'', ''max''} \<longrightarrow>
             k \<noteq> latency_key n w) \<longrightarrow>
         map_of (statistics c') k = map_of (statistics c) k)"
  using assms
proof (induction es arbitrary: c)
  case Nil
  then show ?case by simp
next
  case (Cons e es)
  obtain t a where e: "e = (t, a)" by (cases e)
  then obtain n where n: "OFPT_STR t = Some n" using Cons.prems(1) by auto
  let ?c = "c\<lparr>statistics := put_latency mean mini maxi n a (statistics c)\<rparr>"
  obtain c' where c': "visit_latency_entries mean mini maxi es ?c = Inr c'" "meta c' = meta c"
    and hit: "\<forall>t n a w f. (t, a) \<in> set es \<and> OFPT_STR t = Some n \<and>
         (w, f) \<in> {(''mean'', mean), (''min'', mini), (''max'', maxi)} \<longrightarrow>
         map_of (statistics c') (latency_key n w) = Some (if a = [] then 0 else f a)"
    and other: "\<forall>k. (\<forall>t n w. t \<in> fst ` set es \<and> OFPT_STR t = Some n \<and> w \<in> {''mean'', ''min'', ''max''} \<longrightarrow>
             k \<noteq> latency_key n w) \<longrightarrow>
         map_of (statistics c') k = map_of (statistics ?c) k"
    using Cons.IH [of ?c] Cons.prems by auto
  have fresh: "latency_key n w \<noteq> latency_key n' w'"
    if "t' \<in> fst ` set es" "OFPT_STR t' = Some n'" "w \<in> {''mean'', ''min'', ''max''}"
      "w' \<in> {''mean'', ''min'', ''max''}" for t' n' w w'
    using that Cons.prems(2) OFPT_STR_inj [OF n] by (auto simp: e latency_key_inject)
  have "map_of (statistics c') (latency_key n w) = Some (if a = [] then 0 else f a)"
    if "(w, f) \<in> {(''mean'', mean), (''min'', mini), (''max'', maxi)}" for w f
  proof -
    have w: "w \<in> {''mean'', ''min'', ''max''}" using that by auto
    have "map_of (statistics c') (latency_key n w) = map_of (statistics ?c) (latency_key n w)"
      using other fresh [OF _ _ w] by blast
    also have "\<dots> = Some (if a = [] then 0 else f a)"
      using that by (auto simp: map_of_put_latency latency_key_inject)
    finally show ?thesis .
  qed
  moreover have "map_of (statistics c') k = map_of (statistics c) k"
    if k: "\<forall>t n w. t \<in> fst ` set (e # es) \<and> OFPT_STR t = Some n \<and> w \<in> {''mean'', ''min'', ''max''} \<longrightarrow>
             k \<noteq> latency_key n w" for k
  proof -
    have "k \<noteq> latency_key n w" if "w \<in> {''mean'', ''min'', ''max''}" for w
      using that k n by (auto simp: e)
    then have "map_of (statistics ?c) k = map_of (statistics c) k" by (simp add: map_of_put_latency)
    moreover have "map_of (statistics c') k = map_of (statistics ?c) k"
    proof (rule other [THEN spec, THEN mp], intro allI impI)
      fix t n w
      assume "t \<in> fst ` set es \<and> OFPT_STR t = Some n \<and> w \<in> {''mean'', ''min'', ''max''}"
      then have "t \<in> fst ` set (e # es) \<and> OFPT_STR t = Some n \<and> w \<in> {''mean'', ''min'', ''max''}" by simp
      then show "k \<noteq> latency_key n w" by (rule k [THEN spec, THEN spec, THEN spec, THEN mp])
    qed
    ultimately show ?thesis by simp
  qed
  ultimately show ?case
    using c' hit n by (auto simp: e)
qed

lemma stats_ok_named: "stats_ok s \<Longrightarrow> \<forall>(t, a)\<in>set (stats_latency s). OFPT_STR t \<noteq> None"
proof (intro ballI)
  fix e assume "stats_ok s" and "e \<in> set (stats_latency s)"
  then have "fst e \<in> set latency_types" by (auto simp: stats_ok_def)
  then show "case e of (t, a) \<Rightarrow> OFPT_STR t \<noteq> None"
    using OFPT_STR_req_types latency_types_requested by fastforce
qed

lemma visit_latency_ok:
  "stats_ok s \<Longrightarrow> \<exists>c'. visit_OFLatencyStats mean mini maxi s c = Inr c'"
  using visit_latency_entries_spec [OF stats_ok_named, of s]
  by (fastforce simp: visit_OFLatencyStats_def stats_ok_def std_ok_distinct)

text \<open>
  C14.  Reading the latencies never throws: the table of names has every type that can be
  measured, so each measured type yields its mean, minimum and maximum under its own name
  (zero where no reply was measured) and no other number changes.
\<close>

theorem visit_latencies:
  assumes "stats_ok s"
  shows "\<exists>c'. visit_OFLatencyStats mean mini maxi s c = Inr c' \<and> meta c' = meta c \<and>
     (\<forall>t\<in>set latency_types. \<exists>n a. OFPT_STR t = Some n \<and> map_of (stats_latency s) t = Some a \<and>
        map_of (statistics c') (latency_key n ''mean'') = Some (if a = [] then 0 else mean a) \<and>
        map_of (statistics c') (latency_key n ''min'') = Some (if a = [] then 0 else mini a) \<and>
        map_of (statistics c') (latency_key n ''max'') = Some (if a = [] then 0 else maxi a)) \<and>
     (\<forall>k. take 8 k \<noteq> ''latency_'' \<longrightarrow> map_of (statistics c') k = map_of (statistics c) k)"
proof -
  let ?es = "stats_latency s"
  have keys: "fst ` set ?es = set latency_types" and d: "distinct (map fst ?es)"
    using assms by (simp_all add: stats_ok_def std_ok_distinct)
  have named: "\<exists>n. OFPT_STR t = Some n" if "t \<in> set latency_types" for t
    using OFPT_STR_req_types latency_types_requested that by blast
  from visit_latency_entries_spec [OF stats_ok_named [OF assms] d, of mean mini maxi c] obtain c' where
    c': "visit_latency_entries mean mini maxi ?es c = Inr c'" "meta c' = meta c"
    and hit: "\<And>t n a w f. (t, a) \<in> set ?es \<Longrightarrow> OFPT_STR t = Some n \<Longrightarrow>
         (w, f) \<in> {(''mean'', mean), (''min'', mini), (''max'', maxi)} \<Longrightarrow>
         map_of (statistics c') (latency_key n w) = Some (if a = [] then 0 else f a)"
    and other: "\<And>k. (\<forall>t n w. t \<in> fst ` set ?es \<and> OFPT_STR t = Some n \<and> w \<in> {''mean'', ''min'', ''max''} \<longrightarrow>
             k \<noteq> latency_key n w) \<Longrightarrow> map_of (statistics c') k = map_of (statistics c) k"
    by blast
  have "\<exists>n a. OFPT_STR t = Some n \<and> map_of ?es t = Some a \<and>
        map_of (statistics c') (latency_key n ''mean'') = Some (if a = [] then 0 else mean a) \<and>
        map_of (statistics c') (latency_key n ''min'') = Some (if a = [] then 0 else mini a) \<and>
        map_of (statistics c') (latency_key n ''max'') = Some (if a = [] then 0 else maxi a)"
    if t: "t \<in> set latency_types" for t
  proof -
    obtain n where n: "OFPT_STR t = Some n" using named t by blast
    obtain a where a: "(t, a) \<in> set ?es" using keys t by (metis imageE prod.collapse)
    with d have "map_of ?es t = Some a" by simp
    with n hit [OF a n] show ?thesis by auto
  qed
  moreover have "map_of (statistics c') k = map_of (statistics c) k" if "take 8 k \<noteq> ''latency_''" for k
    using that by (intro other) (auto simp: latency_key_def)
  ultimately show ?thesis
    using c' by (auto simp: visit_OFLatencyStats_def)
qed

lemma visit_latencies_witness:
  "\<exists>c'. visit_OFLatencyStats (\<lambda>_. 1) (\<lambda>_. 2) (\<lambda>_. 3) (OFLatencyStats_new ConcurrentQueue_new :: latency_stats)
     Collector_new = Inr c' \<and> meta c' = []"
  using visit_latencies [OF stats_ok_new, of "\<lambda>_. 1" "\<lambda>_. 2" "\<lambda>_. 3" Collector_new]
  by (auto simp: Collector_new_def)

end
