(* ===== verification/Messages.thy ===== *)
theory Messages
  imports Globals
begin

text \<open>
  \<open>of/messages.hpp\<close>: the OpenFlow messages the generators emit, their factories and the
  scheduled message.  The messages themselves are built and packed by libfluid, which is not
  code of this repository: \<open>fluid_msg\<close> lists the objects the code constructs with the
  arguments it gives, and \<open>pack\<close> and \<open>len\<close> (the library's \<open>pack()\<close> and
  \<open>length()\<close>) are parameters of the definitions that use them.
\<close>

definition dropbox_pkt :: bytes where
  "dropbox_pkt =
     [0xFF, 0xFF, 0xFF, 0xFF, 0xFF, 0xFF, 0x0A, 0x00, 0x27, 0x00, 0x00, 0x08, 0x08, 0x00,
      0x45, 0x00, 0x00, 0x8D, 0x79, 0xA4, 0x40, 0x00, 0x40, 0x11, 0xFA, 0x6A, 0xC0, 0xA8,
      0x22, 0x01, 0xC0, 0xA8, 0x22, 0xFF, 0x44, 0x5C, 0x44, 0x5C, 0x00, 0x79, 0xEF, 0x58,
      0x7B, 0x22, 0x68, 0x6F, 0x73, 0x74, 0x5F, 0x69, 0x6E, 0x74, 0x22, 0x3A, 0x20, 0x39,
      0x32, 0x31, 0x38, 0x37, 0x30, 0x39, 0x36, 0x32, 0x2C, 0x20, 0x22, 0x76, 0x65, 0x72,
      0x73, 0x69, 0x6F, 0x6E, 0x22, 0x3A, 0x20, 0x5B, 0x31, 0x2C, 0x20, 0x38, 0x5D, 0x2C,
      0x20, 0x22, 0x64, 0x69, 0x73, 0x70, 0x6C, 0x61, 0x79, 0x6E, 0x61, 0x6D, 0x65, 0x22,
      0x3A, 0x20, 0x22, 0x22, 0x2C, 0x20, 0x22, 0x70, 0x6F, 0x72, 0x74, 0x22, 0x3A, 0x20,
      0x31, 0x37, 0x35, 0x30, 0x31, 0x2C, 0x20, 0x22, 0x6E, 0x61, 0x6D, 0x65, 0x73, 0x70,
      0x61, 0x63, 0x65, 0x73, 0x22, 0x3A, 0x20, 0x5B, 0x37, 0x33, 0x35, 0x38, 0x31, 0x30,
      0x37, 0x34, 0x2C, 0x20, 0x35, 0x35, 0x31, 0x39, 0x33, 0x37, 0x34, 0x38, 0x37, 0x5D,
      0x7D]"

section \<open>The objects of libfluid\<close>

record flow_mod_args =
  fm_xid :: u32
  fm_cookie :: u64
  fm_command :: string
  fm_idle_timeout :: u16
  fm_hard_timeout :: u16
  fm_priority :: u16
  fm_buffer_id :: u32
  fm_out_port :: string
  fm_flags :: u16
  fm_match_in_port :: u16
  fm_action :: "u16 \<times> u16"

datatype fluid_msg =
    FeaturesRequest u32
  | EchoRequest u32
  | EchoReply u32
  | StatsRequestPort u32 u16 u16
  | StatsRequestFlow u32 u16 u16 u16
  | PacketOut u32 u32 u16 bytes "u16 \<times> u16"
  | FlowMod flow_mod_args

section \<open>Messages\<close>

record AbstractOFMsg =
  xid :: u32
  mtype :: OFPT_T
  pkt :: bytes
  pkt_len :: u32
  has_reply :: bool

type_synonym packer = "fluid_msg \<Rightarrow> bytes"
type_synonym measurer = "fluid_msg \<Rightarrow> u32"

definition FeatureRequestOFMsg_gen :: "packer \<Rightarrow> measurer \<Rightarrow> u32 \<Rightarrow> AbstractOFMsg" where
  "FeatureRequestOFMsg_gen pack len x =
     (let fr = FeaturesRequest x
      in \<lparr>xid = x, mtype = FEATURE_REQUEST, pkt = pack fr, pkt_len = len fr, has_reply = True\<rparr>)"

definition EchoRequestOFMsg_gen :: "packer \<Rightarrow> measurer \<Rightarrow> u32 \<Rightarrow> AbstractOFMsg" where
  "EchoRequestOFMsg_gen pack len x =
     (let fr = EchoRequest x
      in \<lparr>xid = x, mtype = ECHO_REQUEST, pkt = pack fr, pkt_len = len fr, has_reply = True\<rparr>)"

definition FlowModOFMsg_gen :: "packer \<Rightarrow> measurer \<Rightarrow> u32 \<Rightarrow> AbstractOFMsg" where
  "FlowModOFMsg_gen pack len x =
     (let fm = FlowMod \<lparr>fm_xid = x, fm_cookie = 123, fm_command = ''OFPFC_ADD'',
                 fm_idle_timeout = 5000, fm_hard_timeout = 5000, fm_priority = 100,
                 fm_buffer_id = - 1, fm_out_port = ''OFPP_NONE'', fm_flags = 0,
                 fm_match_in_port = 1, fm_action = (2, 1024)\<rparr>
      in \<lparr>xid = x, mtype = FLOW_MOD, pkt = pack fm, pkt_len = len fm, has_reply = False\<rparr>)"

definition StatsRequestPortOFMsg_gen :: "packer \<Rightarrow> measurer \<Rightarrow> u32 \<Rightarrow> AbstractOFMsg" where
  "StatsRequestPortOFMsg_gen pack len x =
     (let sr = StatsRequestPort x 0 1
      in \<lparr>xid = x, mtype = STATS_REQUEST_PORT, pkt = pack sr, pkt_len = len sr, has_reply = True\<rparr>)"

definition StatsRequestFlowOFMsg_gen :: "packer \<Rightarrow> measurer \<Rightarrow> u32 \<Rightarrow> AbstractOFMsg" where
  "StatsRequestFlowOFMsg_gen pack len x =
     (let sr = StatsRequestFlow x 0 0 2
      in \<lparr>xid = x, mtype = STATS_REQUEST_FLOW, pkt = pack sr, pkt_len = len sr, has_reply = True\<rparr>)"

definition PacketOutUDPOFMsg_gen :: "packer \<Rightarrow> measurer \<Rightarrow> u32 \<Rightarrow> AbstractOFMsg" where
  "PacketOutUDPOFMsg_gen pack len x =
     (let po = PacketOut x 0xffffffff 1 dropbox_pkt (2, 1024)
      in \<lparr>xid = x, mtype = PACKET_OUT_UDP, pkt = pack po, pkt_len = len po, has_reply = False\<rparr>)"

section \<open>Factories\<close>

text \<open>The subclasses of \<open>AbstractOFMsgFactory\<close>, each with the counter \<open>_cnt\<close>.\<close>

datatype factory_kind =
    FeatureRequestFactory | EchoRequestFactory | StatsRequestPortFactory
  | StatsRequestFlowFactory | PacketOutUDPFactory | FlowModOFMsgFactory

record AbstractOFMsgFactory =
  fkind :: factory_kind
  cnt :: u32

fun factory_gen :: "factory_kind \<Rightarrow> packer \<Rightarrow> measurer \<Rightarrow> u32 \<Rightarrow> AbstractOFMsg" where
  "factory_gen FeatureRequestFactory pack len x = FeatureRequestOFMsg_gen pack len x"
| "factory_gen EchoRequestFactory pack len x = EchoRequestOFMsg_gen pack len x"
| "factory_gen StatsRequestPortFactory pack len x = StatsRequestPortOFMsg_gen pack len x"
| "factory_gen StatsRequestFlowFactory pack len x = StatsRequestFlowOFMsg_gen pack len x"
| "factory_gen PacketOutUDPFactory pack len x = PacketOutUDPOFMsg_gen pack len x"
| "factory_gen FlowModOFMsgFactory pack len x = FlowModOFMsg_gen pack len x"

definition factory_make ::
    "packer \<Rightarrow> measurer \<Rightarrow> AbstractOFMsgFactory \<Rightarrow> AbstractOFMsg \<times> AbstractOFMsgFactory" where
  "factory_make pack len f =
     (let f' = f\<lparr>cnt := cnt f + 1\<rparr> in (factory_gen (fkind f') pack len (cnt f'), f'))"

definition factory_alloc :: "factory_kind \<Rightarrow> AbstractOFMsgFactory" where
  "factory_alloc k = \<lparr>fkind = k, cnt = 0\<rparr>"

definition get_message_factory :: "string \<Rightarrow> AbstractOFMsgFactory" where
  "get_message_factory name =
     (if name = ''FEATURE_REQUEST'' then factory_alloc FeatureRequestFactory
      else if name = ''ECHO_REQUEST'' then factory_alloc EchoRequestFactory
      else if name = ''STATS_REQUEST_PORT'' then factory_alloc StatsRequestPortFactory
      else if name = ''STATS_REQUEST_FLOW'' then factory_alloc StatsRequestFlowFactory
      else if name = ''PACKET_OUT_UDP'' then factory_alloc PacketOutUDPFactory
      else if name = ''FLOW_MOD'' then factory_alloc FlowModOFMsgFactory
      else factory_alloc EchoRequestFactory)"

section \<open>Scheduled messages\<close>

record ScheduledMsg =
  time_ns :: time_point
  of_msg :: AbstractOFMsg
  awaits_reply :: bool

definition mk_ScheduledMsg :: "time_point \<Rightarrow> AbstractOFMsg \<Rightarrow> ScheduledMsg" where
  "mk_ScheduledMsg t m = \<lparr>time_ns = t, of_msg = m, awaits_reply = has_reply m\<rparr>"

section \<open>Facts about messages\<close>

text \<open>
  What the rest of the program relies on: the type and the identifier of a message are the
  requested ones, and a message awaits a reply exactly when its latency is measured.
\<close>

lemmas gen_defs = FeatureRequestOFMsg_gen_def EchoRequestOFMsg_gen_def FlowModOFMsg_gen_def
  StatsRequestPortOFMsg_gen_def StatsRequestFlowOFMsg_gen_def PacketOutUDPOFMsg_gen_def Let_def

fun kind_type :: "factory_kind \<Rightarrow> OFPT_T" where
  "kind_type FeatureRequestFactory = FEATURE_REQUEST"
| "kind_type EchoRequestFactory = ECHO_REQUEST"
| "kind_type StatsRequestPortFactory = STATS_REQUEST_PORT"
| "kind_type StatsRequestFlowFactory = STATS_REQUEST_FLOW"
| "kind_type PacketOutUDPFactory = PACKET_OUT_UDP"
| "kind_type FlowModOFMsgFactory = FLOW_MOD"

lemma factory_gen_type [simp]: "mtype (factory_gen k pack len x) = kind_type k"
  by (cases k) (simp_all add: gen_defs)

lemma factory_gen_xid [simp]: "xid (factory_gen k pack len x) = x"
  by (cases k) (simp_all add: gen_defs)

lemma kind_type_requested: "kind_type k \<in> set req_types"
  by (cases k) (simp_all add: req_types_def)

text \<open>A well-formed message: only types whose latency is measured await a reply.\<close>

definition wf_msg :: "AbstractOFMsg \<Rightarrow> bool" where
  "wf_msg m \<longleftrightarrow> mtype m \<in> set req_types \<and> (has_reply m \<longleftrightarrow> mtype m \<in> set latency_types)"

lemma factory_gen_wf: "wf_msg (factory_gen k pack len x)"
  by (cases k) (simp_all add: wf_msg_def gen_defs req_types_def latency_types_def)

lemma get_message_factory_known:
  assumes "OFPT_RSTR name = Some t" and "t \<in> set req_types"
  shows "kind_type (fkind (get_message_factory name)) = t"
  using assms
  by (auto simp: OFPT_RSTR_def get_message_factory_def factory_alloc_def req_types_def split: if_splits)

lemma get_message_factory_unknown:
  assumes "\<forall>t\<in>set req_types. OFPT_RSTR name \<noteq> Some t"
  shows "get_message_factory name = factory_alloc EchoRequestFactory"
proof -
  have ne: "name \<noteq> s" if "OFPT_RSTR s = Some t" and "t \<in> set req_types" for s t
    using assms that by blast
  show ?thesis
    unfolding get_message_factory_def
    by (simp only: ne [OF OFPT_RSTR_names(1)] ne [OF OFPT_RSTR_names(2)]
        ne [OF OFPT_RSTR_names(3)] ne [OF OFPT_RSTR_names(4)] ne [OF OFPT_RSTR_names(5)]
        ne [OF OFPT_RSTR_names(6)] req_types_def list.set insert_iff simp_thms if_False)
qed

end
