(* ===== verification/Generators.thy ===== *)
theory Generators
  imports Messages
begin

text \<open>
  \<open>generators/\<close>: the message generators.  The random number generator and the
  distributions of Boost are parameters: \<open>exp_us\<close> is an exponential draw for a rate, in
  seconds, times 1000000 and converted to an integer; \<open>disc\<close> is a draw of an index from a
  list of weights; both thread the shared engine.  \<open>lexu\<close> and \<open>lexf\<close> are
  \<open>boost::lexical_cast\<close> to \<open>uint32_t\<close> and \<open>float\<close>.
\<close>

section \<open>The base class\<close>

record generator_base =
  base_time :: time_point
  counters :: "OFPT_T \<rightharpoonup> u32"

definition set_time_reference :: "time_point \<Rightarrow> 'a generator_base_scheme \<Rightarrow> 'a generator_base_scheme" where
  "set_time_reference t g = g\<lparr>base_time := t\<rparr>"

definition count_msg :: "ScheduledMsg \<Rightarrow> 'a generator_base_scheme \<Rightarrow> 'a generator_base_scheme" where
  "count_msg m g =
     (let t = mtype (of_msg m)
      in case counters g t of
           None \<Rightarrow> g\<lparr>counters := (counters g)(t \<mapsto> 1)\<rparr>
         | Some c \<Rightarrow> g\<lparr>counters := (counters g)(t \<mapsto> c + 1)\<rparr>)"

definition reset_counters :: "'a generator_base_scheme \<Rightarrow> 'a generator_base_scheme" where
  "reset_counters g = g\<lparr>counters := (\<lambda>t. map_option (\<lambda>_. 0) (counters g t))\<rparr>"

text \<open>What a counter reads, with a missing entry read as zero.\<close>

definition counter_of :: "'a generator_base_scheme \<Rightarrow> OFPT_T \<Rightarrow> u32" where
  "counter_of g t = (case counters g t of None \<Rightarrow> 0 | Some c \<Rightarrow> c)"

lemma counter_of_count_msg:
  "counter_of (count_msg m g) t = counter_of g t + (if mtype (of_msg m) = t then 1 else 0)"
  by (simp add: counter_of_def count_msg_def Let_def split: option.splits)

section \<open>ConstantGenerator\<close>

text \<open>
  \<open>(uint32_t)(1000000000. / (double)avg_rate)\<close>: the quotient of two doubles is the exact
  quotient rounded to 53 significant bits, ties to even, then truncated.  The scale \<open>e\<close> is
  the least one that leaves at least 53 bits before the point.  A rate of zero divides to
  infinity, whose conversion is undefined.
\<close>

function dbl_scale :: "nat \<Rightarrow> nat \<Rightarrow> nat \<Rightarrow> nat" where
  "dbl_scale a b e = (if b * 2 ^ 52 \<le> a * 2 ^ e \<or> 128 \<le> e then e else dbl_scale a b (Suc e))"
  by pat_completeness auto
termination by (relation "measure (\<lambda>(a, b, e). 128 - e)") auto

declare dbl_scale.simps [simp del]

definition round_half_even :: "nat \<Rightarrow> nat \<Rightarrow> nat" where
  "round_half_even n d =
     (let q = n div d; r = n mod d
      in if 2 * r < d \<or> (2 * r = d \<and> even q) then q else Suc q)"

definition dbl_div_trunc :: "nat \<Rightarrow> nat \<Rightarrow> nat" where
  "dbl_div_trunc a b =
     (let e = dbl_scale a b 0 in round_half_even (a * 2 ^ e) b div 2 ^ e)"

definition inter_arrival :: "u32 \<Rightarrow> exn + int" where
  "inter_arrival avg_rate =
     (if avg_rate = 0 then Inl UndefinedBehaviour
      else Inr (int (dbl_div_trunc 1000000000 (unat avg_rate))))"

record ConstantGenerator = generator_base +
  inter_arrival_t :: int
  local_ns :: int
  msg_factory :: AbstractOFMsgFactory

definition ConstantGenerator_new ::
    "(string \<Rightarrow> u32 option) \<Rightarrow> (string \<Rightarrow> exn + string) \<Rightarrow> exn + ConstantGenerator" where
  "ConstantGenerator_new lexu etcd_get =
     (case etcd_get ''avg_rate'' of Inl e \<Rightarrow> Inl e | Inr rate_s \<Rightarrow>
      case lexical_cast lexu rate_s of Inl e \<Rightarrow> Inl e | Inr avg_rate \<Rightarrow>
      case etcd_get ''msg_t'' of Inl e \<Rightarrow> Inl e | Inr msg_T \<Rightarrow>
      case inter_arrival avg_rate of Inl e \<Rightarrow> Inl e | Inr ia \<Rightarrow>
        Inr \<lparr>base_time = 0, counters = Map.empty, inter_arrival_t = ia, local_ns = 0,
             msg_factory = get_message_factory msg_T\<rparr>)"

definition ConstantGenerator_peek :: "ConstantGenerator \<Rightarrow> time_point" where
  "ConstantGenerator_peek g = base_time g + local_ns g + inter_arrival_t g"

definition ConstantGenerator_next ::
    "packer \<Rightarrow> measurer \<Rightarrow> ConstantGenerator \<Rightarrow> exn + (ScheduledMsg \<times> ConstantGenerator)" where
  "ConstantGenerator_next pack len g =
     (let g1 = g\<lparr>local_ns := local_ns g + inter_arrival_t g\<rparr>;
          (m, f) = factory_make pack len (msg_factory g1);
          g2 = g1\<lparr>msg_factory := f\<rparr>;
          sm = mk_ScheduledMsg (base_time g2 + local_ns g2) m
      in Inr (sm, count_msg sm g2))"

definition ConstantGenerator_update ::
    "(string \<Rightarrow> u32 option) \<Rightarrow> string \<Rightarrow> string \<Rightarrow> ConstantGenerator \<Rightarrow> exn + ConstantGenerator" where
  "ConstantGenerator_update lexu key value g =
     (if key = ''avg_rate'' then
        (case lexical_cast lexu value of Inl e \<Rightarrow> Inl e | Inr r \<Rightarrow>
         case inter_arrival r of Inl e \<Rightarrow> Inl e | Inr ia \<Rightarrow> Inr (g\<lparr>inter_arrival_t := ia\<rparr>))
      else Inr g)"

section \<open>TenantGenerator\<close>

text \<open>
  \<open>weights\<close> is the vector of the object, \<open>disc_weights\<close> those of the distribution the
  draws use; \<open>next_msg\<close> counts microseconds, as the code's duration does, and starts from
  \<open>next0\<close>, what a default-constructed duration of Boost holds (the code never sets it).
\<close>

record ('w, 'r) TenantGenerator = generator_base +
  weights :: "'w list"
  of_types :: "OFPT_T list"
  rng :: 'r
  exp_rate :: u32
  disc_weights :: "'w list"
  next_msg :: int
  idx :: u32

definition TenantGenerator_new ::
    "(u32 \<Rightarrow> 'r \<Rightarrow> nat \<times> 'r) \<Rightarrow> int \<Rightarrow> 'r \<Rightarrow> u32 \<Rightarrow> OFPT_T list \<Rightarrow> 'w list \<Rightarrow> ('w, 'r) TenantGenerator" where
  "TenantGenerator_new exp_us next0 seed rate types ws =
     (let (us, r) = exp_us rate seed
      in \<lparr>base_time = 0, counters = Map.empty, weights = ws, of_types = types, rng = r,
          exp_rate = rate, disc_weights = ws, next_msg = next0 + int us, idx = 0\<rparr>)"

definition TenantGenerator_peek :: "('w, 'r) TenantGenerator \<Rightarrow> time_point" where
  "TenantGenerator_peek g = base_time g + 1000 * next_msg g"

definition tenant_msg :: "packer \<Rightarrow> measurer \<Rightarrow> OFPT_T \<Rightarrow> u32 \<Rightarrow> exn + AbstractOFMsg" where
  "tenant_msg pack len t i =
     (case t of
        FEATURE_REQUEST \<Rightarrow> Inr (FeatureRequestOFMsg_gen pack len i)
      | ECHO_REQUEST \<Rightarrow> Inr (EchoRequestOFMsg_gen pack len i)
      | STATS_REQUEST_PORT \<Rightarrow> Inr (StatsRequestPortOFMsg_gen pack len i)
      | STATS_REQUEST_FLOW \<Rightarrow> Inr (StatsRequestFlowOFMsg_gen pack len i)
      | PACKET_OUT_UDP \<Rightarrow> Inr (PacketOutUDPOFMsg_gen pack len i)
      | FLOW_MOD \<Rightarrow> Inr (FlowModOFMsg_gen pack len i)
      | _ \<Rightarrow> Inl AssertFailed)"

definition TenantGenerator_next ::
    "packer \<Rightarrow> measurer \<Rightarrow> (u32 \<Rightarrow> 'r \<Rightarrow> nat \<times> 'r) \<Rightarrow> ('w list \<Rightarrow> 'r \<Rightarrow> nat \<times> 'r) \<Rightarrow>
     ('w, 'r) TenantGenerator \<Rightarrow> exn + (ScheduledMsg \<times> ('w, 'r) TenantGenerator)" where
  "TenantGenerator_next pack len exp_us disc g =
     (let g1 = g\<lparr>idx := idx g + 1\<rparr>;
          (k, r1) = disc (disc_weights g1) (rng g1);
          g2 = g1\<lparr>rng := r1\<rparr>
      in if length (of_types g2) \<le> k then Inl UndefinedBehaviour
         else case tenant_msg pack len (of_types g2 ! k) (idx g2) of
                Inl e \<Rightarrow> Inl e
              | Inr m \<Rightarrow>
                  let sm = mk_ScheduledMsg (base_time g2 + 1000 * next_msg g2) m;
                      (us, r2) = exp_us (exp_rate g2) (rng g2);
                      g3 = g2\<lparr>rng := r2, next_msg := next_msg g2 + int us\<rparr>
                  in Inr (sm, count_msg sm g3))"

fun index_of :: "'a \<Rightarrow> 'a list \<Rightarrow> nat option" where
  "index_of x [] = None"
| "index_of x (y # ys) = (if y = x then Some 0 else map_option Suc (index_of x ys))"

definition TenantGenerator_update ::
    "(string \<Rightarrow> u32 option) \<Rightarrow> (string \<Rightarrow> 'w option) \<Rightarrow> string \<Rightarrow> string \<Rightarrow>
     ('w, 'r) TenantGenerator \<Rightarrow> exn + ('w, 'r) TenantGenerator" where
  "TenantGenerator_update lexu lexf key value g =
     (case (if key = ''avg_rate''
            then map_sum id (\<lambda>r. g\<lparr>exp_rate := r\<rparr>) (lexical_cast lexu value)
            else Inr g) of
        Inl e \<Rightarrow> Inl e
      | Inr g1 \<Rightarrow>
          (case OFPT_RSTR key of
             None \<Rightarrow> Inr g1
           | Some t \<Rightarrow>
               (case index_of t (of_types g1) of
                  None \<Rightarrow> Inr g1
                | Some i \<Rightarrow>
                    (case lexical_cast lexf value of
                       Inl e \<Rightarrow> Inl e
                     | Inr w \<Rightarrow>
                         if length (weights g1) \<le> i then Inl UndefinedBehaviour
                         else let ws = (weights g1)[i := w]
                              in Inr (g1\<lparr>weights := ws, disc_weights := ws\<rparr>)))))"

section \<open>GeneratorContainer\<close>

text \<open>
  A container of generators that share an interface: \<open>pk\<close> and \<open>nx\<close> are their
  \<open>peek\<close> and \<open>next\<close>.
\<close>

record 'g GeneratorContainer = generator_base +
  generators :: "'g list"

definition container_add :: "'g \<Rightarrow> 'g GeneratorContainer \<Rightarrow> 'g GeneratorContainer" where
  "container_add x c = c\<lparr>generators := generators c @ [x]\<rparr>"

definition container_set_time_reference ::
    "(time_point \<Rightarrow> 'g \<Rightarrow> 'g) \<Rightarrow> time_point \<Rightarrow> 'g GeneratorContainer \<Rightarrow> 'g GeneratorContainer" where
  "container_set_time_reference setref t c =
     c\<lparr>base_time := t, generators := map (setref t) (generators c)\<rparr>"

definition container_peek :: "('g \<Rightarrow> time_point) \<Rightarrow> 'g GeneratorContainer \<Rightarrow> exn + time_point" where
  "container_peek pk c =
     (case generators c of
        [] \<Rightarrow> Inl AssertFailed
      | g # gs \<Rightarrow> Inr (foldl (\<lambda>m x. if pk x < m then pk x else m) (pk g) (g # gs)))"

text \<open>The loop of \<open>next\<close>: the index of the generator \<open>min\<close> points to.\<close>

fun select_min :: "('g \<Rightarrow> time_point) \<Rightarrow> 'g list \<Rightarrow> nat \<Rightarrow> 'g \<times> nat \<Rightarrow> 'g \<times> nat" where
  "select_min pk [] i m = m"
| "select_min pk (x # xs) i m =
     select_min pk xs (Suc i) (if pk x < pk (fst m) then (x, i) else m)"

definition container_next ::
    "('g \<Rightarrow> time_point) \<Rightarrow> ('g \<Rightarrow> exn + (ScheduledMsg \<times> 'g)) \<Rightarrow>
     'g GeneratorContainer \<Rightarrow> exn + (ScheduledMsg \<times> 'g GeneratorContainer)" where
  "container_next pk nx c =
     (case generators c of
        [] \<Rightarrow> Inl AssertFailed
      | g # gs \<Rightarrow>
          (let (m, i) = select_min pk (g # gs) 0 (g, 0)
           in case nx m of
                Inl e \<Rightarrow> Inl e
              | Inr (sm, m') \<Rightarrow>
                  Inr (sm, count_msg sm (c\<lparr>generators := (generators c)[i := m']\<rparr>))))"

section \<open>AbstractGenerator\<close>

text \<open>
  What a tenant holds: a pointer to the base class, whose virtual functions dispatch on the
  class of the object.
\<close>

datatype ('w, 'r) AbstractGenerator =
    AConstant ConstantGenerator
  | ATenant "('w, 'r) TenantGenerator"

fun AbstractGenerator_peek :: "('w, 'r) AbstractGenerator \<Rightarrow> time_point" where
  "AbstractGenerator_peek (AConstant g) = ConstantGenerator_peek g"
| "AbstractGenerator_peek (ATenant g) = TenantGenerator_peek g"

fun AbstractGenerator_next ::
    "packer \<Rightarrow> measurer \<Rightarrow> (u32 \<Rightarrow> 'r \<Rightarrow> nat \<times> 'r) \<Rightarrow> ('w list \<Rightarrow> 'r \<Rightarrow> nat \<times> 'r) \<Rightarrow>
     ('w, 'r) AbstractGenerator \<Rightarrow> exn + (ScheduledMsg \<times> ('w, 'r) AbstractGenerator)" where
  "AbstractGenerator_next pack len exp_us disc (AConstant g) =
     map_sum id (map_prod id AConstant) (ConstantGenerator_next pack len g)"
| "AbstractGenerator_next pack len exp_us disc (ATenant g) =
     map_sum id (map_prod id ATenant) (TenantGenerator_next pack len exp_us disc g)"

fun AbstractGenerator_set_time_reference ::
    "time_point \<Rightarrow> ('w, 'r) AbstractGenerator \<Rightarrow> ('w, 'r) AbstractGenerator" where
  "AbstractGenerator_set_time_reference t (AConstant g) = AConstant (set_time_reference t g)"
| "AbstractGenerator_set_time_reference t (ATenant g) = ATenant (set_time_reference t g)"

fun AbstractGenerator_update ::
    "(string \<Rightarrow> u32 option) \<Rightarrow> (string \<Rightarrow> 'w option) \<Rightarrow> string \<Rightarrow> string \<Rightarrow>
     ('w, 'r) AbstractGenerator \<Rightarrow> exn + ('w, 'r) AbstractGenerator" where
  "AbstractGenerator_update lexu lexf key value (AConstant g) =
     map_sum id AConstant (ConstantGenerator_update lexu key value g)"
| "AbstractGenerator_update lexu lexf key value (ATenant g) =
     map_sum id ATenant (TenantGenerator_update lexu lexf key value g)"

end
