(* ===== verification/GeneratorFacts.thy ===== *)
theory GeneratorFacts
  imports Generators
begin

text \<open>
  What the generators promise.  The interface \<open>AbstractGenerator\<close> is the locale
  \<open>generator\<close>: \<open>next\<close> emits a well-formed message for the time \<open>peek\<close> announced,
  and never announces an earlier time afterwards.  Its consequences (a run is ordered in
  time; a container of generators is again a generator that merges them) are proved once
  and hold for the constant generator, the tenant generator and containers of them.
\<close>

section \<open>Runs of a generator\<close>

fun gen_run :: "('g \<Rightarrow> exn + (ScheduledMsg \<times> 'g)) \<Rightarrow> nat \<Rightarrow> 'g \<Rightarrow> exn + (ScheduledMsg list \<times> 'g)" where
  "gen_run nx 0 g = Inr ([], g)"
| "gen_run nx (Suc n) g =
     (case nx g of Inl e \<Rightarrow> Inl e | Inr (m, g1) \<Rightarrow>
      case gen_run nx n g1 of Inl e \<Rightarrow> Inl e | Inr (ms, g2) \<Rightarrow> Inr (m # ms, g2))"

definition container_pk :: "('g \<Rightarrow> time_point) \<Rightarrow> 'g GeneratorContainer \<Rightarrow> time_point" where
  "container_pk pk c = (case container_peek pk c of Inl _ \<Rightarrow> 0 | Inr t \<Rightarrow> t)"

definition container_inv :: "('g \<Rightarrow> bool) \<Rightarrow> 'g GeneratorContainer \<Rightarrow> bool" where
  "container_inv ok c \<longleftrightarrow> generators c \<noteq> [] \<and> list_all ok (generators c)"

lemma select_min_spec:
  "select_min pk xs i (m, k) = (m', k') \<Longrightarrow>
     (\<forall>x\<in>set xs. pk m' \<le> pk x) \<and> pk m' \<le> pk m \<and>
     ((m', k') = (m, k) \<or> (\<exists>j<length xs. k' = i + j \<and> m' = xs ! j))"
proof (induction pk xs i "(m, k)" arbitrary: m k rule: select_min.induct)
  case (1 pk i)
  then show ?case by simp
next
  case (2 pk x xs i)
  show ?case
  proof (cases "pk x < pk m")
    case True
    then have *: "select_min pk xs (Suc i) (x, i) = (m', k')" using "2.prems" by simp
    have IH: "(\<forall>x\<in>set xs. pk m' \<le> pk x) \<and> pk m' \<le> pk x \<and>
      ((m', k') = (x, i) \<or> (\<exists>j<length xs. k' = Suc i + j \<and> m' = xs ! j))"
      by (rule "2.hyps") (use True * in auto)
    then have "(m', k') = (x, i) \<or> (\<exists>j<length xs. k' = i + Suc j \<and> m' = (x # xs) ! Suc j)"
      by auto
    then have "\<exists>j<length (x # xs). k' = i + j \<and> m' = (x # xs) ! j"
      by (metis Pair_inject Suc_less_eq add_0_right length_Cons nth_Cons_0 zero_less_Suc)
    with True IH show ?thesis by auto
  next
    case False
    then have *: "select_min pk xs (Suc i) (m, k) = (m', k')" using "2.prems" by simp
    have IH: "(\<forall>x\<in>set xs. pk m' \<le> pk x) \<and> pk m' \<le> pk m \<and>
      ((m', k') = (m, k) \<or> (\<exists>j<length xs. k' = Suc i + j \<and> m' = xs ! j))"
      by (rule "2.hyps") (use False * in auto)
    then have "(m', k') = (m, k) \<or> (\<exists>j<length (x # xs). k' = i + j \<and> m' = (x # xs) ! j)"
      by (metis Suc_less_eq add_Suc_right add_Suc length_Cons nth_Cons_Suc)
    with False IH show ?thesis by auto
  qed
qed

lemma select_min_front:
  assumes "select_min pk (x # xs) 0 (x, 0) = (m, i)"
  shows "i < length (x # xs)" and "m = (x # xs) ! i" and "\<forall>y\<in>set (x # xs). pk m \<le> pk y"
  using select_min_spec [OF assms] by auto

lemma fold_min:
  "foldl (\<lambda>m x. if pk x < m then pk x else m) (t :: int) xs = Min (insert t (pk ` set xs))"
proof (induction xs arbitrary: t)
  case Nil
  then show ?case by simp
next
  case (Cons x xs)
  have "(if pk x < t then pk x else t) = min (pk x) t" by simp
  then show ?case
    by (cases "xs = []") (simp_all add: Cons.IH min.left_commute min.commute)
qed

lemma container_peek_Min:
  assumes "generators c \<noteq> []"
  shows "container_peek pk c = Inr (Min (pk ` set (generators c)))"
proof -
  obtain g gs where "generators c = g # gs" using assms by (cases "generators c") auto
  then show ?thesis by (simp add: container_peek_def fold_min del: foldl_Cons)
qed

locale generator =
  fixes pk :: "'g \<Rightarrow> time_point"
    and nx :: "'g \<Rightarrow> exn + (ScheduledMsg \<times> 'g)"
    and ok :: "'g \<Rightarrow> bool"
  assumes nx_total: "ok g \<Longrightarrow> \<exists>m g'. nx g = Inr (m, g')"
    and nx_inv: "ok g \<Longrightarrow> nx g = Inr (m, g') \<Longrightarrow> ok g'"
    and nx_time: "ok g \<Longrightarrow> nx g = Inr (m, g') \<Longrightarrow> time_ns m = pk g"
    and nx_later: "ok g \<Longrightarrow> nx g = Inr (m, g') \<Longrightarrow> pk g \<le> pk g'"
    and nx_wf: "ok g \<Longrightarrow> nx g = Inr (m, g') \<Longrightarrow>
      wf_msg (of_msg m) \<and> awaits_reply m = has_reply (of_msg m)"
begin

lemma run_total: "ok g \<Longrightarrow> \<exists>ms g'. gen_run nx n g = Inr (ms, g') \<and> length ms = n \<and> ok g'"
proof (induction n arbitrary: g)
  case 0
  then show ?case by simp
next
  case (Suc n)
  then obtain m g1 where 1: "nx g = Inr (m, g1)" using nx_total by blast
  with Suc.prems have "ok g1" by (rule nx_inv)
  then obtain ms g2 where "gen_run nx n g1 = Inr (ms, g2)" "length ms = n" "ok g2"
    using Suc.IH by blast
  with 1 show ?case by simp
qed

lemma run_sorted:
  "ok g \<Longrightarrow> gen_run nx n g = Inr (ms, g') \<Longrightarrow>
     sorted (map time_ns ms) \<and> (\<forall>m\<in>set ms. pk g \<le> time_ns m) \<and> pk g \<le> pk g'"
proof (induction n arbitrary: g ms)
  case 0
  then show ?case by simp
next
  case (Suc n)
  then obtain m g1 ms' where *: "nx g = Inr (m, g1)" "gen_run nx n g1 = Inr (ms', g')"
      "ms = m # ms'"
    by (auto split: sum.splits)
  have "ok g1" and t: "time_ns m = pk g" and l: "pk g \<le> pk g1"
    using Suc.prems(1) *(1) nx_inv nx_time nx_later by blast+
  from Suc.IH [OF \<open>ok g1\<close> *(2)] t l show ?case
    by (auto simp: *(3) dest: order_trans)
qed

lemma run_wf:
  "ok g \<Longrightarrow> gen_run nx n g = Inr (ms, g') \<Longrightarrow>
     \<forall>m\<in>set ms. wf_msg (of_msg m) \<and> awaits_reply m = has_reply (of_msg m)"
proof (induction n arbitrary: g ms)
  case 0
  then show ?case by simp
next
  case (Suc n)
  then obtain m g1 ms' where *: "nx g = Inr (m, g1)" "gen_run nx n g1 = Inr (ms', g')"
      "ms = m # ms'"
    by (auto split: sum.splits)
  with Suc.IH [OF nx_inv [OF Suc.prems(1) *(1)] *(2)] nx_wf [OF Suc.prems(1) *(1)]
  show ?case by simp
qed

lemma run_first: "ok g \<Longrightarrow> gen_run nx (Suc n) g = Inr (ms, g') \<Longrightarrow> time_ns (hd ms) = pk g"
  by (auto split: sum.splits simp: nx_time)

lemma container_generator:
  "generator (container_pk pk) (container_next pk nx) (container_inv ok)"
proof -
  have pieces: "\<exists>i m m'. i < length (generators c) \<and> m = generators c ! i \<and> ok m \<and>
        (\<forall>y\<in>set (generators c). pk m \<le> pk y) \<and> container_pk pk c = pk m \<and>
        nx m = Inr (sm, m') \<and>
        c' = count_msg sm (c\<lparr>generators := (generators c)[i := m']\<rparr>)"
    if inv: "container_inv ok c" and nx: "container_next pk nx c = Inr (sm, c')" for c sm c'
  proof -
    obtain g gs where gs: "generators c = g # gs"
      using inv by (cases "generators c") (auto simp: container_inv_def)
    obtain m i where sel: "select_min pk (g # gs) 0 (g, 0) = (m, i)" by force
    note sm = select_min_front [OF this]
    obtain m' where m': "nx m = Inr (sm, m')"
        "c' = count_msg sm (c\<lparr>generators := (generators c)[i := m']\<rparr>)"
      using nx sel by (auto simp: container_next_def gs simp del: select_min.simps split: sum.splits)
    have "ok m" using inv sm(1,2) by (auto simp: container_inv_def gs list_all_iff nth_Cons' split: if_splits)
    moreover have "container_pk pk c = pk m"
      using sm by (auto simp: container_pk_def container_peek_Min gs Min_eq_iff nth_Cons' split: if_splits)
    ultimately show ?thesis using sm m' unfolding gs by blast
  qed
  have peekM: "container_pk pk c = Min (pk ` set (generators c))" if "container_inv ok c" for c
    using that by (simp add: container_pk_def container_peek_Min container_inv_def)
  have gens: "generators (count_msg sm c) = generators c" for sm and c :: "'g GeneratorContainer"
    by (simp add: count_msg_def Let_def split: option.splits)
  show ?thesis
  proof
    fix c :: "'g GeneratorContainer" assume inv: "container_inv ok c"
    obtain g gs where gs: "generators c = g # gs"
      using inv by (cases "generators c") (auto simp: container_inv_def)
    obtain m i where sel: "select_min pk (g # gs) 0 (g, 0) = (m, i)" by force
    have "ok m" using inv select_min_front(1,2) [OF sel]
      by (auto simp: container_inv_def gs list_all_iff nth_Cons' split: if_splits)
    then show "\<exists>m c'. container_next pk nx c = Inr (m, c')"
      using nx_total [of m] sel by (auto simp: container_next_def gs simp del: select_min.simps)
  next
    fix c :: "'g GeneratorContainer" and sm c'
    assume inv: "container_inv ok c" and nx: "container_next pk nx c = Inr (sm, c')"
    from pieces [OF this] obtain i m m' where p: "i < length (generators c)"
        "m = generators c ! i" "ok m" "\<forall>y\<in>set (generators c). pk m \<le> pk y"
        "container_pk pk c = pk m" "nx m = Inr (sm, m')"
        "c' = count_msg sm (c\<lparr>generators := (generators c)[i := m']\<rparr>)" by blast
    have gc: "generators c' = (generators c)[i := m']" by (simp add: p(7) gens)
    show inv': "container_inv ok c'"
      using inv nx_inv [OF p(3,6)] set_update_subset_insert [of "generators c" i m']
      by (auto simp: container_inv_def gc list_all_iff)
    show "time_ns sm = container_pk pk c" using nx_time [OF p(3,6)] p(5) by simp
    show "wf_msg (of_msg sm) \<and> awaits_reply sm = has_reply (of_msg sm)"
      by (rule nx_wf [OF p(3,6)])
    have "pk m \<le> pk y" if "y \<in> set (generators c')" for y
      using that p(4) nx_later [OF p(3,6)] set_update_subset_insert [of "generators c" i m']
      by (auto simp: gc)
    then show "container_pk pk c \<le> container_pk pk c'"
      using inv' by (simp add: p(5) peekM container_inv_def)
  qed
qed

end


section \<open>The constant generator\<close>

definition constant_ok :: "ConstantGenerator \<Rightarrow> bool" where
  "constant_ok g \<longleftrightarrow> 0 \<le> inter_arrival_t g"

lemma counters_count_msg:
  "count_msg m (g :: 'a generator_base_scheme) = g\<lparr>counters := counters (count_msg m g)\<rparr>"
  by (simp add: count_msg_def Let_def split: option.splits)

lemma ConstantGenerator_count_msg [simp]:
  "inter_arrival_t (count_msg m g) = inter_arrival_t g"
  "local_ns (count_msg m g) = local_ns g"
  "msg_factory (count_msg m g) = msg_factory g"
  by (subst counters_count_msg, simp)+

lemma base_time_count_msg [simp]:
  "base_time (count_msg m g) = base_time g"
  by (subst counters_count_msg, simp)

interpretation cgen: generator ConstantGenerator_peek "ConstantGenerator_next pack len" constant_ok
  for pack len
  by unfold_locales
     (auto simp: ConstantGenerator_next_def ConstantGenerator_peek_def constant_ok_def Let_def
       factory_make_def mk_ScheduledMsg_def factory_gen_wf split: prod.splits)

text \<open>The messages of a run: the times are an arithmetic progression, the identifiers count.\<close>

definition constant_msgs :: "packer \<Rightarrow> measurer \<Rightarrow> ConstantGenerator \<Rightarrow> nat \<Rightarrow> ScheduledMsg list" where
  "constant_msgs pack len g n =
     map (\<lambda>k. mk_ScheduledMsg (base_time g + local_ns g + int k * inter_arrival_t g)
              (factory_gen (fkind (msg_factory g)) pack len (cnt (msg_factory g) + word_of_nat k)))
         [1..<Suc n]"

lemma constant_next:
  "ConstantGenerator_next pack len g =
     (let sm = mk_ScheduledMsg (ConstantGenerator_peek g)
                 (factory_gen (fkind (msg_factory g)) pack len (cnt (msg_factory g) + 1))
      in Inr (sm, count_msg sm (g\<lparr>local_ns := local_ns g + inter_arrival_t g,
                                   msg_factory := (msg_factory g)\<lparr>cnt := cnt (msg_factory g) + 1\<rparr>\<rparr>)))"
  by (simp add: ConstantGenerator_next_def factory_make_def Let_def ConstantGenerator_peek_def
      algebra_simps)

lemma map_upt_Suc1: "map f [1..<Suc (Suc n)] = f 1 # map (\<lambda>k. f (Suc k)) [1..<Suc n]"
proof -
  have "[1..<Suc (Suc n)] = 1 # map Suc [1..<Suc n]"
    by (subst upt_conv_Cons) (simp_all add: map_Suc_upt del: upt_Suc)
  then show ?thesis by (simp add: comp_def del: upt_Suc)
qed

text \<open>
  C11.  The constant generator is periodic: its k-th message is scheduled k inter-arrival
  times after the local time it started from, the identifiers of its messages follow each
  other and their type is the one of its factory, for any number of messages.
\<close>

theorem ConstantGenerator_periodic:
  "map_sum id fst (gen_run (ConstantGenerator_next pack len) n g) = Inr (constant_msgs pack len g n)"
proof (induction n arbitrary: g)
  case 0
  then show ?case by (simp add: constant_msgs_def)
next
  case (Suc n)
  let ?sm = "mk_ScheduledMsg (ConstantGenerator_peek g)
      (factory_gen (fkind (msg_factory g)) pack len (cnt (msg_factory g) + 1))"
  let ?g = "count_msg ?sm (g\<lparr>local_ns := local_ns g + inter_arrival_t g,
      msg_factory := (msg_factory g)\<lparr>cnt := cnt (msg_factory g) + 1\<rparr>\<rparr>)"
  obtain ms g2 where run: "gen_run (ConstantGenerator_next pack len) n ?g = Inr (ms, g2)"
      "ms = constant_msgs pack len ?g n"
    using Suc.IH [of ?g]
    by (cases "gen_run (ConstantGenerator_next pack len) n ?g") auto
  have "?sm # constant_msgs pack len ?g n = constant_msgs pack len g (Suc n)"
    unfolding constant_msgs_def map_upt_Suc1
    by (simp add: ConstantGenerator_peek_def algebra_simps del: upt_Suc)
  then show ?case
    unfolding gen_run.simps constant_next [of pack len g] Let_def using run by simp
qed

lemma counter_of_simps [simp]:
  "counter_of (g\<lparr>local_ns := l, msg_factory := f\<rparr>) t = counter_of g t"
  by (simp add: counter_of_def)

section \<open>The exact inter-arrival time\<close>

lemma dbl_scale_enough:
  "e0 \<le> 128 \<Longrightarrow> b * 2 ^ 52 \<le> a * 2 ^ dbl_scale a b e0 \<or> dbl_scale a b e0 = 128"
proof (induction a b e0 rule: dbl_scale.induct)
  case (1 a b e0)
  show ?case
  proof (cases "b * 2 ^ 52 \<le> a * 2 ^ e0 \<or> 128 \<le> e0")
    case True
    then have "dbl_scale a b e0 = e0" by (subst dbl_scale.simps) simp
    with True 1 show ?thesis by auto
  next
    case False
    then have "dbl_scale a b e0 = dbl_scale a b (Suc e0)" by (subst dbl_scale.simps) simp
    with 1 False show ?thesis by simp
  qed
qed

lemma round_half_even_bounds:
  assumes "0 < d"
  shows "n div d \<le> round_half_even n d" and "2 * d * round_half_even n d \<le> 2 * n + d"
proof -
  have *: "d * (n div d) + n mod d = n" by simp
  show "n div d \<le> round_half_even n d" by (simp add: round_half_even_def Let_def)
  have "2 * d * (n div d) \<le> 2 * n" using * by (metis add_leD1 le_refl mult.assoc mult_le_mono2)
  moreover have "2 * d * Suc (n div d) \<le> 2 * n + d" if "\<not> 2 * (n mod d) < d"
  proof -
    have "2 * d * Suc (n div d) = 2 * (d * (n div d)) + 2 * d" by simp
    also have "\<dots> = 2 * n - 2 * (n mod d) + 2 * d" using * by linarith
    also have "\<dots> \<le> 2 * n + d" using that * by linarith
    finally show ?thesis .
  qed
  ultimately show "2 * d * round_half_even n d \<le> 2 * n + d"
    by (simp add: round_half_even_def Let_def trans_le_add1 del: mult_Suc_right)
qed

text \<open>
  Rounding never carries the quotient over the next integer: this would need a remainder
  within half a unit of the last place of the divisor, which 53 bits exclude.
\<close>

lemma dbl_div_trunc_eq:
  assumes b: "0 < b" "b \<le> 2 ^ 52" and a: "0 < a" "a \<le> 2 ^ 52"
  shows "dbl_div_trunc a b = a div b"
proof -
  define e where "e = dbl_scale a b 0"
  define q where "q = round_half_even (a * 2 ^ e) b"
  have lo: "a * 2 ^ e div b \<le> q" and hi: "2 * b * q \<le> 2 * (a * 2 ^ e) + b"
    unfolding q_def using round_half_even_bounds [OF b(1)] by simp_all
  have "a div b * 2 ^ e \<le> a * 2 ^ e div b"
  proof -
    have "a div b * 2 ^ e * b \<le> a * 2 ^ e"
      using div_times_less_eq_dividend [of a b] by (simp add: mult.assoc mult.commute mult.left_commute)
    then show ?thesis using b(1) by (simp add: less_eq_div_iff_mult_less_eq)
  qed
  then have ge: "a div b \<le> q div 2 ^ e"
    using lo by (simp add: less_eq_div_iff_mult_less_eq)
  have le: "q div 2 ^ e \<le> a div b"
  proof (rule ccontr)
    assume "\<not> q div 2 ^ e \<le> a div b"
    then have "Suc (a div b) \<le> q div 2 ^ e" by (simp only: not_le Suc_le_eq)
    then have "Suc (a div b) * 2 ^ e \<le> q"
      by (subst (asm) less_eq_div_iff_mult_less_eq) simp_all
    then have "2 * b * (Suc (a div b) * 2 ^ e) \<le> 2 * (a * 2 ^ e) + b"
      using hi by (meson le_trans mult_le_mono2)
    moreover have "a + 1 \<le> b * Suc (a div b)" using b(1) dividend_less_times_div [of b a] by simp
    then have "2 * ((a + 1) * 2 ^ e) \<le> 2 * b * (Suc (a div b) * 2 ^ e)"
      by (metis (no_types, lifting) mult.assoc mult_le_mono1 mult_le_mono2)
    ultimately have small: "2 * 2 ^ e \<le> b" by (simp add: algebra_simps)
    have "b * 2 ^ 52 \<le> a * 2 ^ e \<or> e = 128" unfolding e_def by (rule dbl_scale_enough) simp
    then show False
    proof
      assume "b * 2 ^ 52 \<le> a * 2 ^ e"
      also have "\<dots> \<le> 2 ^ 52 * 2 ^ e" using a(2) by (rule mult_le_mono1)
      finally have "b \<le> 2 ^ e" by (simp add: mult.commute)
      with small b(1) show False by linarith
    next
      assume "e = 128"
      then have "2 * 2 ^ 128 \<le> b" using small by simp
      with b(2) show False by simp
    qed
  qed
  show ?thesis using ge le unfolding dbl_div_trunc_def Let_def e_def q_def by simp
qed

text \<open>
  C12.  For every rate a generator can be configured with, the conversion through double
  yields exactly the integer quotient of a second by the rate; a rate of zero has none, and
  above a billion messages a second the messages all have the same time.
\<close>

theorem inter_arrival_exact:
  "inter_arrival rate =
     (if rate = 0 then Inl UndefinedBehaviour else Inr (1000000000 div uint rate))"
proof (cases "rate = 0")
  case False
  then have "0 < unat rate" by (simp add: unat_gt_0)
  moreover have "unat rate \<le> 2 ^ 52" using unsigned_less [of rate, where ?'a = nat] by simp
  ultimately have "dbl_div_trunc 1000000000 (unat rate) = 1000000000 div unat rate"
    by (rule dbl_div_trunc_eq) simp_all
  then have "int (dbl_div_trunc 1000000000 (unat rate)) = 1000000000 div uint rate"
    by (simp only: zdiv_int of_nat_numeral uint_nat [symmetric] of_nat_unat)
  with False show ?thesis unfolding inter_arrival_def by (simp only: if_False)
qed (simp add: inter_arrival_def)

lemma inter_arrival_nonneg: "inter_arrival r = Inr ia \<Longrightarrow> 0 \<le> ia"
  by (auto simp: inter_arrival_def split: if_splits)

lemma ConstantGenerator_update_ok:
  "constant_ok g \<Longrightarrow> ConstantGenerator_update lexu key v g = Inr g' \<Longrightarrow> constant_ok g'"
  by (auto simp: ConstantGenerator_update_def constant_ok_def
      split: if_splits sum.splits dest: inter_arrival_nonneg)

lemma ConstantGenerator_new_ok:
  "ConstantGenerator_new lexu get = Inr g \<Longrightarrow> constant_ok g"
  by (auto simp: ConstantGenerator_new_def constant_ok_def split: sum.splits dest: inter_arrival_nonneg)

section \<open>The tenant generator\<close>

text \<open>
  \<open>boost::random::discrete_distribution\<close> draws an index of its weights; the generator is
  set up when every index of its weights has a type that can be requested.
\<close>

definition disc_ok :: "('w list \<Rightarrow> 'r \<Rightarrow> nat \<times> 'r) \<Rightarrow> bool" where
  "disc_ok disc \<longleftrightarrow> (\<forall>ws r. ws \<noteq> [] \<longrightarrow> fst (disc ws r) < length ws)"

definition tenant_ok :: "('w list \<Rightarrow> 'r \<Rightarrow> nat \<times> 'r) \<Rightarrow> ('w, 'r) TenantGenerator \<Rightarrow> bool" where
  "tenant_ok disc g \<longleftrightarrow> disc_ok disc \<and> disc_weights g \<noteq> [] \<and>
     length (disc_weights g) = length (of_types g) \<and> length (weights g) = length (of_types g) \<and>
     set (of_types g) \<subseteq> set req_types"

lemma TenantGenerator_count_msg [simp]:
  "weights (count_msg m g) = weights g"
  "of_types (count_msg m g) = of_types g"
  "rng (count_msg m g) = rng g"
  "exp_rate (count_msg m g) = exp_rate g"
  "disc_weights (count_msg m g) = disc_weights g"
  "next_msg (count_msg m g) = next_msg g"
  "idx (count_msg m g) = idx g"
  by (subst counters_count_msg, simp)+

lemma tenant_msg_ok:
  "t \<in> set req_types \<Longrightarrow>
     \<exists>m. tenant_msg pack len t i = Inr m \<and> mtype m = t \<and> xid m = i \<and> wf_msg m"
  by (cases t) (auto simp: req_types_def tenant_msg_def gen_defs wf_msg_def latency_types_def)

lemma TenantGenerator_next_ok:
  assumes "tenant_ok disc g"
  shows "\<exists>m g'. TenantGenerator_next pack len exp_us disc g = Inr (m, g') \<and>
     mtype (of_msg m) \<in> set (of_types g) \<and> xid (of_msg m) = idx g + 1 \<and> idx g' = idx g + 1 \<and>
     of_types g' = of_types g \<and> wf_msg (of_msg m) \<and> awaits_reply m = has_reply (of_msg m) \<and>
     time_ns m = TenantGenerator_peek g \<and> TenantGenerator_peek g \<le> TenantGenerator_peek g' \<and>
     tenant_ok disc g' \<and> (\<forall>t. counter_of g' t = counter_of g t + (if mtype (of_msg m) = t then 1 else 0))"
proof -
  obtain k r1 where k: "disc (disc_weights g) (rng g) = (k, r1)" by force
  obtain us r2 where us: "exp_us (exp_rate g) r1 = (us, r2)" by force
  have "k < length (of_types g)"
    using assms k by (metis disc_ok_def fst_conv tenant_ok_def)
  moreover from this have "of_types g ! k \<in> set req_types"
    using assms by (auto simp: tenant_ok_def dest: nth_mem)
  then obtain m where "tenant_msg pack len (of_types g ! k) (idx g + 1) = Inr m"
      "mtype m = of_types g ! k" "xid m = idx g + 1" "wf_msg m"
    using tenant_msg_ok by metis
  ultimately show ?thesis
    using assms
    by (auto simp: TenantGenerator_next_def k us Let_def mk_ScheduledMsg_def
        TenantGenerator_peek_def tenant_ok_def counter_of_count_msg) (simp_all add: counter_of_def)
qed

interpretation tgen: generator TenantGenerator_peek "TenantGenerator_next pack len exp_us disc"
  "tenant_ok disc" for pack len exp_us disc
  by unfold_locales
     (metis TenantGenerator_next_ok Inr_inject Pair_inject)+

lemma index_of_Some: "index_of x xs = Some i \<Longrightarrow> i < length xs \<and> xs ! i = x"
  by (induction xs arbitrary: i) (auto split: if_splits)

lemma index_of_None: "index_of x xs = None \<longleftrightarrow> x \<notin> set xs"
  by (induction xs) auto

text \<open>Every message that is drawn has a type of the generator.\<close>

lemma TenantGenerator_run_types:
  assumes "tenant_ok disc g"
    and "gen_run (TenantGenerator_next pack len exp_us disc) n g = Inr (ms, g')"
  shows "of_types g' = of_types g \<and> (\<forall>m\<in>set ms. mtype (of_msg m) \<in> set (of_types g))"
  using assms
proof (induction n arbitrary: g ms g')
  case (Suc n)
  obtain m h where nxt: "TenantGenerator_next pack len exp_us disc g = Inr (m, h)"
      "mtype (of_msg m) \<in> set (of_types g)" "of_types h = of_types g" "tenant_ok disc h"
    using TenantGenerator_next_ok [OF Suc.prems(1)] by blast
  then obtain ms' where run: "gen_run (TenantGenerator_next pack len exp_us disc) n h = Inr (ms', g')"
      "ms = m # ms'"
    using Suc.prems(2) by (auto split: sum.splits)
  from Suc.IH [OF nxt(4) run(1)] nxt run(2) show ?case by simp
qed simp

text \<open>
  C13.  A configured tenant generator never fails: any number of messages can be drawn, in
  order of time from the time that was announced, each of a type configured for this tenant,
  and awaiting a reply exactly when its latency is measured.  Drawing keeps the types.
\<close>

theorem TenantGenerator_run:
  assumes "tenant_ok disc g"
  shows "\<exists>ms g'. gen_run (TenantGenerator_next pack len exp_us disc) n g = Inr (ms, g') \<and>
     length ms = n \<and> tenant_ok disc g' \<and> of_types g' = of_types g \<and> sorted (map time_ns ms) \<and>
     (\<forall>m\<in>set ms. TenantGenerator_peek g \<le> time_ns m \<and> mtype (of_msg m) \<in> set (of_types g) \<and>
        (awaits_reply m \<longleftrightarrow> mtype (of_msg m) \<in> set latency_types))"
proof -
  obtain ms g' where run: "gen_run (TenantGenerator_next pack len exp_us disc) n g = Inr (ms, g')"
      "length ms = n" "tenant_ok disc g'"
    using tgen.run_total [OF assms] by blast
  from tgen.run_sorted [OF assms run(1)] tgen.run_wf [OF assms run(1)]
    TenantGenerator_run_types [OF assms run(1)] run show ?thesis
    by (auto simp: wf_msg_def)
qed

definition demo_tenant :: "(nat, nat) TenantGenerator" where
  "demo_tenant = TenantGenerator_new (\<lambda>rate r. (500 + r, Suc r)) 0 7 10
     [ECHO_REQUEST, FLOW_MOD] [1, 3]"

definition demo_disc :: "nat list \<Rightarrow> nat \<Rightarrow> nat \<times> nat" where
  "demo_disc ws r = (r mod length ws, Suc r)"

lemma demo_tenant_ok: "tenant_ok demo_disc demo_tenant"
  by (simp add: tenant_ok_def demo_disc_def demo_tenant_def TenantGenerator_new_def disc_ok_def
      req_types_def)

lemma TenantGenerator_run_witness:
  "\<exists>ms g'. gen_run (TenantGenerator_next (\<lambda>_. []) (\<lambda>_. 0) (\<lambda>rate r. (500 + r, Suc r)) demo_disc)
       3 demo_tenant = Inr (ms, g') \<and> length ms = 3 \<and> sorted (map time_ns ms) \<and>
     (\<forall>m\<in>set ms. mtype (of_msg m) \<in> {ECHO_REQUEST, FLOW_MOD})"
proof -
  have "set (of_types demo_tenant) = {ECHO_REQUEST, FLOW_MOD}"
    by (simp add: demo_tenant_def TenantGenerator_new_def)
  with TenantGenerator_run [OF demo_tenant_ok, of "\<lambda>_. []" "\<lambda>_. 0" "\<lambda>rate r. (500 + r, Suc r)" 3]
  show ?thesis by metis
qed

text \<open>
   A new weight for a message type of the tenant changes the weight of that type alone, in
  the vector and in the distribution, and keeps the generator in working order; a key that is
  no type of the tenant changes no weight.
\<close>

theorem TenantGenerator_update_weight:
  assumes "tenant_ok disc g" and "distinct (of_types g)" and "OFPT_RSTR key = Some t"
    and "lexf value = Some w"
  shows "\<exists>g'. TenantGenerator_update lexu lexf key value g = Inr g' \<and> tenant_ok disc g' \<and>
     (\<forall>i<length (of_types g).
        weights g' ! i = (if of_types g ! i = t then w else weights g ! i)) \<and>
     (t \<in> set (of_types g) \<longrightarrow> disc_weights g' = weights g') \<and>
     of_types g' = of_types g \<and> exp_rate g' = exp_rate g"
proof -
  have ne: "key \<noteq> ''avg_rate''" using assms(3) by (auto simp: OFPT_RSTR_def split: if_splits)
  show ?thesis
  proof (cases "index_of t (of_types g)")
    case None
    then have "t \<notin> set (of_types g)" by (simp add: index_of_None)
    then show ?thesis using assms None ne
      by (auto simp: TenantGenerator_update_def dest: nth_mem)
  next
    case (Some i)
    with index_of_Some [OF this] assms ne show ?thesis
      by (auto simp: TenantGenerator_update_def lexical_cast_def tenant_ok_def Let_def
          nth_list_update nth_eq_iff_index_eq)
  qed
qed

lemma TenantGenerator_update_weight_witness:
  "\<exists>g'. TenantGenerator_update (\<lambda>_. None) (\<lambda>s. if s = ''5'' then Some 5 else None) ''FLOW_MOD'' ''5''
       demo_tenant = Inr g' \<and> weights g' = [1, 5] \<and> disc_weights g' = [1, 5]"
proof -
  have w: "weights demo_tenant = [1, 3]" and t: "of_types demo_tenant = [ECHO_REQUEST, FLOW_MOD]"
    by (simp_all add: demo_tenant_def TenantGenerator_new_def)
  obtain g' where g': "TenantGenerator_update (\<lambda>_. None) (\<lambda>s. if s = ''5'' then Some 5 else None)
      ''FLOW_MOD'' ''5'' demo_tenant = Inr g'" "tenant_ok demo_disc g'"
      "\<forall>i<2. weights g' ! i = (if of_types demo_tenant ! i = FLOW_MOD then 5 else weights demo_tenant ! i)"
      "disc_weights g' = weights g'" "of_types g' = of_types demo_tenant"
    using TenantGenerator_update_weight [OF demo_tenant_ok, of "''FLOW_MOD''" FLOW_MOD
        "\<lambda>s. if s = ''5'' then Some 5 else None" "''5''" 5 "\<lambda>_. None"]
    by (auto simp: t OFPT_RSTR_names)
  have "length (weights g') = 2" using g'(2,5) by (simp add: tenant_ok_def t)
  then have "weights g' = [1, 5]"
    using g'(3) by (auto simp: w t list_eq_iff_nth_eq less_2_cases_iff)
  with g' show ?thesis by simp
qed

section \<open>Containers of generators\<close>

interpretation cgens: generator "container_pk ConstantGenerator_peek"
  "container_next ConstantGenerator_peek (ConstantGenerator_next pack len)"
  "container_inv constant_ok" for pack len
  by (rule cgen.container_generator)

interpretation tgens: generator "container_pk TenantGenerator_peek"
  "container_next TenantGenerator_peek (TenantGenerator_next pack len exp_us disc)"
  "container_inv (tenant_ok disc)" for pack len exp_us disc
  by (rule tgen.container_generator)

text \<open>
   A container merges its generators: a non-empty container of configured tenant
  generators yields any number of messages in order of time, the first one at the earliest
  time any of its generators announces, which is what its own \<open>peek\<close> returns.
\<close>

theorem container_merges:
  assumes "generators c \<noteq> []" and "\<forall>g\<in>set (generators c). tenant_ok disc g"
  shows "container_peek TenantGenerator_peek c =
       Inr (Min (TenantGenerator_peek ` set (generators c))) \<and>
     (\<exists>m ms c'. gen_run (container_next TenantGenerator_peek
            (TenantGenerator_next pack len exp_us disc)) (Suc n) c = Inr (m # ms, c') \<and>
         length ms = n \<and> sorted (map time_ns (m # ms)) \<and>
         time_ns m = Min (TenantGenerator_peek ` set (generators c)))"
proof -
  have peek: "container_peek TenantGenerator_peek c =
       Inr (Min (TenantGenerator_peek ` set (generators c)))"
    by (rule container_peek_Min [OF assms(1)])
  have ok: "container_inv (tenant_ok disc) c"
    using assms by (simp add: container_inv_def list_all_iff)
  obtain ms c' where run: "gen_run (container_next TenantGenerator_peek
            (TenantGenerator_next pack len exp_us disc)) (Suc n) c = Inr (ms, c')" "length ms = Suc n"
    using tgens.run_total [OF ok] by blast
  have "time_ns (hd ms) = container_pk TenantGenerator_peek c"
    by (rule tgens.run_first [OF ok run(1)])
  with run tgens.run_sorted [OF ok run(1)] peek show ?thesis
    by (cases ms) (auto simp: container_pk_def)
qed

lemma container_merges_witness:
  "\<exists>m ms c'. gen_run (container_next TenantGenerator_peek
       (TenantGenerator_next (\<lambda>_. []) (\<lambda>_. 0) (\<lambda>rate r. (500 + r, Suc r)) demo_disc)) (Suc 4)
       (container_add demo_tenant \<lparr>base_time = 0, counters = Map.empty, generators = [demo_tenant]\<rparr>)
     = Inr (m # ms, c') \<and> time_ns m = 507000"
  using container_merges [of "container_add demo_tenant
      \<lparr>base_time = 0, counters = Map.empty, generators = [demo_tenant]\<rparr>" demo_disc
      "\<lambda>_. []" "\<lambda>_. 0" "\<lambda>rate r. (500 + r, Suc r)" 4] demo_tenant_ok
  by (auto simp: container_add_def demo_tenant_def TenantGenerator_new_def TenantGenerator_peek_def)

section \<open>The generator of a tenant\<close>

fun agen_ok :: "('w list \<Rightarrow> 'r \<Rightarrow> nat \<times> 'r) \<Rightarrow> ('w, 'r) AbstractGenerator \<Rightarrow> bool" where
  "agen_ok disc (AConstant g) = constant_ok g"
| "agen_ok disc (ATenant g) = tenant_ok disc g"

lemma map_sum_prod_Inr:
  "map_sum id (map_prod id f) r = Inr (m, g') \<longleftrightarrow> (\<exists>g. r = Inr (m, g) \<and> g' = f g)"
  by (cases r) auto

interpretation agen: generator AbstractGenerator_peek
  "AbstractGenerator_next pack len exp_us disc" "agen_ok disc" for pack len exp_us disc
proof
  fix g :: "('a, 'b) AbstractGenerator"
  assume ok: "agen_ok disc g"
  show "\<exists>m g'. AbstractGenerator_next pack len exp_us disc g = Inr (m, g')"
  proof (cases g)
    case (AConstant h)
    with ok have "constant_ok h" by simp
    from cgen.nx_total [OF this, of pack len] AConstant show ?thesis by (auto simp: map_sum_prod_Inr)
  next
    case (ATenant h)
    with ok have "tenant_ok disc h" by simp
    from tgen.nx_total [OF this, of pack len exp_us] ATenant show ?thesis by (auto simp: map_sum_prod_Inr)
  qed
  fix m g' assume nx: "AbstractGenerator_next pack len exp_us disc g = Inr (m, g')"
  have "agen_ok disc g' \<and> time_ns m = AbstractGenerator_peek g \<and>
      AbstractGenerator_peek g \<le> AbstractGenerator_peek g' \<and>
      wf_msg (of_msg m) \<and> awaits_reply m = has_reply (of_msg m)"
  proof (cases g)
    case (AConstant h)
    then obtain h' where h: "ConstantGenerator_next pack len h = Inr (m, h')" "g' = AConstant h'"
      using nx by (auto simp: map_sum_prod_Inr)
    have "constant_ok h" using ok AConstant by simp
    note cgen.nx_inv [OF this h(1)] cgen.nx_time [OF this h(1)] cgen.nx_later [OF this h(1)]
      cgen.nx_wf [OF this h(1)]
    with AConstant h(2) show ?thesis by simp
  next
    case (ATenant h)
    then obtain h' where h: "TenantGenerator_next pack len exp_us disc h = Inr (m, h')" "g' = ATenant h'"
      using nx by (auto simp: map_sum_prod_Inr)
    have "tenant_ok disc h" using ok ATenant by simp
    note tgen.nx_inv [OF this h(1)] tgen.nx_time [OF this h(1)] tgen.nx_later [OF this h(1)]
      tgen.nx_wf [OF this h(1)]
    with ATenant h(2) show ?thesis by simp
  qed
  then show "agen_ok disc g'" and "time_ns m = AbstractGenerator_peek g"
    and "AbstractGenerator_peek g \<le> AbstractGenerator_peek g'"
    and "wf_msg (of_msg m) \<and> awaits_reply m = has_reply (of_msg m)"
    by blast+
qed

lemma agen_ok_set_time_reference [simp]:
  "agen_ok disc (AbstractGenerator_set_time_reference t g) = agen_ok disc g"
  by (cases g) (simp_all add: set_time_reference_def constant_ok_def tenant_ok_def)

end
