(* ===== verification/Controller.thy ===== *)
theory Controller
  imports Collector GeneratorFacts
begin

text \<open>
  \<open>HVBenchController\<close> and \<open>of/ofconnwrapper.hpp\<close>: the OpenFlow controller that emits the
  messages of a generator to the switch and measures the replies.  The server, the connections
  and the parsing of messages are libfluid's: a connection is its number, whether it is alive
  is an input of the step that asks, \<open>parse_xid\<close> is \<open>unpack\<close> followed by \<open>xid()\<close>, and
  what is handed to a connection or to the output of the tenant is logged in \<open>io\<close>.
\<close>

section \<open>The connection wrapper\<close>

record OFConnWrapper =
  wconn :: int
  byte_cnt :: u64

record io =
  wire :: "(int \<times> bytes \<times> nat) list"
  written :: "(string \<times> Collector) list"

definition OFConnWrapper_new :: "int \<Rightarrow> OFConnWrapper" where
  "OFConnWrapper_new c = \<lparr>wconn = c, byte_cnt = 0\<rparr>"

definition conn_send :: "int \<Rightarrow> bytes \<Rightarrow> nat \<Rightarrow> io \<Rightarrow> io" where
  "conn_send c buf n w = w\<lparr>wire := wire w @ [(c, buf, n)]\<rparr>"

definition OFConnWrapper_send :: "bool \<Rightarrow> ScheduledMsg \<Rightarrow> OFConnWrapper \<Rightarrow> io \<Rightarrow> OFConnWrapper \<times> io" where
  "OFConnWrapper_send alive m c w =
     (if alive
      then (c\<lparr>byte_cnt := byte_cnt c + ucast (pkt_len (of_msg m))\<rparr>,
            conn_send (wconn c) (pkt (of_msg m)) (unat (pkt_len (of_msg m))) w)
      else (c, w))"

definition OFConnWrapper_send_raw :: "bool \<Rightarrow> bytes \<Rightarrow> nat \<Rightarrow> OFConnWrapper \<Rightarrow> io \<Rightarrow> io" where
  "OFConnWrapper_send_raw alive buf n c w = (if alive then conn_send (wconn c) buf n w else w)"

section \<open>The controller\<close>

record HVBenchController =
  switch_up :: bool
  running :: bool
  conn :: "OFConnWrapper option"
  ctl_counters :: "(OFPT_T, u64) std_map"
  latency_stats :: latency_stats
  start_time :: time_point
  stats_late_sends :: samples

definition HVBenchController_new :: "time_point \<Rightarrow> HVBenchController" where
  "HVBenchController_new now =
     \<lparr>switch_up = False, running = True, conn = None,
      ctl_counters = foldl (\<lambda>m e. std_put e 0 m) [] req_types,
      latency_stats = OFLatencyStats_new ConcurrentQueue_new, start_time = now, stats_late_sends = []\<rparr>"

definition HVBenchController_stop :: "HVBenchController \<Rightarrow> HVBenchController" where
  "HVBenchController_stop s = s\<lparr>running := False\<rparr>"

datatype conn_event =
  EVENT_STARTED | EVENT_ESTABLISHED | EVENT_FAILED_NEGOTIATION | EVENT_CLOSED | EVENT_DEAD

definition connection_callback :: "int \<Rightarrow> conn_event \<Rightarrow> HVBenchController \<Rightarrow> HVBenchController" where
  "connection_callback c ev s =
     (case ev of
        EVENT_STARTED \<Rightarrow> s
      | EVENT_ESTABLISHED \<Rightarrow>
          if \<not> switch_up s then s\<lparr>switch_up := True, conn := Some (OFConnWrapper_new c)\<rparr> else s
      | EVENT_FAILED_NEGOTIATION \<Rightarrow> s
      | EVENT_CLOSED \<Rightarrow> s
      | EVENT_DEAD \<Rightarrow> s)"

text \<open>
  A call that may not return is \<open>None\<close>, one that throws is \<open>Some (Inl e)\<close>.  The
  numbers of the switch are the values of the enumerators.
\<close>

definition message_callback ::
    "(bytes \<Rightarrow> u32) \<Rightarrow> packer \<Rightarrow> measurer \<Rightarrow> bool \<Rightarrow> time_point \<Rightarrow> int \<Rightarrow> u8 \<Rightarrow> bytes \<Rightarrow>
     HVBenchController \<Rightarrow> io \<Rightarrow> (exn + (HVBenchController \<times> io)) option" where
  "message_callback parse_xid pack len alive now ofconn ty data s w =
     (let reply = (\<lambda>s. map_option (map_sum id (\<lambda>l. (s\<lparr>latency_stats := l\<rparr>, w)))
                     (OFLatencyStats_received (parse_xid data) now (latency_stats s)));
          n = unat ty
      in if n = ofpt_value PACKET_IN then Some (Inr (s, w))
         else if n = ofpt_value FEATURES_REPLY then reply s
         else if n = ofpt_value ECHO_REQUEST then
           (let fr = EchoReply 0
            in Some (Inr (s, if alive then conn_send ofconn (pack fr) (unat (len fr)) w else w)))
         else if n = ofpt_value ECHO_REPLY then reply s
         else if n = ofpt_value STATS_REPLY then reply s
         else if n = ofpt_value HELLO then Some (Inr (s, w))
         else if n = ofpt_value ERROR then Some (Inr (s, w))
         else if n = ofpt_value PORT_STATUS then Some (Inr (s, w))
         else Some (Inr (s, w)))"

section \<open>Reporting\<close>

definition requests_key :: "string \<Rightarrow> string" where
  "requests_key n = ''requests_'' @ n @ ''_cnt''"

text \<open>\<open>counters_[e]\<close> of a key that is missing constructs it.\<close>

fun visit_counters ::
    "OFPT_T list \<Rightarrow> (OFPT_T, u64) std_map \<Rightarrow> (string, u64) std_map \<Rightarrow>
     exn + ((OFPT_T, u64) std_map \<times> (string, u64) std_map)" where
  "visit_counters [] cs st = Inr (cs, st)"
| "visit_counters (e # es) cs st =
     (case OFPT_STR e of
        None \<Rightarrow> Inl OutOfRange
      | Some n \<Rightarrow>
          (let cs' = std_insert e 0 cs
           in visit_counters es cs' (std_put (requests_key n) (the (map_of cs' e)) st)))"

definition visit_HVBenchController ::
    "time_point \<Rightarrow> int \<Rightarrow> HVBenchController \<Rightarrow> Collector \<Rightarrow> exn + (HVBenchController \<times> Collector)" where
  "visit_HVBenchController now utc_ms s c =
     (let duration = trunc_div (now - start_time s) 1000000 + 1;
          st1 = std_put ''duration_ms'' (word_of_int duration) (statistics c);
          st2 = std_put ''timestamp'' (word_of_int utc_ms) st1
      in case visit_counters req_types (ctl_counters s) st2 of
           Inl e \<Rightarrow> Inl e
         | Inr (cs, st3) \<Rightarrow> Inr (s\<lparr>ctl_counters := cs\<rparr>, c\<lparr>statistics := st3\<rparr>))"

definition visit_OFConnWrapper :: "OFConnWrapper option \<Rightarrow> Collector \<Rightarrow> exn + Collector" where
  "visit_OFConnWrapper cn c =
     (case cn of
        None \<Rightarrow> Inl UndefinedBehaviour
      | Some s \<Rightarrow> Inr (c\<lparr>statistics := std_put ''tx_bytes'' (byte_cnt s) (statistics c)\<rparr>))"

text \<open>The readings of the accumulators are the parameter \<open>acc\<close>: mean, minimum and maximum.\<close>

type_synonym acc_readings = "(samples \<Rightarrow> u64) \<times> (samples \<Rightarrow> u64) \<times> (samples \<Rightarrow> u64)"

definition HVBenchController_accept ::
    "acc_readings \<Rightarrow> time_point \<Rightarrow> int \<Rightarrow> HVBenchController \<Rightarrow> Collector \<Rightarrow>
     exn + (HVBenchController \<times> Collector)" where
  "HVBenchController_accept acc now utc_ms s c =
     (case acc of (mean, mini, maxi) \<Rightarrow>
      case visit_HVBenchController now utc_ms s c of Inl e \<Rightarrow> Inl e | Inr (s1, c1) \<Rightarrow>
      case visit_OFLatencyStats mean mini maxi (latency_stats s1) c1 of Inl e \<Rightarrow> Inl e | Inr c2 \<Rightarrow>
      let s2 = s1\<lparr>latency_stats := OFLatencyStats_reset (latency_stats s1)\<rparr>
      in case visit_OFConnWrapper (conn s2) c2 of Inl e \<Rightarrow> Inl e | Inr c3 \<Rightarrow> Inr (s2, c3))"

section \<open>Sending\<close>

definition setup_flow_mod :: "u32 \<Rightarrow> u16 \<Rightarrow> u16 \<Rightarrow> fluid_msg" where
  "setup_flow_mod x in_port out_port =
     FlowMod \<lparr>fm_xid = x, fm_cookie = 123, fm_command = ''OFPFC_ADD'',
        fm_idle_timeout = 3600, fm_hard_timeout = 3600, fm_priority = 100,
        fm_buffer_id = - 1, fm_out_port = ''OFPP_NONE'', fm_flags = 0,
        fm_match_in_port = in_port, fm_action = (out_port, 1024)\<rparr>"

definition setupSwitch ::
    "packer \<Rightarrow> measurer \<Rightarrow> bool \<Rightarrow> bool \<Rightarrow> HVBenchController \<Rightarrow> io \<Rightarrow> exn + io" where
  "setupSwitch pack len alive1 alive2 s w =
     (case conn s of
        None \<Rightarrow> Inl UndefinedBehaviour
      | Some c \<Rightarrow>
          (let fm1 = setup_flow_mod 1 1 2;
               w1 = OFConnWrapper_send_raw alive1 (pack fm1) (unat (len fm1)) c w;
               fm2 = setup_flow_mod 2 2 1
           in Inr (OFConnWrapper_send_raw alive2 (pack fm2) (unat (len fm2)) c w1)))"

text \<open>
  The readings of the clocks in one turn of the inner loop of \<open>run\<close>, in the order the code
  takes them, and the state of the connection.
\<close>

record tick =
  t_now :: time_point
  t_ux :: int
  t_visit :: time_point
  t_utc :: int
  t_now2 :: time_point
  t_alive :: bool

text \<open>
  \<open>run\<close> with its local variables.  \<open>sent\<close> logs the calls of \<open>conn->send\<close>: the message,
  the time that was compared with its schedule, and whether the connection was alive.
\<close>

datatype phase = Waiting | Sending | Finished

record 'g runner =
  ctl :: HVBenchController
  rio :: io
  gen :: 'g
  run_phase :: phase
  next_m :: "ScheduledMsg option"
  last_stat_time :: int
  sent :: "(ScheduledMsg \<times> time_point \<times> bool) list"

definition run_start ::
    "packer \<Rightarrow> measurer \<Rightarrow> (time_point \<Rightarrow> 'g \<Rightarrow> 'g) \<Rightarrow> bool \<Rightarrow> bool \<Rightarrow> time_point \<Rightarrow> int \<Rightarrow>
     'g runner \<Rightarrow> exn + 'g runner" where
  "run_start pack len setref alive1 alive2 now ux r =
     (case setupSwitch pack len alive1 alive2 (ctl r) (rio r) of
        Inl e \<Rightarrow> Inl e
      | Inr w \<Rightarrow>
          Inr (r\<lparr>ctl := (ctl r)\<lparr>start_time := now\<rparr>, rio := w, gen := setref now (gen r),
                 run_phase := Sending, last_stat_time := ux\<rparr>))"

definition report ::
    "acc_readings \<Rightarrow> string \<Rightarrow> tick \<Rightarrow> 'g runner \<Rightarrow> exn + 'g runner" where
  "report acc tid t r =
     (if last_stat_time r \<noteq> t_ux t then
        (case HVBenchController_accept acc (t_visit t) (t_utc t) (ctl r) Collector_new of
           Inl e \<Rightarrow> Inl e
         | Inr (s, col) \<Rightarrow>
             Inr (r\<lparr>last_stat_time := t_ux t, ctl := s\<lparr>stats_late_sends := []\<rparr>,
                    rio := (rio r)\<lparr>written := written (rio r) @ [(tid, col)]\<rparr>\<rparr>))
      else Inr r)"

text \<open>\<open>counters_[type] += 1\<close>.\<close>

definition count_request :: "OFPT_T \<Rightarrow> (OFPT_T, u64) std_map \<Rightarrow> (OFPT_T, u64) std_map" where
  "count_request t m = std_put t ((case map_of m t of None \<Rightarrow> 0 | Some c \<Rightarrow> c) + 1) m"

definition run_send :: "ScheduledMsg \<Rightarrow> tick \<Rightarrow> 'g runner \<Rightarrow> exn + 'g runner" where
  "run_send m t r =
     (let now = t_now2 t; late = now - time_ns m
      in case conn (ctl r) of
           None \<Rightarrow> Inl UndefinedBehaviour
         | Some c \<Rightarrow>
             (let (c', w) = OFConnWrapper_send (t_alive t) m c (rio r);
                  s1 = (ctl r)\<lparr>conn := Some c', stats_late_sends := stats_late_sends (ctl r) @ [late],
                               ctl_counters := count_request (mtype (of_msg m)) (ctl_counters (ctl r))\<rparr>;
                  r1 = r\<lparr>ctl := s1, rio := w, next_m := None, sent := sent r @ [(m, t_now t, t_alive t)]\<rparr>
              in if awaits_reply m then
                   (case OFLatencyStats_sent (xid (of_msg m)) (mtype (of_msg m)) now (latency_stats s1) of
                      Inl e \<Rightarrow> Inl e
                    | Inr l \<Rightarrow> Inr (r1\<lparr>ctl := s1\<lparr>latency_stats := l\<rparr>\<rparr>))
                 else Inr r1))"

text \<open>
  One turn of the loops of \<open>run\<close>: without a message at hand the condition of the outer loop
  and the call of \<open>next\<close>, with one the body of the inner loop.
\<close>

definition run_turn ::
    "('g \<Rightarrow> exn + (ScheduledMsg \<times> 'g)) \<Rightarrow> acc_readings \<Rightarrow> string \<Rightarrow> tick \<Rightarrow> 'g runner \<Rightarrow> exn + 'g runner" where
  "run_turn nx acc tid t r =
     (case next_m r of
        None \<Rightarrow>
          if \<not> running (ctl r) then Inr (r\<lparr>run_phase := Finished\<rparr>)
          else (case nx (gen r) of
                  Inl e \<Rightarrow> Inl e
                | Inr (m, g) \<Rightarrow> Inr (r\<lparr>gen := g, next_m := Some m\<rparr>))
      | Some m \<Rightarrow>
          (case report acc tid t r of
             Inl e \<Rightarrow> Inl e
           | Inr r1 \<Rightarrow> if 0 < time_ns m - t_now t then Inr r1 else run_send m t r1))"

section \<open>The controller and its environment\<close>

text \<open>
  The threads of the controller: the one of the tenant runs \<open>run\<close>, those of libfluid call
  the two callbacks, and \<open>stop\<close> is called from outside.  A step is one handler or one turn.
\<close>

datatype event =
    Connection int conn_event
  | Message bool time_point int u8 bytes
  | Stop
  | Start bool bool time_point int
  | Turn tick

record 'g env =
  e_pack :: packer
  e_len :: measurer
  e_parse :: "bytes \<Rightarrow> u32"
  e_acc :: acc_readings
  e_id :: string
  e_next :: "'g \<Rightarrow> exn + (ScheduledMsg \<times> 'g)"
  e_setref :: "time_point \<Rightarrow> 'g \<Rightarrow> 'g"

fun enabled :: "event \<Rightarrow> 'g runner \<Rightarrow> bool" where
  "enabled (Start a b now ux) r = (run_phase r = Waiting \<and> switch_up (ctl r))"
| "enabled (Turn t) r = (run_phase r = Sending)"
| "enabled _ r = True"

fun handle :: "'g env \<Rightarrow> event \<Rightarrow> 'g runner \<Rightarrow> (exn + 'g runner) option" where
  "handle E (Connection c ev) r = Some (Inr (r\<lparr>ctl := connection_callback c ev (ctl r)\<rparr>))"
| "handle E (Message alive now c ty data) r =
     map_option (map_sum id (\<lambda>(s, w). r\<lparr>ctl := s, rio := w\<rparr>))
       (message_callback (e_parse E) (e_pack E) (e_len E) alive now c ty data (ctl r) (rio r))"
| "handle E Stop r = Some (Inr (r\<lparr>ctl := HVBenchController_stop (ctl r)\<rparr>))"
| "handle E (Start a b now ux) r = Some (run_start (e_pack E) (e_len E) (e_setref E) a b now ux r)"
| "handle E (Turn t) r = Some (run_turn (e_next E) (e_acc E) (e_id E) t r)"

definition runner_new :: "time_point \<Rightarrow> 'g \<Rightarrow> 'g runner" where
  "runner_new now g =
     \<lparr>ctl = HVBenchController_new now, rio = \<lparr>wire = [], written = []\<rparr>, gen = g, run_phase = Waiting,
      next_m = None, last_stat_time = 0, sent = []\<rparr>"

inductive ctrl_step :: "'g env \<Rightarrow> 'g runner \<Rightarrow> 'g runner \<Rightarrow> bool" for E where
  step: "enabled ev r \<Longrightarrow> handle E ev r = Some (Inr r') \<Longrightarrow> ctrl_step E r r'"

inductive ctrl_reach :: "'g env \<Rightarrow> 'g \<Rightarrow> 'g runner \<Rightarrow> bool" for E g where
  reach_init: "ctrl_reach E g (runner_new now g)"
| reach_step: "ctrl_reach E g r \<Longrightarrow> ctrl_step E r r' \<Longrightarrow> ctrl_reach E g r'"

inductive_cases ctrl_step_cases: "ctrl_step E r r'"

end
