(* ===== verification/ControllerFacts.thy ===== *)
theory ControllerFacts
  imports Controller
begin

text \<open>
  The invariant of the controller and its environment, by induction over the reachable
  states: what has been sent is a prefix of what the generator yields, the counters and the
  number of bytes account for it, and no handler throws or fails to return.
\<close>

section \<open>Invariant\<close>

definition sent_count :: "OFPT_T \<Rightarrow> (ScheduledMsg \<times> time_point \<times> bool) list \<Rightarrow> nat" where
  "sent_count t ms = length (filter (\<lambda>(m, _). mtype (of_msg m) = t) ms)"

definition sent_bytes :: "(ScheduledMsg \<times> time_point \<times> bool) list \<Rightarrow> u64" where
  "sent_bytes ms = sum_list (map (\<lambda>(m, _, alive). if alive then ucast (pkt_len (of_msg m)) else 0) ms)"

definition counters_ok :: "HVBenchController \<Rightarrow> (ScheduledMsg \<times> time_point \<times> bool) list \<Rightarrow> bool" where
  "counters_ok s ms \<longleftrightarrow> std_ok (ctl_counters s) \<and> fst ` set (ctl_counters s) = set req_types \<and>
     (\<forall>t\<in>set req_types. map_of (ctl_counters s) t = Some (word_of_nat (sent_count t ms)))"

definition conn_ok :: "HVBenchController \<Rightarrow> (ScheduledMsg \<times> time_point \<times> bool) list \<Rightarrow> bool" where
  "conn_ok s ms \<longleftrightarrow> (switch_up s \<longleftrightarrow> conn s \<noteq> None) \<and>
     (case conn s of None \<Rightarrow> ms = [] | Some c \<Rightarrow> byte_cnt c = sent_bytes ms)"

definition progress_ok ::
    "('g \<Rightarrow> exn + (ScheduledMsg \<times> 'g)) \<Rightarrow> (time_point \<Rightarrow> 'g \<Rightarrow> 'g) \<Rightarrow> 'g \<Rightarrow> 'g runner \<Rightarrow> bool" where
  "progress_ok nx setref g r \<longleftrightarrow>
     (if run_phase r = Waiting then sent r = [] \<and> next_m r = None \<and> gen r = g
      else conn (ctl r) \<noteq> None \<and>
        (\<exists>now n. gen_run nx n (setref now g) =
           Inr (map fst (sent r) @ (case next_m r of None \<Rightarrow> [] | Some m \<Rightarrow> [m]), gen r)))"

definition ctrl_inv :: "'g env \<Rightarrow> 'g \<Rightarrow> 'g runner \<Rightarrow> bool" where
  "ctrl_inv E g r \<longleftrightarrow> stats_ok (latency_stats (ctl r)) \<and> counters_ok (ctl r) (sent r) \<and>
     conn_ok (ctl r) (sent r) \<and> progress_ok (e_next E) (e_setref E) g r \<and>
     (\<forall>(m, now, alive)\<in>set (sent r). time_ns m \<le> now)"

lemma sent_count_snoc [simp]:
  "sent_count t (ms @ [(m, now, alive)]) = sent_count t ms + (if mtype (of_msg m) = t then 1 else 0)"
  by (simp add: sent_count_def)

lemma sent_bytes_snoc [simp]:
  "sent_bytes (ms @ [(m, now, alive)]) = sent_bytes ms + (if alive then ucast (pkt_len (of_msg m)) else 0)"
  by (simp add: sent_bytes_def)

lemma gen_run_snoc:
  "gen_run nx n g = Inr (ms, g1) \<Longrightarrow> nx g1 = Inr (m, g2) \<Longrightarrow> gen_run nx (Suc n) g = Inr (ms @ [m], g2)"
proof (induction n arbitrary: g ms)
  case (Suc n)
  then obtain m0 g0 ms0 where "nx g = Inr (m0, g0)" "gen_run nx n g0 = Inr (ms0, g1)" "ms = m0 # ms0"
    by (auto split: sum.splits)
  with Suc.IH [OF this(2) Suc.prems(2)] show ?case by simp
qed simp

section \<open>The pieces of a step\<close>

lemma visit_counters_ok:
  assumes "\<forall>e\<in>set es. OFPT_STR e \<noteq> None \<and> map_of cs e \<noteq> None"
  shows "\<exists>st'. visit_counters es cs st = Inr (cs, st')"
  using assms
proof (induction es arbitrary: st)
  case (Cons e es)
  then obtain n where n: "OFPT_STR e = Some n" and "map_of cs e \<noteq> None" by auto
  then have "std_insert e 0 cs = cs" by (auto simp: std_insert_def)
  with Cons n show ?case by (auto simp: Let_def)
qed simp

lemma accept_ok:
  assumes "stats_ok (latency_stats s)" and "counters_ok s ms" and "conn s \<noteq> None"
  shows "\<exists>col. HVBenchController_accept acc now utc s c =
      Inr (s\<lparr>latency_stats := OFLatencyStats_reset (latency_stats s)\<rparr>, col)"
proof -
  obtain mean mini maxi where acc: "acc = (mean, mini, maxi)" by (cases acc)
  have "\<forall>e\<in>set req_types. OFPT_STR e \<noteq> None \<and> map_of (ctl_counters s) e \<noteq> None"
    using assms(2) OFPT_STR_req_types by (fastforce simp: counters_ok_def)
  note vis = visit_counters_ok [OF this]
  have "\<exists>c1. visit_HVBenchController now utc s c = Inr (s, c1)"
  proof -
    let ?st = "std_put ''timestamp'' (word_of_int utc)
      (std_put ''duration_ms'' (word_of_int (trunc_div (now - start_time s) 1000000 + 1)) (statistics c))"
    obtain st' where "visit_counters req_types (ctl_counters s) ?st = Inr (ctl_counters s, st')"
      using vis by blast
    then show ?thesis unfolding visit_HVBenchController_def Let_def by simp
  qed
  then obtain c1 where c1: "visit_HVBenchController now utc s c = Inr (s, c1)" by blast
  obtain c2 where c2: "visit_OFLatencyStats mean mini maxi (latency_stats s) c1 = Inr c2"
    using visit_latency_ok [OF assms(1)] by blast
  obtain cn where "conn s = Some cn" using assms(3) by auto
  with c1 c2 show ?thesis
    by (simp add: HVBenchController_accept_def acc Let_def visit_OFConnWrapper_def)
qed

lemma report_ok:
  assumes "stats_ok (latency_stats (ctl r))" and "counters_ok (ctl r) ms" and "conn (ctl r) \<noteq> None"
  shows "\<exists>r1. report acc tid t r = Inr r1 \<and> stats_ok (latency_stats (ctl r1)) \<and>
     ctl_counters (ctl r1) = ctl_counters (ctl r) \<and> conn (ctl r1) = conn (ctl r) \<and>
     switch_up (ctl r1) = switch_up (ctl r) \<and> sent r1 = sent r \<and> next_m r1 = next_m r \<and>
     gen r1 = gen r \<and> run_phase r1 = run_phase r \<and> wire (rio r1) = wire (rio r)"
  using accept_ok [OF assms, of acc "t_visit t" "t_utc t" Collector_new] assms(1)
  by (auto simp: report_def stats_ok_reset)

lemma count_request_ok:
  assumes "counters_ok s ms" and "mtype (of_msg m) \<in> set req_types"
    and "ctl_counters s' = count_request (mtype (of_msg m)) (ctl_counters s)"
  shows "counters_ok s' (ms @ [(m, now, alive)])"
  using assms
  by (auto simp: counters_ok_def count_request_def keys_std_put std_ok_put map_of_std_put insert_absorb)

lemma map_of_foldl_put:
  "map_of (foldl (\<lambda>m e. std_put e v m) m ks) k = (if k \<in> set ks then Some v else map_of m k)"
  by (induction ks arbitrary: m) (auto simp: map_of_std_put)

lemma counters_ok_new: "counters_ok (HVBenchController_new now) []"
  by (simp add: counters_ok_def HVBenchController_new_def std_ok_foldl_put keys_foldl_put
      map_of_foldl_put sent_count_def)

lemma run_send_ok:
  assumes "stats_ok (latency_stats (ctl r))" and "counters_ok (ctl r) (sent r)"
    and "conn_ok (ctl r) (sent r)" and "conn (ctl r) \<noteq> None" and wf: "wf_msg (of_msg m)"
    and aw: "awaits_reply m = has_reply (of_msg m)"
  shows "\<exists>r'. run_send m t r = Inr r' \<and> stats_ok (latency_stats (ctl r')) \<and>
     sent r' = sent r @ [(m, t_now t, t_alive t)] \<and> counters_ok (ctl r') (sent r') \<and>
     conn_ok (ctl r') (sent r') \<and> conn (ctl r') \<noteq> None \<and> next_m r' = None \<and> gen r' = gen r \<and>
     run_phase r' = run_phase r"
proof -
  obtain c where c: "conn (ctl r) = Some c" using assms(4) by auto
  obtain c' w where send: "OFConnWrapper_send (t_alive t) m c (rio r) = (c', w)" by force
  have bytes: "byte_cnt c' = byte_cnt c + (if t_alive t then ucast (pkt_len (of_msg m)) else 0)"
    using send by (auto simp: OFConnWrapper_send_def split: if_splits)
  have req: "mtype (of_msg m) \<in> set req_types" using wf by (simp add: wf_msg_def)
  have count: "counters_ok s' (sent r @ [(m, t_now t, t_alive t)])"
    if "ctl_counters s' = count_request (mtype (of_msg m)) (ctl_counters (ctl r))" for s'
    using count_request_ok [OF assms(2) req] that .
  show ?thesis
  proof (cases "awaits_reply m")
    case False
    with assms(1,3) c bytes show ?thesis
      by (auto simp: run_send_def send Let_def conn_ok_def intro: count)
  next
    case True
    then have "mtype (of_msg m) \<in> set latency_types" using wf aw by (simp add: wf_msg_def)
    from stats_ok_sent [OF assms(1) this, of "xid (of_msg m)" "t_now2 t"] True assms(3) c bytes
    show ?thesis
      by (auto simp: run_send_def send Let_def conn_ok_def count)
  qed
qed

lemma message_callback_ok:
  assumes "stats_ok (latency_stats s)"
  shows "\<exists>l w'. message_callback parse pack len alive now c ty data s w =
     Some (Inr (s\<lparr>latency_stats := l\<rparr>, w')) \<and> stats_ok l"
proof -
  obtain l where l: "OFLatencyStats_received (parse data) now (latency_stats s) = Some (Inr l)" "stats_ok l"
    using stats_ok_received [OF assms] by blast
  have "message_callback parse pack len alive now c ty data s w = Some (Inr (s\<lparr>latency_stats := l\<rparr>, w)) \<or>
      (\<exists>w'. message_callback parse pack len alive now c ty data s w = Some (Inr (s, w')))"
    by (simp add: message_callback_def Let_def l(1) del: ofpt_value.simps)
  moreover have "s = s\<lparr>latency_stats := latency_stats s\<rparr>" by simp
  ultimately show ?thesis using l(2) assms by metis
qed

section \<open>Every step is handled and keeps the invariant\<close>

context generator
begin

lemma ctrl_inv_new: "e_next E = nx \<Longrightarrow> ctrl_inv E g (runner_new now g)"
  by (simp add: ctrl_inv_def runner_new_def conn_ok_def progress_ok_def counters_ok_new)
     (simp add: HVBenchController_new_def stats_ok_new)

lemma pending_ok:
  assumes E: "e_next E = nx" and g: "\<And>now. ok (e_setref E now g)" and inv: "ctrl_inv E g r"
    and ph: "run_phase r = Sending"
  shows "ok (gen r)" and "next_m r = Some m \<Longrightarrow> wf_msg (of_msg m) \<and> awaits_reply m = has_reply (of_msg m)"
proof -
  obtain now n where run: "gen_run nx n (e_setref E now g) =
      Inr (map fst (sent r) @ (case next_m r of None \<Rightarrow> [] | Some m \<Rightarrow> [m]), gen r)"
    using inv ph by (auto simp: ctrl_inv_def progress_ok_def E)
  from run_total [OF g [of now], of n] run show "ok (gen r)" by auto
  show "wf_msg (of_msg m) \<and> awaits_reply m = has_reply (of_msg m)" if "next_m r = Some m"
    using run_wf [OF g [of now] run] that by simp
qed

lemma handle_ok:
  assumes E: "e_next E = nx" and g: "\<And>now. ok (e_setref E now g)" and inv: "ctrl_inv E g r"
    and en: "enabled ev r"
  shows "\<exists>r'. handle E ev r = Some (Inr r') \<and> ctrl_inv E g r'"
proof (cases ev)
  case (Connection c e)
  with inv show ?thesis
    by (cases e) (auto simp: connection_callback_def ctrl_inv_def conn_ok_def counters_ok_def
        progress_ok_def sent_bytes_def OFConnWrapper_new_def split: option.splits)
next
  case (Message alive now c ty data)
  have "stats_ok (latency_stats (ctl r))" using inv by (simp add: ctrl_inv_def)
  from message_callback_ok [OF this, of "e_parse E" "e_pack E" "e_len E" alive now c ty data "rio r"]
  obtain l w' where "message_callback (e_parse E) (e_pack E) (e_len E) alive now c ty data (ctl r) (rio r) =
     Some (Inr ((ctl r)\<lparr>latency_stats := l\<rparr>, w'))" "stats_ok l" by blast
  with inv Message show ?thesis
    by (auto simp: ctrl_inv_def counters_ok_def conn_ok_def progress_ok_def)
next
  case Stop
  with inv show ?thesis
    by (auto simp: HVBenchController_stop_def ctrl_inv_def conn_ok_def counters_ok_def progress_ok_def)
next
  case (Start a b now ux)
  with en have w: "run_phase r = Waiting" "switch_up (ctl r)" by simp_all
  with inv obtain c where c: "conn (ctl r) = Some c" and "sent r = []" "next_m r = None" "gen r = g"
    by (auto simp: ctrl_inv_def conn_ok_def progress_ok_def)
  moreover have "\<exists>now' n. gen_run nx n (e_setref E now' g) = Inr ([], e_setref E now g)"
    by (rule exI [of _ now], rule exI [of _ 0]) simp
  ultimately show ?thesis using inv Start
    by (auto simp: run_start_def setupSwitch_def Let_def ctrl_inv_def conn_ok_def counters_ok_def
        progress_ok_def E)
next
  case (Turn t)
  with en have ph: "run_phase r = Sending" by simp
  note pend = pending_ok [OF E g inv ph]
  have parts: "stats_ok (latency_stats (ctl r))" "counters_ok (ctl r) (sent r)" "conn_ok (ctl r) (sent r)"
    "conn (ctl r) \<noteq> None" "\<forall>(m, now, alive)\<in>set (sent r). time_ns m \<le> now"
    using inv ph by (auto simp: ctrl_inv_def progress_ok_def)
  obtain now n where run: "gen_run nx n (e_setref E now g) =
      Inr (map fst (sent r) @ (case next_m r of None \<Rightarrow> [] | Some m \<Rightarrow> [m]), gen r)"
    using inv ph by (auto simp: ctrl_inv_def progress_ok_def E)
  show ?thesis
  proof (cases "next_m r")
    case None
    show ?thesis
    proof (cases "running (ctl r)")
      case False
      with None Turn inv ph show ?thesis
        by (auto simp: run_turn_def ctrl_inv_def progress_ok_def)
    next
      case True
      obtain m g' where nxt: "nx (gen r) = Inr (m, g')" using nx_total [OF pend(1)] by blast
      have "\<exists>now n. gen_run nx n (e_setref E now g) = Inr (map fst (sent r) @ [m], g')"
        using gen_run_snoc [OF run nxt] unfolding None option.case append_Nil2 by blast
      with True None Turn nxt parts ph show ?thesis
        by (auto simp: run_turn_def E ctrl_inv_def progress_ok_def)
    qed
  next
    case (Some m)
    obtain r1 where r1: "report (e_acc E) (e_id E) t r = Inr r1" "stats_ok (latency_stats (ctl r1))"
      "ctl_counters (ctl r1) = ctl_counters (ctl r)" "conn (ctl r1) = conn (ctl r)"
      "switch_up (ctl r1) = switch_up (ctl r)" "sent r1 = sent r" "next_m r1 = next_m r"
      "gen r1 = gen r" "run_phase r1 = run_phase r"
      using report_ok [OF parts(1,2,4)] by blast
    have parts1: "counters_ok (ctl r1) (sent r1)" "conn_ok (ctl r1) (sent r1)" "conn (ctl r1) \<noteq> None"
      using parts r1 by (simp_all add: counters_ok_def conn_ok_def)
    show ?thesis
    proof (cases "0 < time_ns m - t_now t")
      case True
      with Some Turn r1 parts parts1 run ph show ?thesis
        by (auto simp: run_turn_def ctrl_inv_def progress_ok_def E)
    next
      case False
      have wf: "wf_msg (of_msg m)" "awaits_reply m = has_reply (of_msg m)" using pend(2) [OF Some] by simp_all
      from run_send_ok [OF r1(2) parts1 wf, of t] obtain r2 where r2: "run_send m t r1 = Inr r2"
        "stats_ok (latency_stats (ctl r2))" "sent r2 = sent r1 @ [(m, t_now t, t_alive t)]"
        "counters_ok (ctl r2) (sent r2)" "conn_ok (ctl r2) (sent r2)" "conn (ctl r2) \<noteq> None"
        "next_m r2 = None" "gen r2 = gen r1" "run_phase r2 = run_phase r1" by blast
      have "progress_ok nx (e_setref E) g r2"
        using run Some r1 r2 ph by (auto simp: progress_ok_def)
      with False Some Turn r1 r2 parts show ?thesis
        by (auto simp: run_turn_def ctrl_inv_def E)
    qed
  qed
qed

lemma ctrl_reach_inv:
  assumes "ctrl_reach E g r" and E: "e_next E = nx" and g: "\<And>now. ok (e_setref E now g)"
  shows "ctrl_inv E g r"
  using assms(1)
proof (induction rule: ctrl_reach.induct)
  case (reach_init now)
  show ?case by (rule ctrl_inv_new [OF E])
next
  case (reach_step r r')
  from reach_step.hyps(2) obtain ev where "enabled ev r" "handle E ev r = Some (Inr r')"
    by (rule ctrl_step_cases)
  with handle_ok [OF E g reach_step.IH] show ?case by fastforce
qed

end

section \<open>The controller of a tenant\<close>

definition tenant_env ::
    "packer \<Rightarrow> measurer \<Rightarrow> (bytes \<Rightarrow> u32) \<Rightarrow> acc_readings \<Rightarrow> string \<Rightarrow> (u32 \<Rightarrow> 'r \<Rightarrow> nat \<times> 'r) \<Rightarrow>
     ('w list \<Rightarrow> 'r \<Rightarrow> nat \<times> 'r) \<Rightarrow> ('w, 'r) AbstractGenerator env" where
  "tenant_env pack len parse acc tid exp_us disc =
     \<lparr>e_pack = pack, e_len = len, e_parse = parse, e_acc = acc, e_id = tid,
      e_next = AbstractGenerator_next pack len exp_us disc,
      e_setref = AbstractGenerator_set_time_reference\<rparr>"

lemma tenant_inv:
  assumes "ctrl_reach (tenant_env pack len parse acc tid exp_us disc) g r" and "agen_ok disc g"
  shows "ctrl_inv (tenant_env pack len parse acc tid exp_us disc) g r"
  using agen.ctrl_reach_inv [OF assms(1)] assms(2) by (simp add: tenant_env_def)

text \<open>A short run, for the witnesses: the switch connects, two messages are due and sent.\<close>

definition demo_gen :: "(nat, nat) AbstractGenerator" where
  "demo_gen = AConstant \<lparr>base_time = 0, counters = Map.empty, inter_arrival_t = 1000, local_ns = 0,
     msg_factory = get_message_factory ''ECHO_REQUEST''\<rparr>"

definition demo_env :: "(nat, nat) AbstractGenerator env" where
  "demo_env = tenant_env (\<lambda>_. [1, 2]) (\<lambda>_. 2) (\<lambda>_. 1) (\<lambda>_. 0, \<lambda>_. 0, \<lambda>_. 0) ''t1'' (\<lambda>_ r. (0, r)) demo_disc"

lemma demo_gen_ok: "agen_ok demo_disc demo_gen"
  by (simp add: demo_gen_def constant_ok_def)

fun handle_all :: "'g env \<Rightarrow> event list \<Rightarrow> 'g runner \<Rightarrow> 'g runner option" where
  "handle_all E [] r = Some r"
| "handle_all E (e # es) r =
     (if enabled e r then (case handle E e r of Some (Inr r') \<Rightarrow> handle_all E es r' | _ \<Rightarrow> None) else None)"

lemma handle_all_reach: "ctrl_reach E g r \<Longrightarrow> handle_all E es r = Some r' \<Longrightarrow> ctrl_reach E g r'"
proof (induction es arbitrary: r)
  case (Cons e es)
  then obtain r1 where "enabled e r" "handle E e r = Some (Inr r1)" "handle_all E es r1 = Some r'"
    by (auto split: if_splits option.splits sum.splits)
  with Cons.IH [of r1] Cons.prems(1) show ?case by (blast intro: reach_step ctrl_step.step)
qed simp

definition demo_tick :: tick where
  "demo_tick = \<lparr>t_now = 90000, t_ux = 5, t_visit = 90000, t_utc = 7, t_now2 = 90001, t_alive = True\<rparr>"

definition demo_events :: "event list" where
  "demo_events = [Connection 4 EVENT_STARTED, Connection 4 EVENT_ESTABLISHED, Start True True 2000 5,
     Turn demo_tick, Turn demo_tick, Turn demo_tick]"

lemma demo_run:
  "\<exists>r. ctrl_reach demo_env demo_gen r \<and> length (sent r) = 1 \<and> enabled (Turn demo_tick) r \<and> conn (ctl r) \<noteq> None"
proof -
  obtain r where r: "handle_all demo_env demo_events (runner_new 0 demo_gen) = Some r"
     "length (sent r) = 1" "run_phase r = Sending" "conn (ctl r) \<noteq> None"
  proof -
    have "case handle_all demo_env demo_events (runner_new 0 demo_gen) of None \<Rightarrow> False
        | Some r \<Rightarrow> length (sent r) = 1 \<and> run_phase r = Sending \<and> conn (ctl r) \<noteq> None"
      by code_simp
    then show ?thesis using that by (auto split: option.splits)
  qed
  then show ?thesis using handle_all_reach [OF reach_init r(1)] by auto
qed

section \<open>What the controller promises\<close>

text \<open>
  C2.  The controller sends what its generator yields, in that order and never ahead of the
  schedule: in every reachable state the messages sent so far are the first messages of the
  generator, in order of their times, and each was sent when its time had come.
\<close>

theorem controller_follows_schedule:
  assumes "ctrl_reach (tenant_env pack len parse acc tid exp_us disc) g r" and "agen_ok disc g"
  shows "(\<forall>(m, now, alive)\<in>set (sent r). time_ns m \<le> now) \<and>
     sorted (map (time_ns \<circ> fst) (sent r)) \<and>
     (\<exists>t0 n ms g'. gen_run (AbstractGenerator_next pack len exp_us disc) n
         (AbstractGenerator_set_time_reference t0 g) = Inr (ms, g') \<and> prefix (map fst (sent r)) ms)"
proof -
  have inv: "ctrl_inv (tenant_env pack len parse acc tid exp_us disc) g r" by (rule tenant_inv [OF assms])
  show ?thesis
  proof (cases "run_phase r = Waiting")
    case True
    then have "sent r = []" using inv by (simp add: ctrl_inv_def progress_ok_def)
    moreover have "gen_run (AbstractGenerator_next pack len exp_us disc) 0
         (AbstractGenerator_set_time_reference 0 g) = Inr ([], AbstractGenerator_set_time_reference 0 g)"
      by simp
    ultimately show ?thesis by fastforce
  next
    case False
    then obtain t0 n where run: "gen_run (AbstractGenerator_next pack len exp_us disc) n
         (AbstractGenerator_set_time_reference t0 g) =
         Inr (map fst (sent r) @ (case next_m r of None \<Rightarrow> [] | Some m \<Rightarrow> [m]), gen r)"
      using inv by (auto simp: ctrl_inv_def progress_ok_def tenant_env_def)
    have "sorted (map time_ns (map fst (sent r) @ (case next_m r of None \<Rightarrow> [] | Some m \<Rightarrow> [m])))"
      using agen.run_sorted [OF _ run] assms(2) by simp
    then have "sorted (map (time_ns \<circ> fst) (sent r))" by (simp add: sorted_append)
    with run inv show ?thesis by (fastforce simp: ctrl_inv_def)
  qed
qed

lemma controller_follows_schedule_witness:
  "\<exists>r :: (nat, nat) AbstractGenerator runner. length (sent r) = 1 \<and> (\<forall>(m, now, alive)\<in>set (sent r). time_ns m \<le> now)"
proof -
  obtain r where r: "ctrl_reach demo_env demo_gen r" "length (sent r) = 1" using demo_run by blast
  from controller_follows_schedule [OF r(1) [unfolded demo_env_def] demo_gen_ok] r(2) show ?thesis by blast
qed

text \<open>
  C5.  The books are right: the counter of every requested type is the number of messages of
  that type sent so far, and the bytes of the connection are those of the messages that were
  handed to it alive, both modulo the width of the counters.
\<close>

theorem controller_accounts:
  assumes "ctrl_reach (tenant_env pack len parse acc tid exp_us disc) g r" and "agen_ok disc g"
  shows "(\<forall>t\<in>set req_types. map_of (ctl_counters (ctl r)) t =
        Some (word_of_nat (length (filter (\<lambda>(m, _). mtype (of_msg m) = t) (sent r))))) \<and>
     (\<forall>c. conn (ctl r) = Some c \<longrightarrow>
        byte_cnt c = sum_list (map (\<lambda>(m, _, alive). if alive then ucast (pkt_len (of_msg m)) else 0) (sent r)))"
  using tenant_inv [OF assms]
  by (auto simp: ctrl_inv_def counters_ok_def conn_ok_def sent_count_def sent_bytes_def)

lemma controller_accounts_witness:
  "\<exists>r :: (nat, nat) AbstractGenerator runner. length (sent r) = 1 \<and> (\<forall>t\<in>set req_types. map_of (ctl_counters (ctl r)) t =
        Some (word_of_nat (length (filter (\<lambda>(m, _). mtype (of_msg m) = t) (sent r)))))"
proof -
  obtain r where r: "ctrl_reach demo_env demo_gen r" "length (sent r) = 1" using demo_run by blast
  from controller_accounts [OF r(1) [unfolded demo_env_def] demo_gen_ok] r(2) show ?thesis by blast
qed

text \<open>
  C1.  No handler of the controller fails: in every reachable state every step that can be
  taken (a callback of the server, a turn of the sending loop, the report of the statistics)
  returns, throws nothing, dereferences no null connection and asserts nothing false.
\<close>

theorem controller_never_fails:
  assumes "ctrl_reach (tenant_env pack len parse acc tid exp_us disc) g r" and "agen_ok disc g"
    and "enabled ev r"
  shows "\<exists>r'. handle (tenant_env pack len parse acc tid exp_us disc) ev r = Some (Inr r')"
  using agen.handle_ok [OF _ _ tenant_inv [OF assms(1,2)] assms(3)] assms(2)
  by (fastforce simp: tenant_env_def)

lemma controller_never_fails_witness:
  "\<exists>r r'. length (sent r) = 1 \<and> handle demo_env (Turn demo_tick) r = Some (Inr r')"
proof -
  obtain r where r: "ctrl_reach demo_env demo_gen r" "length (sent r) = 1" "enabled (Turn demo_tick) r"
    using demo_run by blast
  from controller_never_fails [OF r(1) [unfolded demo_env_def] demo_gen_ok r(3)] r(2) show ?thesis
    unfolding demo_env_def by blast
qed

section \<open>The connection of the controller\<close>

lemma map_sum_id_Inr: "map_sum id f z = Inr y \<longleftrightarrow> (\<exists>a. z = Inr a \<and> y = f a)"
  by (cases z) auto

lemma report_conn: "report acc tid t r = Inr r1 \<Longrightarrow> conn (ctl r1) = conn (ctl r)"
  by (auto simp: report_def HVBenchController_accept_def visit_HVBenchController_def Let_def
      split: if_splits sum.splits prod.splits)

lemma run_send_conn:
  "run_send m t r = Inr r' \<Longrightarrow> map_option wconn (conn (ctl r')) = map_option wconn (conn (ctl r))"
  by (auto simp: run_send_def Let_def OFConnWrapper_send_def split: option.splits if_splits sum.splits prod.splits)

lemma message_callback_conn:
  "message_callback parse pack len alive now c ty data s w = Some (Inr (s', w')) \<Longrightarrow> conn s' = conn s"
  by (auto simp: message_callback_def Let_def map_sum_id_Inr split: if_splits)

lemma run_turn_conn:
  "run_turn nx acc tid t r = Inr r' \<Longrightarrow> map_option wconn (conn (ctl r')) = map_option wconn (conn (ctl r))"
  by (auto simp: run_turn_def report_conn split: option.splits if_splits sum.splits dest!: run_send_conn report_conn)

lemma ctrl_step_conn:
  assumes "ctrl_step E r r'" and "switch_up (ctl r) \<longleftrightarrow> conn (ctl r) \<noteq> None" and "conn (ctl r) \<noteq> None"
  shows "map_option wconn (conn (ctl r')) = map_option wconn (conn (ctl r))"
  using assms(1)
proof (rule ctrl_step_cases)
  fix ev assume "enabled ev r" and h: "handle E ev r = Some (Inr r')"
  show ?thesis
  proof (cases ev)
    case (Connection c e)
    with h assms(2,3) show ?thesis by (cases e) (auto simp: connection_callback_def)
  next
    case (Message alive now c ty data)
    with h show ?thesis by (auto simp: map_sum_id_Inr message_callback_conn)
  next
    case (Start a b now ux)
    with h show ?thesis by (auto simp: run_start_def split: sum.splits)
  next
    case (Turn t)
    with h have "run_turn (e_next E) (e_acc E) (e_id E) t r = Inr r'" by simp
    then show ?thesis by (rule run_turn_conn)
  qed (use h in \<open>auto simp: HVBenchController_stop_def\<close>)
qed

text \<open>
   The first connection that is established stays the connection of the controller: later
  connections, closed or dead connections and everything the controller does leave it in place.
\<close>

theorem first_connection_stays:
  assumes "ctrl_reach (tenant_env pack len parse acc tid exp_us disc) g r" and "agen_ok disc g"
    and "(ctrl_step (tenant_env pack len parse acc tid exp_us disc))\<^sup>*\<^sup>* r r'"
    and "conn (ctl r) = Some c"
  shows "\<exists>c'. conn (ctl r') = Some c' \<and> wconn c' = wconn c"
proof -
  have "ctrl_reach (tenant_env pack len parse acc tid exp_us disc) g r' \<and>
      map_option wconn (conn (ctl r')) = Some (wconn c)"
    using assms(3)
  proof (induction rule: rtranclp_induct)
    case base
    with assms(1,4) show ?case by simp
  next
    case (step r1 r2)
    then have reach: "ctrl_reach (tenant_env pack len parse acc tid exp_us disc) g r1" by simp
    have "switch_up (ctl r1) \<longleftrightarrow> conn (ctl r1) \<noteq> None"
      using tenant_inv [OF reach assms(2)] by (simp add: ctrl_inv_def conn_ok_def)
    with ctrl_step_conn [OF step.hyps(2)] step.IH reach_step [OF reach step.hyps(2)]
    show ?case by fastforce
  qed
  then show ?thesis by auto
qed

lemma first_connection_stays_witness:
  "\<exists>(r :: (nat, nat) AbstractGenerator runner) c c'. conn (ctl r) = Some c \<and> conn (ctl (r\<lparr>ctl := connection_callback 9 EVENT_ESTABLISHED (ctl r)\<rparr>)) = Some c' \<and>
     wconn c' = wconn c"
proof -
  obtain r c where r: "ctrl_reach demo_env demo_gen r" "conn (ctl r) = Some c" using demo_run by blast
  have "ctrl_step demo_env r (r\<lparr>ctl := connection_callback 9 EVENT_ESTABLISHED (ctl r)\<rparr>)"
    by (rule ctrl_step.step [of "Connection 9 EVENT_ESTABLISHED"]) simp_all
  then have "(ctrl_step demo_env)\<^sup>*\<^sup>* r (r\<lparr>ctl := connection_callback 9 EVENT_ESTABLISHED (ctl r)\<rparr>)"
    by (rule rtranclp.rtrancl_into_rtrancl [OF rtranclp.rtrancl_refl])
  from first_connection_stays [OF r(1) [unfolded demo_env_def] demo_gen_ok
      this [unfolded demo_env_def] r(2)] r(2)
  show ?thesis by blast
qed

end
