(* ===== verification/KWire.thy ===== *)
theory KWire
  imports Prelude
begin

text \<open>
  The wire primitives of libkafka_asio: \<open>primitives.h\<close>, \<open>detail/endian.h\<close>,
  \<open>detail/impl/request_write.h\<close> and \<open>detail/impl/response_read.h\<close>.

  A writer is the function from a value to the bytes it appends to its \<open>std::ostream\<close>.
  A \<open>std::istream\<close> is the bytes left in its buffer, its fail bit and whether its buffer
  supports seeking (\<open>boost::asio::streambuf\<close> is not code of this repository, so the flag
  is left open for it).  Every \<open>read\<close> of the library goes into a buffer of zeros, so a
  short or failed read leaves zeros behind what was read.  \<open>Bytes\<close> is a shared pointer
  to an immutable vector: \<open>None\<close> is the null pointer.
\<close>

section \<open>Types\<close>

type_synonym Int8 = u8
type_synonym Int16 = u16
type_synonym Int32 = u32
type_synonym Int64 = u64
type_synonym String = bytes
type_synonym Bytes = "bytes option"

record istream =
  is_rest :: bytes
  is_fail :: bool
  is_seekable :: bool

abbreviation good_stream :: "bool \<Rightarrow> bytes \<Rightarrow> istream" where
  "good_stream sk r \<equiv> \<lparr>is_rest = r, is_fail = False, is_seekable = sk\<rparr>"

section \<open>Byte order\<close>

definition htons :: "u16 \<Rightarrow> u16" where
  "htons w = from_le (rev (le_bytes 2 w))"

definition htonl :: "u32 \<Rightarrow> u32" where
  "htonl w = from_le (rev (le_bytes 4 w))"

definition be_to_host_64 :: "Int64 \<Rightarrow> Int64" where
  "be_to_host_64 ll =
     push_bit 32 (ucast (htonl (ucast (signed_drop_bit 32 (push_bit 32 ll)))))
     OR ucast (htonl (ucast (signed_drop_bit 32 ll)))"

definition host_to_be_64 :: "Int64 \<Rightarrow> Int64" where
  "host_to_be_64 ll = be_to_host_64 ll"

lemma bit_byte_swap:
  "bit (from_le (rev (le_bytes n (w :: 'a::len word))) :: 'a word) i \<longleftrightarrow>
     i < LENGTH('a) \<and> i div 8 < n \<and> bit w (8 * (n - Suc (i div 8)) + i mod 8)"
proof (cases "i div 8 < n")
  case True
  then have "rev (le_bytes n w) ! (i div 8) = ucast (drop_bit (8 * (n - Suc (i div 8))) w)"
    by (simp add: rev_nth nth_le_bytes)
  with True show ?thesis
    by (auto simp: bit_from_le bit_ucast_iff bit_drop_bit_eq)
next
  case False
  then show ?thesis by (auto simp: bit_from_le)
qed

lemma be_to_host_64_swaps: "be_to_host_64 ll = from_le (rev (le_bytes 8 ll))"
proof (rule bit_word_eqI)
  fix i assume "i < LENGTH(64)"
  then have i: "i < 64" by simp
  show "bit (be_to_host_64 ll) i = bit (from_le (rev (le_bytes 8 ll)) :: u64) i"
  proof (cases "i < 32")
    case True
    then have d: "i div 8 < 4" and e: "\<not> 32 \<le> i" by simp_all
    define p where "p = 3 - i div 8"
    have q: "4 - Suc (i div 8) = p" "8 - Suc (i div 8) = p + 4" "i div 8 < 8"
      using d by (simp_all add: p_def)
    have r: "8 * p + i mod 8 < 32" by (simp add: p_def)
    have l: "bit (be_to_host_64 ll) i = bit ll (32 + (8 * p + i mod 8))"
      unfolding be_to_host_64_def htonl_def bit_or_iff bit_push_bit_iff bit_ucast_iff
        bit_byte_swap bit_signed_drop_bit_iff q
      using True d r by (simp add: bit_imp_le_length)
    have m: "32 + (8 * p + i mod 8) = 8 * (p + 4) + i mod 8" by simp
    show ?thesis
      unfolding l bit_byte_swap q m using i q by simp
  next
    case False
    then obtain k where k: "i = k + 32" "k < 32" using i
      by (metis add.commute le_add_diff_inverse less_diff_conv linorder_not_less
          numeral_Bit0 nat_add_left_cancel_less)
    then have d: "k div 8 < 4" by simp
    have i8: "i = k + 4 * 8" using k by simp
    have m: "i div 8 = k div 8 + 4" "i mod 8 = k mod 8"
      unfolding i8 mod_mult_self1 by simp_all
    have "8 * (4 - Suc (k div 8)) + k mod 8 < 32" using d by simp
    moreover have "8 * (8 - Suc (i div 8)) + i mod 8 = 8 * (4 - Suc (k div 8)) + k mod 8"
      using d m by simp
    moreover have "\<not> bit (ucast (htonl (ucast (signed_drop_bit 32 ll))) :: u64) i"
      using k by (auto simp: bit_ucast_iff dest: bit_imp_le_length)
    ultimately show ?thesis
      using k d m
      by (simp add: be_to_host_64_def htonl_def bit_or_iff bit_push_bit_iff bit_ucast_iff
          bit_byte_swap bit_signed_drop_bit_iff)
  qed
qed

lemma be_to_host_64_involution: "be_to_host_64 (host_to_be_64 ll) = ll"
  by (simp add: host_to_be_64_def be_to_host_64_swaps)

lemma htons_htons [simp]: "htons (htons w) = w"
  by (simp add: htons_def)

lemma htonl_htonl [simp]: "htonl (htonl w) = w"
  by (simp add: htonl_def)

section \<open>Writers\<close>

definition WriteInt8 :: "Int8 \<Rightarrow> bytes" where
  "WriteInt8 v = le_bytes 1 v"

definition WriteInt16 :: "Int16 \<Rightarrow> bytes" where
  "WriteInt16 v = le_bytes 2 (htons v)"

definition WriteInt32 :: "Int32 \<Rightarrow> bytes" where
  "WriteInt32 v = le_bytes 4 (htonl v)"

definition WriteInt64 :: "Int64 \<Rightarrow> bytes" where
  "WriteInt64 v = le_bytes 8 (host_to_be_64 v)"

definition WriteString :: "String \<Rightarrow> bytes" where
  "WriteString s = WriteInt16 (word_of_nat (length s)) @ s"

definition WriteBytes :: "Bytes \<Rightarrow> bytes" where
  "WriteBytes b = (case b of
       None \<Rightarrow> WriteInt32 (- 1)
     | Some v \<Rightarrow> WriteInt32 (word_of_nat (length v)) @ v)"

definition StringWireSize :: "String \<Rightarrow> Int32" where
  "StringWireSize s = word_of_nat (2 + length s)"

definition BytesWireSize :: "Bytes \<Rightarrow> Int32" where
  "BytesWireSize b = 4 + (case b of None \<Rightarrow> 0 | Some v \<Rightarrow> word_of_nat (length v))"

lemma length_writers [size_simps, simp]:
  "length (WriteInt8 a) = 1" "length (WriteInt16 b) = 2"
  "length (WriteInt32 c) = 4" "length (WriteInt64 d) = 8"
  "length (WriteString s) = 2 + length s"
  by (simp_all add: WriteInt8_def WriteInt16_def WriteInt32_def WriteInt64_def WriteString_def)

lemma length_WriteBytes [size_simps]:
  "length (WriteBytes b) = 4 + (case b of None \<Rightarrow> 0 | Some v \<Rightarrow> length v)"
  by (simp add: WriteBytes_def split: option.splits)

text \<open>The size functions count, modulo the width of \<open>Int32\<close>, what the writers emit.\<close>

lemma StringWireSize_length [size_simps]: "StringWireSize s = word_of_nat (length (WriteString s))"
  by (simp add: StringWireSize_def)

lemma BytesWireSize_length [size_simps]: "BytesWireSize b = word_of_nat (length (WriteBytes b))"
  by (simp add: BytesWireSize_def length_WriteBytes split: option.splits)

section \<open>Reading\<close>

text \<open>
  \<open>is.read(buf, n)\<close> into \<open>n\<close> zero bytes: nothing is read from a stream that has
  failed already; a short read keeps what was there and sets the fail bit.
\<close>

definition istream_read :: "nat \<Rightarrow> istream \<Rightarrow> bytes \<times> istream" where
  "istream_read n is =
     (if is_fail is then (replicate n 0, is)
      else let got = take n (is_rest is)
           in (got @ replicate (n - length got) 0,
               is\<lparr>is_rest := drop n (is_rest is), is_fail := length got < n\<rparr>))"

text \<open>\<open>is.seekg(off, std::ios::cur)\<close> with \<open>off \<ge> 0\<close>.\<close>

definition istream_seekg :: "nat \<Rightarrow> istream \<Rightarrow> istream" where
  "istream_seekg off is =
     (if is_fail is then is
      else if is_seekable is \<and> off \<le> length (is_rest is)
      then is\<lparr>is_rest := drop off (is_rest is)\<rparr>
      else is\<lparr>is_fail := True\<rparr>)"

definition ReadInt8 :: "istream \<Rightarrow> Int8 \<times> istream" where
  "ReadInt8 is = (let (buf, is') = istream_read 1 is in (from_le buf, is'))"

definition ReadInt16 :: "istream \<Rightarrow> Int16 \<times> istream" where
  "ReadInt16 is = (let (buf, is') = istream_read 2 is in (htons (from_le buf), is'))"

definition ReadInt32 :: "istream \<Rightarrow> Int32 \<times> istream" where
  "ReadInt32 is = (let (buf, is') = istream_read 4 is in (htonl (from_le buf), is'))"

definition ReadInt64 :: "istream \<Rightarrow> Int64 \<times> istream" where
  "ReadInt64 is = (let (buf, is') = istream_read 8 is in (be_to_host_64 (from_le buf), is'))"

definition ReadString :: "istream \<Rightarrow> String \<times> istream" where
  "ReadString is =
     (let (len, is1) = ReadInt16 is
      in if 0 < sint len then istream_read (nat (sint len)) is1 else ([], is1))"

definition ReadBytes :: "istream \<Rightarrow> Bytes \<Rightarrow> Bytes \<times> istream" where
  "ReadBytes is old =
     (let (len, is1) = ReadInt32 is
      in if 0 < sint len
         then let (buf, is2) = istream_read (nat (sint len)) is1 in (Some buf, is2)
         else (old, is1))"

lemma istream_read_exact [wire_simps]:
  "length bs = n \<Longrightarrow> istream_read n (good_stream sk (bs @ r)) = (bs, good_stream sk r)"
  by (simp add: istream_read_def)

lemma length_istream_read [simp]: "length (fst (istream_read n is)) = n"
  by (simp add: istream_read_def Let_def)

lemma istream_read_failed [wire_simps]: "is_fail is \<Longrightarrow> istream_read n is = (replicate n 0, is)"
  by (simp add: istream_read_def)

lemma ReadInt8_written [wire_simps]:
  "ReadInt8 (good_stream sk (WriteInt8 v @ r)) = (v, good_stream sk r)"
  by (simp add: ReadInt8_def WriteInt8_def wire_simps)

lemma ReadInt16_written [wire_simps]:
  "ReadInt16 (good_stream sk (WriteInt16 v @ r)) = (v, good_stream sk r)"
  by (simp add: ReadInt16_def WriteInt16_def wire_simps)

lemma ReadInt32_written [wire_simps]:
  "ReadInt32 (good_stream sk (WriteInt32 v @ r)) = (v, good_stream sk r)"
  by (simp add: ReadInt32_def WriteInt32_def wire_simps)

lemma ReadInt64_written [wire_simps]:
  "ReadInt64 (good_stream sk (WriteInt64 v @ r)) = (v, good_stream sk r)"
  by (simp add: ReadInt64_def WriteInt64_def wire_simps be_to_host_64_involution)

lemma sint_of_length:
  assumes "n < 2 ^ (LENGTH('a::len) - 1)"
  shows "sint (word_of_nat n :: 'a word) = int n"
proof -
  have "int n < 2 ^ (LENGTH('a) - Suc 0)" using assms by (simp flip: of_nat_less_iff)
  moreover have "- (2 ^ (LENGTH('a) - Suc 0)) \<le> int n" by (rule order_trans [of _ 0]) simp_all
  ultimately show ?thesis by (simp add: signed_of_nat signed_take_bit_int_eq_self)
qed

lemma ReadString_written [wire_simps]:
  assumes "length s < 2 ^ 15"
  shows "ReadString (good_stream sk (WriteString s @ r)) = (s, good_stream sk r)"
  using assms
  by (cases "s = []")
     (simp_all add: ReadString_def WriteString_def wire_simps sint_of_length)

text \<open>What an empty or null byte array looks like to the reader.\<close>

definition nonempty_bytes :: "Bytes \<Rightarrow> Bytes" where
  "nonempty_bytes b = (if b = Some [] then None else b)"

definition fits_bytes :: "Bytes \<Rightarrow> bool" where
  "fits_bytes b = (case b of None \<Rightarrow> True | Some v \<Rightarrow> length v < 2 ^ 31)"

lemma ReadBytes_written [wire_simps]:
  assumes "fits_bytes b"
  shows "ReadBytes (good_stream sk (WriteBytes b @ r)) None = (nonempty_bytes b, good_stream sk r)"
proof (cases b)
  case None
  then show ?thesis by (simp add: ReadBytes_def WriteBytes_def wire_simps nonempty_bytes_def)
next
  case (Some v)
  with assms have "length v < 2 ^ 31" by (simp add: fits_bytes_def)
  with Some show ?thesis
    by (cases "v = []")
       (simp_all add: ReadBytes_def WriteBytes_def wire_simps nonempty_bytes_def sint_of_length)
qed

section \<open>Codecs\<close>

text \<open>
  The contract a reader and a writer share: the reader takes exactly the bytes of the
  written value off a good stream and gives the value back.  An array is \<open>n\<close> values one
  after the other, read by a counting loop.
\<close>

fun read_n :: "(istream \<Rightarrow> 'a \<times> istream) \<Rightarrow> nat \<Rightarrow> istream \<Rightarrow> 'a list \<times> istream" where
  "read_n rd 0 is = ([], is)"
| "read_n rd (Suc n) is =
     (let (x, is1) = rd is; (xs, is2) = read_n rd n is1 in (x # xs, is2))"

locale codec =
  fixes enc :: "'a \<Rightarrow> bytes"
    and dec :: "istream \<Rightarrow> 'a \<times> istream"
    and fits :: "'a \<Rightarrow> bool"
  assumes dec_enc: "fits x \<Longrightarrow> dec (good_stream sk (enc x @ r)) = (x, good_stream sk r)"
begin

lemma enc_prefix_free:
  assumes "fits x" and "fits y" and "enc x @ r = enc y @ r'"
  shows "x = y \<and> r = r'"
proof -
  have "dec (good_stream False (enc x @ r)) = dec (good_stream False (enc y @ r'))"
    using assms(3) by simp
  then show ?thesis using assms(1,2) by (simp add: dec_enc)
qed

lemma read_n_enc:
  "list_all fits xs \<Longrightarrow>
     read_n dec (length xs) (good_stream sk (concat (map enc xs) @ r)) = (xs, good_stream sk r)"
  by (induction xs) (simp_all add: dec_enc)

end

interpretation c8: codec WriteInt8 ReadInt8 "\<lambda>_. True"
  by unfold_locales (rule ReadInt8_written)

interpretation c16: codec WriteInt16 ReadInt16 "\<lambda>_. True"
  by unfold_locales (rule ReadInt16_written)

interpretation c32: codec WriteInt32 ReadInt32 "\<lambda>_. True"
  by unfold_locales (rule ReadInt32_written)

interpretation c64: codec WriteInt64 ReadInt64 "\<lambda>_. True"
  by unfold_locales (rule ReadInt64_written)

interpretation cstr: codec WriteString ReadString "\<lambda>s. length s < 2 ^ 15"
  by unfold_locales (rule ReadString_written)

interpretation cbytes: codec WriteBytes "\<lambda>is. ReadBytes is None"
    "\<lambda>b. fits_bytes b \<and> b \<noteq> Some []"
  by unfold_locales (simp add: ReadBytes_written nonempty_bytes_def)

text \<open>A string of the upper half of the sixteen-bit range is read back as empty.\<close>

lemma sint16_upper:
  assumes "2 ^ 15 \<le> n" and "n < 2 ^ 16"
  shows "sint (word_of_nat n :: u16) < 0"
proof -
  have "(int n + 32768) mod 65536 = (int n + 32768 - 65536) mod 65536"
    by (rule minus_mod_self2 [symmetric])
  also have "\<dots> = int n + 32768 - 65536"
    by (rule mod_pos_pos_trivial) (use assms in simp_all)
  finally show ?thesis
    using assms by (simp add: signed_of_nat signed_take_bit_eq_take_bit_shift take_bit_eq_mod)
qed

end
