(* ===== verification/DataNode.thy ===== *)
theory DataNode
  imports Controller KWire
begin

text \<open>
  \<open>HVBenchNode\<close>: the OpenFlow switch the benchmark plays towards a hypervisor.  The class
  overrides the callbacks of libfluid's client connection, which is a library: what the code
  asks of it is a list of actions in the order of the calls, the settings of the server
  (\<open>OFServerSettings\<close>) are a record of what its getters return (of the set of versions only
  whether it is empty matters, so its width does not), and the connection keeps
  what the code set.  The layout of a features request and of its reply are the parameters
  \<open>freq_xid\<close>, \<open>pack_fr\<close> and \<open>len_fr\<close>; \<open>ECHO_XID\<close> and \<open>HELLO_XID\<close> are constants of
  the library.
\<close>

section \<open>The library's side\<close>

record OFServerSettings =
  supported_versions :: u32
  liveness_check :: bool
  handshake :: bool
  dispatch_all_messages :: bool
  echo_interval :: int

datatype of_state = STATE_HANDSHAKE | STATE_RUNNING | STATE_FAILED | STATE_DOWN

record OFConnection =
  of_state :: of_state
  of_version :: u8
  of_alive :: bool

datatype node_action =
    Send bytes nat
  | CloseConn
  | AddTimedCallback int
  | ConnectionCallback conn_event
  | MessageCallback u8 bytes
  | FreeData bytes
  | DeleteConn

section \<open>The node\<close>

record HVBenchNode =
  ofsc :: OFServerSettings
  datapath_id :: u64
  nconn :: "OFConnection option"

text \<open>\<open>OFServerSettings().supported_version(0x01)\<close> is the parameter \<open>settings\<close>.\<close>

definition HVBenchNode_new :: "OFServerSettings \<Rightarrow> u64 \<Rightarrow> HVBenchNode" where
  "HVBenchNode_new settings dp = \<lparr>ofsc = settings, datapath_id = dp, nconn = None\<rparr>"

definition OFPT_HELLO :: u8 where "OFPT_HELLO = 0"
definition OFPT_ERROR :: u8 where "OFPT_ERROR = 1"
definition OFPT_ECHO_REQUEST :: u8 where "OFPT_ECHO_REQUEST = 2"
definition OFPT_ECHO_REPLY :: u8 where "OFPT_ECHO_REPLY = 3"
definition OFPT_FEATURES_REQUEST :: u8 where "OFPT_FEATURES_REQUEST = 5"
definition OFPET_HELLO_FAILED :: u16 where "OFPET_HELLO_FAILED = 0"
definition OFPHFC_INCOMPATIBLE :: u16 where "OFPHFC_INCOMPATIBLE = 0"

text \<open>The four bytes at offset 4 of a message, as they lie in memory.\<close>

definition xid_bytes :: "bytes \<Rightarrow> bytes" where
  "xid_bytes d = take 4 (drop 4 d)"

text \<open>
  \<open>not supported_versions() & (1 << (version - 1))\<close>: the negation binds tighter than
  \<open>&\<close>, so the left operand is the integer 0 or 1.  The shift is undefined for a version
  that is 0 or above 32.
\<close>

definition version_refused :: "u32 \<Rightarrow> u8 \<Rightarrow> bool" where
  "version_refused supported version =
     ((of_bool (supported = 0) AND push_bit (unat version - 1) 1 :: u32) \<noteq> 0)"

definition shift_defined :: "u8 \<Rightarrow> bool" where
  "shift_defined version \<longleftrightarrow> 1 \<le> unat version \<and> unat version \<le> 32"

definition echo_reply :: "bytes \<Rightarrow> bytes" where
  "echo_reply d = [d ! 0, OFPT_ECHO_REPLY] @ le_bytes 2 (htons 8) @ xid_bytes d"

text \<open>Only the first eight of the twelve bytes are cleared; the other four are written.\<close>

definition hello_failed :: "bytes \<Rightarrow> bytes" where
  "hello_failed d =
     [d ! 0, OFPT_ERROR] @ le_bytes 2 (htons 12) @ xid_bytes d @
     le_bytes 2 (htons OFPET_HELLO_FAILED) @ le_bytes 2 (htons OFPHFC_INCOMPATIBLE)"

text \<open>The labels \<open>dispatch\<close> and \<open>done\<close> at the end of the function.\<close>

definition finish_message :: "bool \<Rightarrow> u8 \<Rightarrow> bytes \<Rightarrow> node_action list" where
  "finish_message dispatch ty d = (if dispatch then [MessageCallback ty d] else []) @ [FreeData d]"

text \<open>
  \<open>base_message_callback\<close> with the connection \<open>cc\<close> the base connection belongs to: the
  connection after the call and the actions, or a read past the end of the message.
\<close>

definition base_message_callback ::
    "(bytes \<Rightarrow> u32) \<Rightarrow> (u32 \<Rightarrow> u64 \<Rightarrow> bytes) \<Rightarrow> (u32 \<Rightarrow> u64 \<Rightarrow> nat) \<Rightarrow> u32 \<Rightarrow>
     HVBenchNode \<Rightarrow> OFConnection \<Rightarrow> bytes \<Rightarrow> exn + (OFConnection \<times> node_action list)" where
  "base_message_callback freq_xid pack_fr len_fr ECHO_XID node cc d =
     (if length d < 8 then Inl UndefinedBehaviour
      else
        let st = ofsc node; ty = d ! 1; all = dispatch_all_messages st
        in if liveness_check st \<and> ty = OFPT_ECHO_REQUEST then
             Inr (cc, Send (echo_reply d) 8 # finish_message all ty d)
           else if handshake st \<and> ty = OFPT_HELLO then
             (if \<not> shift_defined (d ! 0) then Inl UndefinedBehaviour
              else if version_refused (supported_versions st) (d ! 0) then
                Inr (cc\<lparr>of_state := STATE_FAILED\<rparr>,
                     [Send (hello_failed d) 12, CloseConn, ConnectionCallback EVENT_FAILED_NEGOTIATION]
                     @ finish_message all ty d)
              else Inr (cc, finish_message all ty d))
           else if liveness_check st \<and> ty = OFPT_ECHO_REPLY then
             Inr (if htonl (from_le (xid_bytes d)) = ECHO_XID then cc\<lparr>of_alive := True\<rparr> else cc,
                  finish_message all ty d)
           else if handshake st \<and> ty = OFPT_FEATURES_REQUEST then
             (let x = freq_xid d; dp = datapath_id node
              in Inr (cc\<lparr>of_version := d ! 0, of_state := STATE_RUNNING\<rparr>,
                      [Send (pack_fr x dp) (len_fr x dp)]
                      @ (if liveness_check st then [AddTimedCallback (echo_interval st * 1000)] else [])
                      @ [ConnectionCallback EVENT_ESTABLISHED]
                      @ finish_message True ty d))
           else Inr (cc, finish_message True ty d))"

section \<open>Connections\<close>

datatype base_event = BASE_UP | BASE_DOWN | BASE_CLOSED

text \<open>The transaction number of the greeting is stored without \<open>htonl\<close>.\<close>

definition hello_message :: "u32 \<Rightarrow> bytes" where
  "hello_message HELLO_XID = [1, OFPT_HELLO] @ le_bytes 2 (htons 8) @ le_bytes 4 HELLO_XID"

text \<open>\<open>c0\<close> is the connection the library constructs.\<close>

definition base_connection_callback ::
    "u32 \<Rightarrow> OFConnection \<Rightarrow> base_event \<Rightarrow> HVBenchNode \<Rightarrow> HVBenchNode \<times> node_action list" where
  "base_connection_callback HELLO_XID c0 ev node =
     (case ev of
        BASE_CLOSED \<Rightarrow> (node, [DeleteConn])
      | BASE_UP \<Rightarrow>
          (node\<lparr>nconn := Some c0\<rparr>,
           (if handshake (ofsc node) then [Send (hello_message HELLO_XID) 8] else [])
           @ [ConnectionCallback EVENT_STARTED])
      | BASE_DOWN \<Rightarrow> (node, [ConnectionCallback EVENT_CLOSED]))"

definition echo_request :: "u32 \<Rightarrow> u8 \<Rightarrow> bytes" where
  "echo_request ECHO_XID version =
     [version, OFPT_ECHO_REQUEST] @ le_bytes 2 (htons 8) @ le_bytes 4 (htonl ECHO_XID)"

definition send_echo :: "u32 \<Rightarrow> OFConnection \<Rightarrow> OFConnection \<times> node_action list" where
  "send_echo ECHO_XID cc =
     (if \<not> of_alive cc then (cc, [CloseConn, ConnectionCallback EVENT_DEAD])
      else (cc\<lparr>of_alive := False\<rparr>, [Send (echo_request ECHO_XID (of_version cc)) 8]))"

definition stop_conn :: "HVBenchNode \<Rightarrow> node_action list" where
  "stop_conn node = (case nconn node of None \<Rightarrow> [] | Some c \<Rightarrow> [CloseConn])"

section \<open>What the callbacks do\<close>

text \<open>
  The interface the loop of the library relies on: a callback that owns the message it is
  given hands it back exactly once, as its last action.  \<open>deliver_all\<close> is a run of that
  loop over the messages that arrive.
\<close>

fun frees :: "node_action \<Rightarrow> bool" where
  "frees (FreeData d) = True"
| "frees _ = False"

fun deliver_all ::
    "('c \<Rightarrow> bytes \<Rightarrow> exn + ('c \<times> node_action list)) \<Rightarrow> 'c \<Rightarrow> bytes list \<Rightarrow>
     exn + ('c \<times> node_action list)" where
  "deliver_all handler c [] = Inr (c, [])"
| "deliver_all handler c (d # ds) =
     (case handler c d of Inl e \<Rightarrow> Inl e | Inr (c', acts) \<Rightarrow>
      case deliver_all handler c' ds of Inl e \<Rightarrow> Inl e | Inr (c'', acts') \<Rightarrow> Inr (c'', acts @ acts'))"

locale message_owner =
  fixes handler :: "'c \<Rightarrow> bytes \<Rightarrow> exn + ('c \<times> node_action list)"
  assumes frees_last: "handler c d = Inr (c', acts) \<Longrightarrow>
      last acts = FreeData d \<and> List.filter frees acts = [FreeData d]"
begin

lemma deliver_frees:
  "deliver_all handler c ds = Inr (c', acts) \<Longrightarrow> List.filter frees acts = map FreeData ds"
proof (induction ds arbitrary: c acts)
  case (Cons d ds)
  then obtain c1 a1 a2 where
    1: "handler c d = Inr (c1, a1)" and 2: "deliver_all handler c1 ds = Inr (c', a2)"
    and a: "acts = a1 @ a2"
    by (auto split: sum.splits prod.splits)
  show ?case using frees_last [OF 1] Cons.IH [OF 2] a by simp
qed simp

end

lemma finish_message_frees [simp]:
  "last (pre @ finish_message b ty d) = FreeData d"
  "last (finish_message b ty d) = FreeData d"
  "finish_message b ty d \<noteq> []"
  "List.filter frees (finish_message b ty d) = [FreeData d]"
  by (simp_all add: finish_message_def)

interpretation node: message_owner "base_message_callback freq_xid pack_fr len_fr X node"
  for freq_xid pack_fr len_fr X node
  by unfold_locales (auto simp: base_message_callback_def Let_def split: if_splits)

text \<open>
  C28. Memory: however many messages arrive at a node, in whatever order and with whatever
  contents, the buffers that are handed back to the library are exactly the messages, each
  once and in order of arrival: the callback has many exits, none of which leaks or frees twice.
\<close>

theorem node_frees_messages:
  assumes "deliver_all (base_message_callback freq_xid pack_fr len_fr X node) cc ds = Inr (cc', acts)"
  shows "List.filter frees acts = map FreeData ds"
  using assms by (rule node.deliver_frees)

definition demo_settings :: OFServerSettings where
  "demo_settings = \<lparr>supported_versions = 1, liveness_check = True, handshake = True,
     dispatch_all_messages = False, echo_interval = 15\<rparr>"

definition demo_node :: HVBenchNode where
  "demo_node = HVBenchNode_new demo_settings 7"

definition demo_conn :: OFConnection where
  "demo_conn = \<lparr>of_state = STATE_HANDSHAKE, of_version = 0, of_alive = True\<rparr>"

definition demo_messages :: "bytes list" where
  "demo_messages = [[1, 0, 0, 8, 0, 0, 0, 9], [1, 5, 0, 8, 0, 0, 0, 10], [1, 2, 0, 8, 0, 0, 0, 11]]"

lemma demo_messages_run:
  "deliver_all (base_message_callback (\<lambda>d. 10) (\<lambda>x dp. [1, 6]) (\<lambda>x dp. 2) 15 demo_node)
     demo_conn demo_messages =
   Inr (\<lparr>of_state = STATE_RUNNING, of_version = 1, of_alive = True\<rparr>,
     [FreeData [1, 0, 0, 8, 0, 0, 0, 9],
      Send [1, 6] 2, AddTimedCallback 15000, ConnectionCallback EVENT_ESTABLISHED,
      MessageCallback 5 [1, 5, 0, 8, 0, 0, 0, 10], FreeData [1, 5, 0, 8, 0, 0, 0, 10],
      Send [1, 3, 0, 8, 0, 0, 0, 11] 8, FreeData [1, 2, 0, 8, 0, 0, 0, 11]])"
  by code_simp

lemma node_frees_messages_witness:
  "List.filter frees (snd (projr (deliver_all
      (base_message_callback (\<lambda>d. 10) (\<lambda>x dp. [1, 6]) (\<lambda>x dp. 2) 15 demo_node)
      demo_conn demo_messages))) = map FreeData demo_messages"
  using node_frees_messages [OF demo_messages_run] unfolding demo_messages_run by simp

section \<open>Liveness and the handshake\<close>

lemma length_echo_request [simp]: "length (echo_request X v) = 8"
  by (simp add: echo_request_def)

lemma xid_bytes_echo_request: "xid_bytes (echo_request X v) = le_bytes 4 (htonl X)"
  by (simp add: xid_bytes_def echo_request_def numeral_eq_Suc)

lemma echo_reply_request:
  "echo_reply (echo_request X v) = [v, OFPT_ECHO_REPLY] @ le_bytes 2 (htons 8) @ le_bytes 4 (htonl X)"
  by (simp add: echo_reply_def xid_bytes_echo_request) (simp add: echo_request_def)

lemma xid_bytes_echo_reply:
  "xid_bytes (echo_reply (echo_request X v)) = le_bytes 4 (htonl X)"
  by (simp add: xid_bytes_def echo_reply_request numeral_eq_Suc)

text \<open>
  Liveness: with the liveness check of both sides on, the echo request a live node sends
  is answered by a peer that runs the same code with a reply of the same version and
  transaction number; when that reply arrives the node counts as alive again, so the next
  \<open>send_echo\<close> goes on.  Without a reply the next \<open>send_echo\<close> closes the connection and
  reports it dead.
\<close>

theorem echo_keeps_alive:
  assumes "of_alive cc" and "liveness_check (ofsc node)" and "liveness_check (ofsc peer)"
    and "send_echo X cc = (cc1, acts)" and "req = echo_request X (of_version cc)"
  shows "acts = [Send req 8] \<and>
    base_message_callback fx pk ln Y peer pc req =
      Inr (pc, Send (echo_reply req) 8
               # finish_message (dispatch_all_messages (ofsc peer)) OFPT_ECHO_REQUEST req) \<and>
    base_message_callback fx pk ln X node cc1 (echo_reply req) =
      Inr (cc, finish_message (dispatch_all_messages (ofsc node)) OFPT_ECHO_REPLY (echo_reply req)) \<and>
    send_echo X cc1 = (cc1, [CloseConn, ConnectionCallback EVENT_DEAD])"
proof (intro conjI)
  have cc1: "cc1 = cc\<lparr>of_alive := False\<rparr>" and acts: "acts = [Send req 8]"
    using assms(1,4,5) by (auto simp: send_echo_def)
  show "acts = [Send req 8]" by (rule acts)
  have "req ! Suc 0 = OFPT_ECHO_REQUEST" "length req = 8" by (simp_all add: assms(5) echo_request_def)
  then show "base_message_callback fx pk ln Y peer pc req =
      Inr (pc, Send (echo_reply req) 8
               # finish_message (dispatch_all_messages (ofsc peer)) OFPT_ECHO_REQUEST req)"
    using assms(3) by (simp add: base_message_callback_def Let_def)
  have "echo_reply req ! Suc 0 = OFPT_ECHO_REPLY" "length (echo_reply req) = 8"
    by (simp_all add: assms(5) echo_reply_request)
  moreover have "htonl (from_le (xid_bytes (echo_reply req))) = X"
    by (simp add: assms(5) xid_bytes_echo_reply)
  moreover have "cc\<lparr>of_alive := True\<rparr> = cc" using assms(1) by simp
  ultimately show "base_message_callback fx pk ln X node cc1 (echo_reply req) =
      Inr (cc, finish_message (dispatch_all_messages (ofsc node)) OFPT_ECHO_REPLY (echo_reply req))"
    using assms(2) by (simp add: base_message_callback_def Let_def cc1
      OFPT_ECHO_REPLY_def OFPT_ECHO_REQUEST_def OFPT_HELLO_def)
  show "send_echo X cc1 = (cc1, [CloseConn, ConnectionCallback EVENT_DEAD])"
    by (simp add: send_echo_def cc1)
qed

lemma echo_keeps_alive_witness:
  "\<exists>cc1. send_echo 15 demo_conn = (cc1, [Send (echo_request 15 0) 8]) \<and>
     fst (projr (base_message_callback (\<lambda>d. 10) (\<lambda>x dp. []) (\<lambda>x dp. 0) 15 demo_node cc1
       (echo_reply (echo_request 15 0)))) = demo_conn"
proof -
  have v: "of_version demo_conn = 0" by (simp add: demo_conn_def)
  have s: "send_echo 15 demo_conn =
      (demo_conn\<lparr>of_alive := False\<rparr>, [Send (echo_request 15 0) 8])"
    by (simp add: send_echo_def demo_conn_def)
  have "of_alive demo_conn" "liveness_check (ofsc demo_node)"
    by (simp_all add: demo_conn_def demo_node_def HVBenchNode_new_def demo_settings_def)
  then show ?thesis
    using echo_keeps_alive [where cc = demo_conn and node = demo_node and peer = demo_node
        and fx = "\<lambda>d. 10" and pk = "\<lambda>x dp. []" and ln = "\<lambda>x dp. 0" and Y = 15
        and pc = demo_conn and X = 15, OF _ _ _ s refl] s v
    by (intro exI [of _ "demo_conn\<lparr>of_alive := False\<rparr>"]) simp
qed

lemma version_refused_iff:
  assumes "shift_defined v"
  shows "version_refused s v \<longleftrightarrow> s = 0 \<and> v = 1"
proof -
  have n: "unat v - 1 < 32" using assms by (auto simp: shift_defined_def)
  have "(1 AND push_bit (unat v - 1) 1 :: u32) \<noteq> 0 \<longleftrightarrow> unat v - 1 = 0"
    by (cases "unat v - 1") (auto simp: one_and_eq mod_2_eq_odd)
  moreover have "unat v - 1 = 0 \<longleftrightarrow> v = 1"
    using assms by (auto simp: shift_defined_def word_unat_eq_iff)
  ultimately show ?thesis by (simp add: version_refused_def)
qed

text \<open>
  C29. Version negotiation: a node that supports any version at all refuses no greeting,
  whatever version the peer announces: the connection is not failed, no error is sent, the
  message is only handed back (or dispatched).  Only a node that supports no version refuses
  one, and then only version 1.
\<close>

theorem hello_never_refused:
  assumes "length d \<ge> 8" and "d ! 1 = OFPT_HELLO" and "handshake (ofsc node)"
    and "shift_defined (d ! 0)"
  shows "base_message_callback fx pk ln X node cc d =
     (if supported_versions (ofsc node) = 0 \<and> d ! 0 = 1
      then Inr (cc\<lparr>of_state := STATE_FAILED\<rparr>,
             [Send (hello_failed d) 12, CloseConn, ConnectionCallback EVENT_FAILED_NEGOTIATION]
             @ finish_message (dispatch_all_messages (ofsc node)) OFPT_HELLO d)
      else Inr (cc, finish_message (dispatch_all_messages (ofsc node)) OFPT_HELLO d))"
  using assms
  by (simp add: base_message_callback_def Let_def version_refused_iff OFPT_ECHO_REQUEST_def OFPT_HELLO_def)

lemma hello_never_refused_witness:
  "base_message_callback (\<lambda>d. 10) (\<lambda>x dp. []) (\<lambda>x dp. 0) 15 demo_node demo_conn
     [4, 0, 0, 8, 0, 0, 0, 9] = Inr (demo_conn, [FreeData [4, 0, 0, 8, 0, 0, 0, 9]])"
  using hello_never_refused [where d = "[4, 0, 0, 8, 0, 0, 0, 9]" and node = demo_node and X = 15
      and fx = "\<lambda>d. 10" and pk = "\<lambda>x dp. []" and ln = "\<lambda>x dp. 0" and cc = demo_conn]
  by (simp add: OFPT_HELLO_def shift_defined_def demo_node_def HVBenchNode_new_def
      demo_settings_def finish_message_def)

end
