(* ===== verification/KError.thy ===== *)
theory KError
  imports KWire
begin

text \<open>
  \<open>libkafka_asio/constants.h\<close> and \<open>error.h\<close>: the numbers of the protocol, the errors of
  the client and of the broker, and the categories that describe them.  An error code of
  \<open>boost::system\<close> is a category with a value, and means an error when the value is not zero.
\<close>

section \<open>Constants\<close>

definition kApiKeyProduceRequest :: Int16 where "kApiKeyProduceRequest = 0"
definition kApiKeyFetchRequest :: Int16 where "kApiKeyFetchRequest = 1"
definition kApiKeyOffsetRequest :: Int16 where "kApiKeyOffsetRequest = 2"
definition kApiKeyMetadataRequest :: Int16 where "kApiKeyMetadataRequest = 3"
definition kApiKeyOffsetCommitRequest :: Int16 where "kApiKeyOffsetCommitRequest = 8"
definition kApiKeyOffsetFetchRequest :: Int16 where "kApiKeyOffsetFetchRequest = 9"
definition kApiKeyConsumerMetadataRequest :: Int16 where "kApiKeyConsumerMetadataRequest = 10"

datatype Compression =
  kCompressionNone | kCompressionGZIP | kCompressionSnappy | kCompressionLz4

definition kDefaultPartition :: Int32 where "kDefaultPartition = 0"
definition kDefaultProduceRequiredAcks :: Int16 where "kDefaultProduceRequiredAcks = 1"
definition kDefaultProduceTimeout :: Int32 where "kDefaultProduceTimeout = 10000"
definition kDefaultFetchOffset :: Int64 where "kDefaultFetchOffset = 0"
definition kDefaultFetchMinBytes :: Int32 where "kDefaultFetchMinBytes = 0"
definition kDefaultFetchMaxBytes :: Int32 where "kDefaultFetchMaxBytes = 32768"
definition kDefaultFetchMaxWaitTime :: Int32 where "kDefaultFetchMaxWaitTime = 0"
definition kDefaultOffsetMaxNumberOfOffsets :: Int32 where "kDefaultOffsetMaxNumberOfOffsets = 1"
definition kDefaultOffsetCommitTimestampNow :: Int64 where "kDefaultOffsetCommitTimestampNow = - 1"
definition kDefaultCorrelationId :: Int32 where "kDefaultCorrelationId = 0"
definition kDefaultMessageMaxBytes :: Int32 where "kDefaultMessageMaxBytes = 4194304"
definition kDefaultSocketTimeout :: Int32 where "kDefaultSocketTimeout = 60000"
definition kOffsetTimeLatest :: Int64 where "kOffsetTimeLatest = - 1"
definition kMetadataLeaderUndecided :: Int32 where "kMetadataLeaderUndecided = - 1"

definition DefaultConnectionAutoConnect :: bool where
  "DefaultConnectionAutoConnect = False"

definition DefaultClientId :: String where
  "DefaultClientId = bytes_of_string ''libkafka_asio''"

definition DefaultKafkaService :: String where
  "DefaultKafkaService = bytes_of_string ''9092''"

section \<open>Errors\<close>

datatype ClientError =
    kErrorSuccess | kErrorAlreadyConnected | kErrorNotConnected | kErrorNoBroker
  | kErrorInProgress | kErrorCompressionNotAvailable | kErrorCompressionFailed

fun ClientError_value :: "ClientError \<Rightarrow> int" where
  "ClientError_value kErrorSuccess = 0"
| "ClientError_value kErrorAlreadyConnected = 1"
| "ClientError_value kErrorNotConnected = 2"
| "ClientError_value kErrorNoBroker = 3"
| "ClientError_value kErrorInProgress = 4"
| "ClientError_value kErrorCompressionNotAvailable = 5"
| "ClientError_value kErrorCompressionFailed = 6"

datatype KafkaError =
    kErrorNoError | kErrorUnknown | kErrorOffsetOutOfRange | kErrorInvalidMessage
  | kErrorUnknownTopicOrPartition | kErrorInvalidMessageSize | kErrorLeaderNotAvailable
  | kErrorNotLeaderForPartition | kErrorRequestTimedOut | kErrorBrokerNotAvailable
  | kErrorReplicaNotAvailable | kErrorMessageSizeTooLarge | kErrorStaleControllerEpochCode
  | kErrorOffsetMetadataTooLargeCode | kErrorOffsetLoadInProgressCode
  | kErrorConsumerCoordinatorNotAvailableCode | kErrorNotCoordinatorForConsumerCode

fun KafkaError_value :: "KafkaError \<Rightarrow> int" where
  "KafkaError_value kErrorNoError = 0"
| "KafkaError_value kErrorUnknown = - 1"
| "KafkaError_value kErrorOffsetOutOfRange = 1"
| "KafkaError_value kErrorInvalidMessage = 2"
| "KafkaError_value kErrorUnknownTopicOrPartition = 3"
| "KafkaError_value kErrorInvalidMessageSize = 4"
| "KafkaError_value kErrorLeaderNotAvailable = 5"
| "KafkaError_value kErrorNotLeaderForPartition = 6"
| "KafkaError_value kErrorRequestTimedOut = 7"
| "KafkaError_value kErrorBrokerNotAvailable = 8"
| "KafkaError_value kErrorReplicaNotAvailable = 9"
| "KafkaError_value kErrorMessageSizeTooLarge = 10"
| "KafkaError_value kErrorStaleControllerEpochCode = 11"
| "KafkaError_value kErrorOffsetMetadataTooLargeCode = 12"
| "KafkaError_value kErrorOffsetLoadInProgressCode = 14"
| "KafkaError_value kErrorConsumerCoordinatorNotAvailableCode = 15"
| "KafkaError_value kErrorNotCoordinatorForConsumerCode = 16"

datatype error_category = ClientErrorCategory | KafkaErrorCategory | SystemCategory

type_synonym error_code = "error_category \<times> int"

definition make_error_code_client :: "ClientError \<Rightarrow> error_code" where
  "make_error_code_client e = (ClientErrorCategory, ClientError_value e)"

definition make_error_code_kafka :: "KafkaError \<Rightarrow> error_code" where
  "make_error_code_kafka e = (KafkaErrorCategory, KafkaError_value e)"

text \<open>\<open>if (ec)\<close>, and an error code that is not initialised by the code.\<close>

definition ec_failed :: "error_code \<Rightarrow> bool" where
  "ec_failed ec \<longleftrightarrow> snd ec \<noteq> 0"

definition ec_default :: error_code where
  "ec_default = (SystemCategory, 0)"

definition ClientErrorCategory_message :: "int \<Rightarrow> string" where
  "ClientErrorCategory_message v =
     (if v = ClientError_value kErrorAlreadyConnected then ''Client is already connected to remote host''
      else if v = ClientError_value kErrorNotConnected then ''Client is not connected''
      else if v = ClientError_value kErrorNoBroker then ''No broker found''
      else if v = ClientError_value kErrorInProgress
        then ''Another operation is still in progress for this client''
      else if v = ClientError_value kErrorCompressionNotAvailable
        then ''The specified compression algorithm is not available!''
      else if v = ClientError_value kErrorCompressionFailed then ''Data compression failure!''
      else ''libkafka_asio client error'')"

definition KafkaErrorCategory_message :: "int \<Rightarrow> string" where
  "KafkaErrorCategory_message v =
     (if v = KafkaError_value kErrorNoError then ''No error''
      else if v = KafkaError_value kErrorUnknown then ''Unexpected server error''
      else if v = KafkaError_value kErrorOffsetOutOfRange
        then ''The requested offset is outside the range of offsets maintained by the server for the given topic/partition.''
      else if v = KafkaError_value kErrorInvalidMessage then ''message content does not match its CRC.''
      else if v = KafkaError_value kErrorUnknownTopicOrPartition
        then ''Topic or partition does not exist on this broker.''
      else if v = KafkaError_value kErrorInvalidMessageSize then ''The message has a negative size''
      else if v = KafkaError_value kErrorLeaderNotAvailable
        then ''There is currently no leader for this partition and hence it is unavailable for writes.''
      else if v = KafkaError_value kErrorNotLeaderForPartition
        then ''Message was sent to a replica that is not the leader for this partition. Client metadata is out of date.''
      else if v = KafkaError_value kErrorRequestTimedOut
        then ''Request exceeded the user-specified time limit''
      else if v = KafkaError_value kErrorBrokerNotAvailable then ''Broker not available.''
      else if v = KafkaError_value kErrorReplicaNotAvailable
        then ''Replica was expected on this broker but is not available.''
      else if v = KafkaError_value kErrorMessageSizeTooLarge then ''Message was too large''
      else if v = KafkaError_value kErrorStaleControllerEpochCode
        then ''Internal error StaleControllerEpochCode''
      else if v = KafkaError_value kErrorOffsetMetadataTooLargeCode
        then ''Specified string larger than configured maximum for offset metadata''
      else if v = KafkaError_value kErrorOffsetLoadInProgressCode
        then ''Offset fetch request is still loading offsets''
      else if v = KafkaError_value kErrorConsumerCoordinatorNotAvailableCode
        then ''Offsets topic has not yet been created.''
      else if v = KafkaError_value kErrorNotCoordinatorForConsumerCode
        then ''Request was for a consumer group that is not coordinated by this broker.''
      else ''libkafka_asio kafka error'')"

text \<open>Only success is no error, and no two errors share a value.\<close>

lemma ec_failed_simps [simp]:
  "ec_failed (make_error_code_client e) \<longleftrightarrow> e \<noteq> kErrorSuccess"
  "ec_failed (make_error_code_kafka f) \<longleftrightarrow> f \<noteq> kErrorNoError"
  "\<not> ec_failed ec_default"
  by (cases e) (simp_all add: ec_failed_def make_error_code_client_def make_error_code_kafka_def
      ec_default_def, cases f, simp_all)

lemma make_error_code_inject [simp]:
  "make_error_code_client e = make_error_code_client e' \<longleftrightarrow> e = e'"
  "make_error_code_kafka f = make_error_code_kafka f' \<longleftrightarrow> f = f'"
  "make_error_code_client e \<noteq> make_error_code_kafka f"
proof -
  show "make_error_code_client e = make_error_code_client e' \<longleftrightarrow> e = e'"
    by (cases e; cases e') (simp_all add: make_error_code_client_def)
  show "make_error_code_kafka f = make_error_code_kafka f' \<longleftrightarrow> f = f'"
    by (cases f; cases f') (simp_all add: make_error_code_kafka_def)
  show "make_error_code_client e \<noteq> make_error_code_kafka f"
    by (simp add: make_error_code_client_def make_error_code_kafka_def)
qed

end
