(* ===== verification/KMessages.thy ===== *)
theory KMessages
  imports KError
begin

text \<open>
  \<open>message.h\<close>, \<open>detail/compression*.h\<close> and the readers and writers of messages.  Messages
  are values: the byte arrays and nested sets that copies share are never changed after they
  were built.  \<open>crc\<close> (Boost) and the functions of zlib are parameters; Snappy is disabled by
  the macro in \<open>KafkaOutput.h\<close>, so it and LZ4 use the fallback.
\<close>

section \<open>Messages\<close>

datatype Message =
  Message (m_attributes: Int8) (m_key: Bytes) (m_value: Bytes) (m_nested: "(Message \<times> Int64) list")

type_synonym MessageAndOffset = "Message \<times> Int64"
type_synonym MessageSet = "MessageAndOffset list"

definition Message_new :: Message where
  "Message_new = Message 0 None None []"

definition magic_byte :: "Message \<Rightarrow> Int8" where
  "magic_byte m = 0"

definition set_attributes :: "Int8 \<Rightarrow> Message \<Rightarrow> Message" where
  "set_attributes a m = Message a (m_key m) (m_value m) (m_nested m)"

definition Compression_of :: "Int8 \<Rightarrow> Compression" where
  "Compression_of a =
     (let c = a AND 0x03
      in if c = 0 then kCompressionNone else if c = 1 then kCompressionGZIP
         else if c = 2 then kCompressionSnappy else kCompressionLz4)"

definition compression :: "Message \<Rightarrow> Compression" where
  "compression m = Compression_of (m_attributes m)"

fun Compression_value :: "Compression \<Rightarrow> Int8" where
  "Compression_value kCompressionNone = 0"
| "Compression_value kCompressionGZIP = 1"
| "Compression_value kCompressionSnappy = 2"
| "Compression_value kCompressionLz4 = 3"

section \<open>Compression\<close>

text \<open>
  A stream of zlib: \<open>z_start\<close> is the initialisation on the input (with the code it leaves
  in \<open>ret\<close>), \<open>z_step\<close> one call with a buffer of the given sz, which gives the code and
  the bytes it put into the buffer.
\<close>

record 'z zlib =
  deflate_start :: "bytes \<Rightarrow> (int \<times> 'z) option"
  deflate_step :: "nat \<Rightarrow> 'z \<Rightarrow> int \<times> bytes \<times> 'z"
  inflate_start :: "bytes \<Rightarrow> (int \<times> 'z) option"
  inflate_step :: "nat \<Rightarrow> 'z \<Rightarrow> int \<times> bytes \<times> 'z"

definition Z_OK :: int where "Z_OK = 0"
definition Z_STREAM_END :: int where "Z_STREAM_END = 1"

definition kBufferSize :: nat where "kBufferSize = 32 * 1024"

partial_function (option) z_loop ::
    "(nat \<Rightarrow> 'z \<Rightarrow> int \<times> bytes \<times> 'z) \<Rightarrow> int \<Rightarrow> 'z \<Rightarrow> bytes \<Rightarrow> nat \<Rightarrow> (int \<times> bytes \<times> nat) option" where
  "z_loop step ret z out tot =
     (if ret = Z_OK then
        (let (ret', produced, z') = step kBufferSize z
         in z_loop step ret' z' (out @ produced @ replicate (kBufferSize - length produced) 0)
              (tot + length produced))
      else Some (ret, out, tot))"

definition z_run ::
    "(bytes \<Rightarrow> (int \<times> 'z) option) \<Rightarrow> (nat \<Rightarrow> 'z \<Rightarrow> int \<times> bytes \<times> 'z) \<Rightarrow> Bytes \<Rightarrow> (Bytes \<times> error_code) option" where
  "z_run start step data =
     (case data of
        None \<Rightarrow> Some (None, make_error_code_client kErrorCompressionFailed)
      | Some v \<Rightarrow>
          if v = [] then Some (None, make_error_code_client kErrorCompressionFailed)
          else case start v of
            None \<Rightarrow> Some (None, make_error_code_client kErrorCompressionFailed)
          | Some (ret, z) \<Rightarrow>
              (case z_loop step ret z [] 0 of
                 None \<Rightarrow> None
               | Some (ret', out, tot) \<Rightarrow>
                   let out' = (if tot < length out then take tot out else out)
                   in if ret' \<noteq> Z_STREAM_END
                      then Some (None, make_error_code_client kErrorCompressionFailed)
                      else Some (Some out', make_error_code_client kErrorSuccess)))"

definition GZIP_Compress :: "'z zlib \<Rightarrow> Bytes \<Rightarrow> (Bytes \<times> error_code) option" where
  "GZIP_Compress zl data = z_run (deflate_start zl) (deflate_step zl) data"

definition GZIP_Decompress :: "'z zlib \<Rightarrow> Bytes \<Rightarrow> (Bytes \<times> error_code) option" where
  "GZIP_Decompress zl data = z_run (inflate_start zl) (inflate_step zl) data"

definition Fallback_Compress :: "Bytes \<Rightarrow> Bytes \<times> error_code" where
  "Fallback_Compress data = (None, make_error_code_client kErrorCompressionNotAvailable)"

definition Fallback_Decompress :: "Bytes \<Rightarrow> Bytes \<times> error_code" where
  "Fallback_Decompress data = (None, make_error_code_client kErrorCompressionNotAvailable)"

definition Compress :: "'z zlib \<Rightarrow> Bytes \<Rightarrow> Compression \<Rightarrow> (Bytes \<times> error_code) option" where
  "Compress zl data c =
     (case c of
        kCompressionGZIP \<Rightarrow> GZIP_Compress zl data
      | kCompressionSnappy \<Rightarrow> Some (Fallback_Compress data)
      | kCompressionLz4 \<Rightarrow> Some (Fallback_Compress data)
      | kCompressionNone \<Rightarrow> Some (None, make_error_code_client kErrorSuccess))"

definition Decompress :: "'z zlib \<Rightarrow> Bytes \<Rightarrow> Compression \<Rightarrow> (Bytes \<times> error_code) option" where
  "Decompress zl data c =
     (case c of
        kCompressionGZIP \<Rightarrow> GZIP_Decompress zl data
      | kCompressionSnappy \<Rightarrow> Some (Fallback_Decompress data)
      | kCompressionLz4 \<Rightarrow> Some (Fallback_Decompress data)
      | kCompressionNone \<Rightarrow> Some (None, make_error_code_client kErrorSuccess))"

section \<open>Writing\<close>

definition MessageWireSize :: "Message \<Rightarrow> Int32" where
  "MessageWireSize m = 4 + 1 + 1 + BytesWireSize (m_key m) + BytesWireSize (m_value m)"

definition MessageSetWireSize :: "MessageSet \<Rightarrow> Int32" where
  "MessageSetWireSize ms = foldl (\<lambda>sz (m, off). sz + (8 + 4 + MessageWireSize m)) 0 ms"

definition WriteMessage :: "(bytes \<Rightarrow> u32) \<Rightarrow> Message \<Rightarrow> bytes" where
  "WriteMessage crc m =
     (let intermediate = WriteInt8 (magic_byte m) @ WriteInt8 (m_attributes m) @
            WriteBytes (m_key m) @ WriteBytes (m_value m)
      in WriteInt32 (crc intermediate) @ intermediate)"

fun WriteMessageSet :: "(bytes \<Rightarrow> u32) \<Rightarrow> MessageSet \<Rightarrow> bytes" where
  "WriteMessageSet crc [] = []"
| "WriteMessageSet crc ((m, off) # ms) =
     WriteInt64 off @ WriteInt32 (MessageWireSize m) @ WriteMessage crc m @ WriteMessageSet crc ms"

definition CompressMessageSet ::
    "'z zlib \<Rightarrow> (bytes \<Rightarrow> u32) \<Rightarrow> MessageSet \<Rightarrow> Compression \<Rightarrow> (Message \<times> error_code) option" where
  "CompressMessageSet zl crc ms c =
     (if c = kCompressionNone then Some (Message_new, make_error_code_client kErrorCompressionFailed)
      else let intermediate = WriteMessageSet crc ms
           in if length intermediate = 0
              then Some (Message_new, make_error_code_client kErrorCompressionFailed)
              else case Compress zl (Some intermediate) c of
                     None \<Rightarrow> None
                   | Some (v, ec) \<Rightarrow>
                       if ec_failed ec then Some (Message_new, ec)
                       else Some (Message (Compression_value c) None v [], make_error_code_client kErrorSuccess))"

section \<open>Reading\<close>

text \<open>
  \<open>ReadMessage\<close> up to the nested set: the fields, and the bytes of the nested set when there
  is one.  The checksum and the magic byte are read and not looked at.
\<close>

definition ReadMessage_fields ::
    "'z zlib \<Rightarrow> istream \<Rightarrow> (Message \<times> Bytes \<times> error_code \<times> istream) option" where
  "ReadMessage_fields zl is =
     (let (crc, is1) = ReadInt32 is;
          (magic, is2) = ReadInt8 is1;
          (attr, is3) = ReadInt8 is2;
          (k, is4) = ReadBytes is3 None;
          (v, is5) = ReadBytes is4 None
      in case Decompress zl v (Compression_of attr) of
           None \<Rightarrow> None
         | Some (data, ec) \<Rightarrow>
             Some (Message attr k v [],
                   if \<not> ec_failed ec \<and> data \<noteq> None \<and> data \<noteq> Some [] then data else None, ec, is5))"

definition set_nested :: "MessageSet \<Rightarrow> Message \<Rightarrow> Message" where
  "set_nested ns m = Message (m_attributes m) (m_key m) (m_value m) ns"

definition BytesStreambuf_stream :: "bytes \<Rightarrow> istream" where
  "BytesStreambuf_stream v = good_stream False v"

text \<open>
  \<open>ReadMessageSet\<close> with \<open>ReadMessage\<close> in its body: the loop with its counter, on the set
  read so far.  \<open>None\<close> is a call that does not return.
\<close>

partial_function (option) ReadMessageSet_loop ::
    "'z zlib \<Rightarrow> u64 \<Rightarrow> u64 \<Rightarrow> istream \<Rightarrow> MessageSet \<Rightarrow> error_code \<Rightarrow>
     (MessageSet \<times> error_code \<times> istream) option" where
  "ReadMessageSet_loop zl sz read_count is acc ec =
     (if read_count < sz then
        (let (off, is1) = ReadInt64 is;
             (message_size, is2) = ReadInt32 is1
         in if sint (ucast (sz - read_count) :: Int32) < sint message_size
            then Some (acc, ec, istream_seekg (unat (sz - read_count)) is2)
            else Option.bind (ReadMessage_fields zl is2) (\<lambda>(m, data, ec1, is3).
              Option.bind
                (case data of
                   None \<Rightarrow> Some ([], ec1, is3)
                 | Some d \<Rightarrow> ReadMessageSet_loop zl (word_of_nat (length d)) 0 (BytesStreambuf_stream d) [] ec1)
                (\<lambda>(ns, ec2, _).
                  ReadMessageSet_loop zl sz (read_count + (8 + 4 + scast message_size)) is3
                    (acc @ [(set_nested ns m, off)]) ec2)))
      else Some (acc, ec, is))"

definition ReadMessageSet ::
    "'z zlib \<Rightarrow> nat \<Rightarrow> istream \<Rightarrow> error_code \<Rightarrow> (MessageSet \<times> error_code \<times> istream) option" where
  "ReadMessageSet zl sz is ec = ReadMessageSet_loop zl (word_of_nat sz) 0 is [] ec"

definition ReadMessage ::
    "'z zlib \<Rightarrow> istream \<Rightarrow> (Message \<times> error_code \<times> istream) option" where
  "ReadMessage zl is =
     Option.bind (ReadMessage_fields zl is) (\<lambda>(m, data, ec1, is3).
       case data of
         None \<Rightarrow> Some (m, ec1, is3)
       | Some d \<Rightarrow>
           Option.bind (ReadMessageSet zl (length d) (BytesStreambuf_stream d) ec1)
             (\<lambda>(ns, ec2, _). Some (set_nested ns m, ec2, is3)))"

end
