(* ===== verification/KRequests.thy ===== *)
theory KRequests
  imports KMessages
begin

text \<open>
  The requests of libkafka_asio: \<open>request.h\<close>, the seven \<open>*_request.h\<close>, the topic tables of
  \<open>detail/topic_partition_block.h\<close> and \<open>detail/functional.h\<close>, and the writers of
  \<open>detail/impl/*_request_write.h\<close>.  An iterator into a vector is an index, the end
  iterator the length.  The class \<open>Request<TRequest>\<close> and the overloaded writers of a
  request are the fields of a record \<open>RequestClass\<close>, one value of it per request type.
\<close>

section \<open>Tables of topics and partitions\<close>

record 'p Partition =
  partition :: Int32
  properties :: 'p

record ('p, 't) TopicPartitionBlock =
  topic_name :: String
  partitions :: "'p Partition list"
  topic_properties :: 't

type_synonym 'p Topics = "('p, unit) TopicPartitionBlock list"

fun find_if :: "('a \<Rightarrow> bool) \<Rightarrow> 'a list \<Rightarrow> nat" where
  "find_if P [] = 0"
| "find_if P (x # xs) = (if P x then 0 else Suc (find_if P xs))"

definition IsTopicWithName :: "String \<Rightarrow> ('p, 't) TopicPartitionBlock \<Rightarrow> bool" where
  "IsTopicWithName name other \<longleftrightarrow> topic_name other = name"

definition IsTopicPartition :: "Int32 \<Rightarrow> 'p Partition \<Rightarrow> bool" where
  "IsTopicPartition p other \<longleftrightarrow> partition other = p"

text \<open>
  \<open>TTopic()\<close> and \<open>TPartition()\<close> initialise every property to the value of its type: zero
  or empty (the argument \<open>zero\<close>).
\<close>

definition FindTopicByName :: "String \<Rightarrow> 'p Topics \<Rightarrow> bool \<Rightarrow> nat \<times> 'p Topics" where
  "FindTopicByName name container create =
     (let result = find_if (IsTopicWithName name) container
      in if create \<and> result = length container
         then (result, container @ [\<lparr>topic_name = name, partitions = [], topic_properties = ()\<rparr>])
         else (result, container))"

definition FindTopicPartitionByNumber ::
    "'p \<Rightarrow> Int32 \<Rightarrow> 'p Partition list \<Rightarrow> bool \<Rightarrow> nat \<times> 'p Partition list" where
  "FindTopicPartitionByNumber zero p container create =
     (let result = find_if (IsTopicPartition p) container
      in if create \<and> result = length container
         then (result, container @ [\<lparr>partition = p, properties = zero\<rparr>])
         else (result, container))"

text \<open>
  The two calls with which every builder of a request begins, and the assignment to the
  entry the second iterator designates.
\<close>

definition update_entry ::
    "'p \<Rightarrow> String \<Rightarrow> Int32 \<Rightarrow> ('p \<Rightarrow> 'p) \<Rightarrow> 'p Topics \<Rightarrow> 'p Topics" where
  "update_entry zero name p f topics =
     (let (topic_iter, topics1) = FindTopicByName name topics True;
          topic = topics1 ! topic_iter;
          (partition_iter, ps) = FindTopicPartitionByNumber zero p (partitions topic) True;
          entry = ps ! partition_iter
      in topics1[topic_iter := topic\<lparr>partitions :=
           ps[partition_iter := entry\<lparr>properties := f (properties entry)\<rparr>]\<rparr>])"

section \<open>The requests\<close>

record Request =
  correlation_id :: Int32
  client_id :: String

definition Request_new :: Request where
  "Request_new = \<lparr>correlation_id = kDefaultCorrelationId, client_id = []\<rparr>"

definition api_version :: "'a Request_scheme \<Rightarrow> Int16" where
  "api_version r = 0"

definition set_correlation_id :: "Int32 \<Rightarrow> 'a Request_scheme \<Rightarrow> 'a Request_scheme" where
  "set_correlation_id c r = r\<lparr>correlation_id := c\<rparr>"

subsection \<open>Produce\<close>

record ProduceRequest = Request +
  required_acks :: Int16
  produce_timeout :: Int32
  produce_topics :: "MessageSet Topics"

definition ProduceRequest_new :: ProduceRequest where
  "ProduceRequest_new = Request.extend Request_new
     (ProduceRequest.fields kDefaultProduceRequiredAcks kDefaultProduceTimeout [])"

definition AddMessage :: "Message \<Rightarrow> String \<Rightarrow> Int32 \<Rightarrow> ProduceRequest \<Rightarrow> ProduceRequest" where
  "AddMessage m name p r =
     r\<lparr>produce_topics := update_entry [] name p (\<lambda>ms. ms @ [(m, 0)]) (produce_topics r)\<rparr>"

definition AddValue_Bytes :: "Bytes \<Rightarrow> String \<Rightarrow> Int32 \<Rightarrow> ProduceRequest \<Rightarrow> ProduceRequest" where
  "AddValue_Bytes v name p r =
     AddMessage (Message (m_attributes Message_new) (m_key Message_new) v (m_nested Message_new)) name p r"

definition AddValue :: "String \<Rightarrow> String \<Rightarrow> Int32 \<Rightarrow> ProduceRequest \<Rightarrow> ProduceRequest" where
  "AddValue v name p r =
     AddMessage (Message (m_attributes Message_new) (m_key Message_new) (Some v) (m_nested Message_new)) name p r"

definition AddMessageSet :: "MessageSet \<Rightarrow> String \<Rightarrow> Int32 \<Rightarrow> ProduceRequest \<Rightarrow> ProduceRequest" where
  "AddMessageSet ms name p r = foldl (\<lambda>r (m, off). AddMessage m name p r) r ms"

definition Produce_Clear :: "ProduceRequest \<Rightarrow> ProduceRequest" where
  "Produce_Clear r = r\<lparr>produce_topics := []\<rparr>"

definition ClearTopic :: "String \<Rightarrow> ProduceRequest \<Rightarrow> ProduceRequest" where
  "ClearTopic name r =
     r\<lparr>produce_topics := filter (\<lambda>t. \<not> IsTopicWithName name t) (produce_topics r)\<rparr>"

definition ClearTopicPartition :: "String \<Rightarrow> Int32 \<Rightarrow> ProduceRequest \<Rightarrow> ProduceRequest" where
  "ClearTopicPartition name p r =
     (let i = find_if (IsTopicWithName name) (produce_topics r)
      in if i \<noteq> length (produce_topics r)
         then let t = produce_topics r ! i
              in r\<lparr>produce_topics := (produce_topics r)[i :=
                     t\<lparr>partitions := filter (\<lambda>q. \<not> IsTopicPartition p q) (partitions t)\<rparr>]\<rparr>
         else r)"

definition Produce_ResponseExpected :: "ProduceRequest \<Rightarrow> bool" where
  "Produce_ResponseExpected r \<longleftrightarrow> required_acks r \<noteq> 0"

definition Produce_RequestMessageWireSize :: "ProduceRequest \<Rightarrow> Int32" where
  "Produce_RequestMessageWireSize r =
     foldl (\<lambda>sz t.
        foldl (\<lambda>sz q. sz + (4 + 4 + MessageSetWireSize (properties q)))
          (sz + StringWireSize (topic_name t) + 4) (partitions t))
       (2 + 4 + 4) (produce_topics r)"

definition Produce_WriteRequestMessage :: "(bytes \<Rightarrow> u32) \<Rightarrow> ProduceRequest \<Rightarrow> bytes" where
  "Produce_WriteRequestMessage crc r =
     WriteInt16 (required_acks r) @ WriteInt32 (produce_timeout r) @
     WriteInt32 (word_of_nat (length (produce_topics r))) @
     concat (map (\<lambda>t. WriteString (topic_name t) @
        WriteInt32 (word_of_nat (length (partitions t))) @
        concat (map (\<lambda>q. WriteInt32 (partition q) @
            WriteInt32 (MessageSetWireSize (properties q)) @
            WriteMessageSet crc (properties q)) (partitions t))) (produce_topics r))"

subsection \<open>Fetch\<close>

record FetchProperties =
  fetch_offset :: Int64
  max_bytes :: Int32

record FetchRequest = Request +
  max_wait_time :: Int32
  min_bytes :: Int32
  fetch_topics :: "FetchProperties Topics"

definition FetchRequest_new :: FetchRequest where
  "FetchRequest_new = Request.extend Request_new
     (FetchRequest.fields kDefaultFetchMaxWaitTime kDefaultFetchMinBytes [])"

definition Fetch_replica_id :: "FetchRequest \<Rightarrow> Int32" where
  "Fetch_replica_id r = - 1"

definition FetchTopic ::
    "String \<Rightarrow> Int32 \<Rightarrow> Int64 \<Rightarrow> Int32 \<Rightarrow> FetchRequest \<Rightarrow> FetchRequest" where
  "FetchTopic name p off mx r =
     r\<lparr>fetch_topics := update_entry \<lparr>fetch_offset = 0, max_bytes = 0\<rparr> name p
        (\<lambda>x. x\<lparr>fetch_offset := off, max_bytes := mx\<rparr>) (fetch_topics r)\<rparr>"

definition Fetch_Clear :: "FetchRequest \<Rightarrow> FetchRequest" where
  "Fetch_Clear r = r\<lparr>fetch_topics := []\<rparr>"

definition Fetch_RequestMessageWireSize :: "FetchRequest \<Rightarrow> Int32" where
  "Fetch_RequestMessageWireSize r =
     foldl (\<lambda>sz t. sz + StringWireSize (topic_name t) +
              word_of_nat (4 + length (partitions t) * (4 + 8 + 4)))
       (4 + 4 + 4 + 4) (fetch_topics r)"

definition Fetch_WriteRequestMessage :: "FetchRequest \<Rightarrow> bytes" where
  "Fetch_WriteRequestMessage r =
     WriteInt32 (Fetch_replica_id r) @ WriteInt32 (max_wait_time r) @ WriteInt32 (min_bytes r) @
     WriteInt32 (word_of_nat (length (fetch_topics r))) @
     concat (map (\<lambda>t. WriteString (topic_name t) @
        WriteInt32 (word_of_nat (length (partitions t))) @
        concat (map (\<lambda>q. WriteInt32 (partition q) @
            WriteInt64 (fetch_offset (properties q)) @
            WriteInt32 (max_bytes (properties q))) (partitions t))) (fetch_topics r))"

subsection \<open>Offset\<close>

record OffsetProperties =
  time :: Int64
  max_number_of_offsets :: Int32

record OffsetRequest = Request +
  offset_topics :: "OffsetProperties Topics"

definition OffsetRequest_new :: OffsetRequest where
  "OffsetRequest_new = Request.extend Request_new (OffsetRequest.fields [])"

definition Offset_replica_id :: "OffsetRequest \<Rightarrow> Int32" where
  "Offset_replica_id r = - 1"

definition FetchTopicOffset ::
    "String \<Rightarrow> Int32 \<Rightarrow> Int64 \<Rightarrow> Int32 \<Rightarrow> OffsetRequest \<Rightarrow> OffsetRequest" where
  "FetchTopicOffset name p tm mx r =
     r\<lparr>offset_topics := update_entry \<lparr>time = 0, max_number_of_offsets = 0\<rparr> name p
        (\<lambda>x. x\<lparr>time := tm, max_number_of_offsets := mx\<rparr>) (offset_topics r)\<rparr>"

definition Offset_Clear :: "OffsetRequest \<Rightarrow> OffsetRequest" where
  "Offset_Clear r = r\<lparr>offset_topics := []\<rparr>"

definition Offset_RequestMessageWireSize :: "OffsetRequest \<Rightarrow> Int32" where
  "Offset_RequestMessageWireSize r =
     foldl (\<lambda>sz t. sz + StringWireSize (topic_name t) + 4 +
              word_of_nat (length (partitions t) * (4 + 8 + 4)))
       (4 + 4) (offset_topics r)"

definition Offset_WriteRequestMessage :: "OffsetRequest \<Rightarrow> bytes" where
  "Offset_WriteRequestMessage r =
     WriteInt32 (Offset_replica_id r) @
     WriteInt32 (word_of_nat (length (offset_topics r))) @
     concat (map (\<lambda>t. WriteString (topic_name t) @
        WriteInt32 (word_of_nat (length (partitions t))) @
        concat (map (\<lambda>q. WriteInt32 (partition q) @
            WriteInt64 (time (properties q)) @
            WriteInt32 (max_number_of_offsets (properties q))) (partitions t))) (offset_topics r))"

subsection \<open>Offset commit\<close>

record OffsetCommitProperties =
  offset :: Int64
  timestamp :: Int64
  metadata :: String

record OffsetCommitRequest = Request +
  commit_consumer_group :: String
  commit_topics :: "OffsetCommitProperties Topics"

definition OffsetCommitRequest_new :: OffsetCommitRequest where
  "OffsetCommitRequest_new = Request.extend Request_new (OffsetCommitRequest.fields [] [])"

definition CommitOffset ::
    "String \<Rightarrow> Int32 \<Rightarrow> Int64 \<Rightarrow> Int64 \<Rightarrow> String \<Rightarrow> OffsetCommitRequest \<Rightarrow> OffsetCommitRequest" where
  "CommitOffset name p off ts md r =
     r\<lparr>commit_topics := update_entry \<lparr>offset = 0, timestamp = 0, metadata = []\<rparr> name p
        (\<lambda>x. x\<lparr>offset := off, timestamp := ts, metadata := md\<rparr>) (commit_topics r)\<rparr>"

definition OffsetCommit_Clear :: "OffsetCommitRequest \<Rightarrow> OffsetCommitRequest" where
  "OffsetCommit_Clear r = r\<lparr>commit_topics := []\<rparr>"

definition OffsetCommit_RequestMessageWireSize :: "OffsetCommitRequest \<Rightarrow> Int32" where
  "OffsetCommit_RequestMessageWireSize r =
     foldl (\<lambda>sz t.
        foldl (\<lambda>sz q. sz + (4 + 8 + 8 + StringWireSize (metadata (properties q))))
          (sz + 4) (partitions t))
       (StringWireSize (commit_consumer_group r) + 4) (commit_topics r)"

definition OffsetCommit_WriteRequestMessage :: "OffsetCommitRequest \<Rightarrow> bytes" where
  "OffsetCommit_WriteRequestMessage r =
     WriteString (commit_consumer_group r) @
     WriteInt32 (word_of_nat (length (commit_topics r))) @
     concat (map (\<lambda>t. WriteString (topic_name t) @
        WriteInt32 (word_of_nat (length (partitions t))) @
        concat (map (\<lambda>q. WriteInt32 (partition q) @
            WriteInt64 (offset (properties q)) @
            WriteInt64 (timestamp (properties q)) @
            WriteString (metadata (properties q))) (partitions t))) (commit_topics r))"

subsection \<open>Offset fetch\<close>

record OffsetFetchRequest = Request +
  offset_fetch_consumer_group :: String
  offset_fetch_topics :: "unit Topics"

definition OffsetFetchRequest_new :: OffsetFetchRequest where
  "OffsetFetchRequest_new = Request.extend Request_new (OffsetFetchRequest.fields [] [])"

definition FetchOffset :: "String \<Rightarrow> Int32 \<Rightarrow> OffsetFetchRequest \<Rightarrow> OffsetFetchRequest" where
  "FetchOffset name p r =
     r\<lparr>offset_fetch_topics := update_entry () name p (\<lambda>x. x) (offset_fetch_topics r)\<rparr>"

definition OffsetFetch_RequestMessageWireSize :: "OffsetFetchRequest \<Rightarrow> Int32" where
  "OffsetFetch_RequestMessageWireSize r =
     foldl (\<lambda>sz t. sz + StringWireSize (topic_name t) + 4 + word_of_nat (length (partitions t)) * 4)
       (StringWireSize (offset_fetch_consumer_group r) + 4) (offset_fetch_topics r)"

definition OffsetFetch_WriteRequestMessage :: "OffsetFetchRequest \<Rightarrow> bytes" where
  "OffsetFetch_WriteRequestMessage r =
     WriteString (offset_fetch_consumer_group r) @
     WriteInt32 (word_of_nat (length (offset_fetch_topics r))) @
     concat (map (\<lambda>t. WriteString (topic_name t) @
        WriteInt32 (word_of_nat (length (partitions t))) @
        concat (map (\<lambda>q. WriteInt32 (partition q)) (partitions t))) (offset_fetch_topics r))"

subsection \<open>Metadata\<close>

record MetadataRequest = Request +
  topic_names :: "String list"

definition MetadataRequest_new :: MetadataRequest where
  "MetadataRequest_new = Request.extend Request_new (MetadataRequest.fields [])"

definition AddTopicName :: "String \<Rightarrow> MetadataRequest \<Rightarrow> MetadataRequest" where
  "AddTopicName name r = r\<lparr>topic_names := topic_names r @ [name]\<rparr>"

definition Metadata_Clear :: "MetadataRequest \<Rightarrow> MetadataRequest" where
  "Metadata_Clear r = r\<lparr>topic_names := []\<rparr>"

definition Metadata_RequestMessageWireSize :: "MetadataRequest \<Rightarrow> Int32" where
  "Metadata_RequestMessageWireSize r = foldl (\<lambda>sz t. sz + StringWireSize t) 4 (topic_names r)"

definition Metadata_WriteRequestMessage :: "MetadataRequest \<Rightarrow> bytes" where
  "Metadata_WriteRequestMessage r =
     WriteInt32 (word_of_nat (length (topic_names r))) @ concat (map WriteString (topic_names r))"

record ConsumerMetadataRequest = Request +
  cm_consumer_group :: String

definition ConsumerMetadataRequest_new :: ConsumerMetadataRequest where
  "ConsumerMetadataRequest_new = Request.extend Request_new (ConsumerMetadataRequest.fields [])"

definition ConsumerMetadata_RequestMessageWireSize :: "ConsumerMetadataRequest \<Rightarrow> Int32" where
  "ConsumerMetadata_RequestMessageWireSize r = StringWireSize (cm_consumer_group r)"

definition ConsumerMetadata_WriteRequestMessage :: "ConsumerMetadataRequest \<Rightarrow> bytes" where
  "ConsumerMetadata_WriteRequestMessage r = WriteString (cm_consumer_group r)"

section \<open>Writing a request\<close>

record 'r RequestClass =
  ApiKey :: Int16
  RequestMessageWireSize :: "'r \<Rightarrow> Int32"
  WriteRequestMessage :: "'r \<Rightarrow> bytes"
  ResponseExpected :: "'r \<Rightarrow> bool"

definition RequestWireSize ::
    "'a Request_scheme RequestClass \<Rightarrow> 'a Request_scheme \<Rightarrow> String \<Rightarrow> Int32" where
  "RequestWireSize T r cid = 2 + 2 + 4 + StringWireSize cid + RequestMessageWireSize T r"

definition WriteRequest ::
    "'a Request_scheme RequestClass \<Rightarrow> 'a Request_scheme \<Rightarrow> String \<Rightarrow> bytes" where
  "WriteRequest T r cid =
     WriteInt32 (RequestWireSize T r cid) @ WriteInt16 (ApiKey T) @ WriteInt16 (api_version r) @
     WriteInt32 (correlation_id r) @ WriteString cid @ WriteRequestMessage T r"

definition Produce_class :: "(bytes \<Rightarrow> u32) \<Rightarrow> ProduceRequest RequestClass" where
  "Produce_class crc = \<lparr>ApiKey = kApiKeyProduceRequest,
     RequestMessageWireSize = Produce_RequestMessageWireSize,
     WriteRequestMessage = Produce_WriteRequestMessage crc,
     ResponseExpected = Produce_ResponseExpected\<rparr>"

definition Fetch_class :: "FetchRequest RequestClass" where
  "Fetch_class = \<lparr>ApiKey = kApiKeyFetchRequest,
     RequestMessageWireSize = Fetch_RequestMessageWireSize,
     WriteRequestMessage = Fetch_WriteRequestMessage, ResponseExpected = (\<lambda>_. True)\<rparr>"

definition Offset_class :: "OffsetRequest RequestClass" where
  "Offset_class = \<lparr>ApiKey = kApiKeyOffsetRequest,
     RequestMessageWireSize = Offset_RequestMessageWireSize,
     WriteRequestMessage = Offset_WriteRequestMessage, ResponseExpected = (\<lambda>_. True)\<rparr>"

definition OffsetCommit_class :: "OffsetCommitRequest RequestClass" where
  "OffsetCommit_class = \<lparr>ApiKey = kApiKeyOffsetCommitRequest,
     RequestMessageWireSize = OffsetCommit_RequestMessageWireSize,
     WriteRequestMessage = OffsetCommit_WriteRequestMessage, ResponseExpected = (\<lambda>_. True)\<rparr>"

definition OffsetFetch_class :: "OffsetFetchRequest RequestClass" where
  "OffsetFetch_class = \<lparr>ApiKey = kApiKeyOffsetFetchRequest,
     RequestMessageWireSize = OffsetFetch_RequestMessageWireSize,
     WriteRequestMessage = OffsetFetch_WriteRequestMessage, ResponseExpected = (\<lambda>_. True)\<rparr>"

definition Metadata_class :: "MetadataRequest RequestClass" where
  "Metadata_class = \<lparr>ApiKey = kApiKeyMetadataRequest,
     RequestMessageWireSize = Metadata_RequestMessageWireSize,
     WriteRequestMessage = Metadata_WriteRequestMessage, ResponseExpected = (\<lambda>_. True)\<rparr>"

definition ConsumerMetadata_class :: "ConsumerMetadataRequest RequestClass" where
  "ConsumerMetadata_class = \<lparr>ApiKey = kApiKeyConsumerMetadataRequest,
     RequestMessageWireSize = ConsumerMetadata_RequestMessageWireSize,
     WriteRequestMessage = ConsumerMetadata_WriteRequestMessage, ResponseExpected = (\<lambda>_. True)\<rparr>"

end
