(* ===== verification/KMessageFacts.thy ===== *)
theory KMessageFacts
  imports KMessages
begin

text \<open>
  Message sets on the wire: the size functions count what the writers emit, and the reader
  gives back every set that was written, nested compressed sets included.
\<close>

section \<open>Sizes\<close>

lemma MessageWireSize_length [size_simps]:
  "MessageWireSize m = word_of_nat (length (WriteMessage crc m))"
  by (simp add: MessageWireSize_def WriteMessage_def Let_def BytesWireSize_length)

lemma MessageSetWireSize_aux:
  "foldl (\<lambda>sz (m, off). sz + (8 + 4 + MessageWireSize m)) s ms =
     s + word_of_nat (length (WriteMessageSet crc ms))"
proof (induction ms arbitrary: s)
  case (Cons x ms)
  obtain m off where x: "x = (m, off)" by (cases x)
  have "foldl (\<lambda>sz (m, off). sz + (8 + 4 + MessageWireSize m)) s (x # ms) =
      s + (8 + 4 + MessageWireSize m) + word_of_nat (length (WriteMessageSet crc ms))"
    by (simp only: x foldl_Cons prod.case Cons.IH)
  also have "MessageWireSize m = word_of_nat (length (WriteMessage crc m))" by (rule MessageWireSize_length)
  finally show ?case by (simp add: x)
qed simp

lemma MessageSetWireSize_length [size_simps]:
  "MessageSetWireSize ms = word_of_nat (length (WriteMessageSet crc ms))"
  using MessageSetWireSize_aux [of 0] by (simp add: MessageSetWireSize_def)

section \<open>Reading what was written\<close>

text \<open>The loop of \<open>ReadMessageSet\<close> in terms of \<open>ReadMessage\<close>.\<close>

lemma ReadMessage_fields_nested:
  "ReadMessage_fields zl is = Some (m, data, ec, is') \<Longrightarrow> m_nested m = [] \<and> set_nested [] m = m"
  by (auto simp: ReadMessage_fields_def set_nested_def Let_def split: prod.splits option.splits)

lemma ReadMessageSet_loop_unfold:
  "ReadMessageSet_loop zl sz read_count is acc ec =
     (if read_count < sz then
        (let (off, is1) = ReadInt64 is;
             (message_size, is2) = ReadInt32 is1
         in if sint (ucast (sz - read_count) :: Int32) < sint message_size
            then Some (acc, ec, istream_seekg (unat (sz - read_count)) is2)
            else Option.bind (ReadMessage zl is2) (\<lambda>(m, ec2, is3).
                  ReadMessageSet_loop zl sz (read_count + (8 + 4 + scast message_size)) is3
                    (acc @ [(m, off)]) ec2))
      else Some (acc, ec, is))"
proof -
  have bind: "Option.bind (ReadMessage_fields zl is2) (\<lambda>(m, data, ec1, is3).
        Option.bind
          (case data of None \<Rightarrow> Some ([], ec1, is3)
           | Some d \<Rightarrow> ReadMessageSet_loop zl (word_of_nat (length d)) 0 (BytesStreambuf_stream d) [] ec1)
          (\<lambda>(ns, ec2, _). K (set_nested ns m) ec2 is3)) =
      Option.bind (ReadMessage zl is2) (\<lambda>(m, ec2, is3). K m ec2 is3)" for is2 and K :: "Message \<Rightarrow> _ \<Rightarrow> _ \<Rightarrow> (MessageSet \<times> error_code \<times> istream) option"
  proof (cases "ReadMessage_fields zl is2")
    case (Some a)
    obtain m data ec1 is3 where a: "a = (m, data, ec1, is3)" by (cases a)
    note n = ReadMessage_fields_nested [OF Some [unfolded a]]
    show ?thesis
    proof (cases data)
      case None
      with Some a n show ?thesis by (simp add: ReadMessage_def)
    next
      case d: (Some d)
      with Some a show ?thesis
        by (cases "ReadMessageSet_loop zl (word_of_nat (length d)) 0 (BytesStreambuf_stream d) [] ec1")
           (auto simp: ReadMessage_def ReadMessageSet_def)
    qed
  qed (simp add: ReadMessage_def)
  obtain off is1 where 1: "ReadInt64 is = (off, is1)" by force
  obtain message_size is2 where 2: "ReadInt32 is1 = (message_size, is2)" by force
  show ?thesis
    by (subst ReadMessageSet_loop.simps)
       (simp only: 1 2 Let_def prod.case bind [of is2 "\<lambda>m ec2 is3. ReadMessageSet_loop zl sz
          (read_count + (8 + 4 + scast message_size)) is3 (acc @ [(m, off)]) ec2"])
qed

text \<open>A message that the reader gives back, whatever follows it on the stream.\<close>

definition reads_back :: "'z zlib \<Rightarrow> (bytes \<Rightarrow> u32) \<Rightarrow> Message \<Rightarrow> bool" where
  "reads_back zl crc m \<longleftrightarrow>
     (\<forall>sk r. ReadMessage zl (good_stream sk (WriteMessage crc m @ r)) =
        Some (m, make_error_code_client kErrorSuccess, good_stream sk r))"

lemma unat_of_nat_64: "n < 2 ^ 64 \<Longrightarrow> unat (word_of_nat n :: u64) = n"
  by (simp add: unsigned_of_nat take_bit_nat_eq_self)

lemma ucast_of_nat_64_32: "(ucast (word_of_nat n :: u64) :: u32) = word_of_nat n"
  by (simp add: unsigned_of_nat word_of_nat_eq_iff take_bit_take_bit)

lemma scast_of_nat_32_64: "n < 2 ^ 31 \<Longrightarrow> (scast (word_of_nat n :: u32) :: u64) = word_of_nat n"
  by (simp add: signed_of_nat signed_take_bit_int_eq_self)

lemma ReadMessageSet_loop_written:
  assumes "\<forall>(m, off)\<in>set ms. reads_back zl crc m" and "n + length (WriteMessageSet crc ms) \<le> sz" and "sz < 2 ^ 31"
  shows "ReadMessageSet_loop zl (word_of_nat sz) (word_of_nat n) (good_stream sk (WriteMessageSet crc ms @ r)) acc ec =
     ReadMessageSet_loop zl (word_of_nat sz) (word_of_nat (n + length (WriteMessageSet crc ms)))
       (good_stream sk r) (acc @ ms) (if ms = [] then ec else make_error_code_client kErrorSuccess)"
  using assms(1,2)
proof (induction ms arbitrary: n acc ec)
  case Nil
  then show ?case by simp
next
  case (Cons x ms)
  obtain m off where x: "x = (m, off)" by (cases x)
  let ?L = "length (WriteMessage crc m)"
  have sz: "n + (12 + ?L) + length (WriteMessageSet crc ms) \<le> sz" using Cons.prems(2) by (simp add: x)
  have lt: "(word_of_nat n :: u64) < word_of_nat sz"
    using sz assms(3) by (simp add: word_less_nat_alt unat_of_nat_64)
  have sub: "(word_of_nat sz :: u64) - word_of_nat n = word_of_nat (sz - n)"
    using sz by (simp add: of_nat_diff)
  have full: "\<not> sint (ucast (word_of_nat sz - word_of_nat n :: u64) :: Int32) < sint (MessageWireSize m)"
    using sz assms(3)
    by (simp add: sub ucast_of_nat_64_32 MessageWireSize_length [of m crc] sint_of_length del: of_nat_diff)
  have next_n: "(word_of_nat n :: u64) + (12 + scast (MessageWireSize m)) = word_of_nat (n + (12 + ?L))"
    using sz assms(3) by (simp add: MessageWireSize_length [of m crc] scast_of_nat_32_64)
  have msg: "ReadMessage zl (good_stream sk (WriteMessage crc m @ WriteMessageSet crc ms @ r)) =
      Some (m, make_error_code_client kErrorSuccess, good_stream sk (WriteMessageSet crc ms @ r))"
    using Cons.prems(1) by (simp add: x reads_back_def)
  have IH: "ReadMessageSet_loop zl (word_of_nat sz) (word_of_nat (n + (12 + ?L)))
        (good_stream sk (WriteMessageSet crc ms @ r)) (acc @ [x]) (make_error_code_client kErrorSuccess) =
      ReadMessageSet_loop zl (word_of_nat sz) (word_of_nat (n + (12 + ?L) + length (WriteMessageSet crc ms)))
        (good_stream sk r) ((acc @ [x]) @ ms) (make_error_code_client kErrorSuccess)"
    using Cons.IH [of "n + (12 + ?L)" "acc @ [x]" "make_error_code_client kErrorSuccess"] Cons.prems(1) sz
    by (cases "ms = []") simp_all
  have len: "n + length (WriteMessageSet crc (x # ms)) = n + (12 + ?L) + length (WriteMessageSet crc ms)"
    by (simp add: x)
  show ?case
    unfolding len
    by (subst ReadMessageSet_loop_unfold)
       (use lt full msg IH in \<open>simp add: x Let_def next_n wire_simps del: of_nat_add\<close>)
qed

lemma ReadMessageSet_loop_done: "ReadMessageSet_loop zl sz sz is acc ec = Some (acc, ec, is)"
  by (subst ReadMessageSet_loop_unfold) simp

lemma ReadMessageSet_written:
  assumes "\<forall>(m, off)\<in>set ms. reads_back zl crc m" and "length (WriteMessageSet crc ms) < 2 ^ 31"
  shows "ReadMessageSet zl (length (WriteMessageSet crc ms)) (good_stream sk (WriteMessageSet crc ms @ r)) ec =
     Some (ms, if ms = [] then ec else make_error_code_client kErrorSuccess, good_stream sk r)"
  using ReadMessageSet_loop_written [OF assms(1), of 0 "length (WriteMessageSet crc ms)"] assms(2)
  by (simp add: ReadMessageSet_def ReadMessageSet_loop_done)

section \<open>Well-formed messages\<close>

text \<open>
  A message as producers build it: a plain one has no nested set, a packed one has as its
  value bytes that zlib inflates to the nested set, which is well-formed itself.  The readers
  represent an empty key or value by a null pointer.
\<close>

inductive msg_ok :: "'z zlib \<Rightarrow> (bytes \<Rightarrow> u32) \<Rightarrow> Message \<Rightarrow> bool" for zl crc where
  msg_plain: "Compression_of a = kCompressionNone \<Longrightarrow> fits_bytes k \<Longrightarrow> k \<noteq> Some [] \<Longrightarrow>
    fits_bytes v \<Longrightarrow> v \<noteq> Some [] \<Longrightarrow> msg_ok zl crc (Message a k v [])"
| msg_packed: "Compression_of a = kCompressionGZIP \<Longrightarrow> fits_bytes k \<Longrightarrow> k \<noteq> Some [] \<Longrightarrow>
    fits_bytes v \<Longrightarrow> v \<noteq> Some [] \<Longrightarrow> ns \<noteq> [] \<Longrightarrow> \<forall>x\<in>set ns. msg_ok zl crc (fst x) \<Longrightarrow>
    length (WriteMessageSet crc ns) < 2 ^ 31 \<Longrightarrow>
    GZIP_Decompress zl v = Some (Some (WriteMessageSet crc ns), make_error_code_client kErrorSuccess) \<Longrightarrow>
    msg_ok zl crc (Message a k v ns)"

inductive_cases msg_ok_cases: "msg_ok zl crc (Message a k v ns)"

lemma ReadMessage_fields_written:
  assumes "fits_bytes (m_key m)" "m_key m \<noteq> Some []" "fits_bytes (m_value m)" "m_value m \<noteq> Some []"
    and "Decompress zl (m_value m) (compression m) = Some (data, make_error_code_client kErrorSuccess)"
  shows "ReadMessage_fields zl (good_stream sk (WriteMessage crc m @ r)) =
     Some (Message (m_attributes m) (m_key m) (m_value m) [],
           if data = Some [] then None else data, make_error_code_client kErrorSuccess, good_stream sk r)"
  using assms
  by (auto simp: ReadMessage_fields_def WriteMessage_def Let_def wire_simps nonempty_bytes_def compression_def)

lemma WriteMessageSet_nonempty: "ns \<noteq> [] \<Longrightarrow> WriteMessageSet crc ns \<noteq> []"
  by (cases ns) (auto simp: WriteInt64_def le_bytes_def)

lemma msg_ok_reads_back: "msg_ok zl crc m \<Longrightarrow> reads_back zl crc m"
proof (induction rule: msg_ok.induct)
  case (msg_plain a k v)
  then have "Decompress zl v (Compression_of a) = Some (None, make_error_code_client kErrorSuccess)"
    by (simp add: Decompress_def)
  then have "ReadMessage_fields zl (good_stream sk (WriteMessage crc (Message a k v []) @ r)) =
      Some (Message a k v [], None, make_error_code_client kErrorSuccess, good_stream sk r)" for sk r
    using ReadMessage_fields_written [of "Message a k v []" zl None] msg_plain
    by (simp add: compression_def)
  then show ?case by (simp add: reads_back_def ReadMessage_def)
next
  case (msg_packed a k v ns)
  have dec: "Decompress zl v (Compression_of a) =
      Some (Some (WriteMessageSet crc ns), make_error_code_client kErrorSuccess)"
    using msg_packed by (simp add: Decompress_def)
  have "\<forall>(m, off)\<in>set ns. reads_back zl crc m" using msg_packed.IH by auto
  from ReadMessageSet_written [OF this msg_packed.hyps(7), where sk = False and r = "[]"]
  have ns: "ReadMessageSet zl (length (WriteMessageSet crc ns)) (BytesStreambuf_stream (WriteMessageSet crc ns)) ec =
      Some (ns, make_error_code_client kErrorSuccess, good_stream False [])" for ec
    using msg_packed.hyps(6) by (simp add: BytesStreambuf_stream_def)
  have "ReadMessage_fields zl (good_stream sk (WriteMessage crc (Message a k v ns) @ r)) =
      Some (Message a k v [], Some (WriteMessageSet crc ns), make_error_code_client kErrorSuccess,
        good_stream sk r)" for sk r
    using ReadMessage_fields_written [of "Message a k v ns" zl "Some (WriteMessageSet crc ns)"]
      msg_packed.hyps dec WriteMessageSet_nonempty [of ns crc]
    by (simp add: compression_def)
  then show ?case by (simp add: reads_back_def ReadMessage_def set_nested_def ns)
qed

text \<open>
  C15.  What is written is read back: reading a message set of the declared size from a stream
  that starts with the set returns every message with its offset, key, value and attributes,
  unpacks nested compressed sets to any depth, reports success and leaves the rest of the
  stream for the next reader.
\<close>

theorem message_set_roundtrip:
  assumes "\<forall>(m, off)\<in>set ms. msg_ok zl crc m" and "length (WriteMessageSet crc ms) < 2 ^ 31" and "ms \<noteq> []"
  shows "ReadMessageSet zl (length (WriteMessageSet crc ms)) (good_stream sk (WriteMessageSet crc ms @ r)) ec =
     Some (ms, make_error_code_client kErrorSuccess, good_stream sk r)"
proof -
  have "\<forall>(m, off)\<in>set ms. reads_back zl crc m" using assms(1) by (auto intro: msg_ok_reads_back)
  from ReadMessageSet_written [OF this assms(2)] assms(3) show ?thesis by simp
qed

text \<open>A toy zlib for the witnesses: the compressed form is the text behind one byte.\<close>

definition demo_zlib :: "(bytes \<times> nat) zlib" where
  "demo_zlib = \<lparr>deflate_start = (\<lambda>d. Some (0, 31 # d, 0)),
     deflate_step = (\<lambda>n (d, k). (1, d, (d, k))),
     inflate_start = (\<lambda>d. Some (0, tl d, 0)),
     inflate_step = (\<lambda>n (d, k). (1, d, (d, k)))\<rparr>"

definition demo_crc :: "bytes \<Rightarrow> u32" where
  "demo_crc bs = sum_list (map ucast bs)"

definition demo_inner :: MessageSet where
  "demo_inner = [(Message 0 None (Some [7, 8]) [], 3)]"

definition demo_set :: MessageSet where
  "demo_set = [(Message 0 (Some [1]) (Some [104, 105]) [], 5),
     (Message 1 None (Some (31 # WriteMessageSet demo_crc demo_inner)) demo_inner, 6)]"

lemma demo_set_ok: "\<forall>(m, off)\<in>set demo_set. msg_ok demo_zlib demo_crc m"
proof -
  have len: "length (WriteMessageSet demo_crc demo_inner) = 28"
    by (simp add: demo_inner_def WriteMessage_def Let_def size_simps)
  have "GZIP_Decompress demo_zlib (Some (31 # WriteMessageSet demo_crc demo_inner)) =
      Some (Some (WriteMessageSet demo_crc demo_inner), make_error_code_client kErrorSuccess)"
    unfolding GZIP_Decompress_def z_run_def
    by (simp add: demo_zlib_def z_loop.simps Z_OK_def Z_STREAM_END_def kBufferSize_def len)
  moreover have "msg_ok demo_zlib demo_crc (Message 0 None (Some [7, 8]) [])"
    by (rule msg_plain) (simp_all add: Compression_of_def fits_bytes_def)
  ultimately have "msg_ok demo_zlib demo_crc
      (Message 1 None (Some (31 # WriteMessageSet demo_crc demo_inner)) demo_inner)"
    using len by (intro msg_packed) (simp_all add: Compression_of_def fits_bytes_def demo_inner_def)
  moreover have "msg_ok demo_zlib demo_crc (Message 0 (Some [1]) (Some [104, 105]) [])"
    by (rule msg_plain) (simp_all add: Compression_of_def fits_bytes_def)
  ultimately show ?thesis by (simp add: demo_set_def)
qed

lemma message_set_roundtrip_witness:
  "ReadMessageSet demo_zlib (length (WriteMessageSet demo_crc demo_set))
     (good_stream False (WriteMessageSet demo_crc demo_set @ [9])) ec_default =
   Some (demo_set, make_error_code_client kErrorSuccess, good_stream False [9])"
proof (rule message_set_roundtrip [OF demo_set_ok])
  show "length (WriteMessageSet demo_crc demo_set) < 2 ^ 31"
    by (simp add: demo_set_def demo_inner_def WriteMessage_def Let_def size_simps)
qed (simp add: demo_set_def)

section \<open>Compressed sets\<close>

text \<open>
   A set that is compressed into one message is the nested set of that message when the
  message is read back: \<open>CompressMessageSet\<close> and the reader are inverse, given that zlib
  inflates what it deflated.
\<close>

theorem compressed_set_roundtrip:
  assumes "\<forall>(m, off)\<in>set ms. msg_ok zl crc m" and "ms \<noteq> []" and "length (WriteMessageSet crc ms) < 2 ^ 31"
    and "GZIP_Compress zl (Some (WriteMessageSet crc ms)) = Some (Some z, make_error_code_client kErrorSuccess)"
    and "GZIP_Decompress zl (Some z) = Some (Some (WriteMessageSet crc ms), make_error_code_client kErrorSuccess)"
    and "z \<noteq> []" and "length z < 2 ^ 31"
  shows "\<exists>m. CompressMessageSet zl crc ms kCompressionGZIP = Some (m, make_error_code_client kErrorSuccess) \<and>
     compression m = kCompressionGZIP \<and>
     ReadMessage zl (good_stream sk (WriteMessage crc m @ r)) =
       Some (set_nested ms m, make_error_code_client kErrorSuccess, good_stream sk r)"
proof -
  let ?m = "Message 1 None (Some z) []"
  have c: "CompressMessageSet zl crc ms kCompressionGZIP = Some (?m, make_error_code_client kErrorSuccess)"
    using assms(4) WriteMessageSet_nonempty [OF assms(2), of crc]
    by (simp add: CompressMessageSet_def Compress_def Let_def)
  have "msg_ok zl crc (Message 1 None (Some z) ms)"
    using assms by (intro msg_packed) (auto simp: Compression_of_def fits_bytes_def)
  from msg_ok_reads_back [OF this]
  have "ReadMessage zl (good_stream sk (WriteMessage crc (Message 1 None (Some z) ms) @ r)) =
      Some (Message 1 None (Some z) ms, make_error_code_client kErrorSuccess, good_stream sk r)"
    by (simp add: reads_back_def)
  moreover have "WriteMessage crc (Message 1 None (Some z) ms) = WriteMessage crc ?m"
    by (simp add: WriteMessage_def magic_byte_def)
  ultimately have "ReadMessage zl (good_stream sk (WriteMessage crc ?m @ r)) =
      Some (set_nested ms ?m, make_error_code_client kErrorSuccess, good_stream sk r)"
    by (simp add: set_nested_def)
  with c show ?thesis by (auto simp: compression_def Compression_of_def)
qed

lemma compressed_set_roundtrip_witness:
  "\<exists>m. CompressMessageSet demo_zlib demo_crc demo_inner kCompressionGZIP = Some (m, make_error_code_client kErrorSuccess) \<and>
     ReadMessage demo_zlib (good_stream False (WriteMessage demo_crc m @ [])) =
       Some (set_nested demo_inner m, make_error_code_client kErrorSuccess, good_stream False [])"
proof -
  have len: "length (WriteMessageSet demo_crc demo_inner) = 28"
    by (simp add: demo_inner_def WriteMessage_def Let_def size_simps)
  then have ne: "WriteMessageSet demo_crc demo_inner \<noteq> []" by auto
  have "demo_inner \<noteq> []" by (simp add: demo_inner_def)
  moreover have "\<forall>(m, off)\<in>set demo_inner. msg_ok demo_zlib demo_crc m"
    by (auto simp: demo_inner_def Compression_of_def fits_bytes_def intro: msg_plain)
  moreover have "GZIP_Compress demo_zlib (Some (WriteMessageSet demo_crc demo_inner)) =
      Some (Some (31 # WriteMessageSet demo_crc demo_inner), make_error_code_client kErrorSuccess)"
    unfolding GZIP_Compress_def z_run_def
    by (simp add: demo_zlib_def z_loop.simps Z_OK_def Z_STREAM_END_def kBufferSize_def len ne)
  moreover have "GZIP_Decompress demo_zlib (Some (31 # WriteMessageSet demo_crc demo_inner)) =
      Some (Some (WriteMessageSet demo_crc demo_inner), make_error_code_client kErrorSuccess)"
    unfolding GZIP_Decompress_def z_run_def
    by (simp add: demo_zlib_def z_loop.simps Z_OK_def Z_STREAM_END_def kBufferSize_def len)
  ultimately show ?thesis
    using compressed_set_roundtrip [where ms = demo_inner and zl = demo_zlib and crc = demo_crc
        and z = "31 # WriteMessageSet demo_crc demo_inner" and sk = False and r = "[]"]
      len ne by auto
qed

section \<open>What the reader does not look at\<close>

text \<open>
   The checksum of a message is not checked: two messages that differ in their checksum
  alone are read alike, so a corrupted message is accepted without an error.
\<close>

theorem checksum_not_checked:
  "ReadMessage zl (good_stream sk (WriteInt32 c1 @ body)) = ReadMessage zl (good_stream sk (WriteInt32 c2 @ body))"
  by (simp add: ReadMessage_def ReadMessage_fields_def wire_simps)

section \<open>Partial messages\<close>

text \<open>
   A partial message at the end of a set is left out, but the reader tries to skip more
  bytes than are left: the twelve bytes of offset and size are counted twice, and on the
  streams the library uses, which cannot seek, the stream is left in the failed state, so
  whatever follows the set reads as zero.
\<close>

theorem partial_message_skipped:
  assumes "\<forall>(m, off)\<in>set ms. msg_ok zl crc m" and "length (WriteMessageSet crc ms) + 12 + length p < 2 ^ 31"
    and "12 + length p < n" and "n < 2 ^ 31"
  shows "ReadMessageSet zl (length (WriteMessageSet crc ms) + 12 + length p)
       (good_stream False (WriteMessageSet crc ms @ WriteInt64 off @ WriteInt32 (word_of_nat n) @ p @ r)) ec =
     Some (ms, if ms = [] then ec else make_error_code_client kErrorSuccess,
           \<lparr>is_rest = p @ r, is_fail = True, is_seekable = False\<rparr>)"
proof -
  let ?L = "length (WriteMessageSet crc ms)"
  let ?sz = "?L + 12 + length p"
  let ?ec = "if ms = [] then ec else make_error_code_client kErrorSuccess"
  have "\<forall>(m, off)\<in>set ms. reads_back zl crc m" using assms(1) by (auto intro: msg_ok_reads_back)
  from ReadMessageSet_loop_written [OF this, where n = 0 and sz = ?sz and sk = False
      and r = "WriteInt64 off @ WriteInt32 (word_of_nat n) @ p @ r" and acc = "[]" and ec = ec]
  have "ReadMessageSet zl ?sz (good_stream False (WriteMessageSet crc ms @ WriteInt64 off @
        WriteInt32 (word_of_nat n) @ p @ r)) ec =
      ReadMessageSet_loop zl (word_of_nat ?sz) (word_of_nat ?L)
        (good_stream False (WriteInt64 off @ WriteInt32 (word_of_nat n) @ p @ r)) ms ?ec"
    using assms(2) by (simp add: ReadMessageSet_def)
  moreover have "(word_of_nat ?L :: u64) < word_of_nat ?sz"
    using assms(2) by (simp add: word_less_nat_alt unat_of_nat_64 del: of_nat_add)
  moreover have sub: "(word_of_nat ?sz :: u64) - word_of_nat ?L = word_of_nat (12 + length p)" by simp
  moreover have "sint (word_of_nat (12 + length p) :: Int32) < sint (word_of_nat n :: Int32)"
    using assms by (simp add: sint_of_length del: of_nat_add)
  ultimately show ?thesis
    by (subst (asm) ReadMessageSet_loop_unfold)
       (simp add: Let_def wire_simps ucast_of_nat_64_32 istream_seekg_def del: of_nat_add)
qed

lemma partial_message_skipped_witness:
  "ReadMessageSet demo_zlib (length (WriteMessageSet demo_crc demo_inner) + 12 + length [1 :: u8, 2])
     (good_stream False (WriteMessageSet demo_crc demo_inner @ WriteInt64 4 @ WriteInt32 (word_of_nat 40) @ [1, 2] @ [9])) ec_default =
   Some (demo_inner, make_error_code_client kErrorSuccess, \<lparr>is_rest = [1, 2, 9], is_fail = True, is_seekable = False\<rparr>)"
proof -
  have ok: "\<forall>(m, off)\<in>set demo_inner. msg_ok demo_zlib demo_crc m"
    by (auto simp: demo_inner_def Compression_of_def fits_bytes_def intro: msg_plain)
  have len: "length (WriteMessageSet demo_crc demo_inner) + 12 + length [1 :: u8, 2] < 2 ^ 31"
    by (simp add: demo_inner_def WriteMessage_def Let_def size_simps)
  from partial_message_skipped [OF ok len, where n = 40 and off = 4 and r = "[9]" and ec = ec_default] show ?thesis
    by (simp add: demo_inner_def)
qed

end
