(* ===== verification/KRequestFacts.thy ===== *)
theory KRequestFacts
  imports KRequests KMessageFacts
begin

text \<open>
  Facts about the requests.  A table of topics and partitions is a map from topic and
  partition to properties, and every builder is an update of that map; what the requests
  declare as their size is what they write, with one exception.
\<close>

section \<open>Tables as maps\<close>

text \<open>The reference definition of the builders: update the first match or append.\<close>

fun upsert :: "('a \<Rightarrow> bool) \<Rightarrow> 'a \<Rightarrow> ('a \<Rightarrow> 'a) \<Rightarrow> 'a list \<Rightarrow> 'a list" where
  "upsert P d g [] = [g d]"
| "upsert P d g (x # xs) = (if P x then g x # xs else x # upsert P d g xs)"

lemma find_if_upsert:
  "(let i = find_if P xs; xs1 = (if i = length xs then xs @ [d] else xs)
    in xs1[i := g (xs1 ! i)]) = upsert P d g xs"
  by (induction xs) (auto simp: Let_def)

definition update_topic :: "'p \<Rightarrow> Int32 \<Rightarrow> ('p \<Rightarrow> 'p) \<Rightarrow> ('p, unit) TopicPartitionBlock \<Rightarrow> ('p, unit) TopicPartitionBlock" where
  "update_topic zero p f t = t\<lparr>partitions := upsert (IsTopicPartition p)
     \<lparr>partition = p, properties = zero\<rparr> (properties_update f) (partitions t)\<rparr>"

lemma properties_update_eq: "x\<lparr>properties := f (properties x)\<rparr> = properties_update f x"
  by (cases x) simp

lemma update_entry_upsert:
  "update_entry zero n p f ts = upsert (IsTopicWithName n)
     \<lparr>topic_name = n, partitions = [], topic_properties = ()\<rparr> (update_topic zero p f) ts"
proof -
  have t: "(let (i, ps) = FindTopicPartitionByNumber zero p (partitions t) True
            in t\<lparr>partitions := ps[i := (ps ! i)\<lparr>properties := f (properties (ps ! i))\<rparr>]\<rparr>)
           = update_topic zero p f t" for t :: "('a, unit) TopicPartitionBlock"
    using find_if_upsert [of "IsTopicPartition p" "partitions t" "\<lparr>partition = p, properties = zero\<rparr>"
        "properties_update f"]
    by (auto simp: FindTopicPartitionByNumber_def update_topic_def Let_def properties_update_eq)
  show ?thesis
    unfolding find_if_upsert [symmetric]
    by (auto simp: update_entry_def FindTopicByName_def Let_def t [symmetric]
        split: prod.splits if_splits)
qed

definition entry_of :: "'p Topics \<Rightarrow> String \<times> Int32 \<Rightarrow> 'p option" where
  "entry_of ts k = (case find (IsTopicWithName (fst k)) ts of None \<Rightarrow> None
     | Some t \<Rightarrow> map_option properties (find (IsTopicPartition (snd k)) (partitions t)))"

definition table_ok :: "'p Topics \<Rightarrow> bool" where
  "table_ok ts \<longleftrightarrow> distinct (map topic_name ts) \<and> (\<forall>t\<in>set ts. distinct (map partition (partitions t)))"

lemma find_upsert_same:
  assumes "P d" "\<And>x. P x \<Longrightarrow> P (g x)"
  shows "find P (upsert P d g xs) = Some (g (case find P xs of None \<Rightarrow> d | Some x \<Rightarrow> x))"
  using assms by (induction xs) auto

lemma find_upsert_other:
  assumes "\<not> Q (g d)" "\<And>x. P x \<Longrightarrow> \<not> Q x \<and> \<not> Q (g x)"
  shows "find Q (upsert P d g xs) = find Q xs"
  using assms by (induction xs) auto

lemma map_upsert:
  assumes "\<And>x. P x \<Longrightarrow> h (g x) = h x" "\<And>x. P x \<longleftrightarrow> h x = h d" "h (g d) = h d"
  shows "map h (upsert P d g xs) = (if h d \<in> set (map h xs) then map h xs else map h xs @ [h d])"
  using assms by (induction xs) auto

lemma set_upsert: "set (upsert P d g xs) \<subseteq> insert (g d) (set xs \<union> g ` set xs)"
  by (induction xs) auto

lemma update_topic_simps [simp]: "topic_name (update_topic zero p f t) = topic_name t"
  by (simp add: update_topic_def)

lemma find_update_topic:
  "find (IsTopicPartition q) (partitions (update_topic zero p f t)) =
     (if q = p then Some (properties_update f (case find (IsTopicPartition p) (partitions t) of
        None \<Rightarrow> \<lparr>partition = p, properties = zero\<rparr> | Some x \<Rightarrow> x))
      else find (IsTopicPartition q) (partitions t))"
proof (cases "q = p")
  case True
  then show ?thesis
    using find_upsert_same [of "IsTopicPartition p" "\<lparr>partition = p, properties = zero\<rparr>" "properties_update f"]
    by (auto simp: update_topic_def IsTopicPartition_def)
next
  case False
  then show ?thesis
    using find_upsert_other [of "IsTopicPartition q" "properties_update f"
        "\<lparr>partition = p, properties = zero\<rparr>" "IsTopicPartition p"]
    by (auto simp: update_topic_def IsTopicPartition_def)
qed

lemma entry_of_update:
  "entry_of (update_entry zero n p f ts) =
     (entry_of ts)((n, p) \<mapsto> f (case entry_of ts (n, p) of None \<Rightarrow> zero | Some x \<Rightarrow> x))"
proof
  fix k :: "String \<times> Int32"
  let ?d = "\<lparr>topic_name = n, partitions = [], topic_properties = ()\<rparr>"
  show "entry_of (update_entry zero n p f ts) k =
     ((entry_of ts)((n, p) \<mapsto> f (case entry_of ts (n, p) of None \<Rightarrow> zero | Some x \<Rightarrow> x))) k"
  proof (cases "fst k = n")
    case True
    have "find (IsTopicWithName n) (update_entry zero n p f ts) =
        Some (update_topic zero p f (case find (IsTopicWithName n) ts of None \<Rightarrow> ?d | Some x \<Rightarrow> x))"
      unfolding update_entry_upsert by (rule find_upsert_same) (auto simp: IsTopicWithName_def)
    with True show ?thesis
      by (cases k) (auto simp: entry_of_def find_update_topic split: option.splits)
  next
    case False
    then have "find (IsTopicWithName (fst k)) (update_entry zero n p f ts) = find (IsTopicWithName (fst k)) ts"
      unfolding update_entry_upsert by (intro find_upsert_other) (auto simp: IsTopicWithName_def)
    with False show ?thesis by (cases k) (simp add: entry_of_def)
  qed
qed

lemma distinct_update_topic:
  assumes "distinct (map partition (partitions t))"
  shows "distinct (map partition (partitions (update_topic zero p f t)))"
  using assms map_upsert [of "IsTopicPartition p" partition "properties_update f"
      "\<lparr>partition = p, properties = zero\<rparr>" "partitions t"]
  by (simp add: update_topic_def IsTopicPartition_def)

lemma table_ok_update: "table_ok ts \<Longrightarrow> table_ok (update_entry zero n p f ts)"
proof -
  let ?d = "\<lparr>topic_name = n, partitions = [], topic_properties = ()\<rparr> :: ('a, unit) TopicPartitionBlock"
  assume ok: "table_ok ts"
  have "map topic_name (update_entry zero n p f ts) =
      (if n \<in> set (map topic_name ts) then map topic_name ts else map topic_name ts @ [n])"
    unfolding update_entry_upsert
    using map_upsert [of "IsTopicWithName n" topic_name "update_topic zero p f" ?d ts]
    by (simp add: IsTopicWithName_def)
  moreover have "distinct (map partition (partitions t))" if "t \<in> set (update_entry zero n p f ts)" for t
    using that ok set_upsert [of "IsTopicWithName n" ?d "update_topic zero p f" ts]
    by (auto simp: update_entry_upsert table_ok_def distinct_update_topic)
  ultimately show ?thesis using ok by (auto simp: table_ok_def)
qed

lemma table_ok_Nil [simp]: "table_ok []" and entry_of_Nil [simp]: "entry_of [] = Map.empty"
  by (simp_all add: table_ok_def entry_of_def fun_eq_iff)

section \<open>Builders\<close>

text \<open>
  What every builder of a request promises: it updates one entry of the table, from the
  zero entry when there is none, and keeps topics and partitions unique.
\<close>

locale request_builder =
  fixes table :: "'r \<Rightarrow> 'p Topics"
    and build :: "'c \<Rightarrow> 'r \<Rightarrow> 'r"
    and key :: "'c \<Rightarrow> String \<times> Int32"
    and change :: "'c \<Rightarrow> 'p \<Rightarrow> 'p"
    and zero :: 'p
  assumes build_table: "table (build c r) = update_entry zero (fst (key c)) (snd (key c)) (change c) (table r)"
begin

lemma build_ok: "table_ok (table r) \<Longrightarrow> table_ok (table (build c r))"
  by (simp add: build_table table_ok_update)

lemma builds_ok: "table_ok (table r) \<Longrightarrow> table_ok (table (fold build cs r))"
  by (induction cs arbitrary: r) (simp_all add: build_ok)

lemma build_entry:
  "entry_of (table (build c r)) =
     (entry_of (table r))(key c \<mapsto> change c (case entry_of (table r) (key c) of None \<Rightarrow> zero | Some x \<Rightarrow> x))"
  by (simp add: build_table entry_of_update)

lemma builds_entry:
  "entry_of (table (fold build cs r)) k =
     (let here = filter (\<lambda>c. key c = k) cs
      in if here = [] then entry_of (table r) k
         else Some (fold change here (case entry_of (table r) k of None \<Rightarrow> zero | Some x \<Rightarrow> x)))"
  by (induction cs arbitrary: r) (auto simp: Let_def build_entry)

text \<open>When a change ignores the former entry, the last call for a partition decides.\<close>

lemma last_build_wins:
  assumes "\<And>c x y. change c x = change c y"
  shows "entry_of (table (fold build cs r)) k =
     (let here = filter (\<lambda>c. key c = k) cs
      in if here = [] then entry_of (table r) k else Some (change (last here) zero))"
proof -
  have "fold change xs x = change (last xs) zero" if "xs \<noteq> []" for xs x
    using that by (induction xs arbitrary: x) (auto intro: assms)
  then show ?thesis by (simp add: builds_entry Let_def)
qed

end

text \<open>A call of a builder is the tuple of its arguments.\<close>

interpretation produce: request_builder produce_topics "\<lambda>(m, n, p). AddMessage m n p"
    snd "\<lambda>(m, n, p) ms. ms @ [(m, 0)]" "[]"
  by unfold_locales (auto simp: AddMessage_def)

interpretation fetch: request_builder fetch_topics "\<lambda>(n, p, off, mx). FetchTopic n p off mx"
    "\<lambda>(n, p, off, mx). (n, p)" "\<lambda>(n, p, off, mx) x. x\<lparr>fetch_offset := off, max_bytes := mx\<rparr>"
    "\<lparr>fetch_offset = 0, max_bytes = 0\<rparr>"
  by unfold_locales (auto simp: FetchTopic_def)

interpretation offset: request_builder offset_topics "\<lambda>(n, p, tm, mx). FetchTopicOffset n p tm mx"
    "\<lambda>(n, p, tm, mx). (n, p)" "\<lambda>(n, p, tm, mx) x. x\<lparr>time := tm, max_number_of_offsets := mx\<rparr>"
    "\<lparr>time = 0, max_number_of_offsets = 0\<rparr>"
  by unfold_locales (auto simp: FetchTopicOffset_def)

interpretation commit: request_builder commit_topics "\<lambda>(n, p, off, ts, md). CommitOffset n p off ts md"
    "\<lambda>(n, p, off, ts, md). (n, p)"
    "\<lambda>(n, p, off, ts, md) x. x\<lparr>offset := off, timestamp := ts, metadata := md\<rparr>"
    "\<lparr>offset = 0, timestamp = 0, metadata = []\<rparr>"
  by unfold_locales (auto simp: CommitOffset_def)

interpretation offset_fetch: request_builder offset_fetch_topics "\<lambda>(n, p). FetchOffset n p"
    "\<lambda>c. c" "\<lambda>c x. x" "()"
  by unfold_locales (auto simp: FetchOffset_def)

definition add_messages :: "(Message \<times> String \<times> Int32) list \<Rightarrow> ProduceRequest \<Rightarrow> ProduceRequest" where
  "add_messages cs r = fold (\<lambda>(m, n, p). AddMessage m n p) cs r"

definition fetch_topics_of :: "(String \<times> Int32 \<times> Int64 \<times> Int32) list \<Rightarrow> FetchRequest \<Rightarrow> FetchRequest" where
  "fetch_topics_of cs r = fold (\<lambda>(n, p, off, mx). FetchTopic n p off mx) cs r"

lemma fold_append_messages:
  "fold (\<lambda>(m, n, p) ms. ms @ [(m, 0)]) cs ms = ms @ map (\<lambda>c. (fst c, 0 :: Int64)) cs"
  by (induction cs arbitrary: ms) auto

text \<open>C32. After any sequence of \<open>AddMessage\<close> calls on a new produce request, the set of a
  topic's partition holds exactly the messages added for it, in call order and with offset 0;
  every topic and every partition of it occurs once.\<close>

theorem produce_collects:
  "table_ok (produce_topics (add_messages cs ProduceRequest_new)) \<and>
   entry_of (produce_topics (add_messages cs ProduceRequest_new)) k =
     (let here = filter (\<lambda>(m, n, p). (n, p) = k) cs
      in if here = [] then None else Some (map (\<lambda>c. (fst c, 0)) here))"
proof -
  have e: "produce_topics ProduceRequest_new = []"
    by (simp add: ProduceRequest_new_def Request.defs ProduceRequest.defs Request_new_def)
  have f: "(\<lambda>(m :: Message, n, p). (n, p) = k) = (\<lambda>c. snd c = k)"
    by (auto simp: fun_eq_iff)
  show ?thesis
    using produce.builds_ok [of ProduceRequest_new cs] produce.builds_entry [of cs ProduceRequest_new k]
    by (simp add: add_messages_def e f fold_append_messages Let_def)
qed

text \<open>After any sequence of \<open>FetchTopic\<close> calls on a new fetch request, a partition is asked
  for with the offset and size of the last call for it, and every partition once.\<close>

theorem fetch_overrides:
  "table_ok (fetch_topics (fetch_topics_of cs FetchRequest_new)) \<and>
   entry_of (fetch_topics (fetch_topics_of cs FetchRequest_new)) k =
     (let here = filter (\<lambda>(n, p, off, mx). (n, p) = k) cs
      in if here = [] then None
         else (case last here of (n, p, off, mx) \<Rightarrow> Some \<lparr>fetch_offset = off, max_bytes = mx\<rparr>))"
proof -
  have e: "fetch_topics FetchRequest_new = []"
    by (simp add: FetchRequest_new_def Request.defs FetchRequest.defs Request_new_def)
  have f: "(\<lambda>c. (case c of (n, p, off, mx) \<Rightarrow> (n, p)) = k)
      = (\<lambda>(n, p, off :: Int64, mx :: Int32). (n, p) = k)"
    by (auto simp: fun_eq_iff)
  show ?thesis
    using fetch.builds_ok [of FetchRequest_new cs] fetch.last_build_wins [of cs FetchRequest_new k]
    by (auto simp: fetch_topics_of_def e f Let_def split: prod.splits)
qed

section \<open>Clearing\<close>

lemma find_filter_topic:
  "find (IsTopicWithName m) (filter (\<lambda>t. \<not> IsTopicWithName n t) ts) =
     (if m = n then None else find (IsTopicWithName m) ts)"
  unfolding IsTopicWithName_def [abs_def] by (induction ts) auto

lemma find_filter_partition:
  "find (IsTopicPartition q) (filter (\<lambda>x. \<not> IsTopicPartition p x) ps) =
     (if q = p then None else find (IsTopicPartition q) ps)"
  unfolding IsTopicPartition_def [abs_def] by (induction ps) auto

lemma entry_of_ClearTopic:
  "entry_of (produce_topics (ClearTopic n r)) k =
     (if fst k = n then None else entry_of (produce_topics r) k)"
  by (simp add: ClearTopic_def entry_of_def find_filter_topic)

lemma find_update_first:
  "find_if P xs \<noteq> length xs \<Longrightarrow> P (g (xs ! find_if P xs)) \<Longrightarrow>
     find P (xs[find_if P xs := g (xs ! find_if P xs)]) = map_option g (find P xs)"
  by (induction xs) auto

lemma find_update_else:
  "find_if P xs \<noteq> length xs \<Longrightarrow> \<not> Q (g (xs ! find_if P xs)) \<Longrightarrow> \<not> Q (xs ! find_if P xs) \<Longrightarrow>
     find Q (xs[find_if P xs := g (xs ! find_if P xs)]) = find Q xs"
  by (induction xs) auto

lemma find_if_sound: "find_if P xs \<noteq> length xs \<Longrightarrow> P (xs ! find_if P xs)"
  by (induction xs) auto

lemma find_if_None: "find_if P xs = length xs \<Longrightarrow> find P xs = None"
  by (induction xs) (auto split: if_splits)

lemma entry_of_ClearTopicPartition:
  "entry_of (produce_topics (ClearTopicPartition n p r)) = (entry_of (produce_topics r))((n, p) := None)"
proof (cases "find_if (IsTopicWithName n) (produce_topics r) = length (produce_topics r)")
  case True
  then show ?thesis
    by (auto simp: ClearTopicPartition_def entry_of_def find_if_None fun_eq_iff Let_def)
next
  case False
  let ?g = "\<lambda>t. t\<lparr>partitions := filter (\<lambda>q. \<not> IsTopicPartition p q) (partitions t)\<rparr>"
  let ?ts = "(produce_topics r)[find_if (IsTopicWithName n) (produce_topics r) :=
      ?g (produce_topics r ! find_if (IsTopicWithName n) (produce_topics r))]"
  have s: "topic_name (produce_topics r ! find_if (IsTopicWithName n) (produce_topics r)) = n"
    using find_if_sound [OF False] by (simp add: IsTopicWithName_def)
  have a: "find (IsTopicWithName n) ?ts = map_option ?g (find (IsTopicWithName n) (produce_topics r))"
    by (rule find_update_first [OF False]) (simp add: s IsTopicWithName_def)
  have b: "find (IsTopicWithName m) ?ts = find (IsTopicWithName m) (produce_topics r)" if "m \<noteq> n" for m
    by (rule find_update_else [OF False]) (use that s in \<open>simp_all add: IsTopicWithName_def\<close>)
  have d: "produce_topics (ClearTopicPartition n p r) = ?ts"
    using False by (simp add: ClearTopicPartition_def Let_def)
  show ?thesis
    unfolding d
  proof
    fix k :: "String \<times> Int32"
    show "entry_of ?ts k = ((entry_of (produce_topics r))((n, p) := None)) k"
      by (cases "fst k = n"; cases k)
         (auto simp: entry_of_def a b find_filter_partition split: option.splits)
  qed
qed

text \<open>\<open>ClearTopic\<close> removes exactly the entries of the topic, \<open>ClearTopicPartition\<close>
  exactly the entry of the topic's partition, and \<open>Clear\<close> all.\<close>

theorem produce_clearing:
  "entry_of (produce_topics (ClearTopic n r)) = (\<lambda>k. if fst k = n then None else entry_of (produce_topics r) k) \<and>
   entry_of (produce_topics (ClearTopicPartition n p r)) = (entry_of (produce_topics r))((n, p) := None) \<and>
   entry_of (produce_topics (Produce_Clear r)) = Map.empty"
  by (auto simp: entry_of_ClearTopic entry_of_ClearTopicPartition Produce_Clear_def)

section \<open>Declared sizes\<close>

lemma foldl_size:
  "foldl (\<lambda>sz x. sz + word_of_nat (length (f x))) s xs
     = s + word_of_nat (length (concat (map f xs)) :: nat)" for s :: "'a::len word"
  by (induction xs arbitrary: s) (simp_all add: algebra_simps)

lemma length_concat_const:
  "(\<And>x. length (f x) = n) \<Longrightarrow> length (concat (map f xs)) = length xs * n"
  by (induction xs) simp_all

text \<open>
  The peer of the protocol takes a request off its stream by its declared size.
\<close>

definition frame :: "bytes \<Rightarrow> bytes" where
  "frame b = WriteInt32 (word_of_nat (length b)) @ b"

definition read_frame :: "istream \<Rightarrow> bytes \<times> istream" where
  "read_frame is = (let (sz, is1) = ReadInt32 is in istream_read (nat (sint sz)) is1)"

interpretation cframe: codec frame read_frame "\<lambda>b. length b < 2 ^ 31"
  by unfold_locales (simp add: frame_def read_frame_def wire_simps sint_of_length)

definition request_body :: "'a Request_scheme RequestClass \<Rightarrow> String \<Rightarrow> 'a Request_scheme \<Rightarrow> bytes" where
  "request_body T cid r = WriteInt16 (ApiKey T) @ WriteInt16 (api_version r) @
     WriteInt32 (correlation_id r) @ WriteString cid @ WriteRequestMessage T r"

lemma WriteRequest_body: "WriteRequest T r cid = WriteInt32 (RequestWireSize T r cid) @ request_body T cid r"
  by (simp add: WriteRequest_def request_body_def)

definition read_header :: "istream \<Rightarrow> Int16 \<times> Int16 \<times> Int32 \<times> String \<times> istream" where
  "read_header is =
     (let (k, is1) = ReadInt16 is; (v, is2) = ReadInt16 is1; (c, is3) = ReadInt32 is2;
          (cl, is4) = ReadString is3
      in (k, v, c, cl, is4))"

lemma length_request_body [size_simps]:
  "length (request_body T cid r) = 10 + length cid + length (WriteRequestMessage T r)"
  by (simp add: request_body_def)

lemma request_body_header:
  assumes "length cid < 2 ^ 15"
  shows "read_header (good_stream sk (request_body T cid r)) =
         (ApiKey T, 0, correlation_id r, cid, good_stream sk (WriteRequestMessage T r))"
  using assms by (simp add: read_header_def request_body_def wire_simps api_version_def)

text \<open>
  What the overloads of a request promise to \<open>WriteRequest\<close>: the declared size is, modulo
  the width of \<open>Int32\<close>, the number of bytes written.
\<close>

locale sized_request =
  fixes T :: "'a Request_scheme RequestClass"
  assumes message_size: "RequestMessageWireSize T r = word_of_nat (length (WriteRequestMessage T r))"
begin

lemma request_size:
  "RequestWireSize T r cid = word_of_nat (length (request_body T cid r))"
  by (simp add: RequestWireSize_def request_body_def message_size StringWireSize_def)

lemma request_framed: "WriteRequest T r cid = frame (request_body T cid r)"
  by (simp add: WriteRequest_body frame_def request_size)

lemma pipeline_framed:
  assumes "\<forall>r\<in>set rs. length (request_body T cid r) < 2 ^ 31"
  shows "read_n read_frame (length rs) (good_stream sk (concat (map (\<lambda>r. WriteRequest T r cid) rs) @ rest))
       = (map (request_body T cid) rs, good_stream sk rest)"
proof -
  have c: "concat (map (\<lambda>r. WriteRequest T r cid) rs) = concat (map frame (map (request_body T cid) rs))"
    by (simp add: request_framed o_def)
  show ?thesis
    using cframe.read_n_enc [where xs = "map (request_body T cid) rs" and sk = sk and r = rest] assms
    by (simp add: c list_all_iff)
qed

end

lemma produce_message_size:
  "Produce_RequestMessageWireSize r = word_of_nat (length (Produce_WriteRequestMessage crc r))"
proof -
  have q: "foldl (\<lambda>sz q. sz + (4 + 4 + MessageSetWireSize (properties q))) s qs
      = s + word_of_nat (length (concat (map (\<lambda>q. WriteInt32 (partition q) @
          WriteInt32 (MessageSetWireSize (properties q)) @ WriteMessageSet crc (properties q)) qs)))"
    for s and qs :: "MessageSet Partition list"
    by (induction qs arbitrary: s)
       (simp_all add: MessageSetWireSize_length [of _ crc] algebra_simps)
  have t: "foldl (\<lambda>sz t. foldl (\<lambda>sz q. sz + (4 + 4 + MessageSetWireSize (properties q)))
          (sz + StringWireSize (topic_name t) + 4) (partitions t)) s ts
      = s + word_of_nat (length (concat (map (\<lambda>t. WriteString (topic_name t) @
        WriteInt32 (word_of_nat (length (partitions t))) @
        concat (map (\<lambda>q. WriteInt32 (partition q) @
            WriteInt32 (MessageSetWireSize (properties q)) @
            WriteMessageSet crc (properties q)) (partitions t))) ts)))"
    for s and ts :: "MessageSet Topics"
    by (induction ts arbitrary: s) (simp_all only: q foldl.simps, simp_all add: StringWireSize_def algebra_simps)
  show ?thesis
    unfolding Produce_RequestMessageWireSize_def Produce_WriteRequestMessage_def t
    by (simp add: algebra_simps)
qed

lemma fetch_message_size:
  "Fetch_RequestMessageWireSize r = word_of_nat (length (Fetch_WriteRequestMessage r))"
proof -
  have t: "foldl (\<lambda>sz t. sz + StringWireSize (topic_name t) +
              word_of_nat (4 + length (partitions t) * (4 + 8 + 4))) s ts
      = s + word_of_nat (length (concat (map (\<lambda>t. WriteString (topic_name t) @
        WriteInt32 (word_of_nat (length (partitions t))) @
        concat (map (\<lambda>q. WriteInt32 (partition q) @ WriteInt64 (fetch_offset (properties q)) @
            WriteInt32 (max_bytes (properties q))) (partitions t))) ts)))"
    for s :: Int32 and ts :: "FetchProperties Topics"
    by (induction ts arbitrary: s)
       (simp_all add: StringWireSize_def length_concat_const [where n = 16] algebra_simps)
  show ?thesis
    unfolding Fetch_RequestMessageWireSize_def Fetch_WriteRequestMessage_def t
    by (simp add: algebra_simps)
qed

lemma offset_message_size:
  "Offset_RequestMessageWireSize r = word_of_nat (length (Offset_WriteRequestMessage r))"
proof -
  have t: "foldl (\<lambda>sz t. sz + StringWireSize (topic_name t) + 4 +
              word_of_nat (length (partitions t) * (4 + 8 + 4))) s ts
      = s + word_of_nat (length (concat (map (\<lambda>t. WriteString (topic_name t) @
        WriteInt32 (word_of_nat (length (partitions t))) @
        concat (map (\<lambda>q. WriteInt32 (partition q) @ WriteInt64 (time (properties q)) @
            WriteInt32 (max_number_of_offsets (properties q))) (partitions t))) ts)))"
    for s :: Int32 and ts :: "OffsetProperties Topics"
    by (induction ts arbitrary: s)
       (simp_all add: StringWireSize_def length_concat_const [where n = 16] algebra_simps)
  show ?thesis
    unfolding Offset_RequestMessageWireSize_def Offset_WriteRequestMessage_def t
    by (simp add: algebra_simps)
qed

lemma offset_fetch_message_size:
  "OffsetFetch_RequestMessageWireSize r = word_of_nat (length (OffsetFetch_WriteRequestMessage r))"
proof -
  have t: "foldl (\<lambda>sz t. sz + StringWireSize (topic_name t) + 4 + word_of_nat (length (partitions t)) * 4) s ts
      = s + word_of_nat (length (concat (map (\<lambda>t. WriteString (topic_name t) @
        WriteInt32 (word_of_nat (length (partitions t))) @
        concat (map (\<lambda>q. WriteInt32 (partition q)) (partitions t))) ts)))"
    for s :: Int32 and ts :: "unit Topics"
    by (induction ts arbitrary: s)
       (simp_all add: StringWireSize_def length_concat_const [where n = 4] algebra_simps)
  show ?thesis
    unfolding OffsetFetch_RequestMessageWireSize_def OffsetFetch_WriteRequestMessage_def t
    by (simp add: StringWireSize_def algebra_simps)
qed

lemma metadata_message_size:
  "Metadata_RequestMessageWireSize r = word_of_nat (length (Metadata_WriteRequestMessage r))"
  unfolding Metadata_RequestMessageWireSize_def Metadata_WriteRequestMessage_def StringWireSize_length foldl_size
  by simp

lemma consumer_metadata_message_size:
  "ConsumerMetadata_RequestMessageWireSize r = word_of_nat (length (ConsumerMetadata_WriteRequestMessage r))"
  by (simp add: ConsumerMetadata_RequestMessageWireSize_def ConsumerMetadata_WriteRequestMessage_def
      StringWireSize_length)

interpretation produce_sized: sized_request "Produce_class crc" for crc
  by unfold_locales (simp add: Produce_class_def produce_message_size)

interpretation fetch_sized: sized_request Fetch_class
  by unfold_locales (simp add: Fetch_class_def fetch_message_size)

interpretation offset_sized: sized_request Offset_class
  by unfold_locales (simp add: Offset_class_def offset_message_size)

interpretation offset_fetch_sized: sized_request OffsetFetch_class
  by unfold_locales (simp add: OffsetFetch_class_def offset_fetch_message_size)

interpretation metadata_sized: sized_request Metadata_class
  by unfold_locales (simp add: Metadata_class_def metadata_message_size)

interpretation consumer_metadata_sized: sized_request ConsumerMetadata_class
  by unfold_locales (simp add: ConsumerMetadata_class_def consumer_metadata_message_size)

lemmas request_size_lemmas = produce_message_size fetch_message_size offset_message_size
  offset_fetch_message_size metadata_message_size consumer_metadata_message_size

text \<open>C30. The size a produce, fetch, offset, offset-fetch, metadata or consumer-metadata
  request declares is, modulo the width of \<open>Int32\<close>, the number of bytes its writer emits.\<close>

theorem request_sizes:
  "Produce_RequestMessageWireSize pr = word_of_nat (length (Produce_WriteRequestMessage crc pr)) \<and>
   Fetch_RequestMessageWireSize fr = word_of_nat (length (Fetch_WriteRequestMessage fr)) \<and>
   Offset_RequestMessageWireSize ofr = word_of_nat (length (Offset_WriteRequestMessage ofr)) \<and>
   OffsetFetch_RequestMessageWireSize ff = word_of_nat (length (OffsetFetch_WriteRequestMessage ff)) \<and>
   Metadata_RequestMessageWireSize mr = word_of_nat (length (Metadata_WriteRequestMessage mr)) \<and>
   ConsumerMetadata_RequestMessageWireSize cr = word_of_nat (length (ConsumerMetadata_WriteRequestMessage cr))"
  by (intro conjI; rule request_size_lemmas)

text \<open>C31. Any number of produce requests written one after the other is cut by the declared
  sizes into exactly these requests, and each of them begins with its key, version 0, its
  correlation id and the client id, followed by the message.\<close>

theorem produce_pipeline:
  assumes "\<forall>r\<in>set rs. length (request_body (Produce_class crc) cid r) < 2 ^ 31"
    and "length cid < 2 ^ 15"
  shows "read_n read_frame (length rs)
           (good_stream sk (concat (map (\<lambda>r. WriteRequest (Produce_class crc) r cid) rs) @ rest))
         = (map (request_body (Produce_class crc) cid) rs, good_stream sk rest) \<and>
         (\<forall>r\<in>set rs.
           read_header (good_stream sk (request_body (Produce_class crc) cid r)) =
           (kApiKeyProduceRequest, 0, correlation_id r, cid,
            good_stream sk (Produce_WriteRequestMessage crc r)))"
proof (intro conjI ballI)
  fix r
  have "ApiKey (Produce_class crc) = kApiKeyProduceRequest"
    and "WriteRequestMessage (Produce_class crc) r = Produce_WriteRequestMessage crc r"
    by (simp_all add: Produce_class_def)
  then show "read_header (good_stream sk (request_body (Produce_class crc) cid r)) =
           (kApiKeyProduceRequest, 0, correlation_id r, cid,
            good_stream sk (Produce_WriteRequestMessage crc r))"
    using request_body_header [OF assms(2), where sk = sk and T = "Produce_class crc" and r = r] by simp
qed (rule produce_sized.pipeline_framed [OF assms(1)])

definition demo_request :: ProduceRequest where
  "demo_request = AddValue [104, 105] [116] 0 ProduceRequest_new"

theorem produce_pipeline_witness:
  "read_n read_frame (length [demo_request, ProduceRequest_new])
     (good_stream True (concat (map (\<lambda>r. WriteRequest (Produce_class (\<lambda>_. 7)) r [99])
        [demo_request, ProduceRequest_new]) @ [1]))
   = (map (request_body (Produce_class (\<lambda>_. 7)) [99]) [demo_request, ProduceRequest_new], good_stream True [1])"
proof -
  have "\<forall>r\<in>set [demo_request, ProduceRequest_new].
      length (request_body (Produce_class (\<lambda>_. 7)) [99] r) < 2 ^ 31"
    unfolding length_request_body
    by (simp add: Produce_class_def Produce_WriteRequestMessage_def demo_request_def AddValue_def
        AddMessage_def update_entry_upsert update_topic_def ProduceRequest_new_def Request_new_def
        Request.defs ProduceRequest.defs WriteMessage_def length_WriteBytes Message_new_def)
  moreover have "length [99 :: u8] < 2 ^ 15" by simp
  ultimately show ?thesis by (rule produce_pipeline [THEN conjunct1])
qed

section \<open>The size of an offset commit\<close>

definition topic_names_size :: "'p Topics \<Rightarrow> nat" where
  "topic_names_size ts = sum_list (map (\<lambda>t. 2 + length (topic_name t)) ts)"

lemma commit_message_size:
  "word_of_nat (length (OffsetCommit_WriteRequestMessage r)) =
     OffsetCommit_RequestMessageWireSize r + word_of_nat (topic_names_size (commit_topics r))"
proof -
  have q: "foldl (\<lambda>sz q. sz + (4 + 8 + 8 + StringWireSize (metadata (properties q)))) s qs
      = s + word_of_nat (length (concat (map (\<lambda>q. WriteInt32 (partition q) @
            WriteInt64 (offset (properties q)) @ WriteInt64 (timestamp (properties q)) @
            WriteString (metadata (properties q))) qs)))"
    for s :: Int32 and qs :: "OffsetCommitProperties Partition list"
    by (induction qs arbitrary: s) (simp_all add: StringWireSize_def algebra_simps)
  have t: "foldl (\<lambda>sz t. foldl (\<lambda>sz q. sz + (4 + 8 + 8 + StringWireSize (metadata (properties q))))
          (sz + 4) (partitions t)) s ts + word_of_nat (topic_names_size ts)
      = s + word_of_nat (length (concat (map (\<lambda>t. WriteString (topic_name t) @
        WriteInt32 (word_of_nat (length (partitions t))) @
        concat (map (\<lambda>q. WriteInt32 (partition q) @
            WriteInt64 (offset (properties q)) @ WriteInt64 (timestamp (properties q)) @
            WriteString (metadata (properties q))) (partitions t))) ts)))"
    for s and ts :: "OffsetCommitProperties Topics"
  proof (induction ts arbitrary: s)
    case Nil
    then show ?case by (simp add: topic_names_size_def)
  next
    case (Cons t ts)
    from Cons [of "s + 4 + word_of_nat (length (concat (map (\<lambda>q. WriteInt32 (partition q) @
            WriteInt64 (offset (properties q)) @ WriteInt64 (timestamp (properties q)) @
            WriteString (metadata (properties q))) (partitions t))))"]
    show ?case
      unfolding foldl.simps q
      by (simp add: topic_names_size_def algebra_simps)
  qed
  show ?thesis
    unfolding OffsetCommit_RequestMessageWireSize_def OffsetCommit_WriteRequestMessage_def t
    by (simp add: t StringWireSize_def algebra_simps)
qed

lemma topic_names_written:
  "topic_names_size (commit_topics r) \<le> length (OffsetCommit_WriteRequestMessage r)"
proof -
  have "topic_names_size ts \<le> length (concat (map (\<lambda>t. WriteString (topic_name t) @ f t) ts))"
    for ts :: "OffsetCommitProperties Topics" and f
    by (induction ts) (simp_all add: topic_names_size_def)
  note this [of "commit_topics r" "\<lambda>t. WriteInt32 (word_of_nat (length (partitions t))) @
        concat (map (\<lambda>q. WriteInt32 (partition q) @
            WriteInt64 (offset (properties q)) @ WriteInt64 (timestamp (properties q)) @
            WriteString (metadata (properties q))) (partitions t))"]
  then show ?thesis by (simp add: OffsetCommit_WriteRequestMessage_def)
qed

text \<open>C33. An offset-commit request declares too small a size: the names of its topics are not
  counted.  What the receiver takes for the request lacks as many bytes at its end as these
  names have with their lengths, and those bytes stay in front of what follows.\<close>

theorem offset_commit_cut_short:
  assumes "length (request_body OffsetCommit_class cid r) < 2 ^ 31"
  shows "read_frame (good_stream sk (WriteRequest OffsetCommit_class r cid @ rest)) =
     (let b = request_body OffsetCommit_class cid r;
          n = length b - topic_names_size (commit_topics r)
      in (take n b, good_stream sk (drop n b @ rest)))"
proof -
  let ?b = "request_body OffsetCommit_class cid r"
  define n where "n = length ?b - topic_names_size (commit_topics r)"
  have le: "topic_names_size (commit_topics r) \<le> length ?b"
    using topic_names_written [of r] by (simp add: request_body_def OffsetCommit_class_def)
  have "RequestWireSize OffsetCommit_class r cid + word_of_nat (topic_names_size (commit_topics r))
      = word_of_nat (length ?b)"
    by (simp add: RequestWireSize_def request_body_def OffsetCommit_class_def StringWireSize_def
        commit_message_size)
  then have sz: "RequestWireSize OffsetCommit_class r cid = word_of_nat n"
    using le by (simp add: n_def of_nat_diff eq_diff_eq)
  have "n < 2 ^ 31" using assms by (simp add: n_def)
  then have s: "sint (word_of_nat n :: Int32) = int n" by (simp add: sint_of_length)
  have "?b @ rest = take n ?b @ (drop n ?b @ rest)" by simp
  moreover have "length (take n ?b) = n" by (simp add: n_def)
  ultimately have "istream_read n (good_stream sk (?b @ rest)) = (take n ?b, good_stream sk (drop n ?b @ rest))"
    by (metis istream_read_exact)
  then show ?thesis
    by (simp add: read_frame_def WriteRequest_body sz wire_simps s Let_def flip: n_def)
qed

definition demo_commit :: OffsetCommitRequest where
  "demo_commit = CommitOffset [116, 111] 0 5 0 [] OffsetCommitRequest_new"

theorem offset_commit_cut_short_witness:
  "length (is_rest (snd (read_frame (good_stream True (WriteRequest OffsetCommit_class demo_commit [99] @ []))))) = 4"
proof -
  have l: "length (request_body OffsetCommit_class [99] demo_commit) = 47"
    and n: "topic_names_size (commit_topics demo_commit) = 4"
    unfolding length_request_body
    by (simp_all add: OffsetCommit_class_def OffsetCommit_WriteRequestMessage_def demo_commit_def
        CommitOffset_def update_entry_upsert update_topic_def OffsetCommitRequest_new_def
        Request_new_def Request.defs OffsetCommitRequest.defs topic_names_size_def)
  then have "length (request_body OffsetCommit_class [99] demo_commit) < 2 ^ 31" by simp
  from offset_commit_cut_short [OF this, where sk = True and rest = "[]"]
  show ?thesis by (simp add: Let_def l n)
qed

end
