(* ===== verification/KResponses.thy ===== *)
theory KResponses
  imports KMessages StdMap
begin

text \<open>
  The responses of libkafka_asio: \<open>response.h\<close>, the seven \<open>*_response.h\<close>, the maps of
  \<open>detail/topic_partition_map.h\<close> and the readers \<open>detail/impl/*_response_read.h\<close>.  The keys
  of a partition map are ordered as signed integers, so the key of a partition is its signed
  value.  A reader that returns early leaves what it had stored in the response.
\<close>

section \<open>Control flow of the readers\<close>

text \<open>
  A statement goes on, returns from the reader, throws \<open>std::length_error\<close> or does not end
  (a loop around zlib).
\<close>

datatype ('a, 'r) flow = Go 'a | Return 'r | Throws | Diverges

fun flow_bind :: "('a, 'r) flow \<Rightarrow> ('a \<Rightarrow> ('b, 'r) flow) \<Rightarrow> ('b, 'r) flow" where
  "flow_bind (Go x) f = f x"
| "flow_bind (Return r) f = Return r"
| "flow_bind Throws f = Throws"
| "flow_bind Diverges f = Diverges"

text \<open>\<open>for (int t = 0; t < count; ++t)\<close> around a body on the state \<open>s\<close>.\<close>

fun for_count :: "nat \<Rightarrow> ('s \<Rightarrow> ('s, 'r) flow) \<Rightarrow> 's \<Rightarrow> ('s, 'r) flow" where
  "for_count 0 body s = Go s"
| "for_count (Suc n) body s = flow_bind (body s) (for_count n body)"

definition loop_count :: "Int32 \<Rightarrow> nat" where
  "loop_count w = nat (sint w)"

section \<open>Topic maps\<close>

record ('p, 't) TopicPartitionMap =
  map_properties :: 't
  map_partitions :: "(int, 'p) std_map"

type_synonym ('p, 't) TopicMap = "(String, ('p, 't) TopicPartitionMap) std_map"

text \<open>
  The two loops all the readers with topics have.  \<open>head\<close> reads the key and the properties of
  a topic, \<open>entry\<close> a partition; the inner loop keeps the partitions of the topic, the outer
  one the topics of the response.  A partition or topic whose key was seen already is dropped
  (\<open>insert\<close>), and an early return of \<open>entry\<close> leaves the topic it was in out of the response.
\<close>

definition read_partition ::
    "(error_code \<Rightarrow> istream \<Rightarrow> (int \<times> 'p \<times> error_code \<times> istream, error_code \<times> istream) flow) \<Rightarrow>
     (int, 'p) std_map \<times> error_code \<times> istream \<Rightarrow>
     ((int, 'p) std_map \<times> error_code \<times> istream, error_code \<times> istream) flow" where
  "read_partition entry s = (case s of (m, ec, is) \<Rightarrow>
     flow_bind (entry ec is) (\<lambda>(k, p, ec', is'). Go (std_insert k p m, ec', is')))"

definition read_topic ::
    "(istream \<Rightarrow> String \<times> 't \<times> istream) \<Rightarrow>
     (error_code \<Rightarrow> istream \<Rightarrow> (int \<times> 'p \<times> error_code \<times> istream, error_code \<times> istream) flow) \<Rightarrow>
     ('p, 't) TopicMap \<times> error_code \<times> istream \<Rightarrow>
     (('p, 't) TopicMap \<times> error_code \<times> istream, ('p, 't) TopicMap \<times> error_code \<times> istream) flow" where
  "read_topic head entry s = (case s of (topics, ec, is) \<Rightarrow>
     let (key, props, is1) = head is; (partition_count, is2) = ReadInt32 is1
     in case for_count (loop_count partition_count) (read_partition entry) ([], ec, is2) of
          Go (m, ec', is') \<Rightarrow>
            Go (std_insert key \<lparr>map_properties = props, map_partitions = m\<rparr> topics, ec', is')
        | Return (ec', is') \<Rightarrow> Return (topics, ec', is')
        | Throws \<Rightarrow> Throws
        | Diverges \<Rightarrow> Diverges)"

definition read_topics ::
    "(istream \<Rightarrow> String \<times> 't \<times> istream) \<Rightarrow>
     (error_code \<Rightarrow> istream \<Rightarrow> (int \<times> 'p \<times> error_code \<times> istream, error_code \<times> istream) flow) \<Rightarrow>
     error_code \<Rightarrow> istream \<Rightarrow>
     (('p, 't) TopicMap \<times> error_code \<times> istream, ('p, 't) TopicMap \<times> error_code \<times> istream) flow" where
  "read_topics head entry ec is =
     (let (topic_count, is1) = ReadInt32 is
      in for_count (loop_count topic_count) (read_topic head entry) ([], ec, is1))"

text \<open>The head of a topic that has only its name.\<close>

definition topic_key :: "istream \<Rightarrow> String \<times> unit \<times> istream" where
  "topic_key is = (let (key, is1) = ReadString is in (key, (), is1))"

text \<open>\<open>ec = (KafkaError) code\<close> and \<open>ec != kErrorSuccess\<close>: the category counts.\<close>

definition kafka_ec :: "Int16 \<Rightarrow> error_code" where
  "kafka_ec w = (KafkaErrorCategory, sint w)"

definition not_success :: "error_code \<Rightarrow> bool" where
  "not_success ec \<longleftrightarrow> ec \<noteq> make_error_code_client kErrorSuccess"

text \<open>The topics, the error code and the stream at the end, however the loops were left.\<close>

fun flow_result :: "('s, 's) flow \<Rightarrow> ('s, unit) flow" where
  "flow_result (Go s) = Go s"
| "flow_result (Return s) = Go s"
| "flow_result Throws = Throws"
| "flow_result Diverges = Diverges"

section \<open>The responses\<close>

record ProduceProperties =
  p_error_code :: Int16
  p_offset :: Int64

definition Produce_entry ::
    "error_code \<Rightarrow> istream \<Rightarrow> (int \<times> ProduceProperties \<times> error_code \<times> istream, error_code \<times> istream) flow" where
  "Produce_entry ec is =
     (let (key, is1) = ReadInt32 is; (err, is2) = ReadInt16 is1; (off, is3) = ReadInt64 is2
      in if err \<noteq> 0 then Return (kafka_ec err, is3)
         else Go (sint key, \<lparr>p_error_code = err, p_offset = off\<rparr>, ec, is3))"

definition Produce_ReadResponseMessage where
  "Produce_ReadResponseMessage ec is = flow_result (read_topics topic_key Produce_entry ec is)"

definition Produce_FindTopic ::
    "(ProduceProperties, unit) TopicMap \<Rightarrow> String \<Rightarrow> (ProduceProperties, unit) TopicPartitionMap option" where
  "Produce_FindTopic topics name = map_of topics name"

definition Produce_FindTopicPartition ::
    "(ProduceProperties, unit) TopicMap \<Rightarrow> String \<Rightarrow> Int32 \<Rightarrow> ProduceProperties option" where
  "Produce_FindTopicPartition topics name p =
     (case Produce_FindTopic topics name of
        None \<Rightarrow> None
      | Some topic \<Rightarrow> map_of (map_partitions topic) (sint p))"

record FetchResponseProperties =
  f_error_code :: Int16
  highwater_mark_offset :: Int64
  messages :: MessageSet

text \<open>\<open>ReadMessageSet\<close> takes a \<open>size_t\<close>, to which the size on the wire is sign-extended.\<close>

definition Fetch_entry ::
    "'z zlib \<Rightarrow> error_code \<Rightarrow> istream \<Rightarrow>
     (int \<times> FetchResponseProperties \<times> error_code \<times> istream, error_code \<times> istream) flow" where
  "Fetch_entry zl ec is =
     (let (key, is1) = ReadInt32 is; (err, is2) = ReadInt16 is1; (hw, is3) = ReadInt64 is2
      in if err \<noteq> 0 then Return (kafka_ec err, is3)
         else let (message_set_size, is4) = ReadInt32 is3
              in case ReadMessageSet zl (unat (scast message_set_size :: u64)) is4 ec of
                   None \<Rightarrow> Diverges
                 | Some (ms, ec', is5) \<Rightarrow>
                     if not_success ec' then Return (ec', is5)
                     else Go (sint key,
                       \<lparr>f_error_code = err, highwater_mark_offset = hw, messages = ms\<rparr>, ec', is5))"

definition Fetch_ReadResponseMessage where
  "Fetch_ReadResponseMessage zl ec is = flow_result (read_topics topic_key (Fetch_entry zl) ec is)"

record OffsetResponseProperties =
  o_error_code :: Int16
  offsets :: "Int64 list"

definition Offset_entry ::
    "error_code \<Rightarrow> istream \<Rightarrow>
     (int \<times> OffsetResponseProperties \<times> error_code \<times> istream, error_code \<times> istream) flow" where
  "Offset_entry ec is =
     (let (key, is1) = ReadInt32 is; (err, is2) = ReadInt16 is1
      in if err \<noteq> 0 then Return (kafka_ec err, is2)
         else let (offsets_size, is3) = ReadInt32 is2;
                  (offs, is4) = read_n ReadInt64 (loop_count offsets_size) is3
              in Go (sint key, \<lparr>o_error_code = err, offsets = offs\<rparr>, ec, is4))"

definition Offset_ReadResponseMessage where
  "Offset_ReadResponseMessage ec is = flow_result (read_topics topic_key Offset_entry ec is)"

definition TopicPartitionOffset ::
    "(OffsetResponseProperties, unit) TopicMap \<Rightarrow> String \<Rightarrow> Int32 \<Rightarrow> OffsetResponseProperties option" where
  "TopicPartitionOffset topics name p =
     (case map_of topics name of
        None \<Rightarrow> None
      | Some topic \<Rightarrow> map_of (map_partitions topic) (sint p))"

text \<open>Offset commit: the code of every partition is stored and not looked at.\<close>

definition OffsetCommit_entry ::
    "error_code \<Rightarrow> istream \<Rightarrow> (int \<times> Int16 \<times> error_code \<times> istream, error_code \<times> istream) flow" where
  "OffsetCommit_entry ec is =
     (let (key, is1) = ReadInt32 is; (err, is2) = ReadInt16 is1 in Go (sint key, err, ec, is2))"

definition OffsetCommit_ReadResponseMessage where
  "OffsetCommit_ReadResponseMessage ec is = flow_result (read_topics topic_key OffsetCommit_entry ec is)"

record OffsetFetchProperties =
  of_offset :: Int64
  of_metadata :: String
  of_error_code :: Int16

definition OffsetFetch_entry ::
    "error_code \<Rightarrow> istream \<Rightarrow>
     (int \<times> OffsetFetchProperties \<times> error_code \<times> istream, error_code \<times> istream) flow" where
  "OffsetFetch_entry ec is =
     (let (key, is1) = ReadInt32 is; (off, is2) = ReadInt64 is1; (md, is3) = ReadString is2;
          (err, is4) = ReadInt16 is3
      in Go (sint key, \<lparr>of_offset = off, of_metadata = md, of_error_code = err\<rparr>, ec, is4))"

definition OffsetFetch_ReadResponseMessage where
  "OffsetFetch_ReadResponseMessage ec is = flow_result (read_topics topic_key OffsetFetch_entry ec is)"

record Broker =
  node_id :: Int32
  host :: String
  port :: Int32

record MetadataProperties =
  md_error_code :: Int16
  leader :: Int32
  replicas :: "Int32 list"
  isr :: "Int32 list"

record MetadataResponse =
  brokers :: "Broker list"
  md_topics :: "(MetadataProperties, Int16) TopicMap"

definition read_broker :: "istream \<Rightarrow> Broker \<times> istream" where
  "read_broker is =
     (let (i, is1) = ReadInt32 is; (h, is2) = ReadString is1; (p, is3) = ReadInt32 is2
      in (\<lparr>node_id = i, host = h, port = p\<rparr>, is3))"

definition Metadata_head :: "istream \<Rightarrow> String \<times> Int16 \<times> istream" where
  "Metadata_head is = (let (err, is1) = ReadInt16 is; (key, is2) = ReadString is1 in (key, err, is2))"

definition Metadata_entry ::
    "error_code \<Rightarrow> istream \<Rightarrow>
     (int \<times> MetadataProperties \<times> error_code \<times> istream, error_code \<times> istream) flow" where
  "Metadata_entry ec is =
     (let (err, is1) = ReadInt16 is; (key, is2) = ReadInt32 is1; (ldr, is3) = ReadInt32 is2;
          (replicas_size, is4) = ReadInt32 is3;
          (reps, is5) = read_n ReadInt32 (loop_count replicas_size) is4;
          (isr_size, is6) = ReadInt32 is5;
          (isrs, is7) = read_n ReadInt32 (loop_count isr_size) is6
      in Go (sint key, \<lparr>md_error_code = err, leader = ldr, replicas = reps, isr = isrs\<rparr>, ec, is7))"

text \<open>\<open>resize\<close> converts a negative count to a length no vector can have.\<close>

definition Metadata_ReadResponseMessage ::
    "error_code \<Rightarrow> istream \<Rightarrow> (MetadataResponse \<times> error_code \<times> istream, unit) flow" where
  "Metadata_ReadResponseMessage ec is =
     (let (broker_count, is1) = ReadInt32 is
      in if sint broker_count < 0 then Throws
         else let (bs, is2) = read_n read_broker (loop_count broker_count) is1
              in flow_bind (flow_result (read_topics Metadata_head Metadata_entry ec is2))
                   (\<lambda>(topics, ec', is3). Go (\<lparr>brokers = bs, md_topics = topics\<rparr>, ec', is3)))"

definition IsBrokerWithId :: "Int32 \<Rightarrow> Broker \<Rightarrow> bool" where
  "IsBrokerWithId i other \<longleftrightarrow> node_id other = i"

definition FindBrokerById :: "Int32 \<Rightarrow> Broker list \<Rightarrow> Broker option" where
  "FindBrokerById i bs = find (IsBrokerWithId i) bs"

definition PartitionLeader :: "MetadataResponse \<Rightarrow> String \<Rightarrow> Int32 \<Rightarrow> Broker option" where
  "PartitionLeader r topic p =
     (case map_of (md_topics r) topic of
        None \<Rightarrow> None
      | Some t \<Rightarrow>
          (case map_of (map_partitions t) (sint p) of
             None \<Rightarrow> None
           | Some q \<Rightarrow>
               if leader q = kMetadataLeaderUndecided then None
               else FindBrokerById (leader q) (brokers r)))"

record ConsumerMetadataResponse =
  cm_error_code :: Int16
  coordinator_id :: Int32
  coordinator_host :: String
  coordinator_port :: Int32

definition ConsumerMetadata_ReadResponseMessage ::
    "error_code \<Rightarrow> istream \<Rightarrow> (ConsumerMetadataResponse \<times> error_code \<times> istream, unit) flow" where
  "ConsumerMetadata_ReadResponseMessage ec is =
     (let (err, is1) = ReadInt16 is; (i, is2) = ReadInt32 is1; (h, is3) = ReadString is2;
          (p, is4) = ReadInt32 is3
      in Go (\<lparr>cm_error_code = err, coordinator_id = i, coordinator_host = h, coordinator_port = p\<rparr>,
             if err \<noteq> 0 then kafka_ec err else ec, is4))"

section \<open>Reading a response\<close>

text \<open>
  \<open>ReadResponse\<close> around the reader of a type, with the error code the caller declared: the
  correlation id, the message, the error code.
\<close>

definition ReadResponse ::
    "(error_code \<Rightarrow> istream \<Rightarrow> ('m \<times> error_code \<times> istream, unit) flow) \<Rightarrow>
     istream \<Rightarrow> error_code \<Rightarrow> ((Int32 \<times> 'm) \<times> error_code \<times> istream, unit) flow" where
  "ReadResponse read is ec =
     (let (c, is1) = ReadInt32 is
      in flow_bind (read ec is1) (\<lambda>(m, ec', is2). Go ((c, m), ec', is2)))"

end
