(* ===== verification/KIterators.thy ===== *)
theory KIterators
  imports KResponses
begin

text \<open>
  The iterators over received messages: \<open>detail/recursive_messageset_iterator.h\<close> and
  \<open>detail/fetch_response_iterator.h\<close>.  A pointer to a message set is the set or \<open>None\<close>, an
  iterator into a vector an index, an iterator into a map the elements from it to the end.
  The program compares iterators with the end iterator only.
\<close>

section \<open>Recursive iteration over a message set\<close>

datatype RecursiveMessageSetIterator =
  RIter (message_set: "MessageSet option") (outer_iterator: nat)
    (inner_iterator: "RecursiveMessageSetIterator option")

definition RIter_end :: RecursiveMessageSetIterator where
  "RIter_end = RIter None 0 None"

fun RIter_begin :: "MessageSet \<Rightarrow> RecursiveMessageSetIterator" where
  "RIter_begin [] = RIter None 0 None"
| "RIter_begin ((Message a k v ns, off) # ms) =
     RIter (Some ((Message a k v ns, off) # ms)) 0 (if ns \<noteq> [] then Some (RIter_begin ns) else None)"

definition IsInnerDone :: "RecursiveMessageSetIterator option \<Rightarrow> bool" where
  "IsInnerDone inner \<longleftrightarrow> (case inner of None \<Rightarrow> True | Some it \<Rightarrow> message_set it = None)"

definition RIter_at_end :: "RecursiveMessageSetIterator \<Rightarrow> bool" where
  "RIter_at_end it \<longleftrightarrow> message_set it = None"

text \<open>\<open>increment\<close> after the inner iterator was advanced, and \<open>increment\<close>.\<close>

definition RIter_advance ::
    "MessageSet \<Rightarrow> nat \<Rightarrow> RecursiveMessageSetIterator option \<Rightarrow> RecursiveMessageSetIterator" where
  "RIter_advance ms i inner =
     (if IsInnerDone inner then
        let i' = i + 1
        in if i' = length ms then RIter None i' None
           else if m_nested (fst (ms ! i')) \<noteq> []
             then RIter (Some ms) i' (Some (RIter_begin (m_nested (fst (ms ! i')))))
             else RIter (Some ms) i' inner
      else RIter (Some ms) i inner)"

fun RIter_increment :: "RecursiveMessageSetIterator \<Rightarrow> RecursiveMessageSetIterator" where
  "RIter_increment (RIter None i inner) = RIter None i inner"
| "RIter_increment (RIter (Some ms) i None) = RIter_advance ms i None"
| "RIter_increment (RIter (Some ms) i (Some it)) =
     RIter_advance ms i (Some (if IsInnerDone (Some it) then it else RIter_increment it))"

text \<open>\<open>None\<close> is a dereference of the end iterator.\<close>

fun RIter_dereference :: "RecursiveMessageSetIterator \<Rightarrow> MessageAndOffset option" where
  "RIter_dereference (RIter (Some ms) i None) = (if i < length ms then Some (ms ! i) else None)"
| "RIter_dereference (RIter (Some ms) i (Some it)) =
     (if \<not> IsInnerDone (Some it) then RIter_dereference it
      else if i < length ms then Some (ms ! i) else None)"
| "RIter_dereference (RIter None i inner) = None"

section \<open>Iteration over a fetch response\<close>

type_synonym fetch_topics = "(FetchResponseProperties, unit) TopicMap"
type_synonym fetch_partitions = "(int, FetchResponseProperties) std_map"

record FetchResponseIterator =
  fi_topics :: "fetch_topics option"
  topic_iter :: fetch_topics
  topic_partition_iter :: fetch_partitions
  message_iter :: RecursiveMessageSetIterator

definition FIter_end :: FetchResponseIterator where
  "FIter_end = \<lparr>fi_topics = None, topic_iter = [], topic_partition_iter = [], message_iter = RIter_end\<rparr>"

text \<open>The two loops of the constructor: the first partition with messages.\<close>

fun first_partition :: "fetch_partitions \<Rightarrow> fetch_partitions" where
  "first_partition [] = []"
| "first_partition ((k, p) # ps) =
     (if \<not> RIter_at_end (RIter_begin (messages p)) then (k, p) # ps else first_partition ps)"

fun FIter_find :: "fetch_topics \<Rightarrow> fetch_topics \<Rightarrow> FetchResponseIterator" where
  "FIter_find topics [] = FIter_end"
| "FIter_find topics ((n, t) # ts) =
     (case first_partition (map_partitions t) of
        [] \<Rightarrow> FIter_find topics ts
      | (k, p) # ps \<Rightarrow>
          \<lparr>fi_topics = Some topics, topic_iter = (n, t) # ts, topic_partition_iter = (k, p) # ps,
           message_iter = RIter_begin (messages p)\<rparr>)"

definition FIter_begin :: "fetch_topics \<Rightarrow> FetchResponseIterator" where
  "FIter_begin topics = FIter_find topics topics"

text \<open>The inner loop of \<open>increment\<close>: past the topics without further partitions.\<close>

fun seek_partition :: "fetch_topics \<Rightarrow> fetch_partitions \<Rightarrow> (fetch_topics \<times> fetch_partitions) option" where
  "seek_partition ts (p # ps) = Some (ts, p # ps)"
| "seek_partition (t # u # ts) [] = seek_partition (u # ts) (map_partitions (snd u))"
| "seek_partition [t] [] = None"
| "seek_partition [] [] = None"

definition fi_left :: "fetch_topics \<Rightarrow> fetch_partitions \<Rightarrow> nat" where
  "fi_left ts ps = length ps + sum_list (map (\<lambda>t. length (map_partitions (snd t))) (tl ts))"

lemma seek_partition_left: "seek_partition ts ps = Some (ts', ps') \<Longrightarrow> fi_left ts' ps' = fi_left ts ps"
  by (induction ts ps rule: seek_partition.induct) (auto simp: fi_left_def)

text \<open>The outer loop; the end of the topics resets the iterator.\<close>

function FIter_settle :: "fetch_topics \<Rightarrow> fetch_topics \<Rightarrow> fetch_partitions \<Rightarrow>
    RecursiveMessageSetIterator \<Rightarrow> FetchResponseIterator" where
  "FIter_settle topics ts (p # ps) it =
     (if \<not> RIter_at_end it
      then \<lparr>fi_topics = Some topics, topic_iter = ts, topic_partition_iter = p # ps, message_iter = it\<rparr>
      else case seek_partition ts ps of
             None \<Rightarrow> FIter_end
           | Some (ts', ps') \<Rightarrow> FIter_settle topics ts' ps' (RIter_begin (messages (snd (hd ps')))))"
| "FIter_settle topics ts [] it = FIter_end"
  by pat_completeness auto
termination
  by (relation "measure (\<lambda>(topics, ts, ps, it). fi_left ts ps)")
     (auto simp: fi_left_def dest!: seek_partition_left)

definition FIter_increment :: "FetchResponseIterator \<Rightarrow> FetchResponseIterator" where
  "FIter_increment it =
     (case fi_topics it of
        None \<Rightarrow> it
      | Some topics \<Rightarrow>
          FIter_settle topics (topic_iter it) (topic_partition_iter it) (RIter_increment (message_iter it)))"

definition FIter_at_end :: "FetchResponseIterator \<Rightarrow> bool" where
  "FIter_at_end it \<longleftrightarrow> fi_topics it = None"

definition FIter_dereference :: "FetchResponseIterator \<Rightarrow> MessageAndOffset option" where
  "FIter_dereference it = RIter_dereference (message_iter it)"

section \<open>Loops\<close>

text \<open>
  \<open>for (it = begin; it != end; ++it)\<close> of a client: the messages it sees.  \<open>None\<close> is a loop
  that does not end or dereferences the end.
\<close>

partial_function (option) iterate ::
    "('i \<Rightarrow> bool) \<Rightarrow> ('i \<Rightarrow> 'a option) \<Rightarrow> ('i \<Rightarrow> 'i) \<Rightarrow> 'i \<Rightarrow> 'a list option" where
  "iterate at_end deref inc it =
     (if at_end it then Some []
      else Option.bind (deref it) (\<lambda>x. Option.bind (iterate at_end deref inc (inc it)) (\<lambda>xs. Some (x # xs))))"

end
