(* ===== verification/KResponseFacts.thy ===== *)
theory KResponseFacts
  imports KResponses KMessageFacts
begin

text \<open>
  Facts about the responses: what a broker writes is what the reader stores, entry by entry,
  up to the first entry that carries an error; and what the reader of fetch responses makes
  of an empty message set.
\<close>

lemma loop_count_of_nat: "n < 2 ^ 31 \<Longrightarrow> loop_count (word_of_nat n) = n"
  by (simp add: loop_count_def sint_of_length)

section \<open>Topics on the wire\<close>

text \<open>
  A broker's list of topics: name, properties of the topic, and the partitions with their
  properties.
\<close>

type_synonym ('p, 't) wire_topic = "String \<times> 't \<times> (Int32 \<times> 'p) list"

definition enc_topic :: "(String \<Rightarrow> 't \<Rightarrow> bytes) \<Rightarrow> (Int32 \<Rightarrow> 'p \<Rightarrow> bytes) \<Rightarrow> ('p, 't) wire_topic \<Rightarrow> bytes" where
  "enc_topic ehead eentry = (\<lambda>(n, t, ps). ehead n t @ WriteInt32 (word_of_nat (length ps)) @
     concat (map (\<lambda>(k, p). eentry k p) ps))"

definition enc_topics :: "(String \<Rightarrow> 't \<Rightarrow> bytes) \<Rightarrow> (Int32 \<Rightarrow> 'p \<Rightarrow> bytes) \<Rightarrow> ('p, 't) wire_topic list \<Rightarrow> bytes" where
  "enc_topics ehead eentry ts = WriteInt32 (word_of_nat (length ts)) @ concat (map (enc_topic ehead eentry) ts)"

definition signed_keys :: "(Int32 \<times> 'p) list \<Rightarrow> (int \<times> 'p) list" where
  "signed_keys ps = map (\<lambda>(k, p). (sint k, p)) ps"

definition partition_map :: "(Int32 \<times> 'p) list \<Rightarrow> (int, 'p) std_map" where
  "partition_map ps = std_insert_all (signed_keys ps) []"

definition topic_map :: "('p, 't) wire_topic list \<Rightarrow> ('p, 't) TopicMap" where
  "topic_map ts = std_insert_all
     (map (\<lambda>(n, t, ps). (n, \<lparr>map_properties = t, map_partitions = partition_map ps\<rparr>)) ts) []"

text \<open>What the maps hold: the first topic of a name and its first partition of a number.\<close>

definition wire_lookup :: "('p, 't) wire_topic list \<Rightarrow> String \<Rightarrow> Int32 \<Rightarrow> 'p option" where
  "wire_lookup ts n p = (case map_of ts n of None \<Rightarrow> None | Some (t, ps) \<Rightarrow> map_of ps p)"

lemma map_of_partition_map: "map_of (partition_map ps) (sint k) = map_of ps k"
proof -
  have "map_of (signed_keys ps) (sint k) = map_of ps k"
    by (induction ps) (auto simp: signed_keys_def simp flip: word_eq_iff_signed)
  then show ?thesis by (simp add: partition_map_def map_of_std_insert_all)
qed

lemma map_of_topic_map:
  "map_of (topic_map ts) n =
     map_option (\<lambda>(t, ps). \<lparr>map_properties = t, map_partitions = partition_map ps\<rparr>) (map_of ts n)"
  by (induction ts) (auto simp: topic_map_def map_of_std_insert_all)

text \<open>What fits the counts on the wire.\<close>

definition fits_topic :: "('p \<Rightarrow> bool) \<Rightarrow> ('p, 't) wire_topic \<Rightarrow> bool" where
  "fits_topic fits = (\<lambda>(n, t, ps). length n < 2 ^ 15 \<and> length ps < 2 ^ 31 \<and> (\<forall>(k, p)\<in>set ps. fits p))"

definition fits_topics :: "('p \<Rightarrow> bool) \<Rightarrow> ('p, 't) wire_topic list \<Rightarrow> bool" where
  "fits_topics fits ts \<longleftrightarrow> length ts < 2 ^ 31 \<and> (\<forall>t\<in>set ts. fits_topic fits t)"

text \<open>No partition reports an error.\<close>

definition no_errors :: "('p \<Rightarrow> Int16) \<Rightarrow> ('p, 't) wire_topic list \<Rightarrow> bool" where
  "no_errors err ts \<longleftrightarrow> (\<forall>(n, t, ps)\<in>set ts. \<forall>(k, p)\<in>set ps. err p = 0)"

lemma fits_topics_no_errors:
  "fits_topics fits ts \<Longrightarrow> no_errors err ts \<Longrightarrow> fits_topics (\<lambda>p. err p = 0 \<and> fits p) ts"
  by (fastforce simp: fits_topics_def fits_topic_def no_errors_def)

section \<open>Readers of topics\<close>

text \<open>
  The contract of the readers of a response: on what the broker writes, the head reads name
  and properties of a topic, and the entry reader a partition, with the error code as it was.
  \<open>bad\<close> are the entries that carry an error; they end the reading with that error.
\<close>

locale topic_reader =
  fixes head :: "istream \<Rightarrow> String \<times> 't \<times> istream"
    and ehead :: "String \<Rightarrow> 't \<Rightarrow> bytes"
    and entry :: "error_code \<Rightarrow> istream \<Rightarrow> (int \<times> 'p \<times> error_code \<times> istream, error_code \<times> istream) flow"
    and eentry :: "Int32 \<Rightarrow> 'p \<Rightarrow> bytes"
    and fits :: "'p \<Rightarrow> bool"
    and ec :: error_code
  assumes head_enc: "length n < 2 ^ 15 \<Longrightarrow>
      head (good_stream sk (ehead n t @ r)) = (n, t, good_stream sk r)"
    and entry_enc: "fits p \<Longrightarrow>
      entry ec (good_stream sk (eentry k p @ r)) = Go (sint k, p, ec, good_stream sk r)"
begin

lemma partitions_enc:
  "\<forall>(k, p)\<in>set ps. fits p \<Longrightarrow>
     for_count (length ps) (read_partition entry)
       (m, ec, good_stream sk (concat (map (\<lambda>(k, p). eentry k p) ps) @ r)) =
     Go (std_insert_all (signed_keys ps) m, ec, good_stream sk r)"
  by (induction ps arbitrary: m) (auto simp: read_partition_def entry_enc signed_keys_def)

lemma topic_enc:
  assumes "fits_topic fits x"
  shows "read_topic head entry (m, ec, good_stream sk (enc_topic ehead eentry x @ r)) =
    (case x of (n, t, ps) \<Rightarrow>
       Go (std_insert n \<lparr>map_properties = t, map_partitions = partition_map ps\<rparr> m, ec, good_stream sk r))"
proof (cases x)
  case (fields n t ps)
  with assms show ?thesis
    by (simp add: fits_topic_def read_topic_def enc_topic_def head_enc wire_simps loop_count_of_nat
        partitions_enc partition_map_def)
qed

lemma topics_enc:
  "\<forall>t\<in>set ts. fits_topic fits t \<Longrightarrow>
     for_count (length ts) (read_topic head entry)
       (m, ec, good_stream sk (concat (map (enc_topic ehead eentry) ts) @ r)) =
     Go (std_insert_all (map (\<lambda>(n, t, ps). (n, \<lparr>map_properties = t, map_partitions = partition_map ps\<rparr>)) ts) m,
         ec, good_stream sk r)"
proof (induction ts arbitrary: m)
  case (Cons t ts)
  then show ?case by (cases t) (simp add: topic_enc)
qed simp

lemma read_topics_enc:
  "fits_topics fits ts \<Longrightarrow>
     read_topics head entry ec (good_stream sk (enc_topics ehead eentry ts @ r)) =
     Go (topic_map ts, ec, good_stream sk r)"
  by (simp add: fits_topics_def read_topics_def enc_topics_def wire_simps loop_count_of_nat topics_enc
      topic_map_def)

lemma for_count_add:
  "for_count n body s = Go s' \<Longrightarrow> for_count (n + m) body s = for_count m body s'"
  by (induction n arbitrary: s) (auto elim: flow_bind.elims)

lemma read_topics_error:
  assumes "\<forall>t\<in>set ts. fits_topic fits t" and "length n < 2 ^ 15" and "\<forall>(k, p)\<in>set ps. fits p"
    and bad: "entry ec (good_stream sk r) = Return (e, is')"
    and "length ts < tc" and "tc < 2 ^ 31" and "length ps < pc" and "pc < 2 ^ 31"
  shows "read_topics head entry ec (good_stream sk (WriteInt32 (word_of_nat tc) @
      concat (map (enc_topic ehead eentry) ts) @ ehead n t @ WriteInt32 (word_of_nat pc) @
      concat (map (\<lambda>(k, p). eentry k p) ps) @ r)) = Return (topic_map ts, e, is')"
proof -
  obtain m where tc: "tc = length ts + Suc m" using assms(5) less_iff_Suc_add by auto
  obtain l where pc: "pc = length ps + Suc l" using assms(7) less_iff_Suc_add by auto
  have "for_count pc (read_partition entry)
      ([], ec, good_stream sk (concat (map (\<lambda>(k, p). eentry k p) ps) @ r)) = Return (e, is')"
    unfolding pc for_count_add [OF partitions_enc [OF assms(3)]]
    by (simp add: read_partition_def bad)
  then have "read_topic head entry (x, ec, good_stream sk (ehead n t @ WriteInt32 (word_of_nat pc) @
      concat (map (\<lambda>(k, p). eentry k p) ps) @ r)) = Return (x, e, is')" for x
    using assms(2,8) by (simp add: read_topic_def head_enc wire_simps loop_count_of_nat)
  then have "for_count tc (read_topic head entry) ([], ec, good_stream sk
      (concat (map (enc_topic ehead eentry) ts) @ ehead n t @ WriteInt32 (word_of_nat pc) @
      concat (map (\<lambda>(k, p). eentry k p) ps) @ r)) = Return (topic_map ts, e, is')"
    unfolding tc for_count_add [OF topics_enc [OF assms(1)]] by (simp add: topic_map_def)
  then show ?thesis using assms(6) by (simp add: read_topics_def wire_simps loop_count_of_nat)
qed

end

section \<open>The response types\<close>

definition name_head :: "String \<Rightarrow> unit \<Rightarrow> bytes" where
  "name_head n t = WriteString n"

lemma topic_key_enc:
  "length n < 2 ^ 15 \<Longrightarrow> topic_key (good_stream sk (name_head n t @ r)) = (n, t, good_stream sk r)"
  by (simp add: topic_key_def name_head_def wire_simps)

definition produce_enc :: "Int32 \<Rightarrow> ProduceProperties \<Rightarrow> bytes" where
  "produce_enc k p = WriteInt32 k @ WriteInt16 (p_error_code p) @ WriteInt64 (p_offset p)"

text \<open>A partition that reports no error; everything else in it fits the wire.\<close>

definition produce_no_error :: "ProduceProperties \<Rightarrow> bool" where
  "produce_no_error p \<longleftrightarrow> p_error_code p = 0"

interpretation produce_reader: topic_reader topic_key name_head Produce_entry produce_enc
    produce_no_error ec for ec
  by unfold_locales (simp_all add: produce_no_error_def topic_key_enc produce_enc_def Produce_entry_def wire_simps)

definition offset_enc :: "Int32 \<Rightarrow> OffsetResponseProperties \<Rightarrow> bytes" where
  "offset_enc k p = WriteInt32 k @ WriteInt16 (o_error_code p) @
     WriteInt32 (word_of_nat (length (offsets p))) @ concat (map WriteInt64 (offsets p))"

lemma list_all_True [simp]: "list_all (\<lambda>_. True) xs"
  by (simp add: list_all_iff)

interpretation offset_reader: topic_reader topic_key name_head Offset_entry offset_enc
    "\<lambda>p. o_error_code p = 0 \<and> length (offsets p) < 2 ^ 31" ec for ec
  by unfold_locales
     (simp_all add: topic_key_enc offset_enc_def Offset_entry_def wire_simps loop_count_of_nat c64.read_n_enc)

definition offset_commit_enc :: "Int32 \<Rightarrow> Int16 \<Rightarrow> bytes" where
  "offset_commit_enc k err = WriteInt32 k @ WriteInt16 err"

interpretation offset_commit_reader: topic_reader topic_key name_head OffsetCommit_entry
    offset_commit_enc "\<lambda>_. True" ec for ec
  by unfold_locales (simp_all add: topic_key_enc offset_commit_enc_def OffsetCommit_entry_def wire_simps)

definition offset_fetch_enc :: "Int32 \<Rightarrow> OffsetFetchProperties \<Rightarrow> bytes" where
  "offset_fetch_enc k p = WriteInt32 k @ WriteInt64 (of_offset p) @ WriteString (of_metadata p) @
     WriteInt16 (of_error_code p)"

interpretation offset_fetch_reader: topic_reader topic_key name_head OffsetFetch_entry
    offset_fetch_enc "\<lambda>p. length (of_metadata p) < 2 ^ 15" ec for ec
  by unfold_locales (simp_all add: topic_key_enc offset_fetch_enc_def OffsetFetch_entry_def wire_simps)

definition metadata_head_enc :: "String \<Rightarrow> Int16 \<Rightarrow> bytes" where
  "metadata_head_enc n err = WriteInt16 err @ WriteString n"

definition metadata_enc :: "Int32 \<Rightarrow> MetadataProperties \<Rightarrow> bytes" where
  "metadata_enc k p = WriteInt16 (md_error_code p) @ WriteInt32 k @ WriteInt32 (leader p) @
     WriteInt32 (word_of_nat (length (replicas p))) @ concat (map WriteInt32 (replicas p)) @
     WriteInt32 (word_of_nat (length (isr p))) @ concat (map WriteInt32 (isr p))"

definition metadata_fits :: "MetadataProperties \<Rightarrow> bool" where
  "metadata_fits p \<longleftrightarrow> length (replicas p) < 2 ^ 31 \<and> length (isr p) < 2 ^ 31"

interpretation metadata_reader: topic_reader Metadata_head metadata_head_enc Metadata_entry
    metadata_enc metadata_fits ec for ec
  by unfold_locales
     (simp_all add: metadata_fits_def metadata_head_enc_def Metadata_head_def metadata_enc_def Metadata_entry_def wire_simps
       loop_count_of_nat c32.read_n_enc)

text \<open>The message sets of a fetch response, read with success as the error code so far.\<close>

definition fetch_enc :: "(bytes \<Rightarrow> u32) \<Rightarrow> Int32 \<Rightarrow> FetchResponseProperties \<Rightarrow> bytes" where
  "fetch_enc crc k p = WriteInt32 k @ WriteInt16 (f_error_code p) @ WriteInt64 (highwater_mark_offset p) @
     WriteInt32 (MessageSetWireSize (messages p)) @ WriteMessageSet crc (messages p)"

definition fetch_fits :: "'z zlib \<Rightarrow> (bytes \<Rightarrow> u32) \<Rightarrow> FetchResponseProperties \<Rightarrow> bool" where
  "fetch_fits zl crc p \<longleftrightarrow> (\<forall>(m, off)\<in>set (messages p). msg_ok zl crc m) \<and>
     length (WriteMessageSet crc (messages p)) < 2 ^ 31"

lemma fetch_entry_enc:
  assumes "f_error_code p = 0 \<and> fetch_fits zl crc p"
  shows "Fetch_entry zl ec (good_stream sk (fetch_enc crc k p @ r)) =
    (let ec' = (if messages p = [] then ec else make_error_code_client kErrorSuccess)
     in if not_success ec' then Return (ec', good_stream sk r)
        else Go (sint k, p, ec', good_stream sk r))"
proof -
  have "\<forall>(m, off)\<in>set (messages p). reads_back zl crc m"
    using assms by (auto simp: fetch_fits_def intro: msg_ok_reads_back)
  moreover have l: "length (WriteMessageSet crc (messages p)) < 2 ^ 31"
    using assms by (simp add: fetch_fits_def)
  ultimately have m: "ReadMessageSet zl (length (WriteMessageSet crc (messages p)))
      (good_stream sk (WriteMessageSet crc (messages p) @ r)) ec =
     Some (messages p, if messages p = [] then ec else make_error_code_client kErrorSuccess, good_stream sk r)"
    by (rule ReadMessageSet_written)
  have sz: "unat (scast (MessageSetWireSize (messages p)) :: u64) = length (WriteMessageSet crc (messages p))"
    using l by (simp add: MessageSetWireSize_length [of _ crc] scast_of_nat_32_64 unat_of_nat_64)
  show ?thesis
    using assms m sz
    by (cases p) (auto simp: Fetch_entry_def fetch_enc_def fetch_fits_def wire_simps Let_def)
qed

interpretation fetch_reader: topic_reader topic_key name_head "Fetch_entry zl" "fetch_enc crc"
    "\<lambda>p. f_error_code p = 0 \<and> fetch_fits zl crc p" "make_error_code_client kErrorSuccess" for zl crc
  by unfold_locales (auto simp: topic_key_enc fetch_entry_enc not_success_def Let_def)

section \<open>What the client gets\<close>

text \<open>
  The error code a handler of the connection passes to \<open>ReadResponse\<close> is a new one.
\<close>

lemma lookup_topic_map:
  "(case map_of (topic_map ts) n of None \<Rightarrow> None | Some t \<Rightarrow> map_of (map_partitions t) (sint p)) = wire_lookup ts n p"
  by (auto simp: map_of_topic_map wire_lookup_def map_of_partition_map split: option.splits)

text \<open>A produce response without errors is read completely: the client finds for every
  topic and partition what the broker wrote first for it, and nothing else; the correlation id
  is the broker's, there is no error, and the stream is left behind the response.\<close>

theorem produce_response_read:
  assumes "fits_topics produce_no_error ts"
  shows "ReadResponse Produce_ReadResponseMessage
      (good_stream sk (WriteInt32 c @ enc_topics name_head produce_enc ts @ r)) ec_default =
    Go ((c, topic_map ts), ec_default, good_stream sk r) \<and>
    Produce_FindTopicPartition (topic_map ts) n p = wire_lookup ts n p"
  using produce_reader.read_topics_enc [OF assms] lookup_topic_map [where ts = ts and n = n and p = p]
  by (simp add: ReadResponse_def Produce_ReadResponseMessage_def wire_simps
      Produce_FindTopicPartition_def Produce_FindTopic_def)

definition demo_topics :: "(ProduceProperties, unit) wire_topic list" where
  "demo_topics = [([116], (), [(0, \<lparr>p_error_code = 0, p_offset = 9\<rparr>), (1, \<lparr>p_error_code = 0, p_offset = 4\<rparr>)])]"

lemma produce_response_read_witness:
  "Produce_FindTopicPartition (topic_map demo_topics) [116] 1 = Some \<lparr>p_error_code = 0, p_offset = 4\<rparr>"
proof -
  have "fits_topics produce_no_error demo_topics"
    by (simp add: fits_topics_def fits_topic_def demo_topics_def produce_no_error_def)
  from produce_response_read [OF this, where sk = True and c = 7 and r = "[]" and n = "[116]" and p = 1]
  show ?thesis by (simp add: demo_topics_def wire_lookup_def)
qed

text \<open>The first partition with an error ends the reading of a produce response: the error
  code is that error's, of the category of Kafka, the topics read completely before are kept,
  the topic of the partition is not, and what follows is left on the stream.\<close>

theorem produce_response_error:
  assumes "\<forall>t\<in>set ts. fits_topic produce_no_error t" and "length n < 2 ^ 15"
    and "\<forall>(k, p)\<in>set ps. produce_no_error p" and "err \<noteq> 0"
    and "length ts < tc" "tc < 2 ^ 31" "length ps < pc" "pc < 2 ^ 31"
  shows "ReadResponse Produce_ReadResponseMessage (good_stream sk (WriteInt32 c @ WriteInt32 (word_of_nat tc) @
      concat (map (enc_topic name_head produce_enc) ts) @ name_head n t @ WriteInt32 (word_of_nat pc) @
      concat (map (\<lambda>(k, p). produce_enc k p) ps) @ produce_enc q \<lparr>p_error_code = err, p_offset = off\<rparr> @ r)) ec_default =
    Go ((c, topic_map ts), (KafkaErrorCategory, sint err), good_stream sk r)"
proof -
  have "Produce_entry ec_default (good_stream sk (produce_enc q \<lparr>p_error_code = err, p_offset = off\<rparr> @ r)) =
      Return ((KafkaErrorCategory, sint err), good_stream sk r)"
    using assms(4) by (simp add: Produce_entry_def produce_enc_def wire_simps kafka_ec_def)
  from produce_reader.read_topics_error [OF assms(1,2,3) this assms(5-8)]
  show ?thesis by (simp add: ReadResponse_def Produce_ReadResponseMessage_def wire_simps)
qed

lemma produce_response_error_witness:
  "ReadResponse Produce_ReadResponseMessage (good_stream False (WriteInt32 7 @ WriteInt32 (word_of_nat 2) @
      concat (map (enc_topic name_head produce_enc) []) @ name_head [116] () @ WriteInt32 (word_of_nat 1) @
      concat (map (\<lambda>(k, p). produce_enc k p) []) @ produce_enc 0 \<lparr>p_error_code = 6, p_offset = 0\<rparr> @ [1])) ec_default =
    Go ((7, topic_map []), (KafkaErrorCategory, sint (6 :: Int16)), good_stream False [1])"
  by (rule produce_response_error) simp_all

definition broker_enc :: "Broker \<Rightarrow> bytes" where
  "broker_enc b = WriteInt32 (node_id b) @ WriteString (host b) @ WriteInt32 (port b)"

interpretation cbroker: codec broker_enc read_broker "\<lambda>b. length (host b) < 2 ^ 15"
  by unfold_locales (simp add: broker_enc_def read_broker_def wire_simps)

lemma metadata_response_read:
  assumes "length bs < 2 ^ 31" and "\<forall>b\<in>set bs. length (host b) < 2 ^ 15"
    and "fits_topics metadata_fits ts"
  shows "ReadResponse Metadata_ReadResponseMessage (good_stream sk (WriteInt32 c @
      WriteInt32 (word_of_nat (length bs)) @ concat (map broker_enc bs) @
      enc_topics metadata_head_enc metadata_enc ts @ r)) ec_default =
    Go ((c, \<lparr>brokers = bs, md_topics = topic_map ts\<rparr>), ec_default, good_stream sk r)"
proof -
  have "\<not> sint (word_of_nat (length bs) :: Int32) < 0" using assms(1) by (simp add: sint_of_length)
  moreover have "list_all (\<lambda>b. length (host b) < 2 ^ 15) bs" using assms(2) by (simp add: list_all_iff)
  ultimately show ?thesis
    using metadata_reader.read_topics_enc [OF assms(3)] assms(1)
    by (simp add: ReadResponse_def Metadata_ReadResponseMessage_def wire_simps loop_count_of_nat
        cbroker.read_n_enc)
qed

text \<open>The leader of a partition in a metadata response is the broker the response lists
  with the number of the partition's leader; there is none for an unknown partition, an
  undecided leader or a broker that is not listed.\<close>

theorem metadata_leader:
  assumes "length bs < 2 ^ 31" and "\<forall>b\<in>set bs. length (host b) < 2 ^ 15"
    and "fits_topics metadata_fits ts"
  shows "case ReadResponse Metadata_ReadResponseMessage (good_stream sk (WriteInt32 c @
      WriteInt32 (word_of_nat (length bs)) @ concat (map broker_enc bs) @
      enc_topics metadata_head_enc metadata_enc ts @ r)) ec_default of
    Go ((c', resp), ec, is) \<Rightarrow> c' = c \<and> ec = ec_default \<and> is = good_stream sk r \<and>
      PartitionLeader resp n p = (case wire_lookup ts n p of
         None \<Rightarrow> None
       | Some q \<Rightarrow> if leader q = - 1 then None else find (\<lambda>b. node_id b = leader q) bs)
  | _ \<Rightarrow> False"
  unfolding metadata_response_read [OF assms] lookup_topic_map [symmetric]
  by (auto simp: PartitionLeader_def kMetadataLeaderUndecided_def FindBrokerById_def IsBrokerWithId_def [abs_def]
      split: option.splits)

definition demo_brokers :: "Broker list" where
  "demo_brokers = [\<lparr>node_id = 3, host = [97], port = 9092\<rparr>, \<lparr>node_id = 4, host = [98], port = 9093\<rparr>]"

definition demo_metadata :: "(MetadataProperties, Int16) wire_topic list" where
  "demo_metadata = [([116], 0, [(2, \<lparr>md_error_code = 0, leader = 4, replicas = [3, 4], isr = [4]\<rparr>)])]"

lemma metadata_leader_witness:
  "length demo_brokers < 2 ^ 31 \<and>
   PartitionLeader \<lparr>brokers = demo_brokers, md_topics = topic_map demo_metadata\<rparr> [116] 2 =
     Some \<lparr>node_id = 4, host = [98], port = 9093\<rparr>"
proof -
  have 1: "length demo_brokers < 2 ^ 31" and 2: "\<forall>b\<in>set demo_brokers. length (host b) < 2 ^ 15"
    and 3: "fits_topics metadata_fits demo_metadata"
    by (simp_all add: demo_brokers_def demo_metadata_def metadata_fits_def fits_topics_def fits_topic_def)
  from metadata_leader [OF 1 2 3, where sk = True and c = 5 and r = "[]" and n = "[116]" and p = 2]
  show ?thesis
    unfolding metadata_response_read [OF 1 2 3]
    by (simp add: 1) (simp add: demo_brokers_def demo_metadata_def wire_lookup_def)
qed

section \<open>Fetch responses\<close>

lemma for_count_start: "body s = body s' \<Longrightarrow> for_count (Suc n) body s = for_count (Suc n) body s'"
  by simp

text \<open>Once the messages of the first partition are read the error code is success, and the rest
  is read as if it had been from the start.\<close>

lemma fetch_first_topic:
  assumes "f_error_code p = 0 \<and> fetch_fits zl crc p" and "messages p \<noteq> []" and "length n < 2 ^ 15"
    and "length ((k, p) # ps) < 2 ^ 31" and "tc < 2 ^ 31" and "0 < tc"
  shows "read_topics topic_key (Fetch_entry zl) ec_default (good_stream sk (WriteInt32 (word_of_nat tc) @
      enc_topic name_head (fetch_enc crc) (n, (), (k, p) # ps) @ r)) =
    read_topics topic_key (Fetch_entry zl) (make_error_code_client kErrorSuccess)
      (good_stream sk (WriteInt32 (word_of_nat tc) @
        enc_topic name_head (fetch_enc crc) (n, (), (k, p) # ps) @ r))"
proof -
  let ?ok = "make_error_code_client kErrorSuccess"
  have e: "read_partition (Fetch_entry zl) (m, ec_default, good_stream sk (fetch_enc crc k p @ x)) =
      read_partition (Fetch_entry zl) (m, ?ok, good_stream sk (fetch_enc crc k p @ x))" for m x
    by (simp add: read_partition_def fetch_entry_enc [OF assms(1)] assms(2))
  have h: "read_topic topic_key (Fetch_entry zl) (m, ec_default, good_stream sk (enc_topic name_head (fetch_enc crc) (n, (), (k, p) # ps) @ x)) =
      read_topic topic_key (Fetch_entry zl) (m, ?ok, good_stream sk (enc_topic name_head (fetch_enc crc) (n, (), (k, p) # ps) @ x))" for m x
    using assms(3,4) by (simp add: read_topic_def enc_topic_def topic_key_enc wire_simps loop_count_of_nat e del: of_nat_Suc)
  obtain tc' where "tc = Suc tc'" using assms(6) gr0_implies_Suc by blast
  then show ?thesis
    using assms(5) by (simp add: read_topics_def wire_simps loop_count_of_nat h del: of_nat_Suc)
qed

text \<open>C37. A fetch response whose first partition has messages, and in which no partition
  reports an error, is read completely, whatever the sets after the first hold.\<close>

theorem fetch_response_read:
  assumes "ts = (n, (), (k, p) # ps) # ts'" and "messages p \<noteq> []" and "fits_topics (fetch_fits zl crc) ts"
    and "no_errors f_error_code ts"
  shows "ReadResponse (Fetch_ReadResponseMessage zl)
      (good_stream sk (WriteInt32 c @ enc_topics name_head (fetch_enc crc) ts @ r)) ec_default =
    Go ((c, topic_map ts), make_error_code_client kErrorSuccess, good_stream sk r)"
proof -
  note fits = fits_topics_no_errors [OF assms(3,4)]
  then have "f_error_code p = 0 \<and> fetch_fits zl crc p" "length n < 2 ^ 15" "length ((k, p) # ps) < 2 ^ 31" "length ts < 2 ^ 31"
    by (simp_all add: assms(1) fits_topics_def fits_topic_def)
  from fetch_first_topic [OF this(1) assms(2) this(2-4)] fetch_reader.read_topics_enc [OF fits]
  show ?thesis
    by (simp add: ReadResponse_def Fetch_ReadResponseMessage_def wire_simps enc_topics_def assms(1))
qed

text \<open>The first partition with an error ends the reading: the error code is that error's, the
  topics before are kept, the topic of the partition is not, and its message set and what
  follows are left on the stream.\<close>

theorem fetch_response_error:
  assumes "ts = (n, (), (k, p) # ps) # ts'" and "messages p \<noteq> []" and "fits_topics (fetch_fits zl crc) ts"
    and "no_errors f_error_code ts" and "fits_topic (fetch_fits zl crc) (n', (), qs)" and "no_errors f_error_code [(n', (), qs)]"
    and "f_error_code q \<noteq> 0" and "length ts < tc" "tc < 2 ^ 31" "length qs < pc" "pc < 2 ^ 31"
  shows "ReadResponse (Fetch_ReadResponseMessage zl) (good_stream sk (WriteInt32 c @ WriteInt32 (word_of_nat tc) @
      concat (map (enc_topic name_head (fetch_enc crc)) ts) @ name_head n' () @ WriteInt32 (word_of_nat pc) @
      concat (map (\<lambda>(k, p). fetch_enc crc k p) qs) @ fetch_enc crc k' q @ r)) ec_default =
    Go ((c, topic_map ts), (KafkaErrorCategory, sint (f_error_code q)),
      good_stream sk (WriteInt32 (MessageSetWireSize (messages q)) @ WriteMessageSet crc (messages q) @ r))"
proof -
  let ?ok = "make_error_code_client kErrorSuccess"
  let ?rest = "WriteInt32 (MessageSetWireSize (messages q)) @ WriteMessageSet crc (messages q) @ r"
  note fits = fits_topics_no_errors [OF assms(3,4)]
  then have t: "\<forall>t\<in>set ts. fits_topic (\<lambda>p. f_error_code p = 0 \<and> fetch_fits zl crc p) t"
    and 1: "f_error_code p = 0 \<and> fetch_fits zl crc p" "length n < 2 ^ 15" "length ((k, p) # ps) < 2 ^ 31"
    by (simp_all add: assms(1) fits_topics_def fits_topic_def)
  have 2: "length n' < 2 ^ 15" "\<forall>(k, p)\<in>set qs. f_error_code p = 0 \<and> fetch_fits zl crc p"
    using assms(5,6) by (auto simp: fits_topic_def no_errors_def)
  have "Fetch_entry zl ?ok (good_stream sk (fetch_enc crc k' q @ r)) =
      Return ((KafkaErrorCategory, sint (f_error_code q)), good_stream sk ?rest)"
    using assms(7) by (simp add: Fetch_entry_def fetch_enc_def wire_simps kafka_ec_def)
  from fetch_reader.read_topics_error [OF t 2 this assms(8-11)]
    fetch_first_topic [OF 1(1) assms(2) 1(2,3) assms(9)] assms(8)
  show ?thesis
    by (simp add: ReadResponse_def Fetch_ReadResponseMessage_def wire_simps enc_topics_def assms(1))
qed


definition demo_fetch :: "(FetchResponseProperties, unit) wire_topic list" where
  "demo_fetch = [([116], (), [(0, \<lparr>f_error_code = 0, highwater_mark_offset = 9, messages = demo_inner\<rparr>),
     (1, \<lparr>f_error_code = 0, highwater_mark_offset = 2, messages = []\<rparr>)])]"

lemma fetch_response_read_witness:
  "ReadResponse (Fetch_ReadResponseMessage demo_zlib)
     (good_stream True (WriteInt32 5 @ enc_topics name_head (fetch_enc demo_crc) demo_fetch @ [])) ec_default =
   Go ((5, topic_map demo_fetch), make_error_code_client kErrorSuccess, good_stream True [])"
proof (rule fetch_response_read)
  show "demo_fetch = [([116], (), (0, \<lparr>f_error_code = 0, highwater_mark_offset = 9, messages = demo_inner\<rparr>) #
     [(1, \<lparr>f_error_code = 0, highwater_mark_offset = 2, messages = []\<rparr>)])]"
    by (simp add: demo_fetch_def)
  show "messages \<lparr>f_error_code = 0, highwater_mark_offset = 9, messages = demo_inner\<rparr> \<noteq> []"
    by (simp add: demo_inner_def)
  have "msg_ok demo_zlib demo_crc (Message 0 None (Some [7, 8]) [])"
    by (rule msg_plain) (simp_all add: Compression_of_def fits_bytes_def)
  then show "fits_topics (fetch_fits demo_zlib demo_crc) demo_fetch"
    by (simp add: fits_topics_def fits_topic_def demo_fetch_def fetch_fits_def demo_inner_def
        WriteMessage_def Let_def size_simps)
  show "no_errors f_error_code demo_fetch" by (simp add: no_errors_def demo_fetch_def)
qed


end
