(* ===== verification/KIteratorFacts.thy ===== *)
theory KIteratorFacts
  imports KIterators KResponseFacts
begin

text \<open>
  Facts about the iterators: a loop over a message set sees the messages without a nested set
  at any depth, in order, and ends; a loop over a fetch response sees those of every partition
  of every topic in the order of the maps.
\<close>

section \<open>Forward iteration\<close>

text \<open>
  The contract between an iterator and the loop of its client: \<open>rest\<close> are the elements from
  the position of the iterator on.
\<close>

locale forward_iterator =
  fixes at_end :: "'i \<Rightarrow> bool" and deref :: "'i \<Rightarrow> 'a option" and inc :: "'i \<Rightarrow> 'i"
    and valid :: "'i \<Rightarrow> bool" and rest :: "'i \<Rightarrow> 'a list"
  assumes rest_end: "valid it \<Longrightarrow> at_end it \<Longrightarrow> rest it = []"
    and rest_step: "valid it \<Longrightarrow> \<not> at_end it \<Longrightarrow> \<exists>x. deref it = Some x \<and> rest it = x # rest (inc it)"
    and valid_step: "valid it \<Longrightarrow> \<not> at_end it \<Longrightarrow> valid (inc it)"
begin

lemma iterate_rest: "valid it \<Longrightarrow> iterate at_end deref inc it = Some (rest it)"
proof (induction "length (rest it)" arbitrary: it rule: less_induct)
  case less
  show ?case
  proof (cases "at_end it")
    case True
    then show ?thesis using less.prems by (subst iterate.simps) (simp add: rest_end)
  next
    case False
    from rest_step [OF less.prems False] obtain x
      where x: "deref it = Some x" "rest it = x # rest (inc it)" by auto
    then have "iterate at_end deref inc (inc it) = Some (rest (inc it))"
      using less.hyps valid_step [OF less.prems False] by simp
    with x False show ?thesis by (subst iterate.simps) simp
  qed
qed

end

section \<open>Message sets\<close>

fun flatten :: "MessageSet \<Rightarrow> MessageSet" where
  "flatten [] = []"
| "flatten ((Message a k v ns, off) # ms) =
     (if ns = [] then [(Message a k v ns, off)] else flatten ns) @ flatten ms"

lemma flatten_Cons:
  "flatten (x # ms) = (if m_nested (fst x) = [] then [x] else flatten (m_nested (fst x))) @ flatten ms"
proof -
  obtain m off where x: "x = (m, off)" by (cases x)
  show ?thesis by (cases m) (simp add: x)
qed

fun riter_rest :: "RecursiveMessageSetIterator \<Rightarrow> MessageSet" where
  "riter_rest (RIter None i inner) = []"
| "riter_rest (RIter (Some ms) i None) = ms ! i # flatten (drop (Suc i) ms)"
| "riter_rest (RIter (Some ms) i (Some it)) =
     (if IsInnerDone (Some it) then [ms ! i] else riter_rest it) @ flatten (drop (Suc i) ms)"

fun riter_ok :: "RecursiveMessageSetIterator \<Rightarrow> bool" where
  "riter_ok (RIter None i inner) \<longleftrightarrow> True"
| "riter_ok (RIter (Some ms) i None) \<longleftrightarrow> i < length ms \<and> m_nested (fst (ms ! i)) = []"
| "riter_ok (RIter (Some ms) i (Some it)) \<longleftrightarrow> i < length ms \<and>
     (if IsInnerDone (Some it) then m_nested (fst (ms ! i)) = [] else riter_ok it)"

lemma RIter_begin_done [simp]: "message_set (RIter_begin ms) = None \<longleftrightarrow> ms = []"
  by (cases ms rule: RIter_begin.cases) simp_all

lemma RIter_begin_Cons:
  "RIter_begin (x # ms) = RIter (Some (x # ms)) 0
     (if m_nested (fst x) \<noteq> [] then Some (RIter_begin (m_nested (fst x))) else None)"
proof -
  obtain m off where x: "x = (m, off)" by (cases x)
  show ?thesis by (cases m) (simp add: x)
qed

lemma RIter_begin_ok: "riter_ok (RIter_begin ms) \<and> riter_rest (RIter_begin ms) = flatten ms"
  by (induction ms rule: RIter_begin.induct) (simp_all add: IsInnerDone_def)

lemma RIter_advance_ok:
  assumes "i < length ms" and "IsInnerDone inner \<or> (\<exists>it. inner = Some it \<and> riter_ok it)"
  shows "riter_ok (RIter_advance ms i inner) \<and> riter_rest (RIter_advance ms i inner) =
    (if IsInnerDone inner then [] else riter_rest (the inner)) @ flatten (drop (Suc i) ms)"
proof (cases "IsInnerDone inner")
  case False
  with assms show ?thesis by (auto simp: RIter_advance_def)
next
  case True
  show ?thesis
  proof (cases "Suc i = length ms")
    case True
    with \<open>IsInnerDone inner\<close> show ?thesis by (simp add: RIter_advance_def)
  next
    case False
    then have l: "Suc i < length ms" using assms(1) by simp
    then have d: "drop (Suc i) ms = ms ! Suc i # drop (Suc (Suc i)) ms" by (simp add: Cons_nth_drop_Suc)
    show ?thesis
      using True l RIter_begin_ok [of "m_nested (fst (ms ! Suc i))"]
      by (cases inner) (auto simp: RIter_advance_def d flatten_Cons IsInnerDone_def Let_def)
  qed
qed

lemma RIter_step:
  "riter_ok it \<Longrightarrow> \<not> RIter_at_end it \<Longrightarrow>
     riter_ok (RIter_increment it) \<and>
     (\<exists>x. RIter_dereference it = Some x \<and> riter_rest it = x # riter_rest (RIter_increment it))"
proof (induction it rule: RIter_increment.induct)
  case (1 i inner)
  then show ?case by (simp add: RIter_at_end_def)
next
  case (2 ms i)
  then show ?case using RIter_advance_ok [of i ms None] by (simp add: IsInnerDone_def)
next
  case (3 ms i it)
  show ?case
  proof (cases "IsInnerDone (Some it)")
    case True
    with 3 show ?thesis using RIter_advance_ok [of i ms "Some it"] by simp
  next
    case False
    then have "\<not> RIter_at_end it" by (simp add: IsInnerDone_def RIter_at_end_def)
    with False 3 obtain x where x: "riter_ok (RIter_increment it)" "RIter_dereference it = Some x"
        "riter_rest it = x # riter_rest (RIter_increment it)" by auto
    have e: "riter_rest (RIter_increment it) = []" if "IsInnerDone (Some (RIter_increment it))"
      using that by (cases "RIter_increment it") (simp add: IsInnerDone_def)
    show ?thesis
      using False 3(2) x e RIter_advance_ok [of i ms "Some (RIter_increment it)"]
      by (cases "IsInnerDone (Some (RIter_increment it))") auto
  qed
qed

interpretation message_iteration: forward_iterator RIter_at_end RIter_dereference RIter_increment
    riter_ok riter_rest
proof
  fix it assume "riter_ok it" "RIter_at_end it"
  then show "riter_rest it = []" by (cases it) (simp add: RIter_at_end_def)
qed (use RIter_step in blast)+

section \<open>Fetch responses\<close>

definition partition_messages :: "fetch_partitions \<Rightarrow> MessageSet" where
  "partition_messages ps = concat (map (\<lambda>(k, p). flatten (messages p)) ps)"

definition topic_messages :: "fetch_topics \<Rightarrow> MessageSet" where
  "topic_messages ts = concat (map (\<lambda>(n, t). partition_messages (map_partitions t)) ts)"

definition fiter_rest :: "FetchResponseIterator \<Rightarrow> MessageSet" where
  "fiter_rest it = (if FIter_at_end it then []
     else riter_rest (message_iter it) @ partition_messages (tl (topic_partition_iter it)) @
          topic_messages (tl (topic_iter it)))"

definition fiter_ok :: "FetchResponseIterator \<Rightarrow> bool" where
  "fiter_ok it \<longleftrightarrow> FIter_at_end it \<or>
     riter_ok (message_iter it) \<and> \<not> RIter_at_end (message_iter it) \<and>
     topic_partition_iter it \<noteq> [] \<and> topic_iter it \<noteq> []"

lemma messages_simps [simp]:
  "partition_messages [] = []" "partition_messages (p # ps) = flatten (messages (snd p)) @ partition_messages ps"
  "topic_messages [] = []" "topic_messages (t # ts) = partition_messages (map_partitions (snd t)) @ topic_messages ts"
  by (simp_all add: partition_messages_def topic_messages_def case_prod_beta)

lemma FIter_end_simps [simp]: "fiter_ok FIter_end" "fiter_rest FIter_end = []"
  by (simp_all add: fiter_ok_def fiter_rest_def FIter_at_end_def FIter_end_def)

lemma RIter_begin_at_end [simp]: "RIter_at_end (RIter_begin ms) \<longleftrightarrow> ms = []"
  by (simp add: RIter_at_end_def)

lemma first_partition_messages: "partition_messages (first_partition ps) = partition_messages ps"
  by (induction ps rule: first_partition.induct) auto

lemma first_partition_Cons: "first_partition ps = (k, p) # ps' \<Longrightarrow> messages p \<noteq> []"
  by (induction ps rule: first_partition.induct) (auto split: if_splits)

lemma FIter_find_ok: "fiter_ok (FIter_find topics ts) \<and> fiter_rest (FIter_find topics ts) = topic_messages ts"
proof (induction topics ts rule: FIter_find.induct)
  case (2 topics n t ts)
  show ?case
  proof (cases "first_partition (map_partitions t)")
    case Nil
    with 2 first_partition_messages [of "map_partitions t"] show ?thesis by simp
  next
    case (Cons p ps)
    moreover obtain k q where "p = (k, q)" by (cases p)
    ultimately show ?thesis
      using first_partition_messages [of "map_partitions t"] first_partition_Cons [of "map_partitions t" k q ps]
        RIter_begin_ok [of "messages q"]
      by (simp add: fiter_ok_def fiter_rest_def FIter_at_end_def)
  qed
qed simp

lemma seek_partition_messages:
  "case seek_partition ts ps of
     None \<Rightarrow> partition_messages ps @ topic_messages (tl ts) = []
   | Some (ts', ps') \<Rightarrow> ps' \<noteq> [] \<and> (ts \<noteq> [] \<longrightarrow> ts' \<noteq> []) \<and>
       partition_messages ps' @ topic_messages (tl ts') = partition_messages ps @ topic_messages (tl ts)"
  by (induction ts ps rule: seek_partition.induct) (auto split: option.splits)

lemma FIter_settle_ok:
  assumes "riter_ok it" and "ts \<noteq> []" and "ps \<noteq> []"
  shows "fiter_ok (FIter_settle topics ts ps it) \<and> fiter_rest (FIter_settle topics ts ps it) =
     riter_rest it @ partition_messages (tl ps) @ topic_messages (tl ts)"
  using assms
proof (induction topics ts ps it rule: FIter_settle.induct)
  case (1 topics ts p ps it)
  show ?case
  proof (cases "RIter_at_end it")
    case False
    with 1 show ?thesis by (simp add: fiter_ok_def fiter_rest_def FIter_at_end_def)
  next
    case True
    then have r: "riter_rest it = []" by (cases it) (simp add: RIter_at_end_def)
    show ?thesis
    proof (cases "seek_partition ts ps")
      case None
      with True r seek_partition_messages [where ts = ts and ps = ps] show ?thesis by simp
    next
      case (Some x)
      obtain ts' ps' where x: "x = (ts', ps')" by (cases x)
      note s = seek_partition_messages [where ts = ts and ps = ps, unfolded Some x option.case prod.case]
      then obtain q qs where q: "ps' = q # qs" by (cases ps') auto
      have "ts' \<noteq> []" using s 1(3) by simp
      then have "fiter_ok (FIter_settle topics ts' ps' (RIter_begin (messages (snd q)))) \<and>
          fiter_rest (FIter_settle topics ts' ps' (RIter_begin (messages (snd q)))) =
          flatten (messages (snd q)) @ partition_messages qs @ topic_messages (tl ts')"
        using 1(1) [of x ts' ps'] True Some x q RIter_begin_ok [of "messages (snd q)"] by simp
      with s q r True Some x show ?thesis by simp
    qed
  qed
qed simp

interpretation fetch_iteration: forward_iterator FIter_at_end FIter_dereference FIter_increment fiter_ok fiter_rest
proof
  fix it assume it: "fiter_ok it" "\<not> FIter_at_end it"
  then obtain topics where t: "fi_topics it = Some topics" by (auto simp: FIter_at_end_def)
  from it have ok: "riter_ok (message_iter it)" "\<not> RIter_at_end (message_iter it)"
      "topic_partition_iter it \<noteq> []" "topic_iter it \<noteq> []" by (auto simp: fiter_ok_def)
  note st = RIter_step [OF ok(1,2)]
  note se = FIter_settle_ok [OF conjunct1 [OF st] ok(4) ok(3), of topics]
  show "fiter_ok (FIter_increment it)" using se by (simp add: FIter_increment_def t)
  show "\<exists>x. FIter_dereference it = Some x \<and> fiter_rest it = x # fiter_rest (FIter_increment it)"
    using se st it by (auto simp: FIter_increment_def t FIter_dereference_def fiter_rest_def)
qed (simp add: fiter_rest_def)

text \<open>C39. The loop over a message set ends and sees every message without a nested set, at any
  depth of nesting, in the order of the set, and no other message.\<close>

theorem message_iteration_complete:
  "iterate RIter_at_end RIter_dereference RIter_increment (RIter_begin ms) = Some (flatten ms)"
  using message_iteration.iterate_rest RIter_begin_ok [of ms] by simp

text \<open>C40. The loop over a fetch response ends and sees, topic by topic and partition by
  partition in the order of the maps, the messages of every partition; topics and partitions
  without messages are passed over.\<close>

theorem fetch_iteration_complete:
  "iterate FIter_at_end FIter_dereference FIter_increment (FIter_begin topics) =
     Some (concat (map (\<lambda>(n, t). concat (map (\<lambda>(k, p). flatten (messages p)) (map_partitions t))) topics))"
  using fetch_iteration.iterate_rest [of "FIter_begin topics"] FIter_find_ok [of topics topics]
  by (simp add: FIter_begin_def topic_messages_def partition_messages_def)

end
