(* ===== verification/KConnection.thy ===== *)
theory KConnection
  imports KRequests KResponses
begin

text \<open>
  The connection to a broker: \<open>connection_configuration.h\<close>, \<open>detail/connection_service.h\<close> and
  \<open>detail/impl/connection_service.h\<close>.  The functions of \<open>ConnectionServiceImpl\<close> run one after
  the other as handlers of an \<open>io_service\<close>.  Of the \<open>io_service\<close> the model keeps the posted
  handlers and the operations that were started and have not completed; which of them comes
  next, and with what result, is an event.  A user's handler is a number.  \<open>None\<close> is a handler
  that is left by an exception or does not end.  The object lives as long as its handlers.
\<close>

section \<open>Configuration\<close>

record BrokerAddress =
  hostname :: String
  service :: String

record ConnectionConfiguration =
  message_max_bytes :: Int32
  socket_timeout :: nat
  cc_client_id :: String
  auto_connect :: bool
  broker_address :: "BrokerAddress option"

definition ConnectionConfiguration_new :: ConnectionConfiguration where
  "ConnectionConfiguration_new = \<lparr>message_max_bytes = kDefaultMessageMaxBytes,
     socket_timeout = unat kDefaultSocketTimeout, cc_client_id = DefaultClientId,
     auto_connect = DefaultConnectionAutoConnect, broker_address = None\<rparr>"

text \<open>\<open>str.find(c)\<close>, \<open>npos\<close> being \<open>None\<close>.\<close>

fun str_find :: "u8 \<Rightarrow> String \<Rightarrow> nat option" where
  "str_find c [] = None"
| "str_find c (x # xs) = (if x = c then Some 0 else map_option Suc (str_find c xs))"

definition SetBrokerFromString :: "String \<Rightarrow> ConnectionConfiguration \<Rightarrow> ConnectionConfiguration" where
  "SetBrokerFromString str cf =
     (if str = [] then cf\<lparr>broker_address := None\<rparr>
      else let delimiter_position = str_find 58 str;
               broker = (case delimiter_position of
                   Some d \<Rightarrow>
                     if 0 < d \<and> d < length str - 1
                     then \<lparr>hostname = take d str, service = drop (d + 1) str\<rparr>
                     else \<lparr>hostname = take d str, service = DefaultKafkaService\<rparr>
                 | None \<Rightarrow> \<lparr>hostname = str, service = DefaultKafkaService\<rparr>)
           in if hostname broker = [] \<or> service broker = [] then cf
              else cf\<lparr>broker_address := Some broker\<rparr>)"

definition SetBroker :: "String \<Rightarrow> String \<Rightarrow> ConnectionConfiguration \<Rightarrow> ConnectionConfiguration" where
  "SetBroker h sv cf = cf\<lparr>broker_address := Some \<lparr>hostname = h, service = sv\<rparr>\<rparr>"

section \<open>Requests of all types\<close>

datatype AnyRequest =
    RqProduce ProduceRequest | RqFetch FetchRequest | RqOffset OffsetRequest
  | RqOffsetCommit OffsetCommitRequest | RqOffsetFetch OffsetFetchRequest
  | RqMetadata MetadataRequest | RqConsumerMetadata ConsumerMetadataRequest

datatype AnyResponse =
    RsProduce "(ProduceProperties, unit) TopicMap"
  | RsFetch "(FetchResponseProperties, unit) TopicMap"
  | RsOffset "(OffsetResponseProperties, unit) TopicMap"
  | RsOffsetCommit "(Int16, unit) TopicMap"
  | RsOffsetFetch "(OffsetFetchProperties, unit) TopicMap"
  | RsMetadata MetadataResponse
  | RsConsumerMetadata ConsumerMetadataResponse

text \<open>What the service uses of code outside the repository.\<close>

record 'z kenv =
  ke_zlib :: "'z zlib"
  ke_crc :: "bytes \<Rightarrow> u32"
  ke_seekable :: bool

fun Serialize :: "'z kenv \<Rightarrow> ConnectionConfiguration \<Rightarrow> AnyRequest \<Rightarrow> bytes" where
  "Serialize E cf (RqProduce r) = WriteRequest (Produce_class (ke_crc E)) r (cc_client_id cf)"
| "Serialize E cf (RqFetch r) = WriteRequest Fetch_class r (cc_client_id cf)"
| "Serialize E cf (RqOffset r) = WriteRequest Offset_class r (cc_client_id cf)"
| "Serialize E cf (RqOffsetCommit r) = WriteRequest OffsetCommit_class r (cc_client_id cf)"
| "Serialize E cf (RqOffsetFetch r) = WriteRequest OffsetFetch_class r (cc_client_id cf)"
| "Serialize E cf (RqMetadata r) = WriteRequest Metadata_class r (cc_client_id cf)"
| "Serialize E cf (RqConsumerMetadata r) = WriteRequest ConsumerMetadata_class r (cc_client_id cf)"

fun any_ResponseExpected :: "AnyRequest \<Rightarrow> bool" where
  "any_ResponseExpected (RqProduce r) = ResponseExpected (Produce_class (\<lambda>_. 0)) r"
| "any_ResponseExpected (RqFetch r) = ResponseExpected Fetch_class r"
| "any_ResponseExpected (RqOffset r) = ResponseExpected Offset_class r"
| "any_ResponseExpected (RqOffsetCommit r) = ResponseExpected OffsetCommit_class r"
| "any_ResponseExpected (RqOffsetFetch r) = ResponseExpected OffsetFetch_class r"
| "any_ResponseExpected (RqMetadata r) = ResponseExpected Metadata_class r"
| "any_ResponseExpected (RqConsumerMetadata r) = ResponseExpected ConsumerMetadata_class r"

text \<open>\<open>detail::ReadResponse\<close> for the response type of a request, with a new error code.\<close>

fun flow_map :: "('a \<Rightarrow> 'b) \<Rightarrow> ('a, unit) flow \<Rightarrow> 'b option" where
  "flow_map f (Go x) = Some (f x)"
| "flow_map f (Return u) = None"
| "flow_map f Throws = None"
| "flow_map f Diverges = None"

fun any_ReadResponse :: "'z kenv \<Rightarrow> AnyRequest \<Rightarrow> istream \<Rightarrow> (Int32 \<times> AnyResponse \<times> error_code) option" where
  "any_ReadResponse E (RqProduce r) is =
     flow_map (\<lambda>((c, m), ec, _). (c, RsProduce m, ec)) (ReadResponse Produce_ReadResponseMessage is ec_default)"
| "any_ReadResponse E (RqFetch r) is =
     flow_map (\<lambda>((c, m), ec, _). (c, RsFetch m, ec)) (ReadResponse (Fetch_ReadResponseMessage (ke_zlib E)) is ec_default)"
| "any_ReadResponse E (RqOffset r) is =
     flow_map (\<lambda>((c, m), ec, _). (c, RsOffset m, ec)) (ReadResponse Offset_ReadResponseMessage is ec_default)"
| "any_ReadResponse E (RqOffsetCommit r) is =
     flow_map (\<lambda>((c, m), ec, _). (c, RsOffsetCommit m, ec)) (ReadResponse OffsetCommit_ReadResponseMessage is ec_default)"
| "any_ReadResponse E (RqOffsetFetch r) is =
     flow_map (\<lambda>((c, m), ec, _). (c, RsOffsetFetch m, ec)) (ReadResponse OffsetFetch_ReadResponseMessage is ec_default)"
| "any_ReadResponse E (RqMetadata r) is =
     flow_map (\<lambda>((c, m), ec, _). (c, RsMetadata m, ec)) (ReadResponse Metadata_ReadResponseMessage is ec_default)"
| "any_ReadResponse E (RqConsumerMetadata r) is =
     flow_map (\<lambda>((c, m), ec, _). (c, RsConsumerMetadata m, ec)) (ReadResponse ConsumerMetadata_ReadResponseMessage is ec_default)"

section \<open>State\<close>

datatype ConnectionState = kConnectionStateClosed | kConnectionStateConnecting | kConnectionStateConnected
datatype TxState = kTxStateIdle | kTxStateBusy

text \<open>
  The items of the two queues: what \<open>boost::bind\<close> put into their handlers, the request standing
  for its type.
\<close>

record WriteItem =
  w_buffer :: bytes
  w_request :: AnyRequest
  w_handler :: nat
  w_response_expected :: bool

record ReadItem =
  r_request :: AnyRequest
  r_handler :: nat

datatype ConnectionHandler = UserHandler nat | AutoConnectHandler

datatype DeadlineTimer = ConnectDeadline | WriteDeadline | ReadDeadline

text \<open>A timer: whether a wait is pending, and whether its time has come.\<close>

record timer =
  t_waiting :: bool
  t_expired :: bool

text \<open>What is posted to the \<open>io_service\<close>.\<close>

datatype task =
    PEnqueue AnyRequest nat
  | PConnection ConnectionHandler error_code
  | PUser nat error_code "(Int32 \<times> AnyResponse) option"
  | PWritten WriteItem error_code
  | PSizeRead ReadItem error_code
  | PDeadline DeadlineTimer

record ConnectionServiceImpl =
  configuration :: ConnectionConfiguration
  write_queue :: "WriteItem list"
  read_queue :: "ReadItem list"
  connection_state :: ConnectionState
  write_state :: TxState
  read_state :: TxState
  timers :: "DeadlineTimer \<Rightarrow> timer"
  posted :: "task list"
  resolving :: "ConnectionHandler list"
  connecting :: "ConnectionHandler list"
  writing :: "WriteItem list"
  reading_size :: "ReadItem list"
  reading_body :: "(ReadItem \<times> nat) list"
  connects_answered :: "(nat \<times> error_code) list"
  answered :: "(nat \<times> error_code \<times> (Int32 \<times> AnyResponse) option) list"

definition ConnectionServiceImpl_new :: "ConnectionConfiguration \<Rightarrow> ConnectionServiceImpl" where
  "ConnectionServiceImpl_new cf = \<lparr>configuration = cf, write_queue = [], read_queue = [],
     connection_state = kConnectionStateClosed, write_state = kTxStateIdle, read_state = kTxStateIdle,
     timers = (\<lambda>_. \<lparr>t_waiting = False, t_expired = False\<rparr>), posted = [], resolving = [], connecting = [],
     writing = [], reading_size = [], reading_body = [], connects_answered = [], answered = []\<rparr>"

definition post :: "task \<Rightarrow> ConnectionServiceImpl \<Rightarrow> ConnectionServiceImpl" where
  "post t s = s\<lparr>posted := posted s @ [t]\<rparr>"

definition SetDeadline :: "DeadlineTimer \<Rightarrow> ConnectionServiceImpl \<Rightarrow> ConnectionServiceImpl" where
  "SetDeadline d s = s\<lparr>timers := (timers s)(d := \<lparr>t_waiting = True, t_expired = False\<rparr>)\<rparr>"

definition cancel :: "DeadlineTimer \<Rightarrow> ConnectionServiceImpl \<Rightarrow> ConnectionServiceImpl" where
  "cancel d s = s\<lparr>timers := (timers s)(d := (timers s d)\<lparr>t_waiting := False\<rparr>)\<rparr>"

section \<open>Operations\<close>

text \<open>
  \<open>Close\<close>: the operations on the socket and the resolver stay pending until they complete with
  an error.
\<close>

definition Close :: "ConnectionServiceImpl \<Rightarrow> ConnectionServiceImpl" where
  "Close s = cancel ReadDeadline (cancel WriteDeadline (cancel ConnectDeadline
     (s\<lparr>connection_state := kConnectionStateClosed\<rparr>)))"

definition AsyncConnect ::
    "String \<Rightarrow> String \<Rightarrow> ConnectionHandler \<Rightarrow> ConnectionServiceImpl \<Rightarrow> ConnectionServiceImpl" where
  "AsyncConnect h sv handler s =
     (if connection_state s \<noteq> kConnectionStateClosed
      then post (PConnection handler (make_error_code_client kErrorAlreadyConnected)) s
      else SetDeadline ConnectDeadline
             (s\<lparr>resolving := resolving s @ [handler], connection_state := kConnectionStateConnecting\<rparr>))"

definition AsyncConnect_configured :: "ConnectionHandler \<Rightarrow> ConnectionServiceImpl \<Rightarrow> ConnectionServiceImpl" where
  "AsyncConnect_configured handler s =
     (case broker_address (configuration s) of
        None \<Rightarrow> post (PConnection handler (make_error_code_client kErrorNoBroker)) s
      | Some b \<Rightarrow> AsyncConnect (hostname b) (service b) handler s)"

definition AsyncRequest :: "AnyRequest \<Rightarrow> nat \<Rightarrow> ConnectionServiceImpl \<Rightarrow> ConnectionServiceImpl" where
  "AsyncRequest r h s = post (PEnqueue r h) s"

definition SendRequest :: "WriteItem \<Rightarrow> ConnectionServiceImpl \<Rightarrow> ConnectionServiceImpl" where
  "SendRequest item s = SetDeadline WriteDeadline
     (s\<lparr>writing := writing s @ [item], write_state := kTxStateBusy\<rparr>)"

definition ReceiveResponse :: "ReadItem \<Rightarrow> ConnectionServiceImpl \<Rightarrow> ConnectionServiceImpl" where
  "ReceiveResponse item s = SetDeadline ReadDeadline
     (s\<lparr>reading_size := reading_size s @ [item], read_state := kTxStateBusy\<rparr>)"

definition NextRequest :: "ConnectionServiceImpl \<Rightarrow> ConnectionServiceImpl" where
  "NextRequest s =
     (if write_state s = kTxStateBusy \<or> write_queue s = [] then s
      else if connection_state s = kConnectionStateClosed \<and> auto_connect (configuration s)
        then AsyncConnect_configured AutoConnectHandler s
      else if connection_state s = kConnectionStateConnected
        then (SendRequest (hd (write_queue s)) s)\<lparr>write_queue := tl (write_queue s)\<rparr>
      else s)"

definition NextResponse :: "ConnectionServiceImpl \<Rightarrow> ConnectionServiceImpl" where
  "NextResponse s =
     (if read_state s = kTxStateBusy \<or> read_queue s = [] then s
      else (ReceiveResponse (hd (read_queue s)) s)\<lparr>read_queue := tl (read_queue s)\<rparr>)"

definition EnqueueRequest ::
    "'z kenv \<Rightarrow> AnyRequest \<Rightarrow> nat \<Rightarrow> ConnectionServiceImpl \<Rightarrow> ConnectionServiceImpl" where
  "EnqueueRequest E r h s =
     (if connection_state s = kConnectionStateClosed \<and> \<not> auto_connect (configuration s)
      then post (PUser h (make_error_code_client kErrorNotConnected) None) s
      else if connection_state s = kConnectionStateClosed \<and> broker_address (configuration s) = None
      then post (PUser h (make_error_code_client kErrorNoBroker) None) s
      else
        let item = \<lparr>w_buffer = Serialize E (configuration s) r, w_request = r, w_handler = h,
                     w_response_expected = any_ResponseExpected r\<rparr>
        in if write_state s = kTxStateIdle
           then if write_queue s = [] \<and> connection_state s = kConnectionStateConnected
                then SendRequest item s
                else NextRequest (s\<lparr>write_queue := write_queue s @ [item]\<rparr>)
           else s\<lparr>write_queue := write_queue s @ [item]\<rparr>)"

definition EnqueueResponse :: "AnyRequest \<Rightarrow> nat \<Rightarrow> ConnectionServiceImpl \<Rightarrow> ConnectionServiceImpl" where
  "EnqueueResponse r h s =
     (if connection_state s \<noteq> kConnectionStateConnected then
        let s1 = post (PUser h (make_error_code_client kErrorNotConnected) None) s;
            s2 = foldl (\<lambda>s item. post (PSizeRead item (make_error_code_client kErrorNotConnected)) s)
                   s1 (read_queue s1)
        in NextRequest (s2\<lparr>read_queue := []\<rparr>)
      else
        let item = \<lparr>r_request = r, r_handler = h\<rparr>
        in if read_state s = kTxStateIdle
           then if read_queue s = [] then ReceiveResponse item s
                else NextResponse (s\<lparr>read_queue := read_queue s @ [item]\<rparr>)
           else s\<lparr>read_queue := read_queue s @ [item]\<rparr>)"

section \<open>Handlers\<close>

definition HandleAsyncResolve ::
    "error_code \<Rightarrow> ConnectionHandler \<Rightarrow> ConnectionServiceImpl \<Rightarrow> ConnectionServiceImpl" where
  "HandleAsyncResolve error handler s =
     (if ec_failed error then Close (post (PConnection handler error) s)
      else SetDeadline ConnectDeadline (s\<lparr>connecting := connecting s @ [handler]\<rparr>))"

definition HandleAsyncConnect ::
    "error_code \<Rightarrow> ConnectionHandler \<Rightarrow> ConnectionServiceImpl \<Rightarrow> ConnectionServiceImpl" where
  "HandleAsyncConnect error handler s =
     post (PConnection handler error)
       (if ec_failed error then Close s
        else cancel ConnectDeadline (s\<lparr>connection_state := kConnectionStateConnected\<rparr>))"

definition HandleAsyncAutoConnect :: "error_code \<Rightarrow> ConnectionServiceImpl \<Rightarrow> ConnectionServiceImpl" where
  "HandleAsyncAutoConnect error s =
     (if ec_failed error
      then (foldl (\<lambda>s item. post (PWritten item error) s) s (write_queue s))\<lparr>write_queue := []\<rparr>
      else if write_queue s = [] then s
      else (SendRequest (hd (write_queue s)) s)\<lparr>write_queue := tl (write_queue s)\<rparr>)"

definition HandleAsyncRequestWrite :: "error_code \<Rightarrow> WriteItem \<Rightarrow> ConnectionServiceImpl \<Rightarrow> ConnectionServiceImpl" where
  "HandleAsyncRequestWrite error item s =
     (let s1 = cancel WriteDeadline (s\<lparr>write_state := kTxStateIdle\<rparr>)
      in if ec_failed error then Close (post (PUser (w_handler item) error None) s1)
         else if \<not> w_response_expected item
           then NextRequest (post (PUser (w_handler item) error None) s1)
         else EnqueueResponse (w_request item) (w_handler item) s1)"

text \<open>
  A body of negative size makes \<open>prepare\<close> throw \<open>std::length_error\<close>.
\<close>

definition HandleAsyncResponseSizeRead ::
    "'z kenv \<Rightarrow> error_code \<Rightarrow> bytes \<Rightarrow> ReadItem \<Rightarrow> ConnectionServiceImpl \<Rightarrow> ConnectionServiceImpl option" where
  "HandleAsyncResponseSizeRead E error data item s =
     (if ec_failed error then Some (Close (post (PUser (r_handler item) error None) s))
      else let sz = fst (ReadInt32 (good_stream (ke_seekable E) data))
           in if sint (message_max_bytes (configuration s)) \<le> sint sz
              then Some (Close (post (PUser (r_handler item)
                     (make_error_code_kafka kErrorMessageSizeTooLarge) None) s))
              else if sint sz < 0 then None
              else Some (SetDeadline ReadDeadline
                     (s\<lparr>reading_body := reading_body s @ [(item, nat (sint sz))]\<rparr>)))"

definition HandleAsyncResponseRead ::
    "'z kenv \<Rightarrow> error_code \<Rightarrow> bytes \<Rightarrow> ReadItem \<Rightarrow> ConnectionServiceImpl \<Rightarrow> ConnectionServiceImpl option" where
  "HandleAsyncResponseRead E error data item s =
     (if ec_failed error then Some (Close (post (PUser (r_handler item) error None) s))
      else let s1 = cancel ReadDeadline (s\<lparr>read_state := kTxStateIdle\<rparr>)
           in case any_ReadResponse E (r_request item) (good_stream (ke_seekable E) data) of
                None \<Rightarrow> None
              | Some (c, response, ec) \<Rightarrow>
                  Some (NextRequest (post (PUser (r_handler item) ec
                     (if ec_failed ec then None else Some (c, response))) s1)))"

definition HandleDeadline :: "DeadlineTimer \<Rightarrow> ConnectionServiceImpl \<Rightarrow> ConnectionServiceImpl" where
  "HandleDeadline d s =
     (if t_expired (timers s d)
      then Close (s\<lparr>timers := (\<lambda>_. \<lparr>t_waiting = False, t_expired = False\<rparr>)\<rparr>)
      else s)"

section \<open>Events\<close>

text \<open>Removing the \<open>i\<close>-th pending operation or handler.\<close>

definition remove_nth :: "nat \<Rightarrow> 'a list \<Rightarrow> 'a list" where
  "remove_nth i xs = take i xs @ drop (Suc i) xs"

datatype service_event =
    UserClose
  | UserConnect String String nat
  | UserConnectConfigured nat
  | UserRequest AnyRequest nat
  | RunPosted nat
  | Resolved nat error_code
  | Connected nat error_code
  | Written nat error_code
  | SizeRead nat error_code bytes
  | BodyRead nat error_code bytes
  | TimerExpires DeadlineTimer

text \<open>
  An operation can complete with success only with the bytes it asked for
  (\<open>transfer_exactly\<close>).
\<close>

fun conn_enabled :: "service_event \<Rightarrow> ConnectionServiceImpl \<Rightarrow> bool" where
  "conn_enabled (RunPosted i) s \<longleftrightarrow> i < length (posted s)"
| "conn_enabled (Resolved i ec) s \<longleftrightarrow> i < length (resolving s)"
| "conn_enabled (Connected i ec) s \<longleftrightarrow> i < length (connecting s)"
| "conn_enabled (Written i ec) s \<longleftrightarrow> i < length (writing s)"
| "conn_enabled (SizeRead i ec data) s \<longleftrightarrow> i < length (reading_size s) \<and> (ec_failed ec \<or> length data = 4)"
| "conn_enabled (BodyRead i ec data) s \<longleftrightarrow> i < length (reading_body s) \<and>
     (ec_failed ec \<or> length data = snd (reading_body s ! i))"
| "conn_enabled (TimerExpires d) s \<longleftrightarrow> t_waiting (timers s d)"
| "conn_enabled _ s \<longleftrightarrow> True"

fun run_task :: "'z kenv \<Rightarrow> task \<Rightarrow> ConnectionServiceImpl \<Rightarrow> ConnectionServiceImpl option" where
  "run_task E (PEnqueue r h) s = Some (EnqueueRequest E r h s)"
| "run_task E (PConnection AutoConnectHandler ec) s = Some (HandleAsyncAutoConnect ec s)"
| "run_task E (PConnection (UserHandler h) ec) s = Some (s\<lparr>connects_answered := connects_answered s @ [(h, ec)]\<rparr>)"
| "run_task E (PUser h ec resp) s = Some (s\<lparr>answered := answered s @ [(h, ec, resp)]\<rparr>)"
| "run_task E (PWritten item ec) s = Some (HandleAsyncRequestWrite ec item s)"
| "run_task E (PSizeRead item ec) s = HandleAsyncResponseSizeRead E ec [] item s"
| "run_task E (PDeadline d) s = Some (HandleDeadline d s)"

fun conn_handle :: "'z kenv \<Rightarrow> service_event \<Rightarrow> ConnectionServiceImpl \<Rightarrow> ConnectionServiceImpl option" where
  "conn_handle E UserClose s = Some (Close s)"
| "conn_handle E (UserConnect h sv k) s = Some (AsyncConnect h sv (UserHandler k) s)"
| "conn_handle E (UserConnectConfigured k) s = Some (AsyncConnect_configured (UserHandler k) s)"
| "conn_handle E (UserRequest r k) s = Some (AsyncRequest r k s)"
| "conn_handle E (RunPosted i) s = run_task E (posted s ! i) (s\<lparr>posted := remove_nth i (posted s)\<rparr>)"
| "conn_handle E (Resolved i ec) s =
     Some (HandleAsyncResolve ec (resolving s ! i) (s\<lparr>resolving := remove_nth i (resolving s)\<rparr>))"
| "conn_handle E (Connected i ec) s =
     Some (HandleAsyncConnect ec (connecting s ! i) (s\<lparr>connecting := remove_nth i (connecting s)\<rparr>))"
| "conn_handle E (Written i ec) s =
     Some (HandleAsyncRequestWrite ec (writing s ! i) (s\<lparr>writing := remove_nth i (writing s)\<rparr>))"
| "conn_handle E (SizeRead i ec data) s =
     HandleAsyncResponseSizeRead E ec data (reading_size s ! i)
       (s\<lparr>reading_size := remove_nth i (reading_size s)\<rparr>)"
| "conn_handle E (BodyRead i ec data) s =
     HandleAsyncResponseRead E ec data (fst (reading_body s ! i))
       (s\<lparr>reading_body := remove_nth i (reading_body s)\<rparr>)"
| "conn_handle E (TimerExpires d) s =
     Some (post (PDeadline d) (s\<lparr>timers := (timers s)(d := \<lparr>t_waiting = False, t_expired = True\<rparr>)\<rparr>))"

text \<open>A trace of events, each of them possible when it happens.\<close>

inductive conn_trace :: "'z kenv \<Rightarrow> ConnectionServiceImpl \<Rightarrow> service_event list \<Rightarrow> ConnectionServiceImpl \<Rightarrow> bool"
  for E s0 where
  conn_start: "conn_trace E s0 [] s0"
| conn_next: "conn_trace E s0 es s \<Longrightarrow> conn_enabled e s \<Longrightarrow> conn_handle E e s = Some s' \<Longrightarrow>
    conn_trace E s0 (es @ [e]) s'"

inductive_simps conn_trace_Nil: "conn_trace E s0 [] s"
inductive_cases conn_trace_snoc: "conn_trace E s0 (es @ [e]) s"

end
