(* ===== verification/KConnectionFacts.thy ===== *)
theory KConnectionFacts
  imports KConnection KResponseFacts "HOL-Library.Multiset"
begin

text \<open>
  Facts about the connection: no handler of a request is lost or called twice, at most one
  response is read at a time, and three ways in which the connection misbehaves.
\<close>

section \<open>Handlers of requests\<close>

fun task_handlers :: "task \<Rightarrow> nat multiset" where
  "task_handlers (PEnqueue r h) = {#h#}"
| "task_handlers (PConnection c ec) = {#}"
| "task_handlers (PUser h ec resp) = {#h#}"
| "task_handlers (PWritten item ec) = {#w_handler item#}"
| "task_handlers (PSizeRead item ec) = {#r_handler item#}"
| "task_handlers (PDeadline d) = {#}"

text \<open>The handlers in every place a request can be, the handlers already called included.\<close>

definition handlers :: "ConnectionServiceImpl \<Rightarrow> nat multiset" where
  "handlers s = sum_list (map task_handlers (posted s)) +
     mset (map w_handler (write_queue s)) + mset (map w_handler (writing s)) +
     mset (map r_handler (read_queue s)) + mset (map r_handler (reading_size s)) +
     mset (map (r_handler \<circ> fst) (reading_body s)) + mset (map fst (answered s))"

lemma mset_remove_nth: "i < length xs \<Longrightarrow> mset xs = add_mset (xs ! i) (mset (remove_nth i xs))"
  by (subst id_take_nth_drop [of i xs]) (simp_all add: remove_nth_def)

lemma sum_list_remove_nth:
  fixes f :: "'a \<Rightarrow> 'b multiset"
  shows "i < length xs \<Longrightarrow> sum_list (map f xs) = f (xs ! i) + sum_list (map f (remove_nth i xs))"
  by (subst id_take_nth_drop [of i xs]) (simp_all add: remove_nth_def)

lemma foldl_post: "foldl (\<lambda>s x. post (f x) s) s xs = s\<lparr>posted := posted s @ map f xs\<rparr>"
  by (induction xs arbitrary: s) (simp_all add: post_def)

lemma sum_list_task_handlers [simp]:
  "sum_list (map (task_handlers \<circ> (\<lambda>x. PWritten x ec)) ws) = mset (map w_handler ws)"
  "sum_list (map (task_handlers \<circ> (\<lambda>x. PSizeRead x ec)) rs) = mset (map r_handler rs)"
  "sum_list (map (\<lambda>x. {#w_handler x#}) ws) = mset (map w_handler ws)"
  "sum_list (map (\<lambda>x. {#r_handler x#}) rs) = mset (map r_handler rs)"
proof -
  show "sum_list (map (task_handlers \<circ> (\<lambda>x. PWritten x ec)) ws) = mset (map w_handler ws)"
    and "sum_list (map (\<lambda>x. {#w_handler x#}) ws) = mset (map w_handler ws)"
    by (induction ws) simp_all
  show "sum_list (map (task_handlers \<circ> (\<lambda>x. PSizeRead x ec)) rs) = mset (map r_handler rs)"
    and "sum_list (map (\<lambda>x. {#r_handler x#}) rs) = mset (map r_handler rs)"
    by (induction rs) simp_all
qed

lemma handlers_basic [simp]:
  "handlers (post t s) = handlers s + task_handlers t"
  "handlers (SetDeadline d s) = handlers s"
  "handlers (cancel d s) = handlers s"
  "handlers (s\<lparr>connection_state := cst\<rparr>) = handlers s"
  "handlers (s\<lparr>write_state := ws\<rparr>) = handlers s"
  "handlers (s\<lparr>read_state := rs\<rparr>) = handlers s"
  "handlers (s\<lparr>timers := tm\<rparr>) = handlers s"
  "handlers (s\<lparr>resolving := res\<rparr>) = handlers s"
  "handlers (s\<lparr>connecting := con\<rparr>) = handlers s"
  "handlers (s\<lparr>connects_answered := ca\<rparr>) = handlers s"
  by (simp_all add: handlers_def post_def SetDeadline_def cancel_def)

lemma handlers_Close [simp]: "handlers (Close s) = handlers s"
  by (simp add: Close_def)

lemma handlers_AsyncConnect [simp]:
  "handlers (AsyncConnect h sv c s) = handlers s"
  "handlers (AsyncConnect_configured c s) = handlers s"
  by (simp_all add: AsyncConnect_def AsyncConnect_configured_def split: option.splits)

lemma handlers_SendRequest [simp]: "handlers (SendRequest item s) = add_mset (w_handler item) (handlers s)"
  by (simp add: SendRequest_def) (simp add: handlers_def)

lemma handlers_ReceiveResponse [simp]: "handlers (ReceiveResponse item s) = add_mset (r_handler item) (handlers s)"
  by (simp add: ReceiveResponse_def) (simp add: handlers_def)

lemma handlers_write_queue:
  "handlers (s\<lparr>write_queue := q\<rparr>) + mset (map w_handler (write_queue s)) = handlers s + mset (map w_handler q)"
  by (simp add: handlers_def)

lemma handlers_read_queue:
  "handlers (s\<lparr>read_queue := q\<rparr>) + mset (map r_handler (read_queue s)) = handlers s + mset (map r_handler q)"
  by (simp add: handlers_def)

lemma write_queue_SendRequest [simp]: "write_queue (SendRequest w s) = write_queue s"
  and read_queue_ReceiveResponse [simp]: "read_queue (ReceiveResponse r s) = read_queue s"
  by (simp_all add: SendRequest_def ReceiveResponse_def SetDeadline_def)

lemma handlers_send_front:
  "write_queue s \<noteq> [] \<Longrightarrow> handlers ((SendRequest (hd (write_queue s)) s)\<lparr>write_queue := tl (write_queue s)\<rparr>) = handlers s"
  using handlers_write_queue [where s = "SendRequest (hd (write_queue s)) s" and q = "tl (write_queue s)"]
  by (cases "write_queue s") simp_all

lemma handlers_NextRequest [simp]: "handlers (NextRequest s) = handlers s"
  by (simp add: NextRequest_def handlers_send_front)

lemma handlers_NextResponse [simp]: "handlers (NextResponse s) = handlers s"
  using handlers_read_queue [where s = "ReceiveResponse (hd (read_queue s)) s" and q = "tl (read_queue s)"]
  by (cases "read_queue s") (simp_all add: NextResponse_def)

lemma handlers_EnqueueRequest [simp]: "handlers (EnqueueRequest E r h s) = add_mset h (handlers s)"
  using handlers_write_queue [where s = s and q = "write_queue s @ [item]" for item]
  by (simp add: EnqueueRequest_def Let_def)

lemma handlers_flush:
  "handlers ((foldl (\<lambda>s item. post (PSizeRead item ec) s) s (read_queue s))\<lparr>read_queue := []\<rparr>) = handlers s"
  "handlers ((foldl (\<lambda>s item. post (PWritten item ec) s) s (write_queue s))\<lparr>write_queue := []\<rparr>) = handlers s"
  by (simp_all add: foldl_post) (simp_all add: handlers_def)

lemma handlers_EnqueueResponse [simp]: "handlers (EnqueueResponse r h s) = add_mset h (handlers s)"
  using handlers_read_queue [where s = s and q = "read_queue s @ [item]" for item]
  by (simp add: EnqueueResponse_def Let_def handlers_flush)

lemma handlers_connect_handlers [simp]:
  "handlers (HandleAsyncResolve ec c s) = handlers s"
  "handlers (HandleAsyncConnect ec c s) = handlers s"
  "handlers (HandleAsyncAutoConnect ec s) = handlers s"
  by (simp_all add: HandleAsyncResolve_def HandleAsyncConnect_def HandleAsyncAutoConnect_def
      handlers_flush handlers_send_front)

lemma handlers_HandleAsyncRequestWrite [simp]:
  "handlers (HandleAsyncRequestWrite ec item s) = add_mset (w_handler item) (handlers s)"
  by (simp add: HandleAsyncRequestWrite_def Let_def)

lemma handlers_HandleDeadline [simp]: "handlers (HandleDeadline d s) = handlers s"
  by (simp add: HandleDeadline_def)

lemma handlers_HandleAsyncResponseSizeRead:
  "HandleAsyncResponseSizeRead E ec data item s = Some s' \<Longrightarrow> handlers s' = add_mset (r_handler item) (handlers s)"
  by (auto simp: HandleAsyncResponseSizeRead_def Let_def split: if_splits) (simp add: handlers_def)

lemma handlers_HandleAsyncResponseRead:
  "HandleAsyncResponseRead E ec data item s = Some s' \<Longrightarrow> handlers s' = add_mset (r_handler item) (handlers s)"
  by (auto simp: HandleAsyncResponseRead_def Let_def split: if_splits option.splits)

lemma handlers_run_task:
  "run_task E t s = Some s' \<Longrightarrow> handlers s' = handlers s + task_handlers t"
proof (induction E t s rule: run_task.induct)
  case (4 E h ec resp s)
  then show ?case by (auto simp: handlers_def)
qed (auto dest: handlers_HandleAsyncResponseSizeRead)

fun issued :: "service_event \<Rightarrow> nat multiset" where
  "issued (UserRequest r h) = {#h#}"
| "issued _ = {#}"

lemma handlers_remove:
  "i < length (posted s) \<Longrightarrow> handlers s = task_handlers (posted s ! i) + handlers (s\<lparr>posted := remove_nth i (posted s)\<rparr>)"
  "i < length (writing s) \<Longrightarrow> handlers s = add_mset (w_handler (writing s ! i)) (handlers (s\<lparr>writing := remove_nth i (writing s)\<rparr>))"
  "i < length (reading_size s) \<Longrightarrow> handlers s = add_mset (r_handler (reading_size s ! i)) (handlers (s\<lparr>reading_size := remove_nth i (reading_size s)\<rparr>))"
  "i < length (reading_body s) \<Longrightarrow> handlers s = add_mset (r_handler (fst (reading_body s ! i))) (handlers (s\<lparr>reading_body := remove_nth i (reading_body s)\<rparr>))"
  by (simp_all add: handlers_def mset_remove_nth [of i "writing s"] mset_remove_nth [of i "reading_size s"]
      mset_remove_nth [of i "reading_body s"] sum_list_remove_nth [of i "posted s"])

lemma handlers_handle:
  "conn_enabled e s \<Longrightarrow> conn_handle E e s = Some s' \<Longrightarrow> handlers s' = handlers s + issued e"
  by (induction e s rule: conn_enabled.induct)
     (auto simp: AsyncRequest_def handlers_remove dest!: handlers_run_task
       handlers_HandleAsyncResponseSizeRead handlers_HandleAsyncResponseRead)

text \<open>C34. In every run of the connection, whatever is connected, closed, written, read, timed out
  or in error, and in whatever order, the handlers of the requests issued so far are exactly
  those waiting somewhere in the connection and those already called: no handler is lost and
  none is called twice.\<close>

theorem handlers_conserved:
  "conn_trace E (ConnectionServiceImpl_new cf) es s \<Longrightarrow> handlers s = sum_list (map issued es)"
proof (induction rule: conn_trace.induct)
  case conn_start
  show ?case by (simp add: handlers_def ConnectionServiceImpl_new_def)
next
  case (conn_next es s e s')
  then show ?case using handlers_handle [OF conn_next.hyps(2,3)] by simp
qed

section \<open>Reading one response at a time\<close>

text \<open>While the reading side is idle nothing is being read, and there is never more than one read.\<close>

definition one_read :: "ConnectionServiceImpl \<Rightarrow> bool" where
  "one_read s \<longleftrightarrow> length (reading_size s) + length (reading_body s) \<le> (if read_state s = kTxStateIdle then 0 else 1) \<and>
     (\<forall>item ec. PSizeRead item ec \<in> set (posted s) \<longrightarrow> ec_failed ec)"

lemma one_read_posts [simp]:
  "one_read (post (PEnqueue r h) s) = one_read s"
  "one_read (post (PConnection c ec) s) = one_read s"
  "one_read (post (PUser h ec resp) s) = one_read s"
  "one_read (post (PWritten w ec) s) = one_read s"
  "one_read (post (PDeadline d) s) = one_read s"
  by (auto simp: one_read_def post_def)

lemma one_read_other [simp]:
  "one_read (SetDeadline d s) = one_read s"
  "one_read (cancel d s) = one_read s"
  "one_read (s\<lparr>connection_state := cst\<rparr>) = one_read s"
  "one_read (s\<lparr>write_state := ws\<rparr>) = one_read s"
  "one_read (s\<lparr>write_queue := wq\<rparr>) = one_read s"
  "one_read (s\<lparr>read_queue := rq\<rparr>) = one_read s"
  "one_read (s\<lparr>writing := w\<rparr>) = one_read s"
  "one_read (s\<lparr>timers := tm\<rparr>) = one_read s"
  "one_read (s\<lparr>resolving := res\<rparr>) = one_read s"
  "one_read (s\<lparr>connecting := con\<rparr>) = one_read s"
  "one_read (s\<lparr>connects_answered := ca\<rparr>) = one_read s"
  "one_read (s\<lparr>answered := an\<rparr>) = one_read s"
  by (simp_all add: one_read_def SetDeadline_def cancel_def)

lemma one_read_sending [simp]:
  "one_read s \<Longrightarrow> one_read (Close s)"
  "one_read (SendRequest w s) = one_read s"
  "one_read s \<Longrightarrow> one_read (AsyncConnect h sv c s)"
  "one_read s \<Longrightarrow> one_read (AsyncConnect_configured c s)"
  by (simp_all add: Close_def SendRequest_def AsyncConnect_def AsyncConnect_configured_def split: option.splits)

lemma one_read_NextRequest [simp]: "one_read s \<Longrightarrow> one_read (NextRequest s)"
  by (simp add: NextRequest_def)

lemma one_read_ReceiveResponse: "one_read s \<Longrightarrow> read_state s = kTxStateIdle \<Longrightarrow> one_read (ReceiveResponse r s)"
  by (simp add: ReceiveResponse_def) (simp add: one_read_def)

lemma one_read_NextResponse [simp]: "one_read s \<Longrightarrow> one_read (NextResponse s)"
  by (cases "read_state s") (auto simp: NextResponse_def one_read_ReceiveResponse)

lemma one_read_EnqueueRequest [simp]: "one_read s \<Longrightarrow> one_read (EnqueueRequest E r h s)"
  by (simp add: EnqueueRequest_def Let_def)

lemma one_read_foldl:
  "one_read s \<Longrightarrow> ec_failed ec \<Longrightarrow> one_read (foldl (\<lambda>s item. post (PSizeRead item ec) s) s rs)"
  "one_read s \<Longrightarrow> one_read (foldl (\<lambda>s item. post (PWritten item ec) s) s ws)"
  by (auto simp: foldl_post one_read_def)

lemma one_read_EnqueueResponse [simp]: "one_read s \<Longrightarrow> one_read (EnqueueResponse r h s)"
  by (simp add: EnqueueResponse_def Let_def one_read_foldl one_read_ReceiveResponse)

lemma one_read_write_handlers [simp]:
  "one_read s \<Longrightarrow> one_read (HandleAsyncResolve ec c s)"
  "one_read s \<Longrightarrow> one_read (HandleAsyncConnect ec c s)"
  "one_read s \<Longrightarrow> one_read (HandleAsyncAutoConnect ec s)"
  "one_read s \<Longrightarrow> one_read (HandleAsyncRequestWrite ec item s)"
  "one_read s \<Longrightarrow> one_read (HandleDeadline d s)"
  by (simp_all add: HandleAsyncResolve_def HandleAsyncConnect_def HandleAsyncAutoConnect_def
      HandleAsyncRequestWrite_def HandleDeadline_def Let_def one_read_foldl)

text \<open>The two handlers of a read run with one read less than the state that started them.\<close>

definition read_taken :: "ConnectionServiceImpl \<Rightarrow> bool" where
  "read_taken s \<longleftrightarrow> reading_size s = [] \<and> reading_body s = [] \<and> read_state s = kTxStateBusy \<and>
     (\<forall>item ec. PSizeRead item ec \<in> set (posted s) \<longrightarrow> ec_failed ec)"

lemma read_taken_one_read: "read_taken s \<Longrightarrow> one_read s"
  by (simp add: read_taken_def one_read_def)

lemma one_read_HandleAsyncResponseSizeRead:
  assumes "HandleAsyncResponseSizeRead E ec data item s = Some s'" and "read_taken s \<or> ec_failed ec \<and> one_read s"
  shows "one_read s'"
proof (cases "ec_failed ec")
  case True
  with assms show ?thesis
    by (auto simp: HandleAsyncResponseSizeRead_def dest: read_taken_one_read)
next
  case False
  then have t: "read_taken s" using assms(2) by simp
  then have "one_read (s\<lparr>reading_body := reading_body s @ [(item, n)]\<rparr>)" for n
    by (simp add: read_taken_def one_read_def)
  with False assms(1) read_taken_one_read [OF t] show ?thesis
    by (auto simp: HandleAsyncResponseSizeRead_def Let_def split: if_splits)
qed

lemma one_read_HandleAsyncResponseRead:
  assumes "HandleAsyncResponseRead E ec data item s = Some s'" and "read_taken s"
  shows "one_read s'"
proof -
  have "one_read (s\<lparr>read_state := kTxStateIdle\<rparr>)" using assms(2) by (simp add: read_taken_def one_read_def)
  with assms(1) read_taken_one_read [OF assms(2)] show ?thesis
    by (auto simp: HandleAsyncResponseRead_def Let_def split: if_splits option.splits)
qed

lemma set_remove_nth: "set (remove_nth i xs) \<subseteq> set xs"
  by (auto simp: remove_nth_def dest: in_set_takeD in_set_dropD)

lemma one_read_remove_posted [simp]: "one_read s \<Longrightarrow> one_read (s\<lparr>posted := remove_nth i (posted s)\<rparr>)"
  using set_remove_nth [of i "posted s"] by (auto simp: one_read_def)

lemma remove_nth_single: "i < length xs \<Longrightarrow> length xs \<le> 1 \<Longrightarrow> remove_nth i xs = []"
  by (simp add: remove_nth_def)

lemma one_read_busy:
  assumes "one_read s" and "reading_size s \<noteq> [] \<or> reading_body s \<noteq> []"
  shows "read_state s = kTxStateBusy" and "length (reading_size s) + length (reading_body s) = 1"
  using assms by (cases "read_state s"; auto simp: one_read_def Suc_le_eq le_Suc_eq)+

lemma read_taken_size:
  assumes "one_read s" and "i < length (reading_size s)"
  shows "read_taken (s\<lparr>reading_size := remove_nth i (reading_size s)\<rparr>)"
proof -
  have "reading_size s \<noteq> []" using assms(2) by auto
  note b = one_read_busy [OF assms(1) disjI1 [OF this]]
  then have "remove_nth i (reading_size s) = []" and "reading_body s = []"
    using assms(2) by (cases "reading_size s"; auto intro: remove_nth_single)+
  with b(1) assms(1) show ?thesis by (simp add: read_taken_def one_read_def)
qed

lemma read_taken_body:
  assumes "one_read s" and "i < length (reading_body s)"
  shows "read_taken (s\<lparr>reading_body := remove_nth i (reading_body s)\<rparr>)"
proof -
  have "reading_body s \<noteq> []" using assms(2) by auto
  note b = one_read_busy [OF assms(1) disjI2 [OF this]]
  then have "remove_nth i (reading_body s) = []" and "reading_size s = []"
    using assms(2) by (cases "reading_body s"; auto intro: remove_nth_single)+
  with b(1) assms(1) show ?thesis by (simp add: read_taken_def one_read_def)
qed

lemmas read_taken_remove = read_taken_size read_taken_body

lemma one_read_run_task:
  "run_task E t s = Some s' \<Longrightarrow> one_read s \<Longrightarrow> (\<And>item ec. t = PSizeRead item ec \<Longrightarrow> ec_failed ec) \<Longrightarrow> one_read s'"
  by (induction E t s rule: run_task.induct)
     (auto dest: one_read_HandleAsyncResponseSizeRead)

lemma one_read_handle:
  assumes "one_read s" and "conn_enabled e s" and "conn_handle E e s = Some s'"
  shows "one_read s'"
proof (cases e)
  case (RunPosted i)
  with assms have "posted s ! i \<in> set (posted s)" by simp
  with assms(1) have "\<And>item ec. posted s ! i = PSizeRead item ec \<Longrightarrow> ec_failed ec"
    by (metis one_read_def)
  with RunPosted assms show ?thesis
    using one_read_run_task [of E "posted s ! i" "s\<lparr>posted := remove_nth i (posted s)\<rparr>" s'] by simp
next
  case (SizeRead i ec data)
  with assms show ?thesis
    by (auto dest: one_read_HandleAsyncResponseSizeRead intro: read_taken_remove)
next
  case (BodyRead i ec data)
  with assms show ?thesis
    by (auto dest: one_read_HandleAsyncResponseRead intro: read_taken_remove)
qed (use assms in \<open>auto simp: AsyncRequest_def\<close>)

lemma one_read_trace: "conn_trace E (ConnectionServiceImpl_new cf) es s \<Longrightarrow> one_read s"
proof (induction rule: conn_trace.induct)
  case conn_start
  show ?case by (simp add: one_read_def ConnectionServiceImpl_new_def)
next
  case (conn_next es s e s')
  then show ?case by (blast intro: one_read_handle)
qed

text \<open>In every run at most one response is being read, size or body, and none while the
  reading side is idle; the responses of the other written requests wait in the read queue.\<close>

theorem reads_one_at_a_time:
  "conn_trace E (ConnectionServiceImpl_new cf) es s \<Longrightarrow>
     length (reading_size s) + length (reading_body s) \<le> 1 \<and>
     (read_state s = kTxStateIdle \<longrightarrow> reading_size s = [] \<and> reading_body s = [])"
proof -
  assume "conn_trace E (ConnectionServiceImpl_new cf) es s"
  then have "one_read s" by (rule one_read_trace)
  then show ?thesis by (auto simp: one_read_def split: if_splits)
qed

section \<open>A response is delivered\<close>

text \<open>A call of a user's handler that has happened or is posted.\<close>

definition called :: "nat \<times> error_code \<times> (Int32 \<times> AnyResponse) option \<Rightarrow> ConnectionServiceImpl \<Rightarrow> bool" where
  "called u s \<longleftrightarrow> u \<in> set (answered s) \<or> (case u of (h, ec, resp) \<Rightarrow> PUser h ec resp \<in> set (posted s))"

lemma called_basic [simp]:
  "called u s \<Longrightarrow> called u (post t s)"
  "called u (SetDeadline d s) = called u s"
  "called u (cancel d s) = called u s"
  "called u (s\<lparr>connection_state := cst\<rparr>) = called u s"
  "called u (s\<lparr>write_state := wst\<rparr>) = called u s"
  "called u (s\<lparr>read_state := rst\<rparr>) = called u s"
  "called u (s\<lparr>write_queue := wq\<rparr>) = called u s"
  "called u (s\<lparr>read_queue := rq\<rparr>) = called u s"
  "called u (s\<lparr>writing := w\<rparr>) = called u s"
  "called u (s\<lparr>reading_size := rs\<rparr>) = called u s"
  "called u (s\<lparr>reading_body := rb\<rparr>) = called u s"
  "called u (s\<lparr>timers := tm\<rparr>) = called u s"
  "called u (s\<lparr>resolving := res\<rparr>) = called u s"
  "called u (s\<lparr>connecting := con\<rparr>) = called u s"
  "called u (s\<lparr>connects_answered := ca\<rparr>) = called u s"
  by (auto simp: called_def post_def SetDeadline_def cancel_def)

lemma called_answer: "called u s \<Longrightarrow> called u (s\<lparr>answered := answered s @ an\<rparr>)"
  by (auto simp: called_def)

lemma called_foldl: "called u s \<Longrightarrow> called u (foldl (\<lambda>s item. post (f item) s) s xs)"
  by (induction xs arbitrary: s) simp_all

lemma called_operations [simp]:
  "called u s \<Longrightarrow> called u (Close s)"
  "called u s \<Longrightarrow> called u (AsyncConnect h sv c s)"
  "called u s \<Longrightarrow> called u (AsyncConnect_configured c s)"
  "called u s \<Longrightarrow> called u (SendRequest w s)"
  "called u s \<Longrightarrow> called u (ReceiveResponse r s)"
  by (simp_all add: Close_def AsyncConnect_def AsyncConnect_configured_def SendRequest_def
      ReceiveResponse_def split: option.splits)

lemma called_queues [simp]:
  "called u s \<Longrightarrow> called u (NextRequest s)"
  "called u s \<Longrightarrow> called u (NextResponse s)"
  by (simp_all add: NextRequest_def NextResponse_def)

lemma called_handlers [simp]:
  "called u s \<Longrightarrow> called u (EnqueueRequest E r h s)"
  "called u s \<Longrightarrow> called u (EnqueueResponse r h s)"
  "called u s \<Longrightarrow> called u (HandleAsyncResolve ec c s)"
  "called u s \<Longrightarrow> called u (HandleAsyncConnect ec c s)"
  "called u s \<Longrightarrow> called u (HandleAsyncAutoConnect ec s)"
  "called u s \<Longrightarrow> called u (HandleDeadline d s)"
  by (simp_all add: EnqueueRequest_def EnqueueResponse_def HandleAsyncResolve_def HandleAsyncConnect_def
      HandleAsyncAutoConnect_def HandleDeadline_def Let_def called_foldl)

lemma called_write [simp]: "called u s \<Longrightarrow> called u (HandleAsyncRequestWrite ec item s)"
  by (simp add: HandleAsyncRequestWrite_def Let_def)

lemma called_read:
  "HandleAsyncResponseSizeRead E ec data item s = Some s' \<Longrightarrow> called u s \<Longrightarrow> called u s'"
  "HandleAsyncResponseRead E ec data item s = Some s' \<Longrightarrow> called u s \<Longrightarrow> called u s'"
  by (auto simp: HandleAsyncResponseSizeRead_def HandleAsyncResponseRead_def Let_def
      split: if_splits option.splits)

lemma in_remove_nth: "x \<in> set xs \<Longrightarrow> i < length xs \<Longrightarrow> x = xs ! i \<or> x \<in> set (remove_nth i xs)"
  using arg_cong [OF mset_remove_nth [of i xs], of set_mset] by auto

lemma called_run_task:
  assumes "run_task E t s = Some s'" and "called u s \<or> (\<exists>h ec resp. u = (h, ec, resp) \<and> t = PUser h ec resp)"
  shows "called u s'"
  using assms
  by (induction E t s rule: run_task.induct) (auto simp: called_answer dest: called_read, auto simp: called_def)

lemma called_handle:
  assumes "called u s" and "conn_enabled e s" and "conn_handle E e s = Some s'"
  shows "called u s'"
proof (cases e)
  case (RunPosted i)
  let ?s = "s\<lparr>posted := remove_nth i (posted s)\<rparr>"
  have "called u ?s \<or> (\<exists>h ec resp. u = (h, ec, resp) \<and> posted s ! i = PUser h ec resp)"
    using assms(1,2) RunPosted by (cases u) (auto simp: called_def dest: in_remove_nth [of _ "posted s" i])
  with RunPosted assms(3) show ?thesis by (auto intro: called_run_task [of E "posted s ! i" ?s])
next
  case (SizeRead i ec data)
  with assms show ?thesis by (auto intro: called_read)
next
  case (BodyRead i ec data)
  with assms show ?thesis by (auto intro: called_read)
qed (use assms in \<open>auto simp: AsyncRequest_def\<close>)

lemma called_trace: "conn_trace E s es s' \<Longrightarrow> called u s \<Longrightarrow> called u s'"
  by (induction rule: conn_trace.induct) (blast intro: called_handle)+

lemma conn_trace_append:
  assumes "conn_trace E s0 es s" and "conn_trace E s es' s'"
  shows "conn_trace E s0 (es @ es') s'"
  using assms(2)
proof (induction rule: conn_trace.induct)
  case (conn_next es' t e t')
  then show ?case using conn_trace.conn_next [of E s0 "es @ es'" t e t'] by simp
qed (simp add: assms(1))

text \<open>A call that is posted happens when the \<open>io_service\<close> runs it.\<close>

lemma called_runs:
  assumes "called u s"
  obtains es t where "length es \<le> 1" and "conn_trace E s es t" and "u \<in> set (answered t)"
proof (cases "u \<in> set (answered s)")
  case True
  with that [of "[]" s] show ?thesis by (simp add: conn_start)
next
  case False
  obtain h ec resp where u: "u = (h, ec, resp)" by (cases u)
  with assms False obtain i where i: "i < length (posted s)" "posted s ! i = PUser h ec resp"
    by (auto simp: called_def in_set_conv_nth)
  let ?t = "s\<lparr>posted := remove_nth i (posted s), answered := answered s @ [u]\<rparr>"
  have "conn_trace E s ([] @ [RunPosted i]) ?t"
    by (rule conn_trace.conn_next [OF conn_start]) (use i u in simp_all)
  with that [of "[RunPosted i]" ?t] show ?thesis by simp
qed

lemma read_state_NextRequest [simp]: "read_state (NextRequest s) = read_state s"
  by (simp add: NextRequest_def AsyncConnect_configured_def AsyncConnect_def SendRequest_def SetDeadline_def
      post_def split: option.splits)

text \<open>C35. In every run of the connection: when the body of the response to a produce request
  arrives, in which no partition reports an error, the call of the request's handler with the
  correlation id and the topics of the response, and without an error, is posted; however the
  run goes on, that call is never lost: it has happened, or happens by running one handler that
  is posted.  The reading side is idle after the body, and the topics are what the broker wrote
  for every topic and partition.  (Whether the body is ever read is another matter: see the
  stalled response below.)\<close>

theorem produce_response_delivered:
  assumes "conn_trace E (ConnectionServiceImpl_new cf) es s"
    and "i < length (reading_body s)" and "reading_body s ! i = (\<lparr>r_request = RqProduce rq, r_handler = h\<rparr>, n)"
    and "fits_topics produce_no_error ts" and "n = length (WriteInt32 c @ enc_topics name_head produce_enc ts)"
    and "e = BodyRead i ec_default (WriteInt32 c @ enc_topics name_head produce_enc ts)"
  shows "\<exists>s'. conn_trace E (ConnectionServiceImpl_new cf) (es @ [e]) s' \<and> read_state s' = kTxStateIdle \<and>
     (\<forall>es' t. conn_trace E s' es' t \<longrightarrow>
        (\<exists>es'' t'. length es'' \<le> 1 \<and> conn_trace E (ConnectionServiceImpl_new cf) (es @ [e] @ es' @ es'') t' \<and>
           (h, ec_default, Some (c, RsProduce (topic_map ts))) \<in> set (answered t'))) \<and>
     (\<forall>m p. Produce_FindTopicPartition (topic_map ts) m p = wire_lookup ts m p)"
proof -
  let ?u = "(h, ec_default, Some (c, RsProduce (topic_map ts)))"
  note read = produce_response_read [OF assms(4), where sk = "ke_seekable E" and c = c and r = "[]"]
  have "conn_enabled e s" using assms(2,3,5,6) by simp
  moreover obtain s' where s': "conn_handle E e s = Some s'" "read_state s' = kTxStateIdle" "called ?u s'"
  proof -
    let ?s = "cancel ReadDeadline (s\<lparr>reading_body := remove_nth i (reading_body s), read_state := kTxStateIdle\<rparr>)"
    have "conn_handle E e s = Some (NextRequest (post (PUser h ec_default (Some (c, RsProduce (topic_map ts)))) ?s))"
      using assms(2,3,5,6) read by (simp add: HandleAsyncResponseRead_def Let_def)
    moreover have "called ?u (post (PUser h ec_default (Some (c, RsProduce (topic_map ts)))) ?s)"
      by (simp add: called_def post_def)
    moreover have "read_state (post (PUser h ec_default (Some (c, RsProduce (topic_map ts)))) ?s) = kTxStateIdle"
      by (simp add: post_def cancel_def)
    ultimately show thesis
      by (intro that [of "NextRequest (post (PUser h ec_default (Some (c, RsProduce (topic_map ts)))) ?s)"]) simp_all
  qed
  ultimately have t: "conn_trace E (ConnectionServiceImpl_new cf) (es @ [e]) s'"
    using assms(1) by (blast intro: conn_trace.conn_next)
  have "\<exists>es'' t'. length es'' \<le> 1 \<and> conn_trace E (ConnectionServiceImpl_new cf) (es @ [e] @ es' @ es'') t' \<and>
      ?u \<in> set (answered t')" if run: "conn_trace E s' es' v" for es' v
  proof -
    obtain es'' t' where "length es'' \<le> 1" "conn_trace E v es'' t'" "?u \<in> set (answered t')"
      by (rule called_runs [OF called_trace [OF run s'(3)]])
    with conn_trace_append [OF conn_trace_append [OF t run]] show ?thesis by fastforce
  qed
  with t s'(2) read show ?thesis by blast
qed

section \<open>Runs that go wrong\<close>

text \<open>Running a list of events; what it reaches is reached by a trace.\<close>

fun conn_run :: "'z kenv \<Rightarrow> ConnectionServiceImpl \<Rightarrow> service_event list \<Rightarrow> ConnectionServiceImpl option" where
  "conn_run E s [] = Some s"
| "conn_run E s (e # es) =
     (if conn_enabled e s then Option.bind (conn_handle E e s) (\<lambda>s'. conn_run E s' es) else None)"

lemma conn_run_trace_from:
  "conn_trace E s0 es s \<Longrightarrow> conn_run E s es' = Some s' \<Longrightarrow> conn_trace E s0 (es @ es') s'"
proof (induction es' arbitrary: es s)
  case (Cons e es')
  then obtain t where t: "conn_enabled e s" "conn_handle E e s = Some t" "conn_run E t es' = Some s'"
    by (auto split: if_splits bind_splits)
  have "conn_trace E s0 (es @ [e]) t" using Cons.prems(1) t(1,2) by (rule conn_trace.conn_next)
  from Cons.IH [OF this t(3)] show ?case by simp
qed simp

lemma conn_run_trace: "conn_run E s0 es = Some s \<Longrightarrow> conn_trace E s0 es s"
  using conn_run_trace_from [OF conn_start, of E s0 es s] by simp

text \<open>The configuration of the program's output, and two produce requests that expect a response.\<close>

definition output_configuration :: ConnectionConfiguration where
  "output_configuration = SetBrokerFromString (bytes_of_string ''kafka'')
     (ConnectionConfiguration_new\<lparr>auto_connect := True\<rparr>)"

definition demo_message :: AnyRequest where
  "demo_message = RqProduce (AddValue (bytes_of_string ''{}'') (bytes_of_string ''hvbench'') 0 ProduceRequest_new)"

definition demo_reply :: bytes where
  "demo_reply = WriteInt32 0 @ WriteInt32 0"

lemma output_configuration_simps [simp]:
  "auto_connect output_configuration = True"
  "broker_address output_configuration = Some \<lparr>hostname = bytes_of_string ''kafka'', service = DefaultKafkaService\<rparr>"
  "message_max_bytes output_configuration = kDefaultMessageMaxBytes"
  by (simp_all add: output_configuration_def SetBrokerFromString_def ConnectionConfiguration_new_def
      bytes_of_string_def DefaultKafkaService_def of_char_def)

lemma demo_message_expected [simp]: "any_ResponseExpected demo_message"
  by (simp add: demo_message_def Produce_class_def Produce_ResponseExpected_def AddValue_def AddMessage_def
      ProduceRequest_new_def Request.defs ProduceRequest.defs Request_new_def kDefaultProduceRequiredAcks_def)

lemma demo_size [simp]: "fst (ReadInt32 (good_stream sk (WriteInt32 8))) = 8"
  using c32.dec_enc [where x = 8 and sk = sk and r = "[]"] by simp

lemma length_demo_reply [simp]: "length demo_reply = 8"
  by (simp add: demo_reply_def)

lemma demo_reply_read [simp]:
  "any_ReadResponse E demo_message (good_stream sk demo_reply) = Some (0, RsProduce [], ec_default)"
proof -
  have "fits_topics produce_no_error []" by (simp add: fits_topics_def)
  from produce_response_read [OF this, where sk = sk and c = 0 and r = "[]"]
  show ?thesis
    by (simp add: demo_message_def demo_reply_def enc_topics_def topic_map_def)
qed

text \<open>
  Two requests, each written while the connection is idle on the writing side; the response of
  the first arrives.
\<close>

definition stall_start :: "service_event list" where
  "stall_start = [UserRequest demo_message 1, RunPosted 0, Resolved 0 ec_default, Connected 0 ec_default,
     RunPosted 0, Written 0 ec_default]"

definition stall_middle :: "service_event list" where
  "stall_middle = [UserRequest demo_message 2, RunPosted 0, Written 0 ec_default]"

definition stall_end :: "service_event list" where
  "stall_end = [SizeRead 0 ec_default (WriteInt32 8), BodyRead 0 ec_default demo_reply, RunPosted 0]"

lemmas conn_defs = Let_def EnqueueRequest_def EnqueueResponse_def NextRequest_def NextResponse_def
  AsyncConnect_configured_def AsyncConnect_def AsyncRequest_def SendRequest_def ReceiveResponse_def
  HandleAsyncResolve_def HandleAsyncConnect_def HandleAsyncAutoConnect_def HandleAsyncRequestWrite_def
  HandleAsyncResponseSizeRead_def HandleAsyncResponseRead_def SetDeadline_def cancel_def post_def
  remove_nth_def ConnectionServiceImpl_new_def

text \<open>
  The states of the run: connected, with a response being read or not, responses waiting, and
  requests answered.
\<close>

definition idle_writer :: "TxState \<Rightarrow> ReadItem list \<Rightarrow> ReadItem list \<Rightarrow>
    (nat \<times> error_code \<times> (Int32 \<times> AnyResponse) option) list \<Rightarrow> (DeadlineTimer \<Rightarrow> timer) \<Rightarrow> ConnectionServiceImpl" where
  "idle_writer rst reading waiting an tm = \<lparr>configuration = output_configuration, write_queue = [],
     read_queue = waiting, connection_state = kConnectionStateConnected, write_state = kTxStateIdle,
     read_state = rst, timers = tm, posted = [], resolving = [], connecting = [], writing = [],
     reading_size = reading, reading_body = [], connects_answered = [], answered = an\<rparr>"

lemma stall_run_start:
  "\<exists>tm. conn_run E (ConnectionServiceImpl_new output_configuration) stall_start =
     Some (idle_writer kTxStateBusy [\<lparr>r_request = demo_message, r_handler = 1\<rparr>] [] [] tm)"
  by (simp add: stall_start_def conn_defs idle_writer_def)

lemma stall_run_middle:
  "\<exists>tm'. conn_run E (idle_writer kTxStateBusy [r] [] [] tm) stall_middle =
     Some (idle_writer kTxStateBusy [r] [\<lparr>r_request = demo_message, r_handler = 2\<rparr>] [] tm')"
  by (simp add: stall_middle_def conn_defs idle_writer_def)

lemma stall_run_end:
  "\<exists>tm'. conn_run E (idle_writer kTxStateBusy [\<lparr>r_request = demo_message, r_handler = 1\<rparr>] [r] [] tm) stall_end =
     Some (idle_writer kTxStateIdle [] [r] [(1, ec_default, Some (0, RsProduce []))] tm')"
  by (simp add: stall_end_def conn_defs idle_writer_def kDefaultMessageMaxBytes_def)

text \<open>A response is never read: after two requests were written one after the other and the
  first was answered, the connection is connected and idle on both sides, nothing is pending,
  and the second request waits in the read queue with its handler not called.\<close>

theorem second_response_stalls:
  "\<exists>s item. conn_trace E (ConnectionServiceImpl_new output_configuration)
       (stall_start @ stall_middle @ stall_end) s \<and>
     connection_state s = kConnectionStateConnected \<and> read_state s = kTxStateIdle \<and>
     write_state s = kTxStateIdle \<and> read_queue s = [item] \<and> r_handler item = 2 \<and>
     posted s = [] \<and> resolving s = [] \<and> connecting s = [] \<and> writing s = [] \<and>
     reading_size s = [] \<and> reading_body s = [] \<and> map fst (answered s) = [1]"
proof -
  obtain tm1 tm2 tm3 where
    "conn_run E (ConnectionServiceImpl_new output_configuration) stall_start =
       Some (idle_writer kTxStateBusy [\<lparr>r_request = demo_message, r_handler = 1\<rparr>] [] [] tm1)"
    "conn_run E (idle_writer kTxStateBusy [\<lparr>r_request = demo_message, r_handler = 1\<rparr>] [] [] tm1) stall_middle =
       Some (idle_writer kTxStateBusy [\<lparr>r_request = demo_message, r_handler = 1\<rparr>]
         [\<lparr>r_request = demo_message, r_handler = 2\<rparr>] [] tm2)"
    "conn_run E (idle_writer kTxStateBusy [\<lparr>r_request = demo_message, r_handler = 1\<rparr>]
         [\<lparr>r_request = demo_message, r_handler = 2\<rparr>] [] tm2) stall_end =
       Some (idle_writer kTxStateIdle [] [\<lparr>r_request = demo_message, r_handler = 2\<rparr>]
         [(1, ec_default, Some (0, RsProduce []))] tm3)"
    using stall_run_start stall_run_middle stall_run_end by blast
  then have "conn_trace E (ConnectionServiceImpl_new output_configuration) ((stall_start @ stall_middle) @ stall_end)
      (idle_writer kTxStateIdle [] [\<lparr>r_request = demo_message, r_handler = 2\<rparr>]
         [(1, ec_default, Some (0, RsProduce []))] tm3)"
    by (blast intro: conn_run_trace_from conn_run_trace)
  then show ?thesis
    by (intro exI [of _ "idle_writer kTxStateIdle [] [\<lparr>r_request = demo_message, r_handler = 2\<rparr>]
         [(1, ec_default, Some (0, RsProduce []))] tm3"] exI [of _ "\<lparr>r_request = demo_message, r_handler = 2\<rparr>"])
       (simp add: idle_writer_def)
qed

text \<open>
  A request arrives between the completion of an automatic connect and its handler.
\<close>

definition overlap_events :: "service_event list" where
  "overlap_events = [UserRequest demo_message 1, RunPosted 0, Resolved 0 ec_default,
     UserRequest demo_message 2, Connected 0 ec_default, RunPosted 0, RunPosted 0]"

text \<open>Two requests are written to the socket at the same time: the handler of the automatic
  connect sends the next request without looking whether one is being sent.\<close>

theorem writes_overlap:
  "\<exists>s. conn_trace E (ConnectionServiceImpl_new output_configuration) overlap_events s \<and>
     map w_handler (writing s) = [1, 2]"
proof -
  have "map_option (\<lambda>s. map w_handler (writing s))
      (conn_run E (ConnectionServiceImpl_new output_configuration) overlap_events) = Some [1, 2]"
    by (simp add: overlap_events_def conn_defs)
  then show ?thesis by (auto intro: conn_run_trace)
qed

section \<open>After a failed read\<close>

text \<open>
  The reading side is busy and nothing is being read: what a read error, a time out or a
  message that is too large leaves behind.
\<close>

definition reading :: "ConnectionServiceImpl \<Rightarrow> TxState \<times> ReadItem list \<times> (ReadItem \<times> nat) list" where
  "reading s = (read_state s, reading_size s, reading_body s)"

abbreviation wedged :: "ConnectionServiceImpl \<Rightarrow> bool" where
  "wedged s \<equiv> reading s = (kTxStateBusy, [], [])"

lemma reading_simps [simp]:
  "reading (post t s) = reading s"
  "reading (SetDeadline d s) = reading s"
  "reading (cancel d s) = reading s"
  "reading (s\<lparr>connection_state := cst\<rparr>) = reading s"
  "reading (s\<lparr>write_state := ws\<rparr>) = reading s"
  "reading (s\<lparr>write_queue := wq\<rparr>) = reading s"
  "reading (s\<lparr>read_queue := rq\<rparr>) = reading s"
  "reading (s\<lparr>writing := w\<rparr>) = reading s"
  "reading (s\<lparr>timers := tm\<rparr>) = reading s"
  "reading (s\<lparr>posted := ps\<rparr>) = reading s"
  "reading (s\<lparr>resolving := res\<rparr>) = reading s"
  "reading (s\<lparr>connecting := con\<rparr>) = reading s"
  "reading (s\<lparr>connects_answered := ca\<rparr>) = reading s"
  "reading (s\<lparr>answered := an\<rparr>) = reading s"
  by (simp_all add: reading_def SetDeadline_def cancel_def post_def)

lemma reading_writers [simp]:
  "reading (Close s) = reading s"
  "reading (SendRequest w s) = reading s"
  "reading (AsyncConnect h sv c s) = reading s"
  "reading (AsyncConnect_configured c s) = reading s"
  by (simp_all add: Close_def SendRequest_def AsyncConnect_def AsyncConnect_configured_def split: option.splits)

lemma reading_NextRequest [simp]: "reading (NextRequest s) = reading s"
  by (simp add: NextRequest_def)

lemma reading_EnqueueRequest [simp]: "reading (EnqueueRequest E r h s) = reading s"
  by (simp add: EnqueueRequest_def Let_def)

lemma reading_EnqueueResponse: "wedged s \<Longrightarrow> wedged (EnqueueResponse r h s)"
proof -
  assume w: "wedged s"
  then have "read_state s = kTxStateBusy" by (simp add: reading_def)
  with w show ?thesis by (simp add: EnqueueResponse_def Let_def foldl_post)
qed

lemma reading_handlers [simp]:
  "reading (HandleAsyncResolve ec c s) = reading s"
  "reading (HandleAsyncConnect ec c s) = reading s"
  "reading (HandleAsyncAutoConnect ec s) = reading s"
  "reading (HandleDeadline d s) = reading s"
  "wedged s \<Longrightarrow> wedged (HandleAsyncRequestWrite ec item s)"
  by (simp_all add: HandleAsyncResolve_def HandleAsyncConnect_def HandleAsyncAutoConnect_def
      HandleDeadline_def HandleAsyncRequestWrite_def Let_def foldl_post reading_EnqueueResponse)

lemma reading_failed_size:
  "HandleAsyncResponseSizeRead E ec data item s = Some s' \<Longrightarrow> ec_failed ec \<Longrightarrow> reading s' = reading s"
  by (auto simp: HandleAsyncResponseSizeRead_def)

lemma wedged_run_task:
  "run_task E t s = Some s' \<Longrightarrow> wedged s \<Longrightarrow> (\<And>item ec. t = PSizeRead item ec \<Longrightarrow> ec_failed ec) \<Longrightarrow> wedged s'"
  by (induction E t s rule: run_task.induct) (auto dest: reading_failed_size)

lemma one_read_failing_task:
  "one_read s \<Longrightarrow> i < length (posted s) \<Longrightarrow> posted s ! i = PSizeRead item ec \<Longrightarrow> ec_failed ec"
  unfolding one_read_def by (metis nth_mem)

lemma wedged_handle:
  assumes "one_read s" and "wedged s" and "conn_enabled e s" and "conn_handle E e s = Some s'"
  shows "wedged s'"
proof (cases e)
  case (RunPosted i)
  then have "run_task E (posted s ! i) (s\<lparr>posted := remove_nth i (posted s)\<rparr>) = Some s'"
    and "i < length (posted s)" using assms by simp_all
  then show ?thesis
    using wedged_run_task one_read_failing_task [OF assms(1)] assms(2) by (metis reading_simps(10))
next
  case (SizeRead i ec data)
  with assms show ?thesis by (simp add: reading_def)
next
  case (BodyRead i ec data)
  with assms show ?thesis by (simp add: reading_def)
qed (use assms in \<open>auto simp: AsyncRequest_def\<close>)

lemma wedged_trace:
  assumes "conn_trace E s es s'" and "one_read s" and "wedged s"
  shows "wedged s' \<and> one_read s'"
  using assms
proof (induction rule: conn_trace.induct)
  case (conn_next es t e t')
  then show ?case by (blast intro: wedged_handle one_read_handle)
qed simp

text \<open>The reads that end with an error: the read of the size or of the body fails, or the
  announced message is too large.\<close>

fun read_fails :: "'z kenv \<Rightarrow> service_event \<Rightarrow> ConnectionServiceImpl \<Rightarrow> bool" where
  "read_fails E (SizeRead i ec data) s \<longleftrightarrow> ec_failed ec \<or>
     sint (message_max_bytes (configuration s)) \<le> sint (fst (ReadInt32 (good_stream (ke_seekable E) data)))"
| "read_fails E (BodyRead i ec data) s \<longleftrightarrow> ec_failed ec"
| "read_fails E _ s \<longleftrightarrow> False"

lemma read_taken_wedged: "read_taken s \<Longrightarrow> wedged s"
  by (simp add: read_taken_def reading_def)

lemma wedged_failed_read:
  assumes "one_read s" and "conn_enabled e s" and "read_fails E e s" and "conn_handle E e s = Some s1"
  shows "wedged s1"
proof (cases e)
  case (SizeRead i ec data)
  then have "wedged (s\<lparr>reading_size := remove_nth i (reading_size s)\<rparr>)"
    using assms(1,2) by (auto intro: read_taken_size read_taken_wedged)
  with SizeRead assms(3,4) show ?thesis
    by (auto simp: HandleAsyncResponseSizeRead_def Let_def split: if_splits)
next
  case (BodyRead i ec data)
  then have "wedged (s\<lparr>reading_body := remove_nth i (reading_body s)\<rparr>)"
    using assms(1,2) by (auto intro: read_taken_body read_taken_wedged)
  with BodyRead assms(3,4) show ?thesis
    by (auto simp: HandleAsyncResponseRead_def)
qed (use assms(3) in simp_all)

text \<open>C36. After one failed read of a response, of its size or its body, or one message that is
  too large, no response is read any more, whatever happens afterwards, a new connection
  included: the reading side stays busy and every later response waits in the read queue.\<close>

theorem read_error_wedges:
  assumes "conn_trace E (ConnectionServiceImpl_new cf) es s" and "conn_enabled e s"
    and "read_fails E e s" and "conn_handle E e s = Some s1" and "conn_trace E s1 es' s2"
  shows "read_state s2 = kTxStateBusy \<and> reading_size s2 = [] \<and> reading_body s2 = []"
proof -
  have o: "one_read s" using assms(1) by (rule one_read_trace)
  note wedged_failed_read [OF o assms(2-4)] one_read_handle [OF o assms(2,4)]
  then show ?thesis using wedged_trace [OF assms(5)] by (simp add: reading_def)
qed

lemma read_error_wedges_witness:
  "\<exists>s s1. conn_trace \<lparr>ke_zlib = demo_zlib, ke_crc = demo_crc, ke_seekable = False\<rparr>
      (ConnectionServiceImpl_new output_configuration) stall_start s \<and>
    conn_handle \<lparr>ke_zlib = demo_zlib, ke_crc = demo_crc, ke_seekable = False\<rparr>
      (SizeRead 0 (SystemCategory, 104) []) s = Some s1 \<and>
    read_state s1 = kTxStateBusy \<and> reading_size s1 = [] \<and> reading_body s1 = []"
proof -
  let ?E = "\<lparr>ke_zlib = demo_zlib, ke_crc = demo_crc, ke_seekable = False\<rparr>"
  obtain tm where r: "conn_run ?E (ConnectionServiceImpl_new output_configuration) stall_start =
     Some (idle_writer kTxStateBusy [\<lparr>r_request = demo_message, r_handler = 1\<rparr>] [] [] tm)"
    using stall_run_start by blast
  let ?s = "idle_writer kTxStateBusy [\<lparr>r_request = demo_message, r_handler = 1\<rparr>] [] [] tm"
  have t: "conn_trace ?E (ConnectionServiceImpl_new output_configuration) stall_start ?s"
    using r by (rule conn_run_trace)
  have f: "ec_failed (SystemCategory, 104)" by (simp add: ec_failed_def)
  then obtain s1 where s1: "conn_handle ?E (SizeRead 0 (SystemCategory, 104) []) ?s = Some s1"
    by (simp add: HandleAsyncResponseSizeRead_def)
  have "conn_enabled (SizeRead 0 (SystemCategory, 104) []) ?s" "read_fails ?E (SizeRead 0 (SystemCategory, 104) []) ?s"
    using f by (simp_all add: idle_writer_def)
  from read_error_wedges [OF t this s1 conn_start] t s1 show ?thesis by blast
qed

section \<open>Instances\<close>

definition demo_kenv :: "(bytes \<times> nat) kenv" where
  "demo_kenv = \<lparr>ke_zlib = demo_zlib, ke_crc = demo_crc, ke_seekable = False\<rparr>"

lemma handlers_conserved_witness:
  "\<exists>s. conn_trace demo_kenv (ConnectionServiceImpl_new output_configuration) stall_start s \<and> handlers s = {#1#}"
proof -
  obtain tm where "conn_run demo_kenv (ConnectionServiceImpl_new output_configuration) stall_start =
     Some (idle_writer kTxStateBusy [\<lparr>r_request = demo_message, r_handler = 1\<rparr>] [] [] tm)"
    using stall_run_start by blast
  then have t: "conn_trace demo_kenv (ConnectionServiceImpl_new output_configuration) stall_start
      (idle_writer kTxStateBusy [\<lparr>r_request = demo_message, r_handler = 1\<rparr>] [] [] tm)"
    by (rule conn_run_trace)
  have "sum_list (map issued stall_start) = {#1#}" by (simp add: stall_start_def)
  with handlers_conserved [OF t] t show ?thesis by auto
qed

lemma reads_one_at_a_time_witness:
  "\<exists>s. conn_trace demo_kenv (ConnectionServiceImpl_new output_configuration) stall_start s \<and>
     length (reading_size s) + length (reading_body s) \<le> 1 \<and> read_state s = kTxStateBusy"
proof -
  obtain tm where "conn_run demo_kenv (ConnectionServiceImpl_new output_configuration) stall_start =
     Some (idle_writer kTxStateBusy [\<lparr>r_request = demo_message, r_handler = 1\<rparr>] [] [] tm)"
    using stall_run_start by blast
  then have t: "conn_trace demo_kenv (ConnectionServiceImpl_new output_configuration) stall_start
      (idle_writer kTxStateBusy [\<lparr>r_request = demo_message, r_handler = 1\<rparr>] [] [] tm)"
    by (rule conn_run_trace)
  have "read_state (idle_writer kTxStateBusy [\<lparr>r_request = demo_message, r_handler = 1\<rparr>] [] [] tm) = kTxStateBusy"
    by (simp add: idle_writer_def)
  with reads_one_at_a_time [OF t] t show ?thesis by blast
qed

text \<open>The run of one request whose response arrives.\<close>

definition demo_answer_bytes :: bytes where
  "demo_answer_bytes = WriteInt32 5 @ enc_topics name_head produce_enc demo_topics"

lemma demo_body_read:
  assumes "conn_run E (ConnectionServiceImpl_new output_configuration) stall_start =
     Some (idle_writer kTxStateBusy [\<lparr>r_request = demo_message, r_handler = 1\<rparr>] [] [] tm)"
  obtains s where "conn_trace E (ConnectionServiceImpl_new output_configuration)
      (stall_start @ [SizeRead 0 ec_default (WriteInt32 43)]) s"
    and "reading_body s = [(\<lparr>r_request = demo_message, r_handler = 1\<rparr>, length demo_answer_bytes)]"
proof -
  let ?s = "idle_writer kTxStateBusy [\<lparr>r_request = demo_message, r_handler = 1\<rparr>] [] [] tm"
  have sz: "fst (ReadInt32 (good_stream sk (WriteInt32 43))) = 43" for sk
    using c32.dec_enc [where x = 43 and sk = sk and r = "[]"] by simp
  have l: "length demo_answer_bytes = 43"
    by (simp add: demo_answer_bytes_def enc_topics_def enc_topic_def demo_topics_def name_head_def produce_enc_def
        WriteString_def)
  have e: "conn_enabled (SizeRead 0 ec_default (WriteInt32 43)) ?s" by (simp add: idle_writer_def)
  obtain s where s: "conn_handle E (SizeRead 0 ec_default (WriteInt32 43)) ?s = Some s"
    "reading_body s = [(\<lparr>r_request = demo_message, r_handler = 1\<rparr>, 43)]"
    by (simp add: idle_writer_def HandleAsyncResponseSizeRead_def sz Let_def SetDeadline_def
        kDefaultMessageMaxBytes_def)
  from conn_trace.conn_next [OF conn_run_trace [OF assms] e s(1)] s(2) show ?thesis by (intro that) (simp_all add: l)
qed

lemma produce_response_delivered_witness:
  "\<exists>es t. conn_trace demo_kenv (ConnectionServiceImpl_new output_configuration) es t \<and>
     (1, ec_default, Some (5, RsProduce (topic_map demo_topics))) \<in> set (answered t)"
proof -
  obtain tm where "conn_run demo_kenv (ConnectionServiceImpl_new output_configuration) stall_start =
     Some (idle_writer kTxStateBusy [\<lparr>r_request = demo_message, r_handler = 1\<rparr>] [] [] tm)"
    using stall_run_start by blast
  then obtain s where t: "conn_trace demo_kenv (ConnectionServiceImpl_new output_configuration)
      (stall_start @ [SizeRead 0 ec_default (WriteInt32 43)]) s"
    and b: "reading_body s = [(\<lparr>r_request = demo_message, r_handler = 1\<rparr>, length demo_answer_bytes)]"
    by (rule demo_body_read)
  have f: "fits_topics produce_no_error demo_topics"
    by (simp add: fits_topics_def fits_topic_def demo_topics_def produce_no_error_def)
  have l: "0 < length (reading_body s)" by (simp add: b)
  obtain rq where r: "reading_body s ! 0 = (\<lparr>r_request = RqProduce rq, r_handler = 1\<rparr>, length demo_answer_bytes)"
    by (simp add: b demo_message_def)
  from produce_response_delivered [OF t l r f demo_answer_bytes_def [THEN arg_cong [where f = length]] refl]
  show ?thesis using conn_start by blast
qed

end
