(* ===== verification/Output.thy ===== *)
theory Output
  imports Collector KConnection KRequestFacts
begin

text \<open>
  \<open>statistics/output\<close>: what happens with a report.  \<open>KafkaOutput\<close> writes the collector as
  JSON into a produce request and hands it to the Kafka connection; \<open>PrinterOutput\<close> drops it.
  The mutex of \<open>OutputBase\<close> is released at once (the guard is a temporary), so \<open>update_study\<close>
  and \<open>write\<close> are not ordered by it; each is a step here.
\<close>

record OutputBase =
  study_id :: string
  run_id :: int

definition update_study :: "string \<Rightarrow> u32 \<Rightarrow> 'a OutputBase_scheme \<Rightarrow> 'a OutputBase_scheme" where
  "update_study study run b = b\<lparr>study_id := study, run_id := sint run\<rparr>"

record KafkaOutput = OutputBase +
  connection :: ConnectionServiceImpl

definition KafkaOutput_configuration :: "string \<Rightarrow> ConnectionConfiguration" where
  "KafkaOutput_configuration ip =
     SetBrokerFromString (bytes_of_string ip)
       (ConnectionConfiguration_new\<lparr>auto_connect := True, cc_client_id := bytes_of_string ''hvbench'',
          socket_timeout := 10000\<rparr>)"

definition KafkaOutput_create :: "string \<Rightarrow> KafkaOutput" where
  "KafkaOutput_create ip =
     \<lparr>study_id = ''test'', run_id = 1, connection = ConnectionServiceImpl_new (KafkaOutput_configuration ip)\<rparr>"

text \<open>\<open>lexical_cast<std::string>\<close> of an \<open>int32_t\<close>.\<close>

text \<open>
  \<open>write\<close>: the collector is shared, so it keeps the names that are added.  \<open>json\<close> is its
  \<open>toJson\<close>; \<open>h\<close> numbers the handler, which only prints an error.
\<close>

definition report_request :: "(Collector \<Rightarrow> string) \<Rightarrow> Collector \<Rightarrow> ProduceRequest" where
  "report_request json col =
     AddValue (bytes_of_string (json col)) (bytes_of_string ''hvbench'') 0 ProduceRequest_new"

definition KafkaOutput_write ::
    "(Collector \<Rightarrow> string) \<Rightarrow> nat \<Rightarrow> string \<Rightarrow> Collector \<Rightarrow> KafkaOutput \<Rightarrow> Collector \<times> KafkaOutput" where
  "KafkaOutput_write json h tenant col out =
     (let col' = addMeta ''run_id'' (signed_digits (run_id out))
                   (addMeta ''study_id'' (study_id out) (addMeta ''tenant'' tenant col))
      in (col', out\<lparr>connection := AsyncRequest (RqProduce (report_request json col')) h (connection out)\<rparr>))"

definition PrinterOutput_write :: "string \<Rightarrow> Collector \<Rightarrow> OutputBase \<Rightarrow> Collector \<times> OutputBase" where
  "PrinterOutput_write tenant col out = (col, out)"

section \<open>What is reported\<close>

lemma bytes_of_string_append [simp]: "bytes_of_string (a @ b) = bytes_of_string a @ bytes_of_string b"
  by (simp add: bytes_of_string_def)

lemma str_find_skip: "c \<notin> set s \<Longrightarrow> str_find c (s @ c # r) = Some (length s)"
  by (induction s) auto

lemma colon_bytes:
  assumes "CHR '':'' \<notin> set s"
  shows "58 \<notin> set (bytes_of_string s)"
proof
  assume "58 \<in> set (bytes_of_string s)"
  then obtain c where c: "c \<in> set s" "(word_of_nat (of_char c) :: u8) = 58"
    by (auto simp: bytes_of_string_def)
  have "(of_char c :: nat) < 2 ^ 8" by (cases c) simp
  then have "unat (word_of_nat (of_char c) :: u8) = of_char c"
    by (simp add: unsigned_of_nat take_bit_nat_eq_self)
  with c(2) have "(of_char c :: nat) = 58" by simp
  then have "c = char_of (58 :: nat)" by (metis char_of_char)
  also have "char_of (58 :: nat) = CHR '':''" by code_simp
  finally show False using c(1) assms by simp
qed

text \<open>The broker is the address the program is given, at the port \<open>main\<close> appends.\<close>

lemma output_broker:
  assumes "ip \<noteq> []" and "CHR '':'' \<notin> set ip"
  shows "broker_address (configuration (connection (KafkaOutput_create (ip @ '':9092'')))) =
    Some \<lparr>hostname = bytes_of_string ip, service = bytes_of_string ''9092''\<rparr>"
proof -
  have b: "bytes_of_string '':9092'' = 58 # bytes_of_string ''9092''" by code_simp
  have "length (bytes_of_string ''9092'') = 4" by simp
  then show ?thesis
    using assms str_find_skip [OF colon_bytes [OF assms(2)], of "bytes_of_string ''9092''"]
    by (simp add: KafkaOutput_create_def KafkaOutput_configuration_def ConnectionServiceImpl_new_def
        SetBrokerFromString_def b Let_def) (auto simp: bytes_of_string_def)
qed

text \<open>
  C10. Composition of collector, output and Kafka client: a report that is written after the
  study was set reaches the connection, as one request for the topic \<open>hvbench\<close> and partition 0
  with a single uncompressed message whose value is the JSON of the collector; the
  collector then carries the tenant, the study and the run, and its other names are kept.
\<close>

theorem report_reaches_kafka:
  assumes "KafkaOutput_write json h tenant col (update_study study run out) = (col', out')"
  shows "posted (connection out') = posted (connection out) @ [PEnqueue (RqProduce (report_request json col')) h] \<and>
    entry_of (produce_topics (report_request json col')) =
      [(bytes_of_string ''hvbench'', 0) \<mapsto> [(Message 0 None (Some (bytes_of_string (json col'))) [], 0)]] \<and>
    statistics col' = statistics col \<and>
    map_of (meta col') = (map_of (meta col))(''tenant'' \<mapsto> tenant, ''study_id'' \<mapsto> study,
      ''run_id'' \<mapsto> signed_digits (sint run))"
proof -
  have w: "col' = addMeta ''run_id'' (signed_digits (sint run)) (addMeta ''study_id'' study (addMeta ''tenant'' tenant col))"
    "out' = (update_study study run out)\<lparr>connection := AsyncRequest (RqProduce (report_request json col')) h (connection out)\<rparr>"
    using assms by (auto simp: KafkaOutput_write_def Let_def update_study_def)
  have r: "report_request json col' = add_messages
      [(Message 0 None (Some (bytes_of_string (json col'))) [], bytes_of_string ''hvbench'', 0)] ProduceRequest_new"
    by (simp add: report_request_def AddValue_def add_messages_def Message_new_def)
  have e: "produce_topics ProduceRequest_new = []"
    by (simp add: ProduceRequest_new_def Request.defs ProduceRequest.defs Request_new_def)
  have "entry_of (produce_topics (report_request json col')) k =
      [(bytes_of_string ''hvbench'', 0) \<mapsto> [(Message 0 None (Some (bytes_of_string (json col'))) [], 0)]] k" for k
    using produce.builds_entry [of "[(Message 0 None (Some (bytes_of_string (json col'))) [], bytes_of_string ''hvbench'', 0)]"
        ProduceRequest_new k]
    by (simp add: r add_messages_def e entry_of_def)
  then show ?thesis
    by (simp add: w AsyncRequest_def post_def update_study_def addMeta_def map_of_std_put fun_eq_iff)
qed

lemma report_reaches_kafka_witness:
  "\<exists>col' out'. KafkaOutput_write (\<lambda>_. ''{}'') 1 ''t1'' Collector_new (update_study ''s'' 3 (KafkaOutput_create ''k:9092''))
      = (col', out') \<and> map_of (meta col') ''run_id'' = Some ''3'' \<and> length (posted (connection out')) = 1"
proof -
  obtain col' out' where w: "KafkaOutput_write (\<lambda>_. ''{}'') 1 ''t1'' Collector_new
      (update_study ''s'' 3 (KafkaOutput_create ''k:9092'')) = (col', out')" by fastforce
  have d: "signed_digits 3 = ''3''" by code_simp
  from report_reaches_kafka [OF w] w show ?thesis
    by (simp add: d KafkaOutput_create_def ConnectionServiceImpl_new_def)
qed

end
