(* ===== verification/Doubles.thy ===== *)
theory Doubles
  imports Prelude
begin

text \<open>
  The \<open>double\<close> of C++: IEEE 754 binary64 with rounding to nearest, ties to even, as the
  JSON reader uses it.  A finite value is a sign, a significand and an exponent of two;
  \<open>round64\<close> rounds the exact quotient of two integers, and every operation rounds its exact
  result once.
\<close>

section \<open>Values\<close>

datatype double = DFinite bool int int | DInf bool | DNaN

text \<open>The values of the format: 53 bits, exponents from -1074 to 971, the significand
  normalised unless the exponent is the least.\<close>

fun double_ok :: "double \<Rightarrow> bool" where
  "double_ok (DFinite s m e) \<longleftrightarrow>
     0 \<le> m \<and> m < 2 ^ 53 \<and> - 1074 \<le> e \<and> e \<le> 971 \<and> (2 ^ 52 \<le> m \<or> e = - 1074)"
| "double_ok (DInf s) \<longleftrightarrow> True"
| "double_ok DNaN \<longleftrightarrow> True"

section \<open>Rounding\<close>

fun bit_length :: "int \<Rightarrow> nat" where
  "bit_length n = (if n \<le> 0 then 0 else Suc (bit_length (n div 2)))"

declare bit_length.simps [simp del]

text \<open>The largest \<open>k\<close> with \<open>2 ^ k \<le> n / d\<close>.\<close>

definition binary_exponent :: "int \<Rightarrow> int \<Rightarrow> int" where
  "binary_exponent n d =
     (let k = int (bit_length n) - int (bit_length d)
      in if d * 2 ^ nat k \<le> n * 2 ^ nat (- k) then k else k - 1)"

definition round_div :: "int \<Rightarrow> int \<Rightarrow> int" where
  "round_div a b =
     (let q = a div b; r = a mod b
      in if b < 2 * r \<or> (b = 2 * r \<and> odd q) then q + 1 else q)"

definition round64 :: "bool \<Rightarrow> int \<Rightarrow> int \<Rightarrow> double" where
  "round64 s n d =
     (if n = 0 then DFinite s 0 (- 1074)
      else let e = max (- 1074) (binary_exponent n d - 52);
               m = round_div (n * 2 ^ nat (- e)) (d * 2 ^ nat e)
           in if m = 2 ^ 53
              then (if 970 < e then DInf s else DFinite s (2 ^ 52) (e + 1))
              else (if 971 < e then DInf s else DFinite s m e))"

section \<open>Operations\<close>

definition double_of_int :: "int \<Rightarrow> double" where
  "double_of_int i = round64 (i < 0) \<bar>i\<bar> 1"

fun double_neg :: "double \<Rightarrow> double" where
  "double_neg (DFinite s m e) = DFinite (\<not> s) m e"
| "double_neg (DInf s) = DInf (\<not> s)"
| "double_neg DNaN = DNaN"

fun double_mul :: "double \<Rightarrow> double \<Rightarrow> double" where
  "double_mul (DFinite s m e) (DFinite t n f) =
     round64 (s \<noteq> t) (m * n * 2 ^ nat (e + f)) (2 ^ nat (- (e + f)))"
| "double_mul (DInf s) (DFinite t n f) = (if n = 0 then DNaN else DInf (s \<noteq> t))"
| "double_mul (DFinite s m e) (DInf t) = (if m = 0 then DNaN else DInf (s \<noteq> t))"
| "double_mul (DInf s) (DInf t) = DInf (s \<noteq> t)"
| "double_mul DNaN y = DNaN"
| "double_mul x DNaN = DNaN"

fun double_div :: "double \<Rightarrow> double \<Rightarrow> double" where
  "double_div (DFinite s m e) (DFinite t n f) =
     (if n = 0 then (if m = 0 then DNaN else DInf (s \<noteq> t))
      else round64 (s \<noteq> t) (m * 2 ^ nat (e - f)) (n * 2 ^ nat (f - e)))"
| "double_div (DInf s) (DFinite t n f) = DInf (s \<noteq> t)"
| "double_div (DFinite s m e) (DInf t) = DFinite (s \<noteq> t) 0 (- 1074)"
| "double_div (DInf s) (DInf t) = DNaN"
| "double_div DNaN y = DNaN"
| "double_div x DNaN = DNaN"

definition signed :: "bool \<Rightarrow> int \<Rightarrow> int" where
  "signed s m = (if s then - m else m)"

fun double_add :: "double \<Rightarrow> double \<Rightarrow> double" where
  "double_add (DFinite s m e) (DFinite t n f) =
     (let k = min e f;
          v = signed s m * 2 ^ nat (e - k) + signed t n * 2 ^ nat (f - k)
      in if v = 0 then DFinite (s \<and> t) 0 (- 1074)
         else round64 (v < 0) (\<bar>v\<bar> * 2 ^ nat k) (2 ^ nat (- k)))"
| "double_add (DInf s) (DFinite t n f) = DInf s"
| "double_add (DFinite s m e) (DInf t) = DInf t"
| "double_add (DInf s) (DInf t) = (if s = t then DInf s else DNaN)"
| "double_add DNaN y = DNaN"
| "double_add x DNaN = DNaN"

fun double_le :: "double \<Rightarrow> double \<Rightarrow> bool" where
  "double_le (DFinite s m e) (DFinite t n f) \<longleftrightarrow>
     signed s m * 2 ^ nat (e - min e f) \<le> signed t n * 2 ^ nat (f - min e f)"
| "double_le (DInf s) (DFinite t n f) \<longleftrightarrow> s"
| "double_le (DFinite s m e) (DInf t) \<longleftrightarrow> \<not> t"
| "double_le (DInf s) (DInf t) \<longleftrightarrow> s \<or> \<not> t"
| "double_le DNaN y \<longleftrightarrow> False"
| "double_le x DNaN \<longleftrightarrow> False"

definition double_is_pos :: "double \<Rightarrow> bool" where
  "double_is_pos d = (case d of DFinite s m e \<Rightarrow> \<not> s \<and> m \<noteq> 0 | DInf s \<Rightarrow> \<not> s | DNaN \<Rightarrow> False)"

end
