(* ===== verification/Json.thy ===== *)
theory Json
  imports Globals StdMap Doubles
begin

text \<open>
  What the program uses of \<open>rapidjson\<close>'s \<open>GenericValue\<close> (the accessors with their
  assertions) and \<open>etcd_reply.hpp\<close>, the reading of a reply of etcd.  The parser of the text
  is a parameter \<open>parse\<close>; a text that is not JSON leaves the document null, as
  \<open>Document::Parse\<close> does.  A failed assertion is the value \<open>AssertFailed\<close>, which aborts
  the program: no handler of the code catches it.
\<close>

section \<open>Values\<close>

datatype json =
    JNull
  | JBool bool
  | JInt int
  | JDouble double
  | JString string
  | JArray "json list"
  | JObject "(string \<times> json) list"

text \<open>A C string ends at its first NUL.\<close>

definition c_str :: "string \<Rightarrow> string" where
  "c_str s = takeWhile (\<lambda>c. c \<noteq> CHR 0x00) s"

definition FindMember :: "string \<Rightarrow> json \<Rightarrow> exn + json option" where
  "FindMember name v =
     (case v of
        JObject ms \<Rightarrow> Inr (map_option snd (List.find (\<lambda>m. fst m = name) ms))
      | _ \<Rightarrow> Inl AssertFailed)"

definition HasMember :: "string \<Rightarrow> json \<Rightarrow> exn + bool" where
  "HasMember name v = map_sum id (\<lambda>m. m \<noteq> None) (FindMember name v)"

definition at_member :: "string \<Rightarrow> json \<Rightarrow> exn + json" where
  "at_member name v =
     (case FindMember name v of
        Inl e \<Rightarrow> Inl e
      | Inr None \<Rightarrow> Inl AssertFailed
      | Inr (Some m) \<Rightarrow> Inr m)"

definition GetBool :: "json \<Rightarrow> exn + bool" where
  "GetBool v = (case v of JBool b \<Rightarrow> Inr b | _ \<Rightarrow> Inl AssertFailed)"

definition GetInt :: "json \<Rightarrow> exn + int" where
  "GetInt v = (case v of JInt i \<Rightarrow> if - (2 ^ 31) \<le> i \<and> i < 2 ^ 31 then Inr i else Inl AssertFailed
                       | _ \<Rightarrow> Inl AssertFailed)"

definition GetUint64 :: "json \<Rightarrow> exn + u64" where
  "GetUint64 v = (case v of JInt i \<Rightarrow> if 0 \<le> i \<and> i < 2 ^ 64 then Inr (word_of_int i) else Inl AssertFailed
                          | _ \<Rightarrow> Inl AssertFailed)"

definition GetString :: "json \<Rightarrow> exn + string" where
  "GetString v = (case v of JString s \<Rightarrow> Inr (c_str s) | _ \<Rightarrow> Inl AssertFailed)"

definition member_string :: "string \<Rightarrow> json \<Rightarrow> exn + string" where
  "member_string name v = (case at_member name v of Inl e \<Rightarrow> Inl e | Inr m \<Rightarrow> GetString m)"

section \<open>The reply of etcd\<close>

datatype Action =
    A_SET | A_GET | A_DELETE | A_UPDATE | A_CREATE | A_COMPARE_AND_SWAP | A_COMPARE_AND_DELETE
  | A_EXPIRE | A_UNKNOWN

definition ResponseActionMap :: "string \<rightharpoonup> Action" where
  "ResponseActionMap = map_of
     [(''set'', A_SET), (''get'', A_GET), (''delete'', A_DELETE), (''update'', A_UPDATE),
      (''create'', A_CREATE), (''compareAndSwap'', A_COMPARE_AND_SWAP),
      (''compareAndDelete'', A_COMPARE_AND_DELETE), (''expire'', A_EXPIRE)]"

definition kErrorCode :: string where "kErrorCode = ''errorCode''"
definition kMessage :: string where "kMessage = ''message''"
definition kCause :: string where "kCause = ''cause''"
definition kNode :: string where "kNode = ''node''"
definition kModifiedIndex :: string where "kModifiedIndex = ''modifiedIndex''"
definition kNodes :: string where "kNodes = ''nodes''"
definition kDir :: string where "kDir = ''dir''"
definition kKey :: string where "kKey = ''key''"
definition kValue :: string where "kValue = ''value''"
definition kAction :: string where "kAction = ''action''"

lemmas member_names = kErrorCode_def kMessage_def kCause_def kNode_def kModifiedIndex_def
  kNodes_def kDir_def kKey_def kValue_def kAction_def

record RapidReply =
  document :: json
  reply_header :: string

type_synonym KvPairs = "(string, string) std_map"

text \<open>The arguments of the exception may be evaluated in any order: each that fails aborts.\<close>

definition CheckError :: "json \<Rightarrow> exn + unit" where
  "CheckError doc =
     (case HasMember kErrorCode doc of
        Inl e \<Rightarrow> Inl e
      | Inr False \<Rightarrow> Inr ()
      | Inr True \<Rightarrow>
          (case at_member kErrorCode doc of Inl e \<Rightarrow> Inl e | Inr c \<Rightarrow>
           case GetInt c of Inl e \<Rightarrow> Inl e | Inr code \<Rightarrow>
           case member_string kMessage doc of Inl e \<Rightarrow> Inl e | Inr msg \<Rightarrow>
           case member_string kCause doc of Inl e \<Rightarrow> Inl e | Inr cause \<Rightarrow>
           Inl (ReplyException code msg cause)))"

definition RapidReply_new :: "(string \<Rightarrow> json) \<Rightarrow> string \<Rightarrow> string \<Rightarrow> exn + RapidReply" where
  "RapidReply_new parse header reply =
     (let doc = parse (c_str reply)
      in map_sum id (\<lambda>_. \<lparr>document = doc, reply_header = header\<rparr>) (CheckError doc))"

definition GetAction :: "RapidReply \<Rightarrow> exn + Action" where
  "GetAction r =
     (case HasMember kAction (document r) of
        Inl e \<Rightarrow> Inl e
      | Inr False \<Rightarrow> Inr A_UNKNOWN
      | Inr True \<Rightarrow>
          (case member_string kAction (document r) of
             Inl e \<Rightarrow> Inl e
           | Inr a \<Rightarrow> Inr (case ResponseActionMap a of None \<Rightarrow> A_UNKNOWN | Some x \<Rightarrow> x)))"

definition GetModifiedIndex :: "RapidReply \<Rightarrow> exn + u64" where
  "GetModifiedIndex r =
     (case HasMember kNode (document r) of
        Inl e \<Rightarrow> Inl e
      | Inr False \<Rightarrow> Inl (RuntimeError ''possibly timed out'')
      | Inr True \<Rightarrow>
          (case at_member kNode (document r) of Inl e \<Rightarrow> Inl e | Inr node \<Rightarrow>
           case HasMember kModifiedIndex node of
             Inl e \<Rightarrow> Inl e
           | Inr False \<Rightarrow> Inl (RuntimeError ''possibly timed out'')
           | Inr True \<Rightarrow>
               (case at_member kModifiedIndex node of Inl e \<Rightarrow> Inl e | Inr i \<Rightarrow> GetUint64 i)))"

section \<open>The pairs of a tree\<close>

definition is_dir :: "json \<Rightarrow> exn + bool" where
  "is_dir doc =
     (case HasMember kDir doc of
        Inl e \<Rightarrow> Inl e
      | Inr False \<Rightarrow> Inr False
      | Inr True \<Rightarrow> (case at_member kDir doc of Inl e \<Rightarrow> Inl e | Inr d \<Rightarrow> GetBool d))"

text \<open>\<open>emplace\<close> keeps the value a key already has.\<close>

definition emplace_leaf :: "json \<Rightarrow> KvPairs \<Rightarrow> exn + KvPairs" where
  "emplace_leaf doc kv =
     (case HasMember kKey doc of
        Inl e \<Rightarrow> Inl e
      | Inr False \<Rightarrow> Inr kv
      | Inr True \<Rightarrow>
          (case HasMember kValue doc of Inl e \<Rightarrow> Inl e | Inr hv \<Rightarrow>
           case member_string kKey doc of Inl e \<Rightarrow> Inl e | Inr k \<Rightarrow>
           case (if hv then member_string kValue doc else Inr '''') of Inl e \<Rightarrow> Inl e | Inr v \<Rightarrow>
           Inr (std_insert k v kv)))"

text \<open>The array of the member \<open>nodes\<close>: no such member is no children.\<close>

definition nodes_of :: "json \<Rightarrow> exn + json list" where
  "nodes_of doc =
     (case HasMember kNodes doc of
        Inl e \<Rightarrow> Inl e
      | Inr False \<Rightarrow> Inr []
      | Inr True \<Rightarrow>
          (case at_member kNodes doc of
             Inl e \<Rightarrow> Inl e
           | Inr (JArray ns) \<Rightarrow> Inr ns
           | Inr _ \<Rightarrow> Inl AssertFailed))"

lemma size_find: "List.find P ms = Some (k, v) \<Longrightarrow> size v < Suc (size_list (size_prod (\<lambda>_. 0) size) ms)"
  by (induction ms) (auto split: if_splits)

lemma size_nodes_of:
  "nodes_of doc = Inr ns \<Longrightarrow> size_list size ns < size doc"
  by (cases doc)
     (auto simp: nodes_of_def HasMember_def at_member_def FindMember_def
       dest!: size_find split: if_splits option.splits json.splits bool.splits sum.splits)

function GetAll_node :: "json \<Rightarrow> KvPairs \<Rightarrow> exn + KvPairs" and
  GetAll_nodes :: "json list \<Rightarrow> KvPairs \<Rightarrow> exn + KvPairs" where
  "GetAll_node doc kv =
     (case is_dir doc of
        Inl e \<Rightarrow> Inl e
      | Inr False \<Rightarrow> emplace_leaf doc kv
      | Inr True \<Rightarrow> (case nodes_of doc of Inl e \<Rightarrow> Inl e | Inr ns \<Rightarrow> GetAll_nodes ns kv))"
| "GetAll_nodes [] kv = Inr kv"
| "GetAll_nodes (n # ns) kv =
     (case GetAll_node n kv of Inl e \<Rightarrow> Inl e | Inr kv' \<Rightarrow> GetAll_nodes ns kv')"
  by pat_completeness auto
termination
  by (relation "measure (\<lambda>x. case x of Inl (doc, _) \<Rightarrow> size doc | Inr (ns, _) \<Rightarrow> size_list size ns)")
     (auto dest: size_nodes_of)

declare GetAll_node.simps [simp del]

text \<open>The test for the node at the top does nothing: without a node the lookup asserts.\<close>

definition GetAll :: "RapidReply \<Rightarrow> KvPairs \<Rightarrow> exn + KvPairs" where
  "GetAll r kv =
     (case HasMember kNode (document r) of
        Inl e \<Rightarrow> Inl e
      | Inr _ \<Rightarrow>
          (case at_member kNode (document r) of Inl e \<Rightarrow> Inl e | Inr node \<Rightarrow> GetAll_node node kv))"

end
