(* ===== verification/Etcd.thy ===== *)
theory Etcd
  imports Json
begin

text \<open>
  \<open>etcd.hpp\<close> and \<open>etcd_helper.hpp\<close>: the client of the configuration store.  \<open>libcurl\<close>
  and the server behind it are the parameter \<open>perform\<close>: from a request and the state of the
  world it gives the pieces of the header and of the body that curl hands to the callbacks,
  and its error code.  The options curl is given never fail to be set.  What a caught
  exception says about itself (\<open>what()\<close> of the code returns a pointer into a string that is
  gone) is the parameter \<open>what\<close>.
\<close>

section \<open>The wrapper of curl\<close>

record request =
  req_custom :: "string option"
  req_url :: string
  req_fields :: "string option"

record answer =
  ans_header :: "string list"
  ans_body :: "string list"
  ans_code :: nat

type_synonym 'w server = "request \<Rightarrow> 'w \<Rightarrow> answer \<times> 'w"

record Curl =
  write_stream :: string
  header_stream :: string
  enable_header :: bool

definition Curl_new :: Curl where
  "Curl_new = \<lparr>write_stream = [], header_stream = [], enable_header = False\<rparr>"

definition EnableHeader :: "bool \<Rightarrow> Curl \<Rightarrow> Curl" where
  "EnableHeader b c = c\<lparr>enable_header := b\<rparr>"

definition GetHeader :: "Curl \<Rightarrow> string" where
  "GetHeader c = header_stream c"

definition WriteCb :: "string \<Rightarrow> Curl \<Rightarrow> Curl" where
  "WriteCb piece c = c\<lparr>write_stream := write_stream c @ piece\<rparr>"

definition HeaderCb :: "string \<Rightarrow> Curl \<Rightarrow> Curl" where
  "HeaderCb piece c = c\<lparr>header_stream := header_stream c @ piece\<rparr>"

definition SetCommonOptions :: "Curl \<Rightarrow> Curl" where
  "SetCommonOptions c =
     (let c1 = c\<lparr>write_stream := []\<rparr>
      in if enable_header c1 then c1\<lparr>header_stream := []\<rparr> else c1)"

definition CurlError :: "nat \<Rightarrow> exn + unit" where
  "CurlError code = (if code \<noteq> 0 then Inl (RuntimeError ''Failed easy perform'') else Inr ())"

text \<open>The header callback is installed only when headers are enabled.\<close>

definition easy_perform :: "'w server \<Rightarrow> request \<Rightarrow> Curl \<Rightarrow> 'w \<Rightarrow> (exn + string) \<times> Curl \<times> 'w" where
  "easy_perform perform rq c w =
     (let (a, w') = perform rq w;
          c1 = (if enable_header c then fold HeaderCb (ans_header a) c else c);
          c2 = fold WriteCb (ans_body a) c1
      in (map_sum id (\<lambda>_. write_stream c2) (CurlError (ans_code a)), c2, w'))"

definition Curl_Get :: "'w server \<Rightarrow> string \<Rightarrow> Curl \<Rightarrow> 'w \<Rightarrow> (exn + string) \<times> Curl \<times> 'w" where
  "Curl_Get perform url c w =
     easy_perform perform \<lparr>req_custom = None, req_url = url, req_fields = None\<rparr> (SetCommonOptions c) w"

text \<open>\<open>CurlOptions\<close> is a map: the fields are written in the order of their names.\<close>

type_synonym CurlOptions = "(string, string) std_map"

definition post_fields :: "CurlOptions \<Rightarrow> string" where
  "post_fields options = concat (map (\<lambda>(k, v). k @ ''='' @ v @ '';'') options)"

definition SetPostOptions :: "string \<Rightarrow> string \<Rightarrow> CurlOptions \<Rightarrow> request" where
  "SetPostOptions url ty options =
     (let opts = post_fields options
      in \<lparr>req_custom = Some ty, req_url = url, req_fields = (if opts = [] then None else Some opts)\<rparr>)"

definition Curl_Set ::
    "'w server \<Rightarrow> string \<Rightarrow> string \<Rightarrow> CurlOptions \<Rightarrow> Curl \<Rightarrow> 'w \<Rightarrow> (exn + string) \<times> Curl \<times> 'w" where
  "Curl_Set perform url ty options c w =
     easy_perform perform (SetPostOptions url ty options) (SetCommonOptions c) w"

definition curl_options :: "(string \<times> string) list \<Rightarrow> CurlOptions" where
  "curl_options kvs = std_insert_all kvs []"

section \<open>The client\<close>

text \<open>\<open>enable_header_\<close> of the client is never set: \<open>header0\<close> is what the memory held.\<close>

record Client =
  client_header :: bool
  url_prefix :: string
  handle :: Curl

definition Client_new :: "bool \<Rightarrow> string \<Rightarrow> u16 \<Rightarrow> Client" where
  "Client_new header0 server port =
     \<lparr>client_header = header0,
      url_prefix = ''http://'' @ server @ '':'' @ digits (unat port) @ ''/v2/keys'',
      handle = Curl_new\<rparr>"

definition GetReply :: "(string \<Rightarrow> json) \<Rightarrow> Client \<Rightarrow> string \<Rightarrow> exn + RapidReply" where
  "GetReply parse c text =
     (if client_header c then RapidReply_new parse (GetHeader (handle c)) text
      else RapidReply_new parse [] text)"

text \<open>The frame of every operation: an exception of the request becomes a \<open>ClientException\<close>.\<close>

definition client_reply ::
    "string \<Rightarrow> (string \<Rightarrow> json) \<Rightarrow> Client \<Rightarrow> (exn + string) \<times> Curl \<times> 'w \<Rightarrow>
     (exn + RapidReply) \<times> Client \<times> 'w" where
  "client_reply what parse c r =
     (case r of (ret, h, w) \<Rightarrow>
        let c' = c\<lparr>handle := h\<rparr>
        in (case ret of
              Inl e \<Rightarrow> (Inl (ClientException what), c', w)
            | Inr text \<Rightarrow> (GetReply parse c' text, c', w)))"

definition client_get ::
    "string \<Rightarrow> (string \<Rightarrow> json) \<Rightarrow> 'w server \<Rightarrow> string \<Rightarrow> Client \<Rightarrow> 'w \<Rightarrow> (exn + RapidReply) \<times> Client \<times> 'w"
where
  "client_get what parse perform url c w =
     client_reply what parse c (Curl_Get perform (url_prefix c @ url) (handle c) w)"

definition client_set ::
    "string \<Rightarrow> (string \<Rightarrow> json) \<Rightarrow> 'w server \<Rightarrow> string \<Rightarrow> string \<Rightarrow> (string \<times> string) list \<Rightarrow> Client \<Rightarrow> 'w \<Rightarrow>
     (exn + RapidReply) \<times> Client \<times> 'w" where
  "client_set what parse perform url ty opts c w =
     client_reply what parse c
       (Curl_Set perform (url_prefix c @ url) ty (curl_options opts) (handle c) w)"

definition kPutRequest :: string where "kPutRequest = ''PUT''"
definition kPostRequest :: string where "kPostRequest = ''POST''"
definition kDeleteRequest :: string where "kDeleteRequest = ''DELETE''"
definition kTttl :: string where "kTttl = ''ttl''"
definition kPrevExist :: string where "kPrevExist = ''prevExist''"
definition kPrevIndex :: string where "kPrevIndex = ''prevIndex''"
definition kPrevValue :: string where "kPrevValue = ''prevValue''"
definition kSortedSuffix :: string where "kSortedSuffix = ''?recursive=true&sorted=true''"

definition Client_Set where
  "Client_Set what parse perform key value =
     client_set what parse perform key kPutRequest [(kValue, value)]"

definition Client_Set_ttl where
  "Client_Set_ttl what parse perform key value (ttl :: u64) =
     client_set what parse perform key kPutRequest [(kValue, value), (kTttl, digits (unat ttl))]"

definition Client_ClearTtl where
  "Client_ClearTtl what parse perform key value =
     client_set what parse perform key kPutRequest
       [(kValue, value), (kTttl, ''''), (kPrevExist, ''true'')]"

definition Client_SetOrdered where
  "Client_SetOrdered what parse perform dir value =
     client_set what parse perform dir kPostRequest [(kValue, value)]"

definition Client_Get where
  "Client_Get what parse perform key = client_get what parse perform key"

definition Client_GetAll where
  "Client_GetAll what parse perform key = client_get what parse perform (key @ ''?recursive=true'')"

definition Client_GetOrdered where
  "Client_GetOrdered what parse perform dir = client_get what parse perform (dir @ kSortedSuffix)"

definition Client_Delete where
  "Client_Delete what parse perform key = client_set what parse perform key kDeleteRequest []"

definition Client_AddDirectory where
  "Client_AddDirectory what parse perform dir =
     client_set what parse perform dir kPutRequest [(kDir, ''true'')]"

definition Client_AddDirectory_ttl where
  "Client_AddDirectory_ttl what parse perform dir (ttl :: u64) =
     client_set what parse perform dir kPutRequest [(kDir, ''true''), (kTttl, digits (unat ttl))]"

definition Client_UpdateDirectoryTtl where
  "Client_UpdateDirectoryTtl what parse perform dir (ttl :: u64) =
     client_set what parse perform dir kPutRequest
       [(kDir, ''true''), (kTttl, digits (unat ttl)), (kPrevExist, ''true'')]"

definition Client_DeleteDirectory where
  "Client_DeleteDirectory what parse perform dir recursive =
     client_set what parse perform
       (dir @ ''?dir=true'' @ (if recursive then ''&recursive=true'' else [])) kDeleteRequest []"

definition Client_CompareAndSwap_value where
  "Client_CompareAndSwap_value what parse perform key value prevValue =
     client_set what parse perform (key @ ''?'' @ kPrevValue @ ''='' @ prevValue) kPutRequest
       [(kValue, value)]"

definition Client_CompareAndSwap_index where
  "Client_CompareAndSwap_index what parse perform key value (prevIndex :: u64) =
     client_set what parse perform (key @ ''?'' @ kPrevIndex @ ''='' @ digits (unat prevIndex)) kPutRequest
       [(kValue, value)]"

definition Client_CompareAndSwap_exist where
  "Client_CompareAndSwap_exist what parse perform key value prevExist =
     client_set what parse perform
       (key @ ''?'' @ kPrevExist @ ''='' @ (if prevExist then ''true'' else ''false'')) kPutRequest
       [(kValue, value)]"

definition Client_CompareAndDelete_value where
  "Client_CompareAndDelete_value what parse perform key prevValue =
     client_set what parse perform (key @ ''?'' @ kPrevValue @ ''='' @ prevValue) kDeleteRequest []"

definition Client_CompareAndDelete_index where
  "Client_CompareAndDelete_index what parse perform key (prevIndex :: u64) =
     client_set what parse perform (key @ ''?'' @ kPrevIndex @ ''='' @ digits (unat prevIndex))
       kDeleteRequest []"

section \<open>The helper\<close>

text \<open>\<open>pairs[path]\<close> of a key that is missing is the empty string.\<close>

definition pairs_at :: "string \<Rightarrow> RapidReply \<Rightarrow> exn + string" where
  "pairs_at path r =
     (case GetAll r [] of
        Inl e \<Rightarrow> Inl e
      | Inr kv \<Rightarrow> Inr (case map_of kv path of None \<Rightarrow> '''' | Some v \<Rightarrow> v))"

definition helper_get ::
    "string \<Rightarrow> (string \<Rightarrow> json) \<Rightarrow> 'w server \<Rightarrow> string \<Rightarrow> Client \<Rightarrow> 'w \<Rightarrow> (exn + string) \<times> Client \<times> 'w" where
  "helper_get what parse perform path c w =
     (case Client_Get what parse perform path c w of
        (Inl e, c', w') \<Rightarrow> (Inl e, c', w')
      | (Inr r, c', w') \<Rightarrow> (pairs_at path r, c', w'))"

record etcd_helper =
  hclient :: Client
  basep :: string

definition etcd_get ::
    "string \<Rightarrow> (string \<Rightarrow> json) \<Rightarrow> 'w server \<Rightarrow> string \<Rightarrow> bool \<Rightarrow> etcd_helper \<Rightarrow> 'w \<Rightarrow>
     (exn + string) \<times> etcd_helper \<times> 'w" where
  "etcd_get what parse perform path is_abs h w =
     (let abs_path = (if \<not> is_abs then basep h @ ''/'' @ path else path)
      in case helper_get what parse perform abs_path (hclient h) w of
           (r, c, w') \<Rightarrow> (r, h\<lparr>hclient := c\<rparr>, w'))"

definition etcd_write ::
    "string \<Rightarrow> (string \<Rightarrow> json) \<Rightarrow> 'w server \<Rightarrow> string \<Rightarrow> string \<Rightarrow> bool \<Rightarrow> etcd_helper \<Rightarrow> 'w \<Rightarrow>
     (exn + unit) \<times> etcd_helper \<times> 'w" where
  "etcd_write what parse perform path value is_abs h w =
     (let abs_path = (if is_abs then basep h @ ''/'' @ path else path)
      in case Client_Set what parse perform abs_path value (hclient h) w of
           (r, c, w') \<Rightarrow> (map_sum id (\<lambda>_. ()) r, h\<lparr>hclient := c\<rparr>, w'))"

end
