(* ===== verification/Watch.thy ===== *)
theory Watch
  imports Etcd
begin

text \<open>
  \<open>etcd::Watch\<close>: waiting for changes of a directory with long polls, and calling back with
  every reply.  The callback is a function on the state of its owner that may throw.  A round
  of the loop of \<open>Run\<close> is \<open>watch_round\<close>; the loop itself may run forever, so it is a partial
  function.  Failed assertions and undefined behaviour are not exceptions: they end the run.
\<close>

section \<open>State\<close>

definition MAX_FAILURES :: nat where "MAX_FAILURES = 5"

record Watch =
  prev_index :: u64
  wurl_prefix :: string
  whandle :: Curl

definition Watch_new :: "string \<Rightarrow> u16 \<Rightarrow> Watch" where
  "Watch_new server port =
     \<lparr>prev_index = 0, wurl_prefix = ''http://'' @ server @ '':'' @ digits (unat port) @ ''/v2/keys'',
      whandle = Curl_new\<rparr>"

text \<open>The watch with the locals of \<open>Run\<close>, the owner of the callback and the world.\<close>

record ('u, 'w) watching =
  watch :: Watch
  watch_url :: string
  max_failures :: nat
  owner :: 'u
  world :: 'w

type_synonym 'u callback = "RapidReply \<Rightarrow> 'u \<Rightarrow> (exn + unit) \<times> 'u"

definition catchable :: "exn \<Rightarrow> bool" where
  "catchable e \<longleftrightarrow> e \<noteq> AssertFailed \<and> e \<noteq> UndefinedBehaviour"

definition watch_url_base :: "Watch \<Rightarrow> string \<Rightarrow> string" where
  "watch_url_base wt key = wurl_prefix wt @ key @ ''?wait=true''"

definition wait_url_base :: "Watch \<Rightarrow> string \<Rightarrow> string" where
  "wait_url_base wt key = watch_url_base wt key @ ''&waitIndex=''"

definition recursive_suffix :: "bool \<Rightarrow> string" where
  "recursive_suffix recursive = (if recursive then ''&recursive=true'' else [])"

definition next_index_text :: "u64 \<Rightarrow> string" where
  "next_index_text i = digits (unat (i + 1))"

definition watch_start ::
    "string \<Rightarrow> bool \<Rightarrow> u64 \<Rightarrow> Watch \<Rightarrow> 'u \<Rightarrow> 'w \<Rightarrow> ('u, 'w) watching" where
  "watch_start key recursive prevIndex wt u w =
     (let wt' = (if prevIndex \<noteq> 0 then wt\<lparr>prev_index := prevIndex\<rparr> else wt);
          base = watch_url_base wt key;
          url = (if prevIndex \<noteq> 0 then base @ next_index_text (prev_index wt')
                 else if prev_index wt' \<noteq> 0 then base @ next_index_text (prev_index wt')
                 else base)
      in \<lparr>watch = wt', watch_url = url @ recursive_suffix recursive, max_failures = MAX_FAILURES,
          owner = u, world = w\<rparr>)"

section \<open>The body of the loop\<close>

definition watching_get ::
    "'w server \<Rightarrow> string \<Rightarrow> ('u, 'w) watching \<Rightarrow> (exn + string) \<times> ('u, 'w) watching" where
  "watching_get perform url st =
     (case Curl_Get perform url (whandle (watch st)) (world st) of
        (r, c, w) \<Rightarrow> (r, st\<lparr>watch := (watch st)\<lparr>whandle := c\<rparr>, world := w\<rparr>))"

text \<open>The callback with a reply: what it throws, and the reply it was called with.\<close>

definition call_back ::
    "(string \<Rightarrow> json) \<Rightarrow> 'u callback \<Rightarrow> string \<Rightarrow> ('u, 'w) watching \<Rightarrow> (exn + RapidReply) \<times> ('u, 'w) watching"
where
  "call_back parse callback text st =
     (case RapidReply_new parse [] text of
        Inl e \<Rightarrow> (Inl e, st)
      | Inr r \<Rightarrow> (case callback r (owner st) of (res, u) \<Rightarrow> (map_sum id (\<lambda>_. r) res, st\<lparr>owner := u\<rparr>)))"

definition watch_body ::
    "(string \<Rightarrow> json) \<Rightarrow> 'w server \<Rightarrow> 'u callback \<Rightarrow> string \<Rightarrow> bool \<Rightarrow> ('u, 'w) watching \<Rightarrow>
     (exn + unit) \<times> ('u, 'w) watching" where
  "watch_body parse perform callback key recursive st =
     (case watching_get perform (watch_url st) st of
        (Inl e, st1) \<Rightarrow> (Inl e, st1)
      | (Inr text, st1) \<Rightarrow>
          (case call_back parse callback text st1 of
             (Inl e, st2) \<Rightarrow> (Inl e, st2)
           | (Inr r, st2) \<Rightarrow>
               (case GetModifiedIndex r of
                  Inl e \<Rightarrow> (Inl e, st2)
                | Inr i \<Rightarrow>
                    (Inr (), st2\<lparr>watch := (watch st2)\<lparr>prev_index := i\<rparr>,
                       watch_url := wait_url_base (watch st2) key @ next_index_text i
                                    @ recursive_suffix recursive,
                       max_failures := MAX_FAILURES\<rparr>))))"

section \<open>Out of date\<close>

text \<open>\<open>std::getline\<close> over the header: a last line without a newline is a line, an empty one is not.\<close>

fun lines_from :: "string \<Rightarrow> string \<Rightarrow> string list" where
  "lines_from acc [] = (if acc = [] then [] else [acc])"
| "lines_from acc (c # cs) =
     (if c = CHR 0x0A then acc # lines_from [] cs else lines_from (acc @ [c]) cs)"

fun contains :: "string \<Rightarrow> string \<Rightarrow> bool" where
  "contains p [] = (p = [])"
| "contains p (c # cs) = (take (length p) (c # cs) = p \<or> contains p cs)"

definition etcd_index_label :: string where
  "etcd_index_label = ''X-Etcd-Index: ''"

definition is_space :: "char \<Rightarrow> bool" where
  "is_space c \<longleftrightarrow> c \<in> {CHR '' '', CHR 0x09, CHR 0x0A, CHR 0x0B, CHR 0x0C, CHR 0x0D}"

definition stoi :: "string \<Rightarrow> exn + int" where
  "stoi s =
     (let t = dropWhile is_space s;
          neg = (case t of c # _ \<Rightarrow> c = CHR ''-'' | [] \<Rightarrow> False);
          d = (case t of c # cs \<Rightarrow> if c = CHR ''-'' \<or> c = CHR ''+'' then cs else t | [] \<Rightarrow> []);
          ds = takeWhile is_digit d
      in if ds = [] then Inl (RuntimeError ''stoi'')
         else let v = (if neg then - int (digits_value ds) else int (digits_value ds))
              in if - (2 ^ 31) \<le> v \<and> v < 2 ^ 31 then Inr v else Inl OutOfRange)"

text \<open>
  \<open>(pos = line.find(label) != npos)\<close> assigns the comparison, so \<open>pos\<close> is 1 when the label
  is found, wherever it stands; the text from \<open>pos + len - 1\<close> is the line without its first
  \<open>len\<close> characters.
\<close>

fun header_index :: "string list \<Rightarrow> exn + int option" where
  "header_index [] = Inr None"
| "header_index (line # ls) =
     (if contains etcd_index_label line
      then (let pos = 1 in map_sum id Some (stoi (drop (pos + length etcd_index_label - 1) line)))
      else header_index ls)"

definition watch_recover ::
    "(string \<Rightarrow> json) \<Rightarrow> 'w server \<Rightarrow> 'u callback \<Rightarrow> string \<Rightarrow> ('u, 'w) watching \<Rightarrow>
     (exn + unit) \<times> ('u, 'w) watching" where
  "watch_recover parse perform callback key st =
     (let st0 = st\<lparr>watch := (watch st)\<lparr>whandle := EnableHeader True (whandle (watch st))\<rparr>\<rparr>
      in case watching_get perform (wurl_prefix (watch st0) @ key) st0 of
           (Inl e, st1) \<Rightarrow> (Inl e, st1)
         | (Inr text, st1) \<Rightarrow>
             (case call_back parse callback text st1 of
                (Inl e, st2) \<Rightarrow> (Inl e, st2)
              | (Inr r, st2) \<Rightarrow>
                  (case header_index (lines_from [] (GetHeader (whandle (watch st2)))) of
                     Inl e \<Rightarrow> (Inl e, st2)
                   | Inr found \<Rightarrow>
                       (let i = (case found of None \<Rightarrow> prev_index (watch st2) | Some v \<Rightarrow> word_of_int v)
                        in (Inr (), st2\<lparr>watch := (watch st2)\<lparr>prev_index := i,
                              whandle := EnableHeader False (whandle (watch st2))\<rparr>,
                              watch_url := wait_url_base (watch st2) key @ next_index_text i\<rparr>)))))"

section \<open>The loop\<close>

definition failed_once :: "('u, 'w) watching \<Rightarrow> ('u, 'w) watching" where
  "failed_once st = st\<lparr>max_failures := max_failures st - 1\<rparr>"

definition watch_round ::
    "(string \<Rightarrow> json) \<Rightarrow> 'w server \<Rightarrow> 'u callback \<Rightarrow> string \<Rightarrow> bool \<Rightarrow> ('u, 'w) watching \<Rightarrow>
     (exn + unit) \<times> ('u, 'w) watching" where
  "watch_round parse perform callback key recursive st =
     (case watch_body parse perform callback key recursive st of
        (Inr _, st1) \<Rightarrow> (Inr (), st1)
      | (Inl e, st1) \<Rightarrow>
          (if \<not> catchable e then (Inl e, st1)
           else
             (case e of
                ReplyException code msg cause \<Rightarrow>
                  if code = 401 then
                    (case watch_recover parse perform callback key st1 of
                       (Inr _, st2) \<Rightarrow> (Inr (), failed_once st2)
                     | (Inl e', st2) \<Rightarrow>
                         if catchable e' then (Inr (), failed_once st2) else (Inl e', st2))
                  else (Inr (), failed_once st1)
              | _ \<Rightarrow> (Inr (), failed_once st1))))"

definition watch_gave_up :: exn where
  "watch_gave_up = ClientException ''watch failed or timedout''"

text \<open>The exception \<open>Run\<close> ends with, and the state then; it has no other way to end.\<close>

partial_function (option) Watch_loop ::
    "(string \<Rightarrow> json) \<Rightarrow> 'w server \<Rightarrow> 'u callback \<Rightarrow> string \<Rightarrow> bool \<Rightarrow> ('u, 'w) watching \<Rightarrow>
     (exn \<times> ('u, 'w) watching) option" where
  "Watch_loop parse perform callback key recursive st =
     (if max_failures st = 0 then Some (watch_gave_up, st)
      else case watch_round parse perform callback key recursive st of
             (Inl e, st') \<Rightarrow> Some (e, st')
           | (Inr _, st') \<Rightarrow> Watch_loop parse perform callback key recursive st')"

definition Watch_Run ::
    "(string \<Rightarrow> json) \<Rightarrow> 'w server \<Rightarrow> string \<Rightarrow> 'u callback \<Rightarrow> bool \<Rightarrow> u64 \<Rightarrow> Watch \<Rightarrow> 'u \<Rightarrow> 'w \<Rightarrow>
     (exn \<times> ('u, 'w) watching) option" where
  "Watch_Run parse perform key callback recursive prevIndex wt u w =
     Watch_loop parse perform callback key recursive (watch_start key recursive prevIndex wt u w)"

text \<open>A number of rounds of the loop, as far as it gets.\<close>

fun watch_rounds ::
    "nat \<Rightarrow> (string \<Rightarrow> json) \<Rightarrow> 'w server \<Rightarrow> 'u callback \<Rightarrow> string \<Rightarrow> bool \<Rightarrow> ('u, 'w) watching \<Rightarrow>
     (exn + unit) \<times> ('u, 'w) watching" where
  "watch_rounds 0 parse perform callback key recursive st = (Inr (), st)"
| "watch_rounds (Suc n) parse perform callback key recursive st =
     (if max_failures st = 0 then (Inl watch_gave_up, st)
      else case watch_round parse perform callback key recursive st of
             (Inl e, st') \<Rightarrow> (Inl e, st')
           | (Inr _, st') \<Rightarrow> watch_rounds n parse perform callback key recursive st')"

end
