(* ===== verification/JsonFacts.thy ===== *)
theory JsonFacts
  imports Json
begin

text \<open>
  What the reading of a reply gives, against an abstract tree of keys: \<open>etcd_node\<close> is a node
  of etcd's store and \<open>node_json\<close> the way the documentation of its API shows it in a reply.
\<close>

section \<open>The store and its replies\<close>

datatype etcd_node =
    Leaf string string int
  | Directory string "etcd_node list" int

fun node_json :: "etcd_node \<Rightarrow> json" where
  "node_json (Leaf k v i) =
     JObject [(kKey, JString k), (kValue, JString v), (kModifiedIndex, JInt i), (''createdIndex'', JInt i)]"
| "node_json (Directory k ns i) =
     JObject ([(kKey, JString k), (kDir, JBool True)]
       @ (if ns = [] then [] else [(kNodes, JArray (map node_json ns))])
       @ [(kModifiedIndex, JInt i), (''createdIndex'', JInt i)])"

fun node_index :: "etcd_node \<Rightarrow> int" where
  "node_index (Leaf k v i) = i"
| "node_index (Directory k ns i) = i"

fun leaves :: "etcd_node \<Rightarrow> (string \<times> string) list" where
  "leaves (Leaf k v i) = [(k, v)]"
| "leaves (Directory k ns i) = concat (map leaves ns)"

definition plain :: "string \<Rightarrow> bool" where
  "plain s \<longleftrightarrow> CHR 0x00 \<notin> set s"

definition plain_node :: "etcd_node \<Rightarrow> bool" where
  "plain_node n \<longleftrightarrow> (\<forall>(k, v)\<in>set (leaves n). plain k \<and> plain v)"

definition reply_json :: "string \<Rightarrow> etcd_node \<Rightarrow> json" where
  "reply_json action n = JObject [(kAction, JString action), (kNode, node_json n)]"

text \<open>An error of the store's interface: code, message, cause and the index of the store.\<close>

definition error_json :: "int \<Rightarrow> string \<Rightarrow> string \<Rightarrow> int \<Rightarrow> json" where
  "error_json code msg cause i =
     JObject [(kErrorCode, JInt code), (kMessage, JString msg), (kCause, JString cause), (''index'', JInt i)]"

lemma c_str_plain [simp]: "plain s \<Longrightarrow> c_str s = s"
  by (induction s) (auto simp: plain_def c_str_def)

lemmas json_access = FindMember_def HasMember_def at_member_def member_string_def GetString_def
  GetBool_def GetInt_def GetUint64_def member_names

section \<open>The pairs\<close>

lemma GetAll_leaf:
  "plain k \<Longrightarrow> plain v \<Longrightarrow> GetAll_node (node_json (Leaf k v i)) kv = Inr (std_insert k v kv)"
  by (simp add: GetAll_node.simps is_dir_def emplace_leaf_def json_access)

lemma GetAll_directory:
  "GetAll_node (node_json (Directory k ns i)) kv = GetAll_nodes (map node_json ns) kv"
  by (simp add: GetAll_node.simps is_dir_def nodes_of_def json_access)

lemma std_insert_all_append: "std_insert_all (xs @ ys) m = std_insert_all ys (std_insert_all xs m)"
  by (induction xs arbitrary: m) auto

lemma GetAll_node_leaves:
  "plain_node n \<Longrightarrow> GetAll_node (node_json n) kv = Inr (std_insert_all (leaves n) kv)"
proof (induction n arbitrary: kv)
  case (Leaf k v i)
  then show ?case by (simp add: plain_node_def GetAll_leaf del: node_json.simps)
next
  case (Directory k ns i)
  have "GetAll_nodes (map node_json ms) kv = Inr (std_insert_all (concat (map leaves ms)) kv)"
    if "set ms \<subseteq> set ns" for ms kv
    using that
  proof (induction ms arbitrary: kv)
    case (Cons m ms)
    have "plain_node m" using Cons.prems Directory.prems by (auto simp: plain_node_def)
    then show ?case
      using Cons Directory.IH [of m] by (simp add: std_insert_all_append)
  qed simp
  from this [of ns] show ?case by (simp only: GetAll_directory leaves.simps subset_refl)
qed

lemma reply_accepted:
  "CheckError (reply_json a n) = Inr ()"
  "HasMember kNode (reply_json a n) = Inr True"
  "at_member kNode (reply_json a n) = Inr (node_json n)"
  by (simp_all add: CheckError_def reply_json_def json_access)

lemma GetAll_reply:
  "document r = reply_json a n \<Longrightarrow> plain_node n \<Longrightarrow> GetAll r kv = Inr (std_insert_all (leaves n) kv)"
  by (simp add: GetAll_def reply_accepted GetAll_node_leaves)

lemma GetModifiedIndex_reply:
  assumes "document r = reply_json a n" and "0 \<le> node_index n" and "node_index n < 2 ^ 64"
  shows "GetModifiedIndex r = Inr (word_of_int (node_index n))"
  using assms
  by (cases n) (simp_all add: GetModifiedIndex_def reply_accepted, simp_all add: json_access)

lemma GetAction_reply:
  "document r = reply_json a n \<Longrightarrow> plain a \<Longrightarrow>
     GetAction r = Inr (case ResponseActionMap a of None \<Rightarrow> A_UNKNOWN | Some x \<Rightarrow> x)"
  by (simp add: GetAction_def reply_json_def json_access)

text \<open>
  C16. Refinement: reading all pairs of a reply flattens the tree of the store: for any tree
  whose keys and values have no NUL the result is the ordered map of its leaves, the first
  leaf of a key if one occurs twice; directories, empty ones included, add nothing.
\<close>

theorem GetAll_flattens:
  assumes "document r = reply_json a n" and "plain_node n"
  shows "\<exists>kv. GetAll r [] = Inr kv \<and> std_ok kv \<and> map_of kv = map_of (leaves n)"
  using assms by (simp add: GetAll_reply map_of_std_insert_all std_ok_insert_all)

definition demo_tree :: etcd_node where
  "demo_tree = Directory ''/hvbench'' [Leaf ''/hvbench/b'' ''2'' 5, Directory ''/hvbench/e'' [] 6,
     Directory ''/hvbench/d'' [Leaf ''/hvbench/d/a'' ''1'' 7] 7] 3"

lemma GetAll_flattens_witness:
  "\<exists>kv. GetAll \<lparr>document = reply_json ''get'' demo_tree, reply_header = []\<rparr> [] = Inr kv \<and>
     map_of kv ''/hvbench/d/a'' = Some ''1'' \<and> map_of kv ''/hvbench/e'' = None"
proof -
  have "plain_node demo_tree" by (simp add: plain_node_def demo_tree_def plain_def)
  with GetAll_flattens [where r = "\<lparr>document = reply_json ''get'' demo_tree, reply_header = []\<rparr>"
      and a = "''get''" and n = demo_tree]
  show ?thesis by (auto simp: demo_tree_def)
qed

lemma reply_error:
  "plain msg \<Longrightarrow> plain cause \<Longrightarrow> - (2 ^ 31) \<le> code \<Longrightarrow> code < 2 ^ 31 \<Longrightarrow>
    CheckError (error_json code msg cause i) = Inl (ReplyException code msg cause)"
  by (simp add: CheckError_def error_json_def json_access)

text \<open>
  Errors: every reply that has an error code is thrown as the exception with the code,
  message and cause of the reply, before the caller sees the reply; a text that is not a
  JSON object fails an assertion of \<open>rapidjson\<close> instead, which ends the program.
\<close>

theorem reply_errors_thrown:
  "(plain msg \<longrightarrow> plain cause \<longrightarrow> - (2 ^ 31) \<le> code \<longrightarrow> code < 2 ^ 31 \<longrightarrow>
      RapidReply_new (\<lambda>_. error_json code msg cause i) h t = Inl (ReplyException code msg cause)) \<and>
   ((\<nexists>ms. parse (c_str t) = JObject ms) \<longrightarrow> RapidReply_new parse h t = Inl AssertFailed)"
proof -
  have "CheckError v = Inl AssertFailed" if "\<nexists>ms. v = JObject ms" for v
    using that by (cases v) (simp_all add: CheckError_def HasMember_def FindMember_def)
  then show ?thesis by (simp add: RapidReply_new_def reply_error)
qed

lemma reply_errors_thrown_witness:
  "RapidReply_new (\<lambda>_. error_json 401 ''m'' ''c'' 7) '''' ''x'' = Inl (ReplyException 401 ''m'' ''c'') \<and>
   RapidReply_new (\<lambda>_. JNull) '''' '''' = Inl AssertFailed"
  using reply_errors_thrown [where msg = "''m''" and cause = "''c''" and code = 401 and i = 7 and h = "''''" and t = "''x''"
      and parse = "\<lambda>_. JNull"]
    reply_errors_thrown [where msg = "''m''" and cause = "''c''" and code = 401 and i = 7 and h = "''''" and t = "''''"
      and parse = "\<lambda>_. JNull"]
  by (simp add: plain_def)

end
