(* ===== verification/WatchFacts.thy ===== *)
theory WatchFacts
  imports Watch JsonFacts
begin

text \<open>
  Facts about watching: what a round does with an event, with a failure and when the index is
  out of date; which changes a run delivers, and how it ends.
\<close>

section \<open>Numbers in a header\<close>

lemma stoi_digits:
  assumes "n < 2 ^ 31" and "rest = [] \<or> \<not> is_digit (hd rest)"
  shows "stoi (digits n @ rest) = Inr (int n)"
proof -
  obtain c cs where d: "digits n = c # cs" and c: "is_digit c" using digits_head by blast
  have ns: "\<not> is_space c" "c \<noteq> CHR ''-''" "c \<noteq> CHR ''+''"
    using c by (auto simp: is_digit_def is_space_def)
  note tw = takeWhile_digits [OF assms(2), of n]
  have dw: "dropWhile is_space (digits n @ rest) = digits n @ rest"
    using ns(1) by (simp add: d)
  show ?thesis
    using assms(1) tw ns digits_value_digits [of n] unfolding stoi_def Let_def dw by (simp add: d)
qed

lemma lines_from_append:
  "CHR 0x0A \<notin> set l \<Longrightarrow> lines_from acc (l @ CHR 0x0A # r) = (acc @ l) # lines_from [] r"
  by (induction l arbitrary: acc) auto

lemma lines_from_lines:
  "\<forall>l\<in>set ls. CHR 0x0A \<notin> set l \<Longrightarrow> lines_from [] (concat (map (\<lambda>l. l @ [CHR 0x0A]) ls)) = ls"
  by (induction ls) (auto simp: lines_from_append)

lemma contains_prefix [simp]: "contains p (p @ s)"
proof (cases "p @ s")
  case (Cons c cs)
  then have "take (length p) (c # cs) = p" by (metis append_eq_conv_conj)
  then show ?thesis by (simp add: Cons)
qed simp

lemma header_index_skip:
  "\<forall>l\<in>set ls. \<not> contains etcd_index_label l \<Longrightarrow> header_index (ls @ ms) = header_index ms"
  by (induction ls) auto

lemma header_index_found:
  assumes "\<forall>l\<in>set ls. \<not> contains etcd_index_label l" and "n < 2 ^ 31"
  shows "header_index (ls @ (etcd_index_label @ digits n @ [CHR 0x0D]) # ms) = Inr (Some (int n))"
  using assms stoi_digits [where n = n and rest = "[CHR 0x0D]"]
  by (simp add: header_index_skip is_digit_def)

section \<open>Requests\<close>

lemma fold_WriteCb [simp]:
  "fold WriteCb ps c = c\<lparr>write_stream := write_stream c @ concat ps\<rparr>"
  by (induction ps arbitrary: c) (auto simp: WriteCb_def)

lemma fold_HeaderCb [simp]:
  "fold HeaderCb ps c = c\<lparr>header_stream := header_stream c @ concat ps\<rparr>"
  by (induction ps arbitrary: c) (auto simp: HeaderCb_def)

abbreviation get_request :: "string \<Rightarrow> request" where
  "get_request url \<equiv> \<lparr>req_custom = None, req_url = url, req_fields = None\<rparr>"

lemma Curl_Get_ok:
  assumes "perform (get_request url) w = (a, w')" and "ans_code a = 0"
  obtains c' where "Curl_Get perform url c w = (Inr (concat (ans_body a)), c', w')"
    and "enable_header c' = enable_header c"
    and "enable_header c \<Longrightarrow> header_stream c' = concat (ans_header a)"
  using that assms
  by (simp add: Curl_Get_def easy_perform_def SetCommonOptions_def CurlError_def Let_def split: if_splits)

lemma Curl_Get_failed:
  assumes "perform (get_request url) w = (a, w')" and "ans_code a \<noteq> 0"
  obtains c' where "Curl_Get perform url c w = (Inl (RuntimeError ''Failed easy perform''), c', w')"
    and "enable_header c' = enable_header c"
  using that assms
  by (simp add: Curl_Get_def easy_perform_def SetCommonOptions_def CurlError_def Let_def split: if_splits)

section \<open>A round\<close>

definition reply_of :: "(string \<Rightarrow> json) \<Rightarrow> string \<Rightarrow> RapidReply" where
  "reply_of parse text = \<lparr>document = parse (c_str text), reply_header = []\<rparr>"

text \<open>The text of a reply that reports a change of a node with the index \<open>j\<close>.\<close>

definition change_text :: "(string \<Rightarrow> json) \<Rightarrow> nat \<Rightarrow> string \<Rightarrow> bool" where
  "change_text parse j text \<longleftrightarrow>
     (\<exists>a n. parse (c_str text) = reply_json a n \<and> node_index n = int j) \<and> j < 2 ^ 64"

lemma change_text_reply:
  assumes "change_text parse j text"
  shows "RapidReply_new parse [] text = Inr (reply_of parse text)"
    and "GetModifiedIndex (reply_of parse text) = Inr (word_of_nat j)"
proof -
  obtain a n where n: "parse (c_str text) = reply_json a n" "node_index n = int j" and j: "j < 2 ^ 64"
    using assms by (auto simp: change_text_def)
  show "RapidReply_new parse [] text = Inr (reply_of parse text)"
    by (simp add: RapidReply_new_def reply_of_def n reply_accepted Let_def)
  have "int j < 2 ^ 64" using j by simp
  then show "GetModifiedIndex (reply_of parse text) = Inr (word_of_nat j)"
    using GetModifiedIndex_reply [of "reply_of parse text" a n] n by (simp add: reply_of_def)
qed

lemma watch_body_change:
  assumes "perform (get_request (watch_url st)) (world st) = (a, w')" and "ans_code a = 0"
    and "change_text parse j (concat (ans_body a))"
    and "callback (reply_of parse (concat (ans_body a))) (owner st) = (Inr (), u')"
  shows "\<exists>c'. watch_body parse perform callback key recursive st =
    (Inr (), st\<lparr>watch := (watch st)\<lparr>prev_index := word_of_nat j, whandle := c'\<rparr>,
       watch_url := wait_url_base (watch st) key @ next_index_text (word_of_nat j)
                    @ recursive_suffix recursive,
       max_failures := MAX_FAILURES, owner := u', world := w'\<rparr>)"
proof -
  obtain c' where c: "Curl_Get perform (watch_url st) (whandle (watch st)) (world st) =
      (Inr (concat (ans_body a)), c', w')"
    using Curl_Get_ok [where perform = perform, OF assms(1,2)] by blast
  show ?thesis
    using change_text_reply [OF assms(3)] assms(4)
    by (intro exI [of _ c'])
       (simp add: watch_body_def watching_get_def c call_back_def wait_url_base_def watch_url_base_def)
qed

lemma watch_body_failed:
  assumes "perform (get_request (watch_url st)) (world st) = (a, w')" and "ans_code a \<noteq> 0"
  shows "\<exists>c'. watch_body parse perform callback key recursive st =
    (Inl (RuntimeError ''Failed easy perform''),
     st\<lparr>watch := (watch st)\<lparr>whandle := c'\<rparr>, world := w'\<rparr>)"
proof -
  obtain c' where "Curl_Get perform (watch_url st) (whandle (watch st)) (world st) =
      (Inl (RuntimeError ''Failed easy perform''), c', w')"
    using Curl_Get_failed [where perform = perform, OF assms] by blast
  then show ?thesis
    by (intro exI [of _ c']) (simp add: watch_body_def watching_get_def)
qed

lemma watch_body_throws:
  assumes "perform (get_request (watch_url st)) (world st) = (a, w')" and "ans_code a = 0"
    and "change_text parse j (concat (ans_body a))"
    and "callback (reply_of parse (concat (ans_body a))) (owner st) = (Inl e, u')"
  shows "\<exists>c'. watch_body parse perform callback key recursive st =
    (Inl e, st\<lparr>watch := (watch st)\<lparr>whandle := c'\<rparr>, owner := u', world := w'\<rparr>)"
proof -
  obtain c' where c: "Curl_Get perform (watch_url st) (whandle (watch st)) (world st) =
      (Inr (concat (ans_body a)), c', w')"
    using Curl_Get_ok [where perform = perform, OF assms(1,2)] by blast
  show ?thesis
    using change_text_reply [OF assms(3)] assms(4)
    by (intro exI [of _ c']) (simp add: watch_body_def watching_get_def c call_back_def)
qed

definition plain_failure :: "exn \<Rightarrow> bool" where
  "plain_failure e \<longleftrightarrow> catchable e \<and> (\<forall>msg cause. e \<noteq> ReplyException 401 msg cause)"

lemma watch_round_failed:
  assumes "watch_body parse perform callback key recursive st = (Inl e, st1)" and "plain_failure e"
  shows "watch_round parse perform callback key recursive st = (Inr (), failed_once st1)"
  using assms by (cases e) (auto simp: watch_round_def plain_failure_def catchable_def)

section \<open>The owner of a watch\<close>

text \<open>
  The contract between a watch and the owner of its callback: what every call of the callback
  keeps, whether it returns or throws, any number of rounds keeps, whatever the server
  answers, recoveries included.
\<close>

locale watch_owner =
  fixes callback :: "'u callback"
    and inv :: "'u \<Rightarrow> bool"
  assumes keeps: "inv u \<Longrightarrow> callback r u = (res, u') \<Longrightarrow> inv u'"
begin

lemma get_owner: "watching_get perform url st = (res, st') \<Longrightarrow> owner st' = owner st"
  by (auto simp: watching_get_def split: prod.splits)

lemma call_back_inv:
  "inv (owner st) \<Longrightarrow> call_back parse callback t st = (res, st') \<Longrightarrow> inv (owner st')"
  using keeps by (auto simp: call_back_def split: sum.splits prod.splits)

lemma body_inv:
  assumes "inv (owner st)" and "watch_body parse perform callback key recursive st = (res, st')"
  shows "inv (owner st')"
proof -
  obtain r1 st1 where 1: "watching_get perform (watch_url st) st = (r1, st1)" by fastforce
  obtain r2 st2 where 2: "call_back parse callback (projr r1) st1 = (r2, st2)" by fastforce
  have "inv (owner st1)" using assms(1) get_owner [OF 1] by simp
  moreover from this have "inv (owner st2)" by (rule call_back_inv [OF _ 2])
  ultimately show ?thesis using assms(2) 1 2 by (auto simp: watch_body_def split: sum.splits)
qed

lemma recover_inv:
  assumes "inv (owner st)" and "watch_recover parse perform callback key st = (res, st')"
  shows "inv (owner st')"
proof -
  let ?st0 = "st\<lparr>watch := (watch st)\<lparr>whandle := EnableHeader True (whandle (watch st))\<rparr>\<rparr>"
  obtain r1 st1 where 1: "watching_get perform (wurl_prefix (watch st) @ key) ?st0 = (r1, st1)" by fastforce
  obtain r2 st2 where 2: "call_back parse callback (projr r1) st1 = (r2, st2)" by fastforce
  have "inv (owner st1)" using assms(1) get_owner [OF 1] by simp
  moreover from this have "inv (owner st2)" by (rule call_back_inv [OF _ 2])
  ultimately show ?thesis using assms(2) 1 2 by (auto simp: watch_recover_def Let_def split: sum.splits)
qed

lemma round_inv:
  assumes "inv (owner st)" and "watch_round parse perform callback key recursive st = (res, st')"
  shows "inv (owner st')"
proof -
  obtain r1 st1 where 1: "watch_body parse perform callback key recursive st = (r1, st1)" by fastforce
  obtain r2 st2 where 2: "watch_recover parse perform callback key st1 = (r2, st2)" by fastforce
  have 3: "inv (owner st1)" by (rule body_inv [OF assms(1) 1])
  have "inv (owner st2)" by (rule recover_inv [OF 3 2])
  with 3 show ?thesis
    using assms(2) 1 2 by (auto simp: watch_round_def failed_once_def split: sum.splits exn.splits if_splits)
qed

lemma rounds_inv:
  assumes "inv (owner st)" and "watch_rounds n parse perform callback key recursive st = (res, st')"
  shows "inv (owner st')"
  using assms
proof (induction n arbitrary: st)
  case (Suc n)
  then show ?case by (auto dest: round_inv split: sum.splits prod.splits if_splits)
qed simp

end

section \<open>Giving up\<close>

lemma watch_loop_gives_up:
  assumes fails: "\<And>st. P st \<Longrightarrow> max_failures st \<noteq> 0 \<Longrightarrow> \<exists>e st1. watch_body parse perform callback key recursive st = (Inl e, st1)
      \<and> plain_failure e \<and> max_failures st1 = max_failures st \<and> P (failed_once st1)"
    and "P st"
  shows "\<exists>st'. Watch_loop parse perform callback key recursive st = Some (watch_gave_up, st') \<and>
    max_failures st' = 0 \<and> P st'"
  using assms(2)
proof (induction "max_failures st" arbitrary: st)
  case 0
  then show ?case by (subst Watch_loop.simps) simp
next
  case (Suc n)
  obtain e st1 where b: "watch_body parse perform callback key recursive st = (Inl e, st1)"
    and e: "plain_failure e" and m: "max_failures st1 = max_failures st" and P: "P (failed_once st1)"
    using fails [OF Suc.prems] Suc.hyps(2) by fastforce
  have "n = max_failures (failed_once st1)" using m Suc.hyps(2) by (simp add: failed_once_def)
  from Suc.hyps(1) [OF this P] show ?case
    using Suc.hyps(2) watch_round_failed [OF b e] by (subst Watch_loop.simps) simp
qed

lemma failed_once_simps [simp]:
  "watch (failed_once st) = watch st" "watch_url (failed_once st) = watch_url st"
  "owner (failed_once st) = owner st" "world (failed_once st) = world st"
  "max_failures (failed_once st) = max_failures st - 1"
  by (simp_all add: failed_once_def)

text \<open>
  C26. Termination: when the server is unreachable, \<open>Run\<close> does end: it asks exactly
  \<open>MAX_FAILURES\<close> times for the same address, never calls back, keeps the index it started
  with, and throws.
\<close>

theorem watch_ends_when_unreachable:
  assumes down: "\<And>rq w. ans_code (fst (perform rq w)) \<noteq> 0"
  shows "\<exists>st'. Watch_Run parse perform key callback recursive i wt u w = Some (watch_gave_up, st') \<and>
    owner st' = u \<and>
    prev_index (watch st') = (if i = 0 then prev_index wt else i) \<and>
    world st' = ((\<lambda>w. snd (perform
        (get_request (watch_url (watch_start key recursive i wt u w))) w)) ^^ MAX_FAILURES) w"
proof -
  define st0 where "st0 = watch_start key recursive i wt u w"
  define f where "f = (\<lambda>w. snd (perform (get_request (watch_url st0)) w))"
  define P where "P = (\<lambda>st :: ('b, 'a) watching. watch_url st = watch_url st0 \<and> owner st = u \<and>
     prev_index (watch st) = prev_index (watch st0) \<and> max_failures st \<le> MAX_FAILURES \<and>
     (\<exists>k. k + max_failures st = MAX_FAILURES \<and> world st = (f ^^ k) w))"
  have "\<exists>e st1. watch_body parse perform callback key recursive st = (Inl e, st1) \<and> plain_failure e \<and>
      max_failures st1 = max_failures st \<and> P (failed_once st1)"
    if P: "P st" and pos: "max_failures st \<noteq> 0" for st
  proof -
    obtain a w' where a: "perform (get_request (watch_url st)) (world st) = (a, w')" by fastforce
    have "ans_code a \<noteq> 0" using down [of "get_request (watch_url st)" "world st"] by (simp add: a)
    from watch_body_failed [where perform = perform, OF a this] obtain c' where
      b: "watch_body parse perform callback key recursive st = (Inl (RuntimeError ''Failed easy perform''),
           st\<lparr>watch := (watch st)\<lparr>whandle := c'\<rparr>, world := w'\<rparr>)" by blast
    obtain k where k: "k + max_failures st = MAX_FAILURES" "world st = (f ^^ k) w"
      using P by (auto simp: P_def)
    have w: "w' = (f ^^ Suc k) w" using a k(2) P by (simp add: f_def P_def)
    have "P (failed_once (st\<lparr>watch := (watch st)\<lparr>whandle := c'\<rparr>, world := w'\<rparr>))"
      unfolding P_def using P k(1) w pos by (auto simp: P_def intro!: exI [of _ "Suc k"])
    moreover have "plain_failure (RuntimeError ''Failed easy perform'')"
      by (simp add: plain_failure_def catchable_def)
    ultimately show ?thesis using b by fastforce
  qed
  moreover have "P st0"
    by (auto simp: P_def st0_def watch_start_def Let_def)
  ultimately obtain st' where
    "Watch_loop parse perform callback key recursive st0 = Some (watch_gave_up, st')"
    "max_failures st' = 0" "P st'"
    using watch_loop_gives_up [of P] by blast
  then show ?thesis
    by (auto simp: Watch_Run_def st0_def P_def f_def watch_start_def Let_def split: if_splits)
qed

definition down_server :: "nat server" where
  "down_server = (\<lambda>rq n. (\<lparr>ans_header = [], ans_body = [], ans_code = 7\<rparr>, Suc n))"

definition note_reply :: "RapidReply list callback" where
  "note_reply r rs = (Inr (), rs @ [r])"

lemma watch_ends_when_unreachable_witness:
  "\<exists>st'. Watch_Run (\<lambda>_. JNull) down_server ''/k'' note_reply True 0 (Watch_new ''h'' 2379) [] 0
     = Some (watch_gave_up, st') \<and> owner st' = [] \<and> world st' = 5"
proof -
  have "\<And>rq w. ans_code (fst (down_server rq w)) \<noteq> 0" by (simp add: down_server_def)
  from watch_ends_when_unreachable [where parse = "\<lambda>_. JNull" and key = "''/k''" and
      perform = down_server and callback = note_reply and recursive = True and i = 0 and wt = "Watch_new ''h'' 2379" and u = "[]"
      and w = 0, OF this]
  show ?thesis by (auto simp: down_server_def MAX_FAILURES_def numeral_eq_Suc)
qed

text \<open>
  A callback that throws leaves the index where it is: the same address is asked again, the
  same change comes back, and the run gives up although the server is fine.
\<close>

lemma watch_loop_poisoned:
  assumes ans: "\<And>w. \<exists>a w'. perform (get_request (watch_url st)) w = (a, w') \<and> ans_code a = 0 \<and>
      concat (ans_body a) = text"
    and ch: "change_text parse j text"
    and throws: "callback (reply_of parse text) (owner st) = (Inl e, owner st)" "plain_failure e"
  shows "\<exists>st'. Watch_loop parse perform callback key recursive st = Some (watch_gave_up, st') \<and>
    owner st' = owner st \<and> prev_index (watch st') = prev_index (watch st)"
proof -
  define P where "P = (\<lambda>st' :: ('b, 'a) watching. watch_url st' = watch_url st \<and> owner st' = owner st \<and>
    prev_index (watch st') = prev_index (watch st))"
  have "\<exists>e st2. watch_body parse perform callback key recursive st1 = (Inl e, st2) \<and> plain_failure e \<and>
      max_failures st2 = max_failures st1 \<and> P (failed_once st2)"
    if P: "P st1" for st1
  proof -
    have eqs: "watch_url st1 = watch_url st" "owner st1 = owner st" using P by (simp_all add: P_def)
    obtain a w' where a: "perform (get_request (watch_url st1)) (world st1) = (a, w')" "ans_code a = 0"
      "concat (ans_body a) = text"
      using ans [of "world st1"] eqs by auto
    have "callback (reply_of parse (concat (ans_body a))) (owner st1) = (Inl e, owner st)"
      using throws(1) by (simp add: a(3) eqs)
    moreover have "change_text parse j (concat (ans_body a))" using ch a(3) by simp
    ultimately obtain c' where
      "watch_body parse perform callback key recursive st1 =
         (Inl e, st1\<lparr>watch := (watch st1)\<lparr>whandle := c'\<rparr>, owner := owner st, world := w'\<rparr>)"
      using watch_body_throws [where perform = perform and callback = callback and parse = parse, OF a(1,2)]
      by blast
    then show ?thesis using throws(2) P by (auto simp: P_def)
  qed
  then have "\<exists>st'. Watch_loop parse perform callback key recursive st = Some (watch_gave_up, st') \<and>
      max_failures st' = 0 \<and> P st'"
    by (intro watch_loop_gives_up [where P = P]) (auto simp: P_def)
  then show ?thesis by (auto simp: P_def)
qed

section \<open>Delivery\<close>

text \<open>
  A server that keeps the history of its changes, as etcd documents for \<open>waitIndex\<close>: asked
  for an index it answers with the first change that is not older, and times out if there is
  none (28 is curl's code).
\<close>

definition log_answer :: "(nat \<times> string) list \<Rightarrow> nat \<Rightarrow> answer" where
  "log_answer log i =
     (case List.find (\<lambda>(j, t). i \<le> j) log of
        Some (j, t) \<Rightarrow> \<lparr>ans_header = [], ans_body = [t], ans_code = 0\<rparr>
      | None \<Rightarrow> \<lparr>ans_header = [], ans_body = [], ans_code = 28\<rparr>)"

definition since :: "nat \<Rightarrow> (nat \<times> string) list \<Rightarrow> (nat \<times> string) list" where
  "since i log = List.filter (\<lambda>(j, t). i \<le> j) log"

lemma unat_of_nat_64_Suc: "Suc j < 2 ^ 64 \<Longrightarrow> unat (word_of_nat j + 1 :: u64) = Suc j"
proof -
  assume j: "Suc j < 2 ^ 64"
  have "unat (word_of_nat n :: u64) = n" if "n < 2 ^ 64" for n
    using that by (simp add: unsigned_of_nat take_bit_nat_eq_self)
  from this [OF j] show ?thesis by (simp only: of_nat_Suc add.commute)
qed

lemma find_since: "List.find (\<lambda>(j, t). i \<le> j) log = (case since i log of [] \<Rightarrow> None | x # _ \<Rightarrow> Some x)"
  by (induction log) (auto simp: since_def)

lemma since_next:
  "sorted_wrt (<) (map fst log) \<Longrightarrow> since i log = (j, t) # rest \<Longrightarrow> since (Suc j) log = rest"
proof (induction log)
  case (Cons x log)
  show ?case
  proof (cases "i \<le> fst x")
    case True
    then have x: "x = (j, t)" and r: "rest = since i log"
      using Cons.prems(2) by (auto simp: since_def split: prod.splits if_splits)
    have "since i log = log" and "since (Suc j) log = log"
      using Cons.prems(1) True x by (auto simp: since_def filter_id_conv)
    then show ?thesis using r x by (simp add: since_def)
  next
    case False
    then have "since i log = (j, t) # rest"
      using Cons.prems(2) by (auto simp: since_def split: prod.splits if_splits)
    moreover from this have "i \<le> j" by (metis (mono_tags) since_def Cons_eq_filterD case_prod_conv)
    ultimately show ?thesis using Cons False by (auto simp: since_def)
  qed
qed (simp add: since_def)

lemma since_in_log: "since i log = x # rest \<Longrightarrow> x \<in> set log"
  by (metis (no_types) filter_is_subset list.set_intros(1) since_def subsetD)

text \<open>
  C6. Functional: against a server that keeps its history, a watch that asks from index \<open>i\<close>
  on delivers exactly the changes from \<open>i\<close> on, each once, in order, none skipped, however
  many happen between two requests: after \<open>k\<close> rounds the owner of the callback has seen the
  first \<open>k\<close> of them, the index is that of the last one and the failures are reset.
\<close>

theorem watch_delivers_in_order:
  assumes log: "sorted_wrt (<) (map fst log)" "\<forall>(j, t)\<in>set log. change_text parse j t \<and> Suc j < 2 ^ 64"
    and server: "\<And>i w. perform (get_request (base @ digits i @ recursive_suffix recursive)) w = (log_answer log i, w)"
    and callback: "\<And>r u. fst (callback r u) = Inr ()"
    and st: "watch_url st = base @ digits i @ recursive_suffix recursive"
      "base = wait_url_base (watch st) key" "max_failures st \<noteq> 0"
    and k: "k \<le> length (since i log)"
  shows "\<exists>st'. watch_rounds k parse perform callback key recursive st = (Inr (), st') \<and>
    owner st' = foldl (\<lambda>u (j, t). snd (callback (reply_of parse t) u)) (owner st) (take k (since i log)) \<and>
    (k \<noteq> 0 \<longrightarrow> prev_index (watch st') = word_of_nat (fst (since i log ! (k - 1))) \<and>
             max_failures st' = MAX_FAILURES)"
  using st k
proof (induction k arbitrary: i st)
  case 0
  then show ?case by simp
next
  case (Suc k)
  then obtain j t rest where s: "since i log = (j, t) # rest" by (cases "since i log") auto
  have jt: "change_text parse j t" "Suc j < 2 ^ 64" using since_in_log [OF s] log(2) by auto
  have ans: "log_answer log i = \<lparr>ans_header = [], ans_body = [t], ans_code = 0\<rparr>"
    by (simp add: log_answer_def find_since s)
  have t: "concat (ans_body (log_answer log i)) = t" by (simp add: ans)
  have cb: "callback (reply_of parse t) (owner st) = (Inr (), snd (callback (reply_of parse t) (owner st)))"
    using callback [of "reply_of parse t" "owner st"] by (metis prod.collapse)
  have p: "perform (get_request (watch_url st)) (world st) = (log_answer log i, world st)"
    using server Suc.prems(1) by simp
  obtain c' where
    "watch_body parse perform callback key recursive st =
      (Inr (), st\<lparr>watch := (watch st)\<lparr>prev_index := word_of_nat j, whandle := c'\<rparr>,
       watch_url := wait_url_base (watch st) key @ next_index_text (word_of_nat j) @ recursive_suffix recursive,
       max_failures := MAX_FAILURES, owner := snd (callback (reply_of parse t) (owner st)), world := world st\<rparr>)"
    (is "_ = (Inr (), ?st1)")
    using watch_body_change [where perform = perform and parse = parse and callback = callback and j = j
        and recursive = recursive and key = key, OF p _ _ cb [folded t]] jt(1)
    unfolding t by (simp add: ans) blast
  then have r: "watch_round parse perform callback key recursive st = (Inr (), ?st1)"
    by (simp add: watch_round_def)
  have "next_index_text (word_of_nat j) = digits (Suc j)"
    using jt(2) by (simp add: next_index_text_def unat_of_nat_64_Suc)
  then have st1: "watch_url ?st1 = base @ digits (Suc j) @ recursive_suffix recursive"
    "base = wait_url_base (watch ?st1) key" "max_failures ?st1 \<noteq> 0"
    using Suc.prems(2) by (simp_all add: wait_url_base_def watch_url_base_def MAX_FAILURES_def)
  have n: "since (Suc j) log = rest" using since_next [OF log(1) s] .
  obtain st' where IH: "watch_rounds k parse perform callback key recursive ?st1 = (Inr (), st')"
    "owner st' = foldl (\<lambda>u (j, t). snd (callback (reply_of parse t) u)) (owner ?st1) (take k rest)"
    "k \<noteq> 0 \<longrightarrow> prev_index (watch st') = word_of_nat (fst (rest ! (k - 1))) \<and> max_failures st' = MAX_FAILURES"
    using Suc.IH [OF st1] Suc.prems(4) n s by auto
  have "watch_rounds (Suc k) parse perform callback key recursive st = (Inr (), st')"
    using Suc.prems(3) IH(1) by (simp add: r)
  then show ?case
    using IH by (cases k) (auto simp: s)
qed

definition demo_parse :: "string \<Rightarrow> json" where
  "demo_parse t = reply_json ''set'' (Leaf ''/k'' t (int (digits_value t)))"

definition demo_log :: "(nat \<times> string) list" where
  "demo_log = [(3, ''3''), (7, ''7''), (9, ''9'')]"

definition log_server :: "string \<Rightarrow> (nat \<times> string) list \<Rightarrow> 'w server" where
  "log_server base log rq w =
     (log_answer log (digits_value (takeWhile is_digit (drop (length base) (req_url rq)))), w)"

lemma log_server_asked:
  "log_server base log (get_request (base @ digits i @ recursive_suffix recursive)) w = (log_answer log i, w)"
proof -
  have "recursive_suffix recursive = [] \<or> \<not> is_digit (hd (recursive_suffix recursive))"
    by (simp add: recursive_suffix_def is_digit_def)
  from takeWhile_digits [OF this] show ?thesis by (simp add: log_server_def)
qed

definition demo_watch :: "(RapidReply list, unit) watching" where
  "demo_watch = \<lparr>watch = \<lparr>prev_index = 3, wurl_prefix = ''p'', whandle = Curl_new\<rparr>,
     watch_url = ''p/k?wait=true&waitIndex='' @ digits 4 @ ''&recursive=true'', max_failures = 5,
     owner = [], world = ()\<rparr>"

lemma change_text_demo:
  assumes "digits_value (c_str t) = j" and "j < 2 ^ 64"
  shows "change_text demo_parse j t"
  using assms unfolding change_text_def demo_parse_def by (metis node_index.simps(1))

lemma demo_log_ok:
  "sorted_wrt (<) (map fst demo_log)"
  "\<forall>(j, t)\<in>set demo_log. change_text demo_parse j t \<and> Suc j < 2 ^ 64"
proof -
  have "digits_value (c_str ''3'') = 3" "digits_value (c_str ''7'') = 7" "digits_value (c_str ''9'') = 9"
    by (simp_all add: digits_value_def c_str_def)
  then show "\<forall>(j, t)\<in>set demo_log. change_text demo_parse j t \<and> Suc j < 2 ^ 64"
    by (simp add: demo_log_def change_text_demo)
qed (simp add: demo_log_def)

lemma watch_delivers_in_order_witness:
  "\<exists>st'. watch_rounds 2 demo_parse (log_server ''p/k?wait=true&waitIndex='' demo_log) note_reply ''/k'' True
      demo_watch = (Inr (), st') \<and>
    owner st' = [reply_of demo_parse ''7'', reply_of demo_parse ''9''] \<and> prev_index (watch st') = 9"
proof -
  have cb: "\<And>r u. fst (note_reply r u) = Inr ()" by (simp add: note_reply_def)
  have st: "watch_url demo_watch = ''p/k?wait=true&waitIndex='' @ digits 4 @ recursive_suffix True"
    "''p/k?wait=true&waitIndex='' = wait_url_base (watch demo_watch) ''/k''" "max_failures demo_watch \<noteq> 0"
    by (simp_all add: demo_watch_def recursive_suffix_def wait_url_base_def watch_url_base_def)
  have p: "since 4 demo_log = [(7, ''7''), (9, ''9'')]" by (simp add: since_def demo_log_def)
  have k: "2 \<le> length (since 4 demo_log)" by (simp add: p)
  have o: "owner demo_watch = []" by (simp add: demo_watch_def)
  show ?thesis
    using watch_delivers_in_order [where k = 2 and parse = demo_parse and callback = note_reply,
        OF demo_log_ok log_server_asked cb st k]
    unfolding p o by (auto simp: note_reply_def numeral_2_eq_2 simp del: watch_rounds.simps)
qed

section \<open>Out of date\<close>

text \<open>
  C27. Error path: when the server says that the index is out of date, the watch reads the
  directory, calls back, takes the index from the header and goes on from there, one failure
  counted; but from then on it asks for the directory alone: whatever \<open>recursive\<close> says, the
  next address has no \<open>recursive=true\<close>, so changes below the watched directory are not
  reported until one of the directory itself is.
\<close>

theorem recovery_forgets_recursive:
  assumes old: "perform (get_request (watch_url st)) (world st) = (a, w1)" "ans_code a = 0"
      "RapidReply_new parse [] (concat (ans_body a)) = Inl (ReplyException 401 msg cause)"
    and now: "perform (get_request (wurl_prefix (watch st) @ key)) w1 = (b, w2)" "ans_code b = 0"
      "RapidReply_new parse [] (concat (ans_body b)) = Inr r"
    and callback: "callback r (owner st) = (Inr (), u')"
    and header: "concat (ans_header b) = concat (map (\<lambda>l. l @ [CHR 0x0A])
        (ls @ (etcd_index_label @ digits n @ [CHR 0x0D]) # ms))"
      "\<forall>l\<in>set (ls @ ms). CHR 0x0A \<notin> set l" "\<forall>l\<in>set ls. \<not> contains etcd_index_label l"
      "n < 2 ^ 31"
  shows "\<exists>st'. watch_round parse perform callback key recursive st = (Inr (), st') \<and>
    owner st' = u' \<and> max_failures st' = max_failures st - 1 \<and>
    prev_index (watch st') = word_of_nat n \<and> \<not> enable_header (whandle (watch st')) \<and>
    watch_url st' = wurl_prefix (watch st) @ key @ ''?wait=true&waitIndex='' @ digits (Suc n)"
proof -
  obtain c1 where c1: "Curl_Get perform (watch_url st) (whandle (watch st)) (world st) =
      (Inr (concat (ans_body a)), c1, w1)"
    using Curl_Get_ok [where perform = perform, OF old(1,2)] by blast
  obtain c2 where c2: "Curl_Get perform (wurl_prefix (watch st) @ key) (EnableHeader True c1) w1 =
      (Inr (concat (ans_body b)), c2, w2)" and h: "header_stream c2 = concat (ans_header b)"
    using Curl_Get_ok [where perform = perform and c = "EnableHeader True c1", OF now(1,2)]
    by (auto simp: EnableHeader_def)
  have "CHR 0x0A \<notin> set (etcd_index_label @ digits n @ [CHR 0x0D])"
    using digits_all [of n] by (auto simp: etcd_index_label_def is_digit_def)
  then have l: "lines_from [] (header_stream c2) = ls @ (etcd_index_label @ digits n @ [CHR 0x0D]) # ms"
    unfolding h header(1) using header(2) by (intro lines_from_lines) auto
  have i: "next_index_text (word_of_nat n) = digits (Suc n)"
    using header(4) by (simp add: next_index_text_def unat_of_nat_64_Suc)
  define st1 where "st1 = st\<lparr>watch := (watch st)\<lparr>whandle := c1\<rparr>, world := w1\<rparr>"
  have 1: "watch_body parse perform callback key recursive st = (Inl (ReplyException 401 msg cause), st1)"
    by (simp add: watch_body_def watching_get_def c1 call_back_def old(3) st1_def)
  have 2: "watch_recover parse perform callback key st1 =
    (Inr (), st1\<lparr>watch := (watch st1)\<lparr>prev_index := word_of_nat n, whandle := EnableHeader False c2\<rparr>,
       owner := u', world := w2,
       watch_url := wait_url_base (watch st) key @ digits (Suc n)\<rparr>)"
    using i by (simp add: watch_recover_def watching_get_def c2 call_back_def now(3) callback st1_def Let_def
        GetHeader_def l header_index_found [OF header(3,4)] wait_url_base_def watch_url_base_def)
  show ?thesis
    by (simp add: watch_round_def 1 2 catchable_def)
       (simp add: st1_def EnableHeader_def wait_url_base_def watch_url_base_def)
qed

definition stale_url :: string where
  "stale_url = ''p/k?wait=true&waitIndex=4&recursive=true''"

definition stale_server :: "unit server" where
  "stale_server rq w =
     (if req_url rq = stale_url then \<lparr>ans_header = [], ans_body = [''e''], ans_code = 0\<rparr>
      else \<lparr>ans_header = [''HTTP/1.1 200 OK'', [CHR 0x0D, CHR 0x0A],
              etcd_index_label @ digits 42 @ [CHR 0x0D, CHR 0x0A]], ans_body = [''v''], ans_code = 0\<rparr>, w)"

definition stale_parse :: "string \<Rightarrow> json" where
  "stale_parse t =
     (if t = ''e'' then error_json 401 ''m'' ''c'' 42 else reply_json ''get'' (Leaf ''/k'' t 1))"

lemma recovery_forgets_recursive_witness:
  "\<exists>st'. watch_round stale_parse stale_server note_reply ''/k'' True
      (demo_watch\<lparr>watch_url := stale_url\<rparr>) = (Inr (), st') \<and>
    watch_url st' = ''p/k?wait=true&waitIndex='' @ digits 43"
proof -
  let ?st = "demo_watch\<lparr>watch_url := stale_url\<rparr>"
  let ?a = "\<lparr>ans_header = [], ans_body = [''e''], ans_code = 0\<rparr>"
  let ?b = "\<lparr>ans_header = [''HTTP/1.1 200 OK'', [CHR 0x0D, CHR 0x0A],
              etcd_index_label @ digits 42 @ [CHR 0x0D, CHR 0x0A]], ans_body = [''v''], ans_code = 0\<rparr>"
  have p: "wurl_prefix (watch ?st) @ ''/k'' = ''p/k''" by (simp add: demo_watch_def)
  have 1: "stale_server (get_request (watch_url ?st)) (world ?st) = (?a, ())"
    and 2: "stale_server (get_request (wurl_prefix (watch ?st) @ ''/k'')) () = (?b, ())"
    unfolding p by (simp_all add: stale_server_def stale_url_def)
  have 3: "RapidReply_new stale_parse [] (concat (ans_body ?a)) = Inl (ReplyException 401 ''m'' ''c'')"
    using reply_error [where msg = "''m''" and cause = "''c''" and code = 401 and i = 42]
    by (simp add: RapidReply_new_def stale_parse_def c_str_def plain_def)
  have 4: "RapidReply_new stale_parse [] (concat (ans_body ?b)) = Inr (reply_of stale_parse ''v'')"
    by (simp add: RapidReply_new_def stale_parse_def c_str_def reply_of_def reply_accepted Let_def)
  have 5: "note_reply (reply_of stale_parse ''v'') (owner ?st) = (Inr (), [reply_of stale_parse ''v''])"
    by (simp add: note_reply_def demo_watch_def)
  have 6: "concat (ans_header ?b) = concat (map (\<lambda>l. l @ [CHR 0x0A])
        ([''HTTP/1.1 200 OK'' @ [CHR 0x0D]] @ (etcd_index_label @ digits 42 @ [CHR 0x0D]) # []))"
    by simp
  have 7: "\<forall>l\<in>set ([''HTTP/1.1 200 OK'' @ [CHR 0x0D]] @ []). CHR 0x0A \<notin> set l"
    "\<forall>l\<in>set [''HTTP/1.1 200 OK'' @ [CHR 0x0D]]. \<not> contains etcd_index_label l"
    by (simp_all add: etcd_index_label_def)
  show ?thesis
    using recovery_forgets_recursive [where perform = stale_server and parse = stale_parse and
        callback = note_reply and recursive = True, OF 1 _ 3 2 _ 4 5 6 7]
    by (simp add: demo_watch_def) blast
qed

end
