(* ===== verification/EtcdFacts.thy ===== *)
theory EtcdFacts
  imports Etcd WatchFacts
begin

text \<open>
  Facts about the client and its helper: what is read is what the store holds, and which
  addresses reading and writing use.
\<close>

lemma client_get_ok:
  assumes "perform (get_request (url_prefix c @ url)) w = (a, w')" and "ans_code a = 0"
    and "\<not> client_header c" and "RapidReply_new parse [] (concat (ans_body a)) = r"
  shows "\<exists>h. client_get what parse perform url c w = (r, c\<lparr>handle := h\<rparr>, w')"
proof -
  obtain h where "Curl_Get perform (url_prefix c @ url) (handle c) w = (Inr (concat (ans_body a)), h, w')"
    using Curl_Get_ok [where perform = perform, OF assms(1,2)] by blast
  then show ?thesis
    using assms(3,4) by (intro exI [of _ h]) (simp add: client_get_def client_reply_def GetReply_def Let_def)
qed

text \<open>
  Functional, over the stack of helper, client, curl and JSON: asked for a key that is a
  leaf of the store, \<open>etcd_get\<close> returns the value of the leaf, and leaves the base path as it
  was; asked for a directory it returns the empty string, and when the store reports an error
  it throws that error.
\<close>

theorem etcd_get_reads_store:
  assumes "perform (get_request (url_prefix (hclient h) @ basep h @ ''/'' @ path)) w = (a, w')"
    and "ans_code a = 0" and "\<not> client_header (hclient h)"
    and "key = basep h @ ''/'' @ path"
  shows "(parse (c_str (concat (ans_body a))) = reply_json act (Leaf key v i) \<longrightarrow> plain key \<longrightarrow> plain v \<longrightarrow>
       fst (etcd_get what parse perform path False h w) = Inr v) \<and>
    (parse (c_str (concat (ans_body a))) = reply_json act (Directory key ns i) \<longrightarrow>
       plain_node (Directory key ns i) \<longrightarrow> key \<notin> fst ` set (leaves (Directory key ns i)) \<longrightarrow>
       fst (etcd_get what parse perform path False h w) = Inr []) \<and>
    (parse (c_str (concat (ans_body a))) = error_json code msg cause ix \<longrightarrow> plain msg \<longrightarrow> plain cause \<longrightarrow>
       - (2 ^ 31) \<le> code \<longrightarrow> code < 2 ^ 31 \<longrightarrow>
       fst (etcd_get what parse perform path False h w) = Inl (ReplyException code msg cause)) \<and>
    basep (fst (snd (etcd_get what parse perform path False h w))) = basep h"
proof -
  let ?doc = "parse (c_str (concat (ans_body a)))"
  define r where "r = RapidReply_new parse [] (concat (ans_body a))"
  have r: "r = map_sum id (\<lambda>_. \<lparr>document = ?doc, reply_header = []\<rparr>) (CheckError ?doc)"
    by (simp add: r_def RapidReply_new_def Let_def)
  have p: "perform (get_request (url_prefix (hclient h) @ key)) w = (a, w')"
    using assms(1,4) by simp
  from client_get_ok [where perform = perform, OF p assms(2,3) r_def [symmetric]] obtain c where
    "client_get what parse perform key (hclient h) w = (r, c, w')" by blast
  then have g: "etcd_get what parse perform path False h w =
      (case r of Inl e \<Rightarrow> Inl e | Inr x \<Rightarrow> pairs_at key x, h\<lparr>hclient := c\<rparr>, w')"
    using assms(4) by (simp add: etcd_get_def helper_get_def Client_Get_def Let_def split: sum.splits)
  have leaf: "pairs_at key \<lparr>document = reply_json act n, reply_header = []\<rparr> =
      Inr (case map_of (leaves n) key of None \<Rightarrow> [] | Some v \<Rightarrow> v)" if "plain_node n" for n
    using that by (simp add: pairs_at_def GetAll_reply map_of_std_insert_all)
  have ok: "fst (etcd_get what parse perform path False h w) =
      Inr (case map_of (leaves n) key of None \<Rightarrow> [] | Some v \<Rightarrow> v)"
    if "?doc = reply_json act n" "plain_node n" for n
    using that by (simp add: g r reply_accepted leaf)
  show ?thesis
  proof (intro conjI impI)
    assume "?doc = reply_json act (Leaf key v i)" "plain key" "plain v"
    then show "fst (etcd_get what parse perform path False h w) = Inr v"
      using ok [of "Leaf key v i"] by (simp add: plain_node_def)
  next
    assume d: "?doc = reply_json act (Directory key ns i)" "plain_node (Directory key ns i)"
      "key \<notin> fst ` set (leaves (Directory key ns i))"
    then have "map_of (leaves (Directory key ns i)) key = None" by (simp only: map_of_eq_None_iff not_False_eq_True)
    with ok [OF d(1,2)] show "fst (etcd_get what parse perform path False h w) = Inr []"
      by (simp only: option.case)
  next
    assume "?doc = error_json code msg cause ix" "plain msg" "plain cause" "- (2 ^ 31) \<le> code" "code < 2 ^ 31"
    then show "fst (etcd_get what parse perform path False h w) = Inl (ReplyException code msg cause)"
      by (simp add: g r reply_error)
  qed (simp add: g)
qed

definition demo_helper :: etcd_helper where
  "demo_helper = \<lparr>hclient = Client_new False ''h'' 2379, basep = ''/hvbench/tenants/t1''\<rparr>"

lemma etcd_get_reads_store_witness:
  "fst (etcd_get [] (\<lambda>_. reply_json ''get'' (Leaf ''/hvbench/tenants/t1/setup/port'' ''6633'' 4))
     (\<lambda>rq w. (\<lparr>ans_header = [], ans_body = [''x''], ans_code = 0\<rparr>, w))
     ''setup/port'' False demo_helper ()) = Inr ''6633''"
proof -
  have "\<not> client_header (hclient demo_helper)"
    "''/hvbench/tenants/t1/setup/port'' = basep demo_helper @ ''/'' @ ''setup/port''"
    by (simp_all add: demo_helper_def Client_new_def)
  from etcd_get_reads_store [where h = demo_helper and path = "''setup/port''" and w = "()" and w' = "()"
      and perform = "\<lambda>rq w. (\<lparr>ans_header = [], ans_body = [''x''], ans_code = 0\<rparr>, w)"
      and a = "\<lparr>ans_header = [], ans_body = [''x''], ans_code = 0\<rparr>" and what = "[]"
      and parse = "\<lambda>_. reply_json ''get'' (Leaf ''/hvbench/tenants/t1/setup/port'' ''6633'' 4)"
      and act = "''get''" and v = "''6633''" and i = 4, OF refl _ this]
  show ?thesis by (simp add: plain_def)
qed

text \<open>\<open>etcd_write\<close> takes its flag the other way round: with the same arguments it writes
  where \<open>etcd_get\<close> does not read.\<close>

lemma etcd_write_elsewhere:
  fixes perform :: "request list server"
  assumes "\<And>rq w. snd (perform rq w) = w @ [rq]"
  shows "map req_url (snd (snd (etcd_write what parse perform path v False h []))) =
           [url_prefix (hclient h) @ path]"
    and "map req_url (snd (snd (etcd_get what parse perform path False h []))) =
           [url_prefix (hclient h) @ basep h @ ''/'' @ path]"
  using assms
  by (auto simp: etcd_write_def etcd_get_def helper_get_def Client_Get_def Client_Set_def client_get_def
      client_set_def client_reply_def Curl_Get_def Curl_Set_def easy_perform_def SetPostOptions_def Let_def
      split: prod.splits sum.splits) (metis snd_conv append_Nil list.simps(8,9) request.select_convs(2))+

end
