(* ===== verification/Bench.thy ===== *)
theory Bench
  imports Watch Controller DataNode
begin

text \<open>
  \<open>Tenant\<close>, \<open>Node\<close> and \<open>HVBench\<close>: the instance of the benchmark that follows the
  configuration in etcd, starts a tenant or a data plane node for every entry that appears,
  and hands changes of the configuration of a tenant to its generator.  What a thread that is
  started does is not part of the step that starts it: the step logs the start.  The
  configuration is read through \<open>read\<close>, which is \<open>etcd_get\<close> of an absolute path at that
  moment (\<open>config_read\<close>).
\<close>

section \<open>Strings\<close>

text \<open>\<open>boost::split\<close> at every slash, without compressing: there is always a first part.\<close>

fun split_slash :: "string \<Rightarrow> string list" where
  "split_slash [] = [[]]"
| "split_slash (c # cs) =
     (if c = CHR ''/'' then [] # split_slash cs
      else case split_slash cs of [] \<Rightarrow> [[c]] | p # ps \<Rightarrow> (c # p) # ps)"

definition substr :: "nat \<Rightarrow> string \<Rightarrow> exn + string" where
  "substr pos s = (if pos > length s then Inl OutOfRange else Inr (drop pos s))"

definition config_read ::
    "string \<Rightarrow> (string \<Rightarrow> json) \<Rightarrow> 'w server \<Rightarrow> Client \<Rightarrow> 'w \<Rightarrow> string \<Rightarrow> exn + string" where
  "config_read what parse perform c w path = fst (helper_get what parse perform path c w)"

section \<open>Tenants\<close>

record ('w, 'r) Tenant =
  tenant_id :: string
  tenant_basep :: string
  msg_generator :: "('w, 'r) AbstractGenerator option"
  hvcontroller :: "HVBenchController option"

definition Tenant_create :: "string \<Rightarrow> ('w, 'r) Tenant" where
  "Tenant_create i =
     \<lparr>tenant_id = i, tenant_basep = c_etcd_ptenants_conf @ ''/'' @ i, msg_generator = None,
      hvcontroller = None\<rparr>"

definition update_generator ::
    "(string \<Rightarrow> u32 option) \<Rightarrow> (string \<Rightarrow> 'w option) \<Rightarrow> string \<Rightarrow> string \<Rightarrow> ('w, 'r) Tenant \<Rightarrow>
     exn + ('w, 'r) Tenant" where
  "update_generator lexu lexf ckey cval t =
     (case msg_generator t of
        None \<Rightarrow> Inl UndefinedBehaviour
      | Some g \<Rightarrow>
          map_sum id (\<lambda>g'. t\<lparr>msg_generator := Some g'\<rparr>) (AbstractGenerator_update lexu lexf ckey cval g))"

definition Tenant_onChange ::
    "(string \<Rightarrow> u32 option) \<Rightarrow> (string \<Rightarrow> 'w option) \<Rightarrow> string \<Rightarrow> string \<Rightarrow> ('w, 'r) Tenant \<Rightarrow>
     exn + ('w, 'r) Tenant" where
  "Tenant_onChange lexu lexf ckey cval t =
     (let component = hd (split_slash ckey)
      in case substr (length component + 1) ckey of
           Inl e \<Rightarrow> Inl e
         | Inr conf_key \<Rightarrow>
             (if component = ''generator_conf'' then update_generator lexu lexf conf_key cval t
              else if component = ''weights'' then update_generator lexu lexf conf_key cval t
              else Inr t))"

fun read_weights ::
    "(string \<Rightarrow> 'w option) \<Rightarrow> (string \<Rightarrow> exn + string) \<Rightarrow> OFPT_T list \<Rightarrow> exn + 'w list" where
  "read_weights lexf eget [] = Inr []"
| "read_weights lexf eget (e # es) =
     (case OFPT_STR e of None \<Rightarrow> Inl OutOfRange | Some n \<Rightarrow>
      case eget (''weights/'' @ n) of Inl x \<Rightarrow> Inl x | Inr s \<Rightarrow>
      case lexical_cast lexf s of Inl x \<Rightarrow> Inl x | Inr w \<Rightarrow>
      case read_weights lexf eget es of Inl x \<Rightarrow> Inl x | Inr ws \<Rightarrow> Inr (w # ws))"

text \<open>
  \<open>_run\<close> up to the call of the controller: its address, the controller (\<open>now\<close> is the clock it
  reads) and the generator.
\<close>

definition Tenant_run ::
    "time_point \<Rightarrow> (string \<Rightarrow> u32 option) \<Rightarrow> (string \<Rightarrow> 'w option) \<Rightarrow> (u32 \<Rightarrow> 'r \<Rightarrow> nat \<times> 'r) \<Rightarrow> int \<Rightarrow> 'r \<Rightarrow>
     (string \<Rightarrow> exn + string) \<Rightarrow> ('w, 'r) Tenant \<Rightarrow> exn + ((string \<times> u32) \<times> ('w, 'r) Tenant)" where
  "Tenant_run now lexu lexf exp_us next0 seed read t0 =
     (let t = t0\<lparr>hvcontroller := Some (HVBenchController_new now)\<rparr>;
          eget = (\<lambda>path. read (tenant_basep t @ ''/'' @ path));
          conf = c_etcd_ptenants_conf @ ''/'' @ tenant_id t @ ''/generator_conf''
      in
      case eget ''setup/listen'' of Inl e \<Rightarrow> Inl e | Inr listen \<Rightarrow>
      case eget ''setup/port'' of Inl e \<Rightarrow> Inl e | Inr port_s \<Rightarrow>
      case lexical_cast lexu port_s of Inl e \<Rightarrow> Inl e | Inr port \<Rightarrow>
      case eget ''generator'' of Inl e \<Rightarrow> Inl e | Inr generatorT \<Rightarrow>
      if generatorT = ''constant'' then
        (case ConstantGenerator_new lexu (\<lambda>path. read (conf @ ''/'' @ path)) of
           Inl e \<Rightarrow> Inl e
         | Inr g \<Rightarrow> Inr ((listen, port), t\<lparr>msg_generator := Some (AConstant g)\<rparr>))
      else
        (case read_weights lexf eget req_types of Inl e \<Rightarrow> Inl e | Inr ws \<Rightarrow>
         case eget ''generator_conf/avg_rate'' of Inl e \<Rightarrow> Inl e | Inr rate_s \<Rightarrow>
         case lexical_cast lexu rate_s of Inl e \<Rightarrow> Inl e | Inr avg_rate \<Rightarrow>
           Inr ((listen, port),
                t\<lparr>msg_generator := Some (ATenant (TenantGenerator_new exp_us next0 seed avg_rate req_types ws))\<rparr>)))"

definition Tenant_stop :: "('w, 'r) Tenant \<Rightarrow> exn + ('w, 'r) Tenant" where
  "Tenant_stop t =
     (case hvcontroller t of
        None \<Rightarrow> Inl UndefinedBehaviour
      | Some c \<Rightarrow> Inr (t\<lparr>hvcontroller := Some (HVBenchController_stop c)\<rparr>))"

section \<open>Nodes\<close>

record Node =
  node_id :: string
  node_basep :: string
  node_impl :: "(string \<times> u32 \<times> HVBenchNode) option"

definition Node_create :: "string \<Rightarrow> Node" where
  "Node_create i = \<lparr>node_id = i, node_basep = c_etcd_pnodes_conf @ ''/'' @ i, node_impl = None\<rparr>"

definition Node_start ::
    "OFServerSettings \<Rightarrow> (string \<Rightarrow> u32 option) \<Rightarrow> (string \<Rightarrow> u64 option) \<Rightarrow> (string \<Rightarrow> exn + string) \<Rightarrow>
     Node \<Rightarrow> exn + Node" where
  "Node_start settings lexu lexu64 read n =
     (let eget = (\<lambda>path. read (node_basep n @ ''/'' @ path))
      in
      case eget ''setup/hv_ip'' of Inl e \<Rightarrow> Inl e | Inr hv_ip \<Rightarrow>
      case eget ''setup/hv_port'' of Inl e \<Rightarrow> Inl e | Inr port_s \<Rightarrow>
      case lexical_cast lexu port_s of Inl e \<Rightarrow> Inl e | Inr hv_port \<Rightarrow>
      case eget ''setup/datapath_id'' of Inl e \<Rightarrow> Inl e | Inr dp_s \<Rightarrow>
      case lexical_cast lexu64 dp_s of Inl e \<Rightarrow> Inl e | Inr hv_dp \<Rightarrow>
        Inr (n\<lparr>node_impl := Some (hv_ip, hv_port, HVBenchNode_new settings hv_dp)\<rparr>))"

definition Node_stop :: "Node \<Rightarrow> exn + node_action list" where
  "Node_stop n =
     (case node_impl n of None \<Rightarrow> Inl UndefinedBehaviour | Some (ip, port, x) \<Rightarrow> Inr (stop_conn x))"

section \<open>The instance\<close>

text \<open>\<open>study\<close> is what the output was told last; \<open>started\<close> logs the tenants that were started.\<close>

record ('w, 'r) HVBench =
  tenants :: "(string, ('w, 'r) Tenant) std_map"
  nodes :: "(string, Node) std_map"
  instance_id :: u32
  shutdown :: bool
  study :: "string \<times> u32"
  started :: "string list"

text \<open>
  \<open>create\<close>: whether there is a configuration at all, the version of its interface, the study
  that is told to the output, and the registration of the instance, whose failure is ignored.
  \<open>get_base\<close> and \<open>add_directory\<close> are what the two requests of the client give.
\<close>

definition HVBench_create ::
    "(string \<Rightarrow> u32 option) \<Rightarrow> exn + RapidReply \<Rightarrow> (string \<Rightarrow> exn + string) \<Rightarrow>
     (string \<Rightarrow> exn + RapidReply) \<Rightarrow> u32 \<Rightarrow> exn + ('w, 'r) HVBench option" where
  "HVBench_create lexu get_base read add_directory i =
     (let go =
        (case read (c_etcd_pglobals @ ''/api_version'') of Inl e \<Rightarrow> Inl e | Inr api_version \<Rightarrow>
         if api_version \<noteq> conf_api_version then Inr None
         else
           case read (c_etcd_pglobals @ ''/study_id'') of Inl e \<Rightarrow> Inl e | Inr study_id \<Rightarrow>
           case read (c_etcd_pglobals @ ''/run_id'') of Inl e \<Rightarrow> Inl e | Inr run_s \<Rightarrow>
           case lexical_cast lexu run_s of Inl e \<Rightarrow> Inl e | Inr run_id \<Rightarrow>
           let b = \<lparr>tenants = [], nodes = [], instance_id = i, shutdown = False,
                    study = (study_id, run_id), started = []\<rparr>
           in case add_directory (c_etcd_phvbench @ ''/'' @ digits (unat i)) of
                Inl (ReplyException c m x) \<Rightarrow> Inr (Some b)
              | Inl e \<Rightarrow> Inl e
              | Inr _ \<Rightarrow> Inr (Some b))
      in case get_base of
           Inl (ReplyException c m x) \<Rightarrow> Inr None
         | Inl e \<Rightarrow> Inl e
         | Inr _ \<Rightarrow> go)"

definition onNewNode ::
    "(Node \<Rightarrow> exn + Node) \<Rightarrow> string \<Rightarrow> ('w, 'r) HVBench \<Rightarrow> (exn + unit) \<times> ('w, 'r) HVBench" where
  "onNewNode node_start node b =
     (if map_of (nodes b) node \<noteq> None then (Inl AssertFailed, b)
      else case node_start (Node_create node) of
             Inl e \<Rightarrow> (Inl e, b)
           | Inr pnode \<Rightarrow> (Inr (), b\<lparr>nodes := std_put node pnode (nodes b)\<rparr>))"

definition onNewTenant ::
    "string \<Rightarrow> ('w, 'r) HVBench \<Rightarrow> (exn + unit) \<times> ('w, 'r) HVBench" where
  "onNewTenant tenant b =
     (if map_of (tenants b) tenant \<noteq> None then (Inl AssertFailed, b)
      else (Inr (), b\<lparr>started := started b @ [tenant],
                      tenants := std_put tenant (Tenant_create tenant) (tenants b)\<rparr>))"

definition shutdown_key :: "u32 \<Rightarrow> string" where
  "shutdown_key i = c_etcd_phvbench @ ''/'' @ digits (unat i) @ ''/shutdown''"

definition HVBench_onChange ::
    "(Node \<Rightarrow> exn + Node) \<Rightarrow> RapidReply \<Rightarrow> ('w, 'r) HVBench \<Rightarrow> (exn + unit) \<times> ('w, 'r) HVBench" where
  "HVBench_onChange node_start reply b =
     (case GetAction reply of Inl e \<Rightarrow> (Inl e, b) | Inr action \<Rightarrow>
      if action \<noteq> A_SET then (Inr (), b)
      else
        case GetAll reply [] of Inl e \<Rightarrow> (Inl e, b)
        | Inr [] \<Rightarrow> (Inl UndefinedBehaviour, b)
        | Inr ((ckey, cval) # _) \<Rightarrow>
            (let path = split_slash ckey
             in if ckey = shutdown_key (instance_id b) then (Inr (), b\<lparr>shutdown := True\<rparr>)
                else if cval = ''tenant'' then onNewTenant (last path) b
                else if cval = ''node'' then onNewNode node_start (last path) b
                else if cval = ''ignore'' then (Inr (), b)
                else (Inl AssertFailed, b)))"

definition onChangeTenantConf ::
    "(string \<Rightarrow> u32 option) \<Rightarrow> (string \<Rightarrow> 'w option) \<Rightarrow> RapidReply \<Rightarrow> ('w, 'r) HVBench \<Rightarrow>
     (exn + unit) \<times> ('w, 'r) HVBench" where
  "onChangeTenantConf lexu lexf reply b =
     (case GetAll reply [] of Inl e \<Rightarrow> (Inl e, b)
      | Inr [] \<Rightarrow> (Inr (), b)
      | Inr ((ckey, cval) # _) \<Rightarrow>
          (case substr (length c_etcd_ptenants_conf + 1) ckey of Inl e \<Rightarrow> (Inl e, b)
           | Inr tenant_conf \<Rightarrow>
               (let tenant = hd (split_slash tenant_conf)
                in case substr (length tenant + 1) tenant_conf of Inl e \<Rightarrow> (Inl e, b)
                   | Inr conf_key \<Rightarrow>
                       (case map_of (tenants b) tenant of
                          None \<Rightarrow> (Inr (), b)
                        | Some t \<Rightarrow>
                            (case Tenant_onChange lexu lexf conf_key cval t of
                               Inl e \<Rightarrow> (Inl e, b)
                             | Inr t' \<Rightarrow> (Inr (), b\<lparr>tenants := std_put tenant t' (tenants b)\<rparr>))))))"

definition onChangeGlobal ::
    "(string \<Rightarrow> u32 option) \<Rightarrow> (string \<Rightarrow> exn + string) \<Rightarrow> RapidReply \<Rightarrow> ('w, 'r) HVBench \<Rightarrow>
     (exn + unit) \<times> ('w, 'r) HVBench" where
  "onChangeGlobal lexu read reply b =
     (case GetAction reply of Inl e \<Rightarrow> (Inl e, b) | Inr action \<Rightarrow>
      if action \<noteq> A_UPDATE then (Inr (), b)
      else
        case read (c_etcd_pglobals @ ''/study_id'') of Inl e \<Rightarrow> (Inl e, b) | Inr study_id \<Rightarrow>
        case read (c_etcd_pglobals @ ''/run_id'') of Inl e \<Rightarrow> (Inl e, b) | Inr run_s \<Rightarrow>
        case lexical_cast lexu run_s of Inl e \<Rightarrow> (Inl e, b) | Inr run_id \<Rightarrow>
          (Inr (), b\<lparr>study := (study_id, run_id)\<rparr>))"

text \<open>
  \<open>run\<close> after the threads are started: it waits for the flag, then stops the tenants and the
  nodes in the order of the maps.  \<open>None\<close> is waiting.
\<close>

fun stop_tenants ::
    "(string, ('w, 'r) Tenant) std_map \<Rightarrow> exn + (string, ('w, 'r) Tenant) std_map" where
  "stop_tenants [] = Inr []"
| "stop_tenants ((i, t) # ts) =
     (case Tenant_stop t of Inl e \<Rightarrow> Inl e | Inr t' \<Rightarrow>
      case stop_tenants ts of Inl e \<Rightarrow> Inl e | Inr ts' \<Rightarrow> Inr ((i, t') # ts'))"

fun stop_nodes :: "(string, Node) std_map \<Rightarrow> exn + node_action list" where
  "stop_nodes [] = Inr []"
| "stop_nodes ((i, n) # ns) =
     (case Node_stop n of Inl e \<Rightarrow> Inl e | Inr as \<Rightarrow>
      case stop_nodes ns of Inl e \<Rightarrow> Inl e | Inr as' \<Rightarrow> Inr (as @ as'))"

definition HVBench_run :: "('w, 'r) HVBench \<Rightarrow> (exn + (('w, 'r) HVBench \<times> node_action list)) option" where
  "HVBench_run b =
     (if \<not> shutdown b then None
      else Some
        (case stop_tenants (tenants b) of Inl e \<Rightarrow> Inl e | Inr ts \<Rightarrow>
         case stop_nodes (nodes b) of Inl e \<Rightarrow> Inl e | Inr as \<Rightarrow> Inr (b\<lparr>tenants := ts\<rparr>, as)))"

text \<open>
  The steps of an instance: a reply of one of the three watches, the end of the set-up of a
  tenant in its thread.  A watch catches the exceptions of its callback; what escapes from the
  thread of a tenant, and what is no exception, ends the program.
\<close>

datatype bench_event =
    InstanceChange RapidReply
  | TenantConfChange RapidReply
  | GlobalChange RapidReply
  | TenantReady string

definition bench_step ::
    "(string \<Rightarrow> u32 option) \<Rightarrow> (string \<Rightarrow> 'w option) \<Rightarrow> (Node \<Rightarrow> exn + Node) \<Rightarrow>
     (string \<Rightarrow> exn + string) \<Rightarrow> (('w, 'r) Tenant \<Rightarrow> exn + ('w, 'r) Tenant) \<Rightarrow>
     bench_event \<Rightarrow> ('w, 'r) HVBench \<Rightarrow> (exn + unit) \<times> ('w, 'r) HVBench" where
  "bench_step lexu lexf node_start read tenant_setup ev b =
     (case ev of
        InstanceChange r \<Rightarrow> HVBench_onChange node_start r b
      | TenantConfChange r \<Rightarrow> onChangeTenantConf lexu lexf r b
      | GlobalChange r \<Rightarrow> onChangeGlobal lexu read r b
      | TenantReady i \<Rightarrow>
          (case map_of (tenants b) i of
             None \<Rightarrow> (Inr (), b)
           | Some t \<Rightarrow>
               (case tenant_setup t of
                  Inl e \<Rightarrow> (Inl e, b)
                | Inr t' \<Rightarrow> (Inr (), b\<lparr>tenants := std_put i t' (tenants b)\<rparr>))))"

definition caught :: "bench_event \<Rightarrow> exn \<Rightarrow> bool" where
  "caught ev e \<longleftrightarrow> catchable e \<and> (case ev of TenantReady i \<Rightarrow> False | _ \<Rightarrow> True)"

fun bench_run ::
    "(string \<Rightarrow> u32 option) \<Rightarrow> (string \<Rightarrow> 'w option) \<Rightarrow> (Node \<Rightarrow> exn + Node) \<Rightarrow>
     (string \<Rightarrow> exn + string) \<Rightarrow> (('w, 'r) Tenant \<Rightarrow> exn + ('w, 'r) Tenant) \<Rightarrow>
     bench_event list \<Rightarrow> ('w, 'r) HVBench \<Rightarrow> exn + ('w, 'r) HVBench" where
  "bench_run lexu lexf node_start read tenant_setup [] b = Inr b"
| "bench_run lexu lexf node_start read tenant_setup (ev # evs) b =
     (case bench_step lexu lexf node_start read tenant_setup ev b of
        (Inr _, b') \<Rightarrow> bench_run lexu lexf node_start read tenant_setup evs b'
      | (Inl e, b') \<Rightarrow>
          if caught ev e then bench_run lexu lexf node_start read tenant_setup evs b' else Inl e)"

end
