(* ===== verification/BenchFacts.thy ===== *)
theory BenchFacts
  imports Bench WatchFacts
begin

text \<open>
  Facts about the instance: which tenants it starts, how a change reaches the generator of its
  tenant, and the changes that stop the watch of the configuration of the tenants.
\<close>

lemma map_sum_Inr_conv: "map_sum id f x = Inr y \<longleftrightarrow> (\<exists>z. x = Inr z \<and> y = f z)"
  by (cases x) auto

section \<open>Paths\<close>

lemma split_slash_nonempty [simp]: "split_slash s \<noteq> []"
  by (induction s) (auto split: list.splits)

lemma split_slash_part: "CHR ''/'' \<notin> set a \<Longrightarrow> split_slash (a @ CHR ''/'' # r) = a # split_slash r"
proof (induction a)
  case (Cons c a)
  then have "c \<noteq> CHR ''/''" by auto
  with Cons show ?case by simp
qed simp

lemma split_slash_whole: "CHR ''/'' \<notin> set a \<Longrightarrow> split_slash a = [a]"
proof (induction a)
  case (Cons c a)
  then have "c \<noteq> CHR ''/''" by auto
  with Cons show ?case by simp
qed simp

lemma substr_drop [simp]: "substr (length a) (a @ r) = Inr r" "substr (Suc (length a)) (a @ c # r) = Inr r"
  by (simp_all add: substr_def)

text \<open>The key of the entry \<open>name\<close> of the tenant \<open>i\<close>.\<close>

definition tenant_key :: "string \<Rightarrow> string \<Rightarrow> string" where
  "tenant_key i name = c_etcd_ptenants_conf @ CHR ''/'' # i @ CHR ''/'' # name"

lemma substr_tenant_key:
  "substr (length c_etcd_ptenants_conf + 1) (tenant_key i name) = Inr (i @ CHR ''/'' # name)"
  by (simp add: tenant_key_def)

lemma plain_tenant_key: "plain (tenant_key i name) \<longleftrightarrow> plain i \<and> plain name"
  by (simp add: plain_def tenant_key_def c_etcd_ptenants_conf_def c_etcd_pbase_def)

lemma GetAll_one:
  assumes "document r = reply_json a (Leaf k v ix)" and "plain k" and "plain v"
  shows "GetAll r [] = Inr [(k, v)]"
  using GetAll_reply [OF assms(1), where kv = "[]"] assms(2,3) by (simp add: plain_node_def std_insert_def)

text \<open>A change of an entry of a known tenant is a call of \<open>onChange\<close> of that tenant.\<close>

lemma onChangeTenantConf_known:
  assumes "document r = reply_json a (Leaf (tenant_key i name) v ix)" and "plain (tenant_key i name)" "plain v"
    and "CHR ''/'' \<notin> set i" and "map_of (tenants b) i = Some t"
  shows "onChangeTenantConf lexu lexf r b =
    (case Tenant_onChange lexu lexf name v t of
       Inl e \<Rightarrow> (Inl e, b)
     | Inr t' \<Rightarrow> (Inr (), b\<lparr>tenants := std_put i t' (tenants b)\<rparr>))"
  using assms(4,5) substr_tenant_key [of i name]
  by (simp add: onChangeTenantConf_def GetAll_one [OF assms(1-3)] split_slash_part Let_def)

section \<open>Routing\<close>

text \<open>
  C8. Functional: a change of the entry \<open>k\<close> of the generator configuration or of the weights
  of a running tenant reaches exactly the generator of that tenant, as the update of \<open>k\<close> with
  the new value; all other tenants, the nodes and the rest of the instance stay as they are.
\<close>

theorem tenant_update_routed:
  assumes "document r = reply_json a (Leaf (tenant_key i (dir @ CHR ''/'' # k)) v ix)"
    and "plain (tenant_key i (dir @ CHR ''/'' # k))" "plain v"
    and "CHR ''/'' \<notin> set i" and "dir = ''generator_conf'' \<or> dir = ''weights''"
    and "map_of (tenants b) i = Some t" and "msg_generator t = Some g"
    and "AbstractGenerator_update lexu lexf k v g = Inr g'"
  shows "\<exists>b'. onChangeTenantConf lexu lexf r b = (Inr (), b') \<and>
    map_of (tenants b') = (map_of (tenants b))(i \<mapsto> t\<lparr>msg_generator := Some g'\<rparr>) \<and>
    b' = b\<lparr>tenants := tenants b'\<rparr>"
proof -
  have "CHR ''/'' \<notin> set dir" using assms(5) by auto
  then have "Tenant_onChange lexu lexf (dir @ CHR ''/'' # k) v t = Inr (t\<lparr>msg_generator := Some g'\<rparr>)"
    using assms(7,8)
    by (simp add: Tenant_onChange_def split_slash_part update_generator_def Let_def) (use assms(5) in blast)
  then show ?thesis
    by (simp add: onChangeTenantConf_known [OF assms(1-4,6)] map_of_std_put)
qed

definition demo_generator :: "(unit, unit) AbstractGenerator" where
  "demo_generator = AConstant \<lparr>base_time = 0, counters = Map.empty, inter_arrival_t = 1, local_ns = 0,
     msg_factory = get_message_factory ''ECHO_REQUEST''\<rparr>"

definition demo_bench :: "(unit, unit) HVBench" where
  "demo_bench = \<lparr>tenants = [(''t1'', (Tenant_create ''t1'')\<lparr>msg_generator := Some demo_generator\<rparr>)],
     nodes = [], instance_id = 1, shutdown = False, study = ('''', 0), started = [''t1'']\<rparr>"

lemma tenant_update_routed_witness:
  "\<exists>b'. onChangeTenantConf (\<lambda>s. Some 1000) (\<lambda>s. None)
      \<lparr>document = reply_json ''set'' (Leaf (tenant_key ''t1'' ''generator_conf/avg_rate'') ''1000'' 5),
       reply_header = []\<rparr> demo_bench = (Inr (), b') \<and> started b' = [''t1'']"
proof -
  have i: "inter_arrival 1000 = Inr (int (dbl_div_trunc 1000000000 1000))" by (simp add: inter_arrival_def)
  let ?k = "''generator_conf'' @ CHR ''/'' # ''avg_rate''"
  let ?r = "\<lparr>document = reply_json ''set'' (Leaf (tenant_key ''t1'' ?k) ''1000'' 5), reply_header = []\<rparr>"
  obtain g' where u: "AbstractGenerator_update (\<lambda>s. Some 1000) (\<lambda>s. None) ''avg_rate'' ''1000'' demo_generator = Inr g'"
    by (simp add: demo_generator_def ConstantGenerator_update_def lexical_cast_def i)
  have "\<exists>b'. onChangeTenantConf (\<lambda>s. Some 1000) (\<lambda>s. None) ?r demo_bench = (Inr (), b') \<and>
     map_of (tenants b') = (map_of (tenants demo_bench))(''t1'' \<mapsto>
       ((Tenant_create ''t1'')\<lparr>msg_generator := Some demo_generator\<rparr>)\<lparr>msg_generator := Some g'\<rparr>) \<and>
     b' = demo_bench\<lparr>tenants := tenants b'\<rparr>"
    by (rule tenant_update_routed [where dir = "''generator_conf''" and i = "''t1''" and a = "''set''" and v = "''1000''"])
       (use u in \<open>simp_all add: plain_def demo_bench_def tenant_key_def c_etcd_ptenants_conf_def c_etcd_pbase_def\<close>)
  then show ?thesis by (auto simp: demo_bench_def) (metis HVBench.select_convs(6) HVBench.update_convs(1))
qed

section \<open>Changes that stop the watch\<close>

text \<open>
  C9. Composition of the watch with its callback: setting any entry directly below a known
  tenant (its \<open>generator\<close>, say) stops the watch of the configuration of all tenants.  The
  callback throws \<open>out_of_range\<close> (the key has no part after the first), the watch does not
  move its index past the change, the server answers with the same change again, and after
  \<open>MAX_FAILURES\<close> rounds \<open>Run\<close> throws out of its thread, with no tenant changed.
\<close>

theorem direct_key_stops_watch:
  assumes "map_of (tenants b) i = Some t" and "CHR ''/'' \<notin> set i" and "CHR ''/'' \<notin> set name"
    and "plain i" "plain name" "plain v"
    and rep: "parse (c_str text) = reply_json a (Leaf (tenant_key i name) v (int ix))" "ix < 2 ^ 64"
    and server: "\<And>w. \<exists>ans w'. perform (get_request (watch_url st)) w = (ans, w') \<and> ans_code ans = 0 \<and>
      concat (ans_body ans) = text"
    and st: "owner st = b"
  shows "\<exists>st'. Watch_loop parse perform (onChangeTenantConf lexu lexf) wkey recursive st = Some (watch_gave_up, st') \<and>
    owner st' = b \<and> prev_index (watch st') = prev_index (watch st)"
proof -
  have "Tenant_onChange lexu lexf name v t = Inl OutOfRange"
    using assms(3) by (simp add: Tenant_onChange_def split_slash_whole substr_def)
  then have "onChangeTenantConf lexu lexf (reply_of parse text) b = (Inl OutOfRange, b)"
    using onChangeTenantConf_known [where r = "reply_of parse text" and a = a and i = i and name = name
        and v = v and b = b] assms(1,2,4-6) rep(1)
    by (simp add: reply_of_def plain_tenant_key)
  moreover have "change_text parse ix text"
    unfolding change_text_def using rep by (metis node_index.simps(1))
  moreover have "plain_failure OutOfRange" by (simp add: plain_failure_def catchable_def)
  ultimately show ?thesis
    using watch_loop_poisoned [where perform = perform and st = st and parse = parse and
        j = ix and callback = "onChangeTenantConf lexu lexf" and e = OutOfRange, OF server] st
    by simp
qed

definition poison_parse :: "string \<Rightarrow> json" where
  "poison_parse t = reply_json ''set'' (Leaf (tenant_key ''t1'' ''generator'') ''tenant'' (int 5))"

definition poison_watching :: "((unit, unit) HVBench, unit) watching" where
  "poison_watching = watch_start c_etcd_ptenants_conf True 0 (Watch_new ''h'' 2379) demo_bench ()"

lemma direct_key_stops_watch_witness:
  "\<exists>st'. Watch_loop poison_parse
      (\<lambda>rq w. (\<lparr>ans_header = [], ans_body = [''x''], ans_code = 0\<rparr>, w))
      (onChangeTenantConf (\<lambda>s. None) (\<lambda>s. None)) c_etcd_ptenants_conf True poison_watching =
      Some (watch_gave_up, st') \<and> owner st' = demo_bench"
proof -
  have "map_of (tenants demo_bench) ''t1'' = Some ((Tenant_create ''t1'')\<lparr>msg_generator := Some demo_generator\<rparr>)"
    "owner poison_watching = demo_bench"
    by (simp_all add: demo_bench_def poison_watching_def watch_start_def Let_def)
  note p = this
  show ?thesis
    using direct_key_stops_watch [where name = "''generator''" and v = "''tenant''" and a = "''set''"
        and parse = poison_parse and ix = 5 and recursive = True and st = poison_watching
        and perform = "\<lambda>rq w. (\<lparr>ans_header = [], ans_body = [''x''], ans_code = 0\<rparr>, w)"
        and lexu = "\<lambda>s. None" and lexf = "\<lambda>s. None" and wkey = c_etcd_ptenants_conf,
        OF p(1) _ _ _ _ _ _ _ _ p(2)]
    by (fastforce simp: plain_def poison_parse_def)
qed

section \<open>Which tenants run\<close>

text \<open>What every step keeps: the tenants of the map are those that were started, each once.\<close>

definition tenants_ok :: "('w, 'r) HVBench \<Rightarrow> bool" where
  "tenants_ok b \<longleftrightarrow> std_ok (tenants b) \<and> distinct (started b) \<and>
     dom (map_of (tenants b)) = set (started b) \<and>
     (\<forall>i t. map_of (tenants b) i = Some t \<longrightarrow> tenant_id t = i)"

lemma tenants_ok_same:
  "tenants_ok b \<Longrightarrow> tenants b' = tenants b \<Longrightarrow> started b' = started b \<Longrightarrow> tenants_ok b'"
  by (simp add: tenants_ok_def)

lemma tenants_ok_update:
  assumes "tenants_ok b" and "map_of (tenants b) i = Some t" and "tenant_id t' = tenant_id t"
  shows "tenants_ok (b\<lparr>tenants := std_put i t' (tenants b)\<rparr>)"
  using assms by (auto simp: tenants_ok_def map_of_std_put std_ok_put)

lemma tenant_id_update: "update_generator lexu lexf k v t = Inr t' \<Longrightarrow> tenant_id t' = tenant_id t"
proof (cases "msg_generator t")
  case (Some g)
  then show "update_generator lexu lexf k v t = Inr t' \<Longrightarrow> tenant_id t' = tenant_id t"
    by (cases "AbstractGenerator_update lexu lexf k v g") (auto simp: update_generator_def)
qed (simp add: update_generator_def)

lemma tenant_id_onChange: "Tenant_onChange lexu lexf k v t = Inr t' \<Longrightarrow> tenant_id t' = tenant_id t"
  by (auto simp: Tenant_onChange_def Let_def tenant_id_update split: sum.splits if_splits)

lemma tenants_ok_new:
  assumes "tenants_ok b" and "onNewTenant i b = (res, b')"
  shows "tenants_ok b'"
proof (cases "map_of (tenants b) i")
  case None
  then have "i \<notin> set (started b)" using assms(1) by (metis domIff tenants_ok_def)
  moreover have b': "b' = b\<lparr>started := started b @ [i],
        tenants := std_put i (Tenant_create i) (tenants b)\<rparr>"
    using assms(2) None by (simp add: onNewTenant_def)
  ultimately show ?thesis
    using assms(1) unfolding b' tenants_ok_def
    by (simp add: map_of_std_put std_ok_put) (simp add: Tenant_create_def)
next
  case (Some t)
  then show ?thesis using assms by (simp add: onNewTenant_def)
qed

lemma tenants_ok_node:
  "tenants_ok b \<Longrightarrow> onNewNode start n b = (res, b') \<Longrightarrow> tenants_ok b'"
  by (erule tenants_ok_same) (auto simp: onNewNode_def split: if_splits sum.splits)

lemma HVBench_onChange_cases:
  assumes "HVBench_onChange start r b = (res, b')"
  shows "tenants b' = tenants b \<and> started b' = started b \<or> (\<exists>i res. onNewTenant i b = (res, b')) \<or>
    (\<exists>n res. onNewNode start n b = (res, b'))"
  using assms unfolding HVBench_onChange_def Let_def
  by (auto split: sum.splits if_splits list.splits prod.splits)

lemma onChangeTenantConf_cases:
  assumes "onChangeTenantConf lexu lexf r b = (res, b')"
  shows "b' = b \<or> (\<exists>i k v t t'. map_of (tenants b) i = Some t \<and> Tenant_onChange lexu lexf k v t = Inr t' \<and>
    b' = b\<lparr>tenants := std_put i t' (tenants b)\<rparr>)"
  using assms unfolding onChangeTenantConf_def Let_def
  by (auto split: sum.splits list.splits prod.splits option.splits) metis

lemma onChangeGlobal_same:
  "onChangeGlobal lexu read r b = (res, b') \<Longrightarrow> tenants b' = tenants b \<and> started b' = started b"
  by (auto simp: onChangeGlobal_def split: sum.splits if_splits)

lemma tenants_ok_onChange: "tenants_ok b \<Longrightarrow> HVBench_onChange start r b = (res, b') \<Longrightarrow> tenants_ok b'"
  using HVBench_onChange_cases tenants_ok_same tenants_ok_new tenants_ok_node by metis

lemma tenants_ok_conf: "tenants_ok b \<Longrightarrow> onChangeTenantConf lexu lexf r b = (res, b') \<Longrightarrow> tenants_ok b'"
  using onChangeTenantConf_cases tenants_ok_update tenant_id_onChange by metis

lemma tenants_ok_global: "tenants_ok b \<Longrightarrow> onChangeGlobal lexu read r b = (res, b') \<Longrightarrow> tenants_ok b'"
  using onChangeGlobal_same tenants_ok_same by metis

interpretation instance_owner: watch_owner "HVBench_onChange start" tenants_ok for start
  by unfold_locales (rule tenants_ok_onChange)

interpretation conf_owner: watch_owner "onChangeTenantConf lexu lexf" tenants_ok for lexu lexf
  by unfold_locales (rule tenants_ok_conf)

interpretation global_owner: watch_owner "onChangeGlobal lexu read" tenants_ok for lexu read
  by unfold_locales (rule tenants_ok_global)

lemma tenants_ok_step:
  assumes ok: "tenants_ok b" and step: "bench_step lexu lexf start read prep ev b = (res, b')"
    and prep: "\<And>t t'. prep t = Inr t' \<Longrightarrow> tenant_id t' = tenant_id t"
  shows "tenants_ok b'"
proof (cases ev)
  case (InstanceChange r)
  with step show ?thesis by (intro instance_owner.keeps [OF ok]) (simp add: bench_step_def)
next
  case (TenantConfChange r)
  with step show ?thesis by (intro conf_owner.keeps [OF ok]) (simp add: bench_step_def)
next
  case (GlobalChange r)
  with step show ?thesis by (intro global_owner.keeps [OF ok]) (simp add: bench_step_def)
next
  case (TenantReady i)
  with step ok show ?thesis
    by (auto simp: bench_step_def dest: prep intro: tenants_ok_update split: option.splits sum.splits)
qed

lemma tenant_id_run:
  "Tenant_run now lexu lexf exp_us next0 seed read t = Inr (addr, t') \<Longrightarrow> tenant_id t' = tenant_id t"
  by (auto simp: Tenant_run_def Let_def split: sum.splits if_splits)

lemma stop_tenants_stops:
  assumes "stop_tenants ts = Inr ts'"
  shows "map fst ts' = map fst ts \<and> (\<forall>(i, t)\<in>set ts'. \<exists>c. hvcontroller t = Some c \<and> \<not> running c)"
  using assms
proof (induction ts arbitrary: ts')
  case (Cons x ts)
  then show ?case
    by (cases x) (auto simp: Tenant_stop_def HVBenchController_stop_def split: sum.splits option.splits)
qed simp

text \<open>
  C7. Invariant: an instance that starts without tenants runs, at every moment and whatever
  the watches report, exactly the tenants of its map, each started once and filed under its
  own name; an entry that is announced again is never started a second time (the program
  ends instead).  When the run ends with a shutdown, the controller of every tenant that was
  started has been told to stop.
\<close>

theorem tenants_started_once:
  assumes "bench_run lexu lexf node_start read
      (\<lambda>t. map_sum id snd (Tenant_run now lexu lexf exp_us next0 seed read t)) evs b = Inr b'"
    and "tenants b = []" and "started b = []"
  shows "distinct (started b') \<and> dom (map_of (tenants b')) = set (started b') \<and>
    (\<forall>i t. map_of (tenants b') i = Some t \<longrightarrow> tenant_id t = i) \<and>
    (\<forall>b'' as. HVBench_run b' = Some (Inr (b'', as)) \<longrightarrow>
       (\<forall>i\<in>set (started b'). \<exists>t c. map_of (tenants b'') i = Some t \<and> hvcontroller t = Some c \<and> \<not> running c))"
proof -
  let ?prep = "\<lambda>t. map_sum id snd (Tenant_run now lexu lexf exp_us next0 seed read t)"
  have prep: "tenant_id t' = tenant_id t" if "?prep t = Inr t'" for t t'
    using that by (cases "Tenant_run now lexu lexf exp_us next0 seed read t") (auto dest: tenant_id_run)
  have run: "tenants_ok b'" if "tenants_ok b" "bench_run lexu lexf node_start read ?prep evs b = Inr b'" for b
    using that
  proof (induction evs arbitrary: b)
    case (Cons ev evs)
    obtain res b1 where s: "bench_step lexu lexf node_start read ?prep ev b = (res, b1)" by fastforce
    have "tenants_ok b1" using tenants_ok_step [OF Cons.prems(1) s prep] .
    moreover have "bench_run lexu lexf node_start read ?prep evs b1 = Inr b'"
      using Cons.prems(2) unfolding bench_run.simps s by (cases res) (simp_all split: if_splits)
    ultimately show ?case by (rule Cons.IH)
  qed simp
  have "tenants_ok b" using assms(2,3) by (simp add: tenants_ok_def)
  from run [OF this assms(1)] have ok: "tenants_ok b'" .
  have "\<exists>t c. map_of (tenants b'') i = Some t \<and> hvcontroller t = Some c \<and> \<not> running c"
    if r: "HVBench_run b' = Some (Inr (b'', as))" and i: "i \<in> set (started b')" for b'' as i
  proof -
    have t: "stop_tenants (tenants b') = Inr (tenants b'')"
      using r by (auto simp: HVBench_run_def split: sum.splits if_splits)
    have "i \<in> fst ` set (tenants b')" using ok i by (simp add: tenants_ok_def dom_map_of_conv_image_fst)
    moreover have "map fst (tenants b'') = map fst (tenants b')" using stop_tenants_stops [OF t] by simp
    ultimately have "i \<in> fst ` set (tenants b'')" by (metis list.set_map)
    then obtain t where "map_of (tenants b'') i = Some t" by (metis domD dom_map_of_conv_image_fst)
    with stop_tenants_stops [OF t] map_of_SomeD [OF this] show ?thesis by fastforce
  qed
  with ok show ?thesis by (auto simp: tenants_ok_def)
qed

definition set_reply :: "string \<Rightarrow> string \<Rightarrow> RapidReply" where
  "set_reply k v = \<lparr>document = reply_json ''set'' (Leaf k v 1), reply_header = []\<rparr>"

definition empty_bench :: "(unit, unit) HVBench" where
  "empty_bench = \<lparr>tenants = [], nodes = [], instance_id = 1, shutdown = False, study = ([], 0), started = []\<rparr>"

definition demo_events :: "bench_event list" where
  "demo_events =
     [InstanceChange (set_reply ''/hvbench/instances/1/t2'' ''tenant''),
      InstanceChange (set_reply ''/hvbench/instances/1/t1'' ''tenant''),
      TenantConfChange (set_reply ''/hvbench/tenants/t1/setup/port'' ''6633''),
      InstanceChange (set_reply ''/hvbench/instances/1/shutdown'' ''1'')]"

lemma demo_events_run:
  "map_sum id (\<lambda>b. (started b, map fst (tenants b), shutdown b))
     (bench_run (\<lambda>_. None) (\<lambda>_. None) (\<lambda>_. Inl OutOfRange) (\<lambda>_. Inl OutOfRange)
       (\<lambda>t. map_sum id snd (Tenant_run 0 (\<lambda>_. None) (\<lambda>_. None) (\<lambda>_ r. (0, r)) 0 () (\<lambda>_. Inl OutOfRange) t))
       demo_events empty_bench)
   = Inr ([''t2'', ''t1''], [''t1'', ''t2''], True)"
  by code_simp

lemma tenants_started_once_witness:
  "\<exists>b'. bench_run (\<lambda>_. None) (\<lambda>_. None) (\<lambda>_. Inl OutOfRange) (\<lambda>_. Inl OutOfRange)
       (\<lambda>t. map_sum id snd (Tenant_run 0 (\<lambda>_. None) (\<lambda>_. None) (\<lambda>_ r. (0, r)) 0 () (\<lambda>_. Inl OutOfRange) t))
       demo_events empty_bench = Inr b' \<and> dom (map_of (tenants b')) = {''t1'', ''t2''}"
proof -
  obtain b' where b: "bench_run (\<lambda>_. None) (\<lambda>_. None) (\<lambda>_. Inl OutOfRange) (\<lambda>_. Inl OutOfRange)
       (\<lambda>t. map_sum id snd (Tenant_run 0 (\<lambda>_. None) (\<lambda>_. None) (\<lambda>_ r. (0, r)) 0 () (\<lambda>_. Inl OutOfRange) t))
       demo_events empty_bench = Inr b'" "started b' = [''t2'', ''t1'']"
    using demo_events_run unfolding map_sum_Inr_conv by auto
  have "tenants empty_bench = []" "started empty_bench = []" by (simp_all add: empty_bench_def)
  from tenants_started_once [OF b(1) this] b show ?thesis by auto
qed

end
