(* ===== verification/JsonStream.thy ===== *)
theory JsonStream
  imports Doubles Digits
begin

text \<open>
  The input and the output of \<open>rapidjson\<close>'s reader: \<open>GenericStringStream\<close> over a
  NUL-terminated text (\<open>rapidjson.h\<close>), the errors of \<open>error/error.h\<close>, the events a handler
  receives, and the parts of \<open>reader.h\<close> that only move the stream.  What would be undefined
  or abort the program is a \<open>fault\<close>: a read past the terminating NUL, an assertion that
  fails, a signed overflow, an index past a buffer or a table, with the index where it is
  that of the powers of ten of \<open>dtoa.h\<close>, a loop that does not end.
\<close>

section \<open>Errors and events\<close>

datatype ParseErrorCode =
    kParseErrorNone | kParseErrorDocumentEmpty | kParseErrorDocumentRootNotSingular
  | kParseErrorValueInvalid | kParseErrorObjectMissName | kParseErrorObjectMissColon
  | kParseErrorObjectMissCommaOrCurlyBracket | kParseErrorArrayMissCommaOrSquareBracket
  | kParseErrorStringUnicodeEscapeInvalidHex | kParseErrorStringUnicodeSurrogateInvalid
  | kParseErrorStringEscapeInvalid | kParseErrorStringMissQuotationMark
  | kParseErrorStringInvalidEncoding | kParseErrorNumberTooBig | kParseErrorNumberMissFraction
  | kParseErrorNumberMissExponent | kParseErrorTermination | kParseErrorUnspecificSyntaxError

datatype fault = PastTheEnd | AssertionFails | SignedOverflow | OutOfBounds | PastPow10 nat | NeverReturns

datatype stop = ParseError ParseErrorCode nat | Fault fault

datatype sax =
    SNull | SBool bool | SInt u32 | SUint u32 | SInt64 u64 | SUint64 u64 | SDouble double
  | SString string | SStartObject | SKey string | SEndObject nat | SStartArray | SEndArray nat

text \<open>A handler answers an event with its next state, or with \<open>false\<close>, which is \<open>None\<close>.\<close>

type_synonym 'h handler = "sax \<Rightarrow> 'h \<Rightarrow> fault + 'h option"

section \<open>The stream\<close>

text \<open>What \<open>src_\<close> still points to, the terminating NUL included, and \<open>src_ - head_\<close>.\<close>

record StringStream =
  unread :: string
  Tell :: nat

definition StringStream_new :: "string \<Rightarrow> StringStream" where
  "StringStream_new t = \<lparr>unread = t @ [CHR 0x00], Tell = 0\<rparr>"

definition Peek :: "StringStream \<Rightarrow> stop + char" where
  "Peek s = (case unread s of [] \<Rightarrow> Inl (Fault PastTheEnd) | c # cs \<Rightarrow> Inr c)"

definition Take :: "StringStream \<Rightarrow> stop + char \<times> StringStream" where
  "Take s =
     (case unread s of
        [] \<Rightarrow> Inl (Fault PastTheEnd)
      | c # cs \<Rightarrow> Inr (c, s\<lparr>unread := cs, Tell := Tell s + 1\<rparr>))"

text \<open>The assertion on the next character with which the routines of the reader begin.\<close>

definition Expect :: "char \<Rightarrow> StringStream \<Rightarrow> stop + StringStream" where
  "Expect x s =
     (case Take s of
        Inl e \<Rightarrow> Inl e
      | Inr (c, s') \<Rightarrow> if c = x then Inr s' else Inl (Fault AssertionFails))"

definition emit :: "'h handler \<Rightarrow> sax \<Rightarrow> 'h \<Rightarrow> StringStream \<Rightarrow> stop + 'h" where
  "emit h ev st s =
     (case h ev st of
        Inl f \<Rightarrow> Inl (Fault f)
      | Inr None \<Rightarrow> Inl (ParseError kParseErrorTermination (Tell s))
      | Inr (Some st') \<Rightarrow> Inr st')"

lemma Take_less [dest]: "Take s = Inr (c, s') \<Longrightarrow> length (unread s') < length (unread s)"
  by (auto simp: Take_def split: list.splits)

lemma Expect_less [dest]: "Expect x s = Inr s' \<Longrightarrow> length (unread s') < length (unread s)"
  by (auto simp: Expect_def split: sum.splits if_splits)

definition is_white :: "char \<Rightarrow> bool" where
  "is_white c \<longleftrightarrow> c = CHR '' '' \<or> c = CHR 0x0A \<or> c = CHR 0x0D \<or> c = CHR 0x09"

function SkipWhitespace :: "StringStream \<Rightarrow> stop + StringStream" where
  "SkipWhitespace s =
     (case Peek s of
        Inl e \<Rightarrow> Inl e
      | Inr c \<Rightarrow>
          if is_white c
          then (case Take s of Inl e \<Rightarrow> Inl e | Inr (_, s') \<Rightarrow> SkipWhitespace s')
          else Inr s)"
  by pat_completeness auto
termination
  by (relation "measure (\<lambda>s. length (unread s))") auto

declare SkipWhitespace.simps [simp del]

text \<open>\<open>is.Take() == x \<and> is.Take() == y \<and> \<dots>\<close>: the first character that differs ends it.\<close>

fun Take_all :: "string \<Rightarrow> StringStream \<Rightarrow> stop + bool \<times> StringStream" where
  "Take_all [] s = Inr (True, s)"
| "Take_all (x # xs) s =
     (case Take s of
        Inl e \<Rightarrow> Inl e
      | Inr (c, s') \<Rightarrow> if c = x then Take_all xs s' else Inr (False, s'))"

section \<open>Literals\<close>

definition ParseLiteral :: "char \<Rightarrow> string \<Rightarrow> sax \<Rightarrow> 'h handler \<Rightarrow> 'h \<Rightarrow> StringStream \<Rightarrow> stop + 'h \<times> StringStream" where
  "ParseLiteral x xs ev h st s =
     (case Expect x s of Inl e \<Rightarrow> Inl e | Inr s1 \<Rightarrow>
      case Take_all xs s1 of
        Inl e \<Rightarrow> Inl e
      | Inr (True, s2) \<Rightarrow> map_sum id (\<lambda>st'. (st', s2)) (emit h ev st s2)
      | Inr (False, s2) \<Rightarrow> Inl (ParseError kParseErrorValueInvalid (Tell s2 - 1)))"

definition ParseNull :: "'h handler \<Rightarrow> 'h \<Rightarrow> StringStream \<Rightarrow> stop + 'h \<times> StringStream" where
  "ParseNull = ParseLiteral CHR ''n'' ''ull'' SNull"

definition ParseTrue :: "'h handler \<Rightarrow> 'h \<Rightarrow> StringStream \<Rightarrow> stop + 'h \<times> StringStream" where
  "ParseTrue = ParseLiteral CHR ''t'' ''rue'' (SBool True)"

definition ParseFalse :: "'h handler \<Rightarrow> 'h \<Rightarrow> StringStream \<Rightarrow> stop + 'h \<times> StringStream" where
  "ParseFalse = ParseLiteral CHR ''f'' ''alse'' (SBool False)"

section \<open>Strings\<close>

text \<open>\<open>static_cast<unsigned>(c)\<close> of a \<open>char\<close>, which is signed.\<close>

definition unsigned_of_char :: "char \<Rightarrow> u32" where
  "unsigned_of_char c = scast (word_of_nat (of_char c) :: u8)"

definition in_chars :: "char \<Rightarrow> char \<Rightarrow> char \<Rightarrow> bool" where
  "in_chars lo hi c \<longleftrightarrow> (of_char lo :: nat) \<le> of_char c \<and> (of_char c :: nat) \<le> of_char hi"

fun Hex4_loop :: "nat \<Rightarrow> u32 \<Rightarrow> StringStream \<Rightarrow> stop + u32 \<times> StringStream" where
  "Hex4_loop 0 cp s = Inr (cp, s)"
| "Hex4_loop (Suc n) cp s =
     (case Take s of
        Inl e \<Rightarrow> Inl e
      | Inr (c, s') \<Rightarrow>
          (let cp' = push_bit 4 cp + unsigned_of_char c
           in if in_chars CHR ''0'' CHR ''9'' c then Hex4_loop n (cp' - 48) s'
              else if in_chars CHR ''A'' CHR ''F'' c then Hex4_loop n (cp' - (65 - 10)) s'
              else if in_chars CHR ''a'' CHR ''f'' c then Hex4_loop n (cp' - (97 - 10)) s'
              else Inl (ParseError kParseErrorStringUnicodeEscapeInvalidHex (Tell s' - 1))))"

definition ParseHex4 :: "StringStream \<Rightarrow> stop + u32 \<times> StringStream" where
  "ParseHex4 s = Hex4_loop 4 0 s"

text \<open>\<open>UTF8::Encode\<close>: the code units it puts.\<close>

definition code_unit :: "u32 \<Rightarrow> char" where
  "code_unit w = char_of (unat w)"

definition UTF8_Encode :: "u32 \<Rightarrow> fault + string" where
  "UTF8_Encode cp =
     (if cp \<le> 0x7F then Inr [code_unit (cp AND 0xFF)]
      else if cp \<le> 0x7FF then
        Inr [code_unit (0xC0 OR (drop_bit 6 cp AND 0xFF)), code_unit (0x80 OR (cp AND 0x3F))]
      else if cp \<le> 0xFFFF then
        Inr [code_unit (0xE0 OR (drop_bit 12 cp AND 0xFF)),
             code_unit (0x80 OR (drop_bit 6 cp AND 0x3F)), code_unit (0x80 OR (cp AND 0x3F))]
      else if cp \<le> 0x10FFFF then
        Inr [code_unit (0xF0 OR (drop_bit 18 cp AND 0xFF)),
             code_unit (0x80 OR (drop_bit 12 cp AND 0x3F)),
             code_unit (0x80 OR (drop_bit 6 cp AND 0x3F)), code_unit (0x80 OR (cp AND 0x3F))]
      else Inl AssertionFails)"

definition reader_escape :: "char \<rightharpoonup> char" where
  "reader_escape = map_of
     [(CHR 0x22, CHR 0x22), (CHR ''/'', CHR ''/''), (CHR 0x5C, CHR 0x5C), (CHR ''b'', CHR 0x08),
      (CHR ''f'', CHR 0x0C), (CHR ''n'', CHR 0x0A), (CHR ''r'', CHR 0x0D), (CHR ''t'', CHR 0x09)]"

text \<open>The code point of an escape \<open>\u\<close>, whose second half follows a lead surrogate.\<close>

definition ParseUnicode :: "StringStream \<Rightarrow> stop + u32 \<times> StringStream" where
  "ParseUnicode s =
     (case ParseHex4 s of
        Inl e \<Rightarrow> Inl e
      | Inr (cp, s1) \<Rightarrow>
          if 0xD800 \<le> cp \<and> cp \<le> 0xDBFF
          then (case Take_all [CHR 0x5C, CHR ''u''] s1 of
                  Inl e \<Rightarrow> Inl e
                | Inr (False, s2) \<Rightarrow>
                    Inl (ParseError kParseErrorStringUnicodeSurrogateInvalid (Tell s2 - 2))
                | Inr (True, s2) \<Rightarrow>
                    (case ParseHex4 s2 of
                       Inl e \<Rightarrow> Inl e
                     | Inr (cp2, s3) \<Rightarrow>
                         if cp2 < 0xDC00 \<or> 0xDFFF < cp2
                         then Inl (ParseError kParseErrorStringUnicodeSurrogateInvalid (Tell s3 - 2))
                         else Inr ((push_bit 10 (cp - 0xD800) OR (cp2 - 0xDC00)) + 0x10000, s3)))
          else Inr (cp, s1))"

definition ParseEscape :: "StringStream \<Rightarrow> stop + string \<times> StringStream" where
  "ParseEscape s =
     (case Take s of Inl e \<Rightarrow> Inl e | Inr (_, s1) \<Rightarrow>
      case Take s1 of
        Inl e \<Rightarrow> Inl e
      | Inr (e, s2) \<Rightarrow>
          (case reader_escape e of
             Some x \<Rightarrow> Inr ([x], s2)
           | None \<Rightarrow>
               if e = CHR ''u''
               then (case ParseUnicode s2 of
                       Inl e \<Rightarrow> Inl e
                     | Inr (cp, s3) \<Rightarrow>
                         (case UTF8_Encode cp of Inl f \<Rightarrow> Inl (Fault f) | Inr bs \<Rightarrow> Inr (bs, s3)))
               else Inl (ParseError kParseErrorStringEscapeInvalid (Tell s2 - 1))))"

lemma Take_all_le: "Take_all xs s = Inr (b, s') \<Longrightarrow> length (unread s') \<le> length (unread s)"
  by (induction xs s rule: Take_all.induct) (fastforce split: sum.splits if_splits)+

lemma Hex4_loop_le: "Hex4_loop n cp s = Inr (cp', s') \<Longrightarrow> length (unread s') \<le> length (unread s)"
  by (induction n cp s rule: Hex4_loop.induct)
     (fastforce simp: Let_def split: sum.splits if_splits)+

lemma ParseUnicode_le: "ParseUnicode s = Inr (cp, s') \<Longrightarrow> length (unread s') \<le> length (unread s)"
  unfolding ParseUnicode_def ParseHex4_def
  by (auto simp del: Take_all.simps split: sum.splits if_splits bool.splits
      dest!: Hex4_loop_le Take_all_le)

lemma ParseEscape_less [dest]:
  "ParseEscape s = Inr (bs, s') \<Longrightarrow> length (unread s') < length (unread s)"
  unfolding ParseEscape_def
  by (auto split: sum.splits if_splits option.splits dest!: Take_less ParseUnicode_le)

text \<open>The loop of \<open>ParseStringToStream\<close>, with what it has put; \<open>Transcode\<close> between equal
  encodings copies one code unit.\<close>

function String_loop :: "string \<Rightarrow> StringStream \<Rightarrow> stop + string \<times> StringStream" where
  "String_loop os s =
     (case Peek s of
        Inl e \<Rightarrow> Inl e
      | Inr c \<Rightarrow>
          if c = CHR 0x5C
          then (case ParseEscape s of Inl e \<Rightarrow> Inl e | Inr (bs, s') \<Rightarrow> String_loop (os @ bs) s')
          else if c = CHR 0x22 then map_sum id (\<lambda>(_, s'). (os, s')) (Take s)
          else if c = CHR 0x00
          then Inl (ParseError kParseErrorStringMissQuotationMark (Tell s - 1))
          else if unsigned_of_char c < 0x20
          then Inl (ParseError kParseErrorStringEscapeInvalid (Tell s - 1))
          else (case Take s of Inl e \<Rightarrow> Inl e | Inr (c, s') \<Rightarrow> String_loop (os @ [c]) s'))"
  by pat_completeness auto
termination
  by (relation "measure (\<lambda>(os, s). length (unread s))") auto

declare String_loop.simps [simp del]

definition ParseStringToStream :: "StringStream \<Rightarrow> stop + string \<times> StringStream" where
  "ParseStringToStream s = (case Expect CHR 0x22 s of Inl e \<Rightarrow> Inl e | Inr s' \<Rightarrow> String_loop [] s')"

definition ParseString :: "bool \<Rightarrow> 'h handler \<Rightarrow> 'h \<Rightarrow> StringStream \<Rightarrow> stop + 'h \<times> StringStream" where
  "ParseString isKey h st s =
     (case ParseStringToStream s of
        Inl e \<Rightarrow> Inl e
      | Inr (str, s') \<Rightarrow>
          map_sum id (\<lambda>st'. (st', s')) (emit h (if isKey then SKey str else SString str) st s'))"

lemma String_loop_less:
  "String_loop os s = Inr (str, s') \<Longrightarrow> length (unread s') < length (unread s)"
proof (induction os s rule: String_loop.induct)
  case (1 os s)
  from 1(3) have "(\<exists>c s1. Take s = Inr (c, s1) \<and> s1 = s') \<or>
      (\<exists>os' s1. length (unread s1) < length (unread s) \<and> String_loop os' s1 = Inr (str, s') \<and>
         length (unread s') < length (unread s1))"
    by (subst (asm) String_loop.simps, simp split: sum.splits if_splits prod.splits)
       (use 1(1,2) in blast)+
  then show ?case by auto
qed

end
