(* ===== verification/JsonNumber.thy ===== *)
theory JsonNumber
  imports JsonStream
begin

text \<open>
  Numbers of \<open>reader.h\<close>: \<open>ParseNumber\<close> with its loops over 32 and 64 bits, the fallback to
  \<open>double\<close>, the fraction and the exponent, and \<open>StrtodNormalPrecision\<close> of
  \<open>internal/strtod.h\<close> with the table of \<open>internal/pow10.h\<close>.  The flags are the default ones:
  no full precision, 64-bit architecture.  The counters of digits (\<open>significandDigit\<close>,
  \<open>expFrac\<close>) are integers: they fit an \<open>int\<close> for every text below 2 GB.
\<close>

section \<open>Powers of ten\<close>

text \<open>Entry \<open>n\<close> of the table is the literal \<open>1e+n\<close>, correctly rounded.\<close>

definition Pow10 :: "int \<Rightarrow> fault + double" where
  "Pow10 n = (if 0 \<le> n \<and> n \<le> 308 then Inr (round64 False (10 ^ nat n) 1) else Inl AssertionFails)"

definition FastPath :: "double \<Rightarrow> int \<Rightarrow> fault + double" where
  "FastPath significand exp =
     (if exp < - 308 then Inr (DFinite False 0 (- 1074))
      else if 0 \<le> exp then map_sum id (double_mul significand) (Pow10 exp)
      else map_sum id (double_div significand) (Pow10 (- exp)))"

definition StrtodNormalPrecision :: "double \<Rightarrow> int \<Rightarrow> fault + double" where
  "StrtodNormalPrecision d p =
     (if p < - 308
      then (case FastPath d (- 308) of Inl f \<Rightarrow> Inl f | Inr d' \<Rightarrow> FastPath d' (p + 308))
      else FastPath d p)"

section \<open>The integer part\<close>

record number =
  negative :: bool
  int32 :: u32
  int64 :: u64
  use64bit :: bool
  significandDigit :: int
  useDouble :: bool
  dbl :: double
  expFrac :: int

definition digit_of :: "char \<Rightarrow> nat" where
  "digit_of c = of_char c - 48"

text \<open>The four loops over digits differ in their width and limit; \<open>True\<close> says that the next
  digit does not fit.\<close>

function digit_loop ::
    "'a::len word \<Rightarrow> nat \<Rightarrow> 'a word \<Rightarrow> int \<Rightarrow> StringStream \<Rightarrow> stop + 'a word \<times> int \<times> bool \<times> StringStream" where
  "digit_loop lim lastd i sig s =
     (case Peek s of
        Inl e \<Rightarrow> Inl e
      | Inr c \<Rightarrow>
          if \<not> is_digit c then Inr (i, sig, False, s)
          else if lim \<le> i \<and> (i \<noteq> lim \<or> lastd < digit_of c) then Inr (i, sig, True, s)
          else (case Take s of
                  Inl e \<Rightarrow> Inl e
                | Inr (c, s') \<Rightarrow>
                    digit_loop lim lastd (i * 10 + word_of_nat (digit_of c)) (sig + 1) s'))"
  by pat_completeness auto
termination
  by (relation "measure (\<lambda>(lim, lastd, i, sig, s). length (unread s))") auto

declare digit_loop.simps [simp del]

definition number_start :: "bool \<Rightarrow> number" where
  "number_start m =
     \<lparr>negative = m, int32 = 0, int64 = 0, use64bit = False, significandDigit = 0,
      useDouble = False, dbl = DFinite False 0 (- 1074), expFrac = 0\<rparr>"

definition ParseMinus :: "StringStream \<Rightarrow> stop + number \<times> StringStream" where
  "ParseMinus s =
     (case Peek s of
        Inl e \<Rightarrow> Inl e
      | Inr c \<Rightarrow> if c = CHR ''-'' then map_sum id (\<lambda>(_, s'). (number_start True, s')) (Take s)
                else Inr (number_start False, s))"

definition ParseInt32 :: "number \<Rightarrow> StringStream \<Rightarrow> stop + number \<times> StringStream" where
  "ParseInt32 n s =
     (case Peek s of
        Inl e \<Rightarrow> Inl e
      | Inr c \<Rightarrow>
          if c = CHR ''0'' then map_sum id (\<lambda>(_, s'). (n, s')) (Take s)
          else if is_digit c
          then (case Take s of Inl e \<Rightarrow> Inl e | Inr (c, s1) \<Rightarrow>
                case (if negative n
                      then digit_loop 214748364 8 (word_of_nat (digit_of c)) (significandDigit n) s1
                      else digit_loop 429496729 5 (word_of_nat (digit_of c)) (significandDigit n) s1) of
                  Inl e \<Rightarrow> Inl e
                | Inr (i, sig, over, s2) \<Rightarrow>
                    Inr (n\<lparr>int32 := i, int64 := (if over then ucast i else int64 n),
                           use64bit := over, significandDigit := sig\<rparr>, s2))
          else Inl (ParseError kParseErrorValueInvalid (Tell s)))"

definition ParseInt64 :: "number \<Rightarrow> StringStream \<Rightarrow> stop + number \<times> StringStream" where
  "ParseInt64 n s =
     (if \<not> use64bit n then Inr (n, s)
      else case (if negative n
                 then digit_loop 0x0CCCCCCCCCCCCCCC 8 (int64 n) (significandDigit n) s
                 else digit_loop 0x1999999999999999 5 (int64 n) (significandDigit n) s) of
             Inl e \<Rightarrow> Inl e
           | Inr (i, sig, over, s') \<Rightarrow>
               Inr (n\<lparr>int64 := i, significandDigit := sig, useDouble := over,
                      dbl := (if over then double_of_int (uint i) else dbl n)\<rparr>, s'))"

text \<open>\<open>1.7976931348623157e307\<close>, a tenth of the largest \<open>double\<close>.\<close>

definition tenth_of_max :: double where
  "tenth_of_max = round64 False (17976931348623157 * 10 ^ 291) 1"

definition times_ten_plus :: "double \<Rightarrow> char \<Rightarrow> double" where
  "times_ten_plus d c =
     double_add (double_mul d (double_of_int 10)) (double_of_int (int (digit_of c)))"

function Big_loop :: "double \<Rightarrow> StringStream \<Rightarrow> stop + double \<times> StringStream" where
  "Big_loop d s =
     (case Peek s of
        Inl e \<Rightarrow> Inl e
      | Inr c \<Rightarrow>
          if \<not> is_digit c then Inr (d, s)
          else if double_le tenth_of_max d then Inl (ParseError kParseErrorNumberTooBig (Tell s))
          else (case Take s of
                  Inl e \<Rightarrow> Inl e | Inr (c, s') \<Rightarrow> Big_loop (times_ten_plus d c) s'))"
  by pat_completeness auto
termination
  by (relation "measure (\<lambda>(d, s). length (unread s))") auto

declare Big_loop.simps [simp del]

definition ParseBig :: "number \<Rightarrow> StringStream \<Rightarrow> stop + number \<times> StringStream" where
  "ParseBig n s =
     (if useDouble n then map_sum id (\<lambda>(d, s'). (n\<lparr>dbl := d\<rparr>, s')) (Big_loop (dbl n) s)
      else Inr (n, s))"

section \<open>The fraction\<close>

function Frac_int_loop ::
    "u64 \<Rightarrow> int \<Rightarrow> int \<Rightarrow> StringStream \<Rightarrow> stop + u64 \<times> int \<times> int \<times> StringStream" where
  "Frac_int_loop i ef sig s =
     (case Peek s of
        Inl e \<Rightarrow> Inl e
      | Inr c \<Rightarrow>
          if \<not> is_digit c \<or> 0x1FFFFFFFFFFFFF < i then Inr (i, ef, sig, s)
          else (case Take s of
                  Inl e \<Rightarrow> Inl e
                | Inr (c, s') \<Rightarrow>
                    (let i' = i * 10 + word_of_nat (digit_of c)
                     in Frac_int_loop i' (ef - 1) (if i' \<noteq> 0 then sig + 1 else sig) s')))"
  by pat_completeness auto
termination
  by (relation "measure (\<lambda>(i, ef, sig, s). length (unread s))") auto

function Frac_loop ::
    "double \<Rightarrow> int \<Rightarrow> int \<Rightarrow> StringStream \<Rightarrow> stop + double \<times> int \<times> int \<times> StringStream" where
  "Frac_loop d ef sig s =
     (case Peek s of
        Inl e \<Rightarrow> Inl e
      | Inr c \<Rightarrow>
          if \<not> is_digit c then Inr (d, ef, sig, s)
          else (case Take s of
                  Inl e \<Rightarrow> Inl e
                | Inr (c, s') \<Rightarrow>
                    if sig < 17
                    then (let d' = times_ten_plus d c
                          in Frac_loop d' (ef - 1) (if double_is_pos d' then sig + 1 else sig) s')
                    else Frac_loop d ef sig s'))"
  by pat_completeness auto
termination
  by (relation "measure (\<lambda>(d, ef, sig, s). length (unread s))") auto

declare Frac_int_loop.simps [simp del] Frac_loop.simps [simp del]

text \<open>The significand so far, as an integer.\<close>

definition significand :: "number \<Rightarrow> u64" where
  "significand n = (if use64bit n then int64 n else ucast (int32 n))"

definition ParseFracInt :: "number \<Rightarrow> StringStream \<Rightarrow> stop + number \<times> StringStream" where
  "ParseFracInt n s =
     (if useDouble n then Inr (n, s)
      else case Frac_int_loop (significand n) (expFrac n) (significandDigit n) s of
             Inl e \<Rightarrow> Inl e
           | Inr (i, ef, sig, s') \<Rightarrow>
               Inr (n\<lparr>int64 := i, expFrac := ef, significandDigit := sig, useDouble := True,
                      dbl := double_of_int (uint i)\<rparr>, s'))"

definition ParseFrac :: "number \<Rightarrow> StringStream \<Rightarrow> stop + number \<times> StringStream" where
  "ParseFrac n s =
     (case Peek s of
        Inl e \<Rightarrow> Inl e
      | Inr c \<Rightarrow>
          if c \<noteq> CHR ''.'' then Inr (n, s)
          else
            (case Take s of Inl e \<Rightarrow> Inl e | Inr (_, s1) \<Rightarrow>
             case Peek s1 of
               Inl e \<Rightarrow> Inl e
             | Inr c \<Rightarrow>
                 if \<not> is_digit c then Inl (ParseError kParseErrorNumberMissFraction (Tell s1))
                 else
                   (case ParseFracInt n s1 of Inl e \<Rightarrow> Inl e | Inr (n1, s2) \<Rightarrow>
                    case Frac_loop (dbl n1) (expFrac n1) (significandDigit n1) s2 of
                      Inl e \<Rightarrow> Inl e
                    | Inr (d, ef, sig, s3) \<Rightarrow>
                        Inr (n1\<lparr>dbl := d, expFrac := ef, significandDigit := sig\<rparr>, s3))))"

section \<open>The exponent\<close>

function Skip_digits :: "StringStream \<Rightarrow> stop + StringStream" where
  "Skip_digits s =
     (case Peek s of
        Inl e \<Rightarrow> Inl e
      | Inr c \<Rightarrow> if is_digit c then (case Take s of Inl e \<Rightarrow> Inl e | Inr (_, s') \<Rightarrow> Skip_digits s')
                else Inr s)"
  by pat_completeness auto
termination
  by (relation "measure (\<lambda>s. length (unread s))") auto

text \<open>After the digits that are only consumed the loop ends: its condition is false.\<close>

function Exp_minus_loop :: "int \<Rightarrow> StringStream \<Rightarrow> stop + int \<times> StringStream" where
  "Exp_minus_loop x s =
     (case Peek s of
        Inl e \<Rightarrow> Inl e
      | Inr c \<Rightarrow>
          if \<not> is_digit c then Inr (x, s)
          else (case Take s of
                  Inl e \<Rightarrow> Inl e
                | Inr (c, s') \<Rightarrow>
                    (let x' = x * 10 + int (digit_of c)
                     in if 214748364 \<le> x' then map_sum id (Pair x') (Skip_digits s')
                        else Exp_minus_loop x' s')))"
  by pat_completeness auto
termination
  by (relation "measure (\<lambda>(x, s). length (unread s))") auto

function Exp_plus_loop :: "int \<Rightarrow> int \<Rightarrow> StringStream \<Rightarrow> stop + int \<times> StringStream" where
  "Exp_plus_loop maxExp x s =
     (case Peek s of
        Inl e \<Rightarrow> Inl e
      | Inr c \<Rightarrow>
          if \<not> is_digit c then Inr (x, s)
          else (case Take s of
                  Inl e \<Rightarrow> Inl e
                | Inr (c, s') \<Rightarrow>
                    (let x' = x * 10 + int (digit_of c)
                     in if maxExp < x' then Inl (ParseError kParseErrorNumberTooBig (Tell s'))
                        else Exp_plus_loop maxExp x' s')))"
  by pat_completeness auto
termination
  by (relation "measure (\<lambda>(maxExp, x, s). length (unread s))") auto

declare Skip_digits.simps [simp del] Exp_minus_loop.simps [simp del] Exp_plus_loop.simps [simp del]

definition ParseExpSign :: "StringStream \<Rightarrow> stop + bool \<times> StringStream" where
  "ParseExpSign s =
     (case Peek s of
        Inl e \<Rightarrow> Inl e
      | Inr c \<Rightarrow> if c = CHR ''+'' then map_sum id (\<lambda>(_, s'). (False, s')) (Take s)
                else if c = CHR ''-'' then map_sum id (\<lambda>(_, s'). (True, s')) (Take s)
                else Inr (False, s))"

definition ParseExpDigits :: "bool \<Rightarrow> int \<Rightarrow> StringStream \<Rightarrow> stop + int \<times> StringStream" where
  "ParseExpDigits expMinus ef s =
     (case Peek s of
        Inl e \<Rightarrow> Inl e
      | Inr c \<Rightarrow>
          if \<not> is_digit c then Inl (ParseError kParseErrorNumberMissExponent (Tell s))
          else (case Take s of
                  Inl e \<Rightarrow> Inl e
                | Inr (c, s') \<Rightarrow>
                    if expMinus
                    then map_sum id (\<lambda>(x, s2). (- x, s2)) (Exp_minus_loop (int (digit_of c)) s')
                    else Exp_plus_loop (308 - ef) (int (digit_of c)) s'))"

definition ParseExp :: "number \<Rightarrow> StringStream \<Rightarrow> stop + number \<times> int \<times> StringStream" where
  "ParseExp n s =
     (case Peek s of
        Inl e \<Rightarrow> Inl e
      | Inr c \<Rightarrow>
          if c \<noteq> CHR ''e'' \<and> c \<noteq> CHR ''E'' then Inr (n, 0, s)
          else
            (case Take s of Inl e \<Rightarrow> Inl e | Inr (_, s1) \<Rightarrow>
             case ParseExpSign s1 of Inl e \<Rightarrow> Inl e | Inr (expMinus, s2) \<Rightarrow>
             case ParseExpDigits expMinus (expFrac n) s2 of
               Inl e \<Rightarrow> Inl e
             | Inr (x, s3) \<Rightarrow>
                 Inr (n\<lparr>useDouble := True,
                        dbl := (if useDouble n then dbl n else double_of_int (uint (significand n)))\<rparr>,
                      x, s3)))"

section \<open>The number\<close>

text \<open>\<open>int p = exp + expFrac\<close> is signed arithmetic on 32 bits.\<close>

definition number_event :: "number \<Rightarrow> int \<Rightarrow> fault + sax" where
  "number_event n x =
     (if useDouble n
      then (let p = x + expFrac n
            in if p < - (2 ^ 31) \<or> 2 ^ 31 \<le> p then Inl SignedOverflow
               else map_sum id (\<lambda>d. SDouble (if negative n then double_neg d else d))
                      (StrtodNormalPrecision (dbl n) p))
      else if use64bit n
      then Inr (if negative n then SInt64 (NOT (int64 n) + 1) else SUint64 (int64 n))
      else Inr (if negative n then SInt (NOT (int32 n) + 1) else SUint (int32 n)))"

definition ScanNumber :: "StringStream \<Rightarrow> stop + number \<times> int \<times> StringStream" where
  "ScanNumber s =
     (case ParseMinus s of Inl e \<Rightarrow> Inl e | Inr (n0, s0) \<Rightarrow>
      case ParseInt32 n0 s0 of Inl e \<Rightarrow> Inl e | Inr (n1, s1) \<Rightarrow>
      case ParseInt64 n1 s1 of Inl e \<Rightarrow> Inl e | Inr (n2, s2) \<Rightarrow>
      case ParseBig n2 s2 of Inl e \<Rightarrow> Inl e | Inr (n3, s3) \<Rightarrow>
      case ParseFrac n3 s3 of Inl e \<Rightarrow> Inl e | Inr (n4, s4) \<Rightarrow> ParseExp n4 s4)"

definition ParseNumber :: "'h handler \<Rightarrow> 'h \<Rightarrow> StringStream \<Rightarrow> stop + 'h \<times> StringStream" where
  "ParseNumber h st s =
     (case ScanNumber s of
        Inl e \<Rightarrow> Inl e
      | Inr (n, x, s') \<Rightarrow>
          (case number_event n x of
             Inl f \<Rightarrow> Inl (Fault f)
           | Inr ev \<Rightarrow> map_sum id (\<lambda>st'. (st', s')) (emit h ev st s')))"

end
