(* ===== verification/JsonReader.thy ===== *)
theory JsonReader
  imports JsonNumber
begin

text \<open>
  Values of \<open>reader.h\<close>: the recursive parser of objects, arrays and values, and
  \<open>GenericReader::Parse\<close> with the default flags.  A loop of the code is a function of its own;
  every one of them only moves the stream forward, which is why the recursion ends.
\<close>

section \<open>Moving forward\<close>

definition step :: "StringStream \<Rightarrow> StringStream \<Rightarrow> bool" where
  "step s s' \<longleftrightarrow> (\<exists>c. Take s = Inr (c, s'))"

abbreviation reach :: "StringStream \<Rightarrow> StringStream \<Rightarrow> bool" where
  "reach \<equiv> step\<^sup>*\<^sup>*"

text \<open>The terminating NUL is still ahead.\<close>

definition inside :: "StringStream \<Rightarrow> bool" where
  "inside s \<longleftrightarrow> (\<exists>t. CHR 0x00 \<notin> set t \<and> unread s = t @ [CHR 0x00])"

definition total :: "StringStream \<Rightarrow> nat" where
  "total s = Tell s + length (unread s)"

lemma Take_Inr: "Take s = Inr (c, s') \<longleftrightarrow> (\<exists>cs. unread s = c # cs \<and> s' = s\<lparr>unread := cs, Tell := Tell s + 1\<rparr>)"
  by (auto simp: Take_def split: list.splits)

lemma reach_Take: "Take s = Inr (c, s') \<Longrightarrow> reach s s'"
  by (auto simp: step_def)

lemma reach_trans: "reach s s1 \<Longrightarrow> reach s1 s2 \<Longrightarrow> reach s s2"
  by (rule rtranclp_trans)

lemma reach_total: "reach s s' \<Longrightarrow> total s' = total s"
  by (induction rule: rtranclp_induct) (auto simp: step_def total_def Take_Inr)

lemma reach_length: "reach s s' \<Longrightarrow> length (unread s') \<le> length (unread s)"
  by (induction rule: rtranclp_induct) (auto simp: step_def dest!: Take_less)

lemma Tell_le_total: "Tell s \<le> total s"
  by (simp add: total_def)

lemma inside_Take: "inside s \<Longrightarrow> Take s = Inr (c, s') \<Longrightarrow> c \<noteq> CHR 0x00 \<Longrightarrow> inside s'"
  by (auto simp: inside_def Take_Inr Cons_eq_append_conv)

lemma inside_unread: "inside s \<Longrightarrow> unread s \<noteq> []"
  by (auto simp: inside_def)

text \<open>
  A routine on the stream moves it forward; while the terminating NUL is ahead it neither
  reads past it nor leaves it behind nor fails an assertion, and the position of an error
  lies in the text.  \<open>g\<close> is the stream of its result.
\<close>

fun benign :: "nat \<Rightarrow> stop \<Rightarrow> bool" where
  "benign n (ParseError c off) \<longleftrightarrow> off \<le> n \<and> c \<noteq> kParseErrorNone"
| "benign n (Fault f) \<longleftrightarrow> f = SignedOverflow"

definition fwd :: "('a \<Rightarrow> StringStream) \<Rightarrow> StringStream \<Rightarrow> stop + 'a \<Rightarrow> bool" where
  "fwd g s r \<longleftrightarrow>
     (case r of
        Inl e \<Rightarrow> inside s \<longrightarrow> benign (total s) e
      | Inr a \<Rightarrow> reach s (g a) \<and> (inside s \<longrightarrow> inside (g a)))"

lemma fwd_Inr: "reach s (g a) \<Longrightarrow> (inside s \<Longrightarrow> inside (g a)) \<Longrightarrow> fwd g s (Inr a)"
  by (simp add: fwd_def)

lemma fwd_self: "g a = s \<Longrightarrow> fwd g s (Inr a)"
  by (simp add: fwd_def)

lemma fwd_error: "off \<le> total s \<Longrightarrow> c \<noteq> kParseErrorNone \<Longrightarrow> fwd g s (Inl (ParseError c off))"
  by (simp add: fwd_def)

lemma fwd_if: "(b \<Longrightarrow> fwd g s x) \<Longrightarrow> (\<not> b \<Longrightarrow> fwd g s y) \<Longrightarrow> fwd g s (if b then x else y)"
  by simp

lemma fwd_Peek:
  "(\<And>c cs. unread s = c # cs \<Longrightarrow> fwd g s (F c)) \<Longrightarrow>
     fwd g s (case Peek s of Inl e \<Rightarrow> Inl e | Inr c \<Rightarrow> F c)"
  by (cases "unread s") (auto simp: Peek_def fwd_def inside_def)

lemma fwd_Take:
  "(\<And>c s1. Take s = Inr (c, s1) \<Longrightarrow> fwd g s (F (c, s1))) \<Longrightarrow>
     fwd g s (case Take s of Inl e \<Rightarrow> Inl e | Inr p \<Rightarrow> F p)"
  by (cases "unread s") (auto simp: Take_def fwd_def inside_def)

lemma fwd_tail: "fwd g s1 r \<Longrightarrow> reach s s1 \<Longrightarrow> (inside s \<Longrightarrow> inside s1) \<Longrightarrow> fwd g s r"
  by (auto simp: fwd_def reach_total split: sum.splits intro: reach_trans)

lemma fwd_bind:
  assumes "fwd f s1 r" and "reach s s1" and "inside s \<Longrightarrow> inside s1"
    and "\<And>a. r = Inr a \<Longrightarrow> reach s (f a) \<Longrightarrow> (inside s \<Longrightarrow> inside (f a)) \<Longrightarrow> fwd g s (F a)"
  shows "fwd g s (case r of Inl e \<Rightarrow> Inl e | Inr a \<Rightarrow> F a)"
proof (cases r)
  case (Inl e)
  with assms(1-3) show ?thesis by (auto simp: fwd_def reach_total)
next
  case (Inr a)
  with assms(1-3) have "reach s (f a)" "inside s \<Longrightarrow> inside (f a)"
    by (auto simp: fwd_def intro: reach_trans)
  with assms(4) Inr show ?thesis by simp
qed

lemma fwd_map: "fwd g s (map_sum id k r) \<longleftrightarrow> fwd (g \<circ> k) s r"
  by (cases r) (simp_all add: fwd_def)

lemma fwd_map_pair: "fwd snd s r \<Longrightarrow> fwd snd s (map_sum id (\<lambda>(x, s'). (k x, s')) r)"
  by (cases r) (auto simp: fwd_def)

lemma fwd_map_Pair: "fwd id s r \<Longrightarrow> fwd snd s (map_sum id (Pair x) r)"
  by (cases r) (auto simp: fwd_def)

lemma fwd_reach: "fwd g s (Inr a) \<Longrightarrow> reach s (g a)"
  by (simp add: fwd_def)

lemma fwd_advance:
  "Take s = Inr (c, s1) \<Longrightarrow> c \<noteq> CHR 0x00 \<Longrightarrow> fwd g s1 r \<Longrightarrow> fwd g s r"
  by (rule fwd_tail [of g s1]) (auto intro: reach_Take inside_Take)

lemma fwd_taken:
  "unread s = c # cs \<Longrightarrow> c \<noteq> CHR 0x00 \<Longrightarrow> (\<And>s1. Take s = Inr (c, s1) \<Longrightarrow> fwd g s1 (F (c, s1))) \<Longrightarrow>
     fwd g s (case Take s of Inl e \<Rightarrow> Inl e | Inr p \<Rightarrow> F p)"
  by (rule fwd_Take) (auto simp: Take_Inr intro: fwd_advance)

lemma fwd_Take_end:
  "unread s = c # cs \<Longrightarrow> c \<noteq> CHR 0x00 \<Longrightarrow> (\<And>s1. g (k (c, s1)) = s1) \<Longrightarrow> fwd g s (map_sum id k (Take s))"
  unfolding fwd_map by (auto simp: fwd_def Take_def inside_def Cons_eq_append_conv step_def)

lemma digit_not_nul: "is_digit c \<Longrightarrow> c \<noteq> CHR 0x00"
  by (auto simp: is_digit_def)

lemma white_not_nul: "is_white c \<Longrightarrow> c \<noteq> CHR 0x00"
  by (auto simp: is_white_def)

definition third :: "'a \<times> 'b \<times> 'c \<Rightarrow> 'c" where
  "third = (\<lambda>(a, b, c). c)"

definition fourth :: "'a \<times> 'b \<times> 'c \<times> 'd \<Rightarrow> 'd" where
  "fourth = (\<lambda>(a, b, c, d). d)"

lemma third_fourth [simp]: "third (a, b, c) = c" "fourth (a, b, c, d) = d"
  by (simp_all add: third_def fourth_def)

lemma fwd_SkipWhitespace: "fwd id s (SkipWhitespace s)"
proof (induction s rule: SkipWhitespace.induct)
  case (1 s)
  show ?case
    by (subst SkipWhitespace.simps, rule fwd_Peek)
       (auto intro!: fwd_if fwd_taken fwd_self white_not_nul 1 simp: Peek_def)
qed

lemma fwd_Skip_digits: "fwd id s (Skip_digits s)"
proof (induction s rule: Skip_digits.induct)
  case (1 s)
  show ?case
    by (subst Skip_digits.simps, rule fwd_Peek)
       (auto intro!: fwd_if fwd_taken fwd_self digit_not_nul 1 simp: Peek_def)
qed

lemma fwd_digit_loop: "fwd fourth s (digit_loop lim l i sig s)"
proof (induction lim l i sig s rule: digit_loop.induct)
  case (1 lim l i sig s)
  show ?case
    by (subst digit_loop.simps, rule fwd_Peek)
       (use 1 in \<open>auto simp: Peek_def intro!: fwd_if fwd_taken fwd_self digit_not_nul\<close>)
qed

lemma fwd_Big_loop: "fwd snd s (Big_loop d s)"
proof (induction d s rule: Big_loop.induct)
  case (1 d s)
  show ?case
    by (subst Big_loop.simps, rule fwd_Peek)
       (auto intro!: fwd_if fwd_taken fwd_self fwd_error Tell_le_total digit_not_nul 1
          simp: Peek_def)
qed

lemma fwd_Frac_int_loop: "fwd fourth s (Frac_int_loop i ef sig s)"
proof (induction i ef sig s rule: Frac_int_loop.induct)
  case (1 i ef sig s)
  show ?case
    by (subst Frac_int_loop.simps, rule fwd_Peek)
       (use 1 in \<open>auto simp: Peek_def Let_def intro!: fwd_if fwd_taken fwd_self digit_not_nul\<close>)
qed

lemma fwd_Frac_loop: "fwd fourth s (Frac_loop d ef sig s)"
proof (induction d ef sig s rule: Frac_loop.induct)
  case (1 d ef sig s)
  show ?case
    by (subst Frac_loop.simps, rule fwd_Peek)
       (use 1 in \<open>auto simp: Peek_def Let_def intro!: fwd_if fwd_taken fwd_self digit_not_nul\<close>)
qed

lemma fwd_Exp_minus_loop: "fwd snd s (Exp_minus_loop x s)"
proof (induction x s rule: Exp_minus_loop.induct)
  case (1 x s)
  show ?case
    by (subst Exp_minus_loop.simps, rule fwd_Peek)
       (use 1 in \<open>auto simp: Peek_def Let_def
          intro!: fwd_if fwd_taken fwd_self fwd_map_Pair fwd_Skip_digits digit_not_nul\<close>)
qed

lemma fwd_error_at: "reach s s1 \<Longrightarrow> off \<le> Tell s1 \<Longrightarrow> c \<noteq> kParseErrorNone \<Longrightarrow> fwd g s (Inl (ParseError c off))"
  using Tell_le_total [of s1] reach_total [of s s1] by (auto intro: fwd_error)

lemma fwd_error_back: "reach s s1 \<Longrightarrow> c \<noteq> kParseErrorNone \<Longrightarrow> fwd g s (Inl (ParseError c (Tell s1 - k)))"
  by (rule fwd_error_at, assumption, simp_all)

lemma fwd_Exp_plus_loop: "fwd snd s (Exp_plus_loop m x s)"
proof (induction m x s rule: Exp_plus_loop.induct)
  case (1 m x s)
  show ?case
    by (subst Exp_plus_loop.simps, rule fwd_Peek)
       (use 1 in \<open>auto simp: Peek_def Let_def
          intro!: fwd_if fwd_taken fwd_self fwd_error_at [OF rtranclp.rtrancl_refl order.refl]
            digit_not_nul\<close>)
qed

lemma fwd_ParseMinus: "fwd snd s (ParseMinus s)"
  unfolding ParseMinus_def by (rule fwd_Peek) (auto intro!: fwd_if fwd_self fwd_Take_end)

lemma fwd_ParseInt32: "fwd snd s (ParseInt32 n s)"
  unfolding ParseInt32_def
  by (rule fwd_Peek, intro fwd_if)
     (auto intro!: fwd_Take_end fwd_taken fwd_bind [OF fwd_digit_loop] fwd_Inr
        fwd_error Tell_le_total dest: digit_not_nul)

lemma fwd_ParseInt64: "fwd snd s (ParseInt64 n s)"
  unfolding ParseInt64_def
  by (auto intro!: fwd_bind [OF fwd_digit_loop] fwd_Inr)

lemma fwd_ParseBig: "fwd snd s (ParseBig n s)"
  unfolding ParseBig_def
  by (auto intro!: fwd_self fwd_map_pair fwd_Big_loop)

lemma fwd_ParseFracInt: "fwd snd s (ParseFracInt n s)"
  unfolding ParseFracInt_def
  by (auto intro!: fwd_bind [OF fwd_Frac_int_loop] fwd_Inr)

lemma fwd_ParseFrac: "fwd snd s (ParseFrac n s)"
  unfolding ParseFrac_def
  by (rule fwd_Peek, intro fwd_if)
     (auto intro!: fwd_taken fwd_Peek fwd_if fwd_error Tell_le_total
        fwd_bind [OF fwd_ParseFracInt] fwd_bind [OF fwd_Frac_loop] fwd_Inr)

lemma fwd_ParseExpSign: "fwd snd s (ParseExpSign s)"
  unfolding ParseExpSign_def by (rule fwd_Peek) (auto intro!: fwd_if fwd_self fwd_Take_end)

lemma fwd_ParseExpDigits: "fwd snd s (ParseExpDigits m ef s)"
  unfolding ParseExpDigits_def
  by (rule fwd_Peek, intro fwd_if)
     (auto intro!: fwd_taken fwd_if fwd_error Tell_le_total digit_not_nul fwd_map_pair
        fwd_Exp_minus_loop fwd_Exp_plus_loop)

lemma fwd_ParseExp: "fwd third s (ParseExp n s)"
  unfolding ParseExp_def
  by (rule fwd_Peek, intro fwd_if)
     (auto intro!: fwd_taken fwd_bind [OF fwd_ParseExpSign] fwd_bind [OF fwd_ParseExpDigits]
        fwd_Inr)

lemma fwd_ScanNumber: "fwd third s (ScanNumber s)"
  unfolding ScanNumber_def
  by (auto intro!: fwd_bind [OF fwd_ParseMinus] fwd_bind [OF fwd_ParseInt32]
      fwd_bind [OF fwd_ParseInt64] fwd_bind [OF fwd_ParseBig] fwd_bind [OF fwd_ParseFrac]
      fwd_tail [OF fwd_ParseExp])

lemma Take_all_result:
  "CHR 0x00 \<notin> set xs \<Longrightarrow>
     (case Take_all xs s of
        Inl e \<Rightarrow> \<not> inside s
      | Inr (b, s') \<Rightarrow> reach s s' \<and> (b \<longrightarrow> inside s \<longrightarrow> inside s'))"
proof (induction xs s rule: Take_all.induct)
  case (2 x xs s)
  show ?case
  proof (cases "Take s")
    case (Inl e)
    then show ?thesis by (auto simp: Take_def inside_def split: list.splits)
  next
    case (Inr p)
    then obtain c s1 where p: "Take s = Inr (c, s1)" by (cases p) auto
    show ?thesis
      using 2(1) [OF p refl] 2(2) p
      by (cases "c = x") (auto split: sum.splits intro: reach_Take reach_trans inside_Take)
  qed
qed simp

lemma fwd_Take_all:
  assumes "CHR 0x00 \<notin> set xs"
    and "\<And>s1. reach s s1 \<Longrightarrow> (inside s \<Longrightarrow> inside s1) \<Longrightarrow> fwd g s (F (True, s1))"
    and "\<And>s1. reach s s1 \<Longrightarrow> fwd g s (F (False, s1))"
  shows "fwd g s (case Take_all xs s of Inl e \<Rightarrow> Inl e | Inr p \<Rightarrow> F p)"
proof (cases "Take_all xs s")
  case (Inl e)
  then show ?thesis using Take_all_result [OF assms(1), of s] by (simp add: fwd_def)
next
  case (Inr p)
  then obtain b s1 where p: "p = (b, s1)" by (cases p)
  show ?thesis
    using Take_all_result [OF assms(1), of s] assms(2,3) [of s1] by (cases b) (simp_all add: Inr p)
qed

lemma in_chars_not_nul: "in_chars lo hi c \<Longrightarrow> 0 < (of_char lo :: nat) \<Longrightarrow> c \<noteq> CHR 0x00"
  by (auto simp: in_chars_def)

lemma fwd_Hex4_loop: "fwd snd s (Hex4_loop n cp s)"
proof (induction n cp s rule: Hex4_loop.induct)
  case (2 n cp s)
  show ?case
    by (subst Hex4_loop.simps, rule fwd_Take)
       (use 2 in \<open>auto simp: Let_def intro!: fwd_if fwd_error_back [OF reach_Take]
          elim!: fwd_advance [OF _ in_chars_not_nul]\<close>)
qed (simp add: fwd_Inr)

lemma fwd_ParseUnicode: "fwd snd s (ParseUnicode s)"
  unfolding ParseUnicode_def ParseHex4_def
  by (intro fwd_bind [OF fwd_Hex4_loop])
     (auto simp del: Take_all.simps
       intro!: fwd_if fwd_bind [OF fwd_Hex4_loop] fwd_Inr fwd_tail [OF fwd_Take_all] fwd_error_back)

lemma unat_of_nat_32: "n < 2 ^ 32 \<Longrightarrow> unat (word_of_nat n :: u32) = n"
  by (simp add: unsigned_of_nat take_bit_nat_eq_self)

lemma unsigned_of_char_ascii: "of_char c < (128 :: nat) \<Longrightarrow> unsigned_of_char c = word_of_nat (of_char c)"
proof -
  assume "of_char c < (128 :: nat)"
  moreover have "(scast (word_of_nat n :: u8) :: u32) = word_of_nat n" if "n < 128" for n
  proof -
    have "sint (word_of_nat n :: u8) = int n"
      using that by (simp add: sint_sbintrunc' signed_take_bit_int_eq_self signed_of_nat)
    then show ?thesis by (simp add: scast_eq)
  qed
  ultimately show ?thesis by (simp add: unsigned_of_char_def)
qed

definition hex_value :: "char \<Rightarrow> nat" where
  "hex_value c =
     (if in_chars CHR ''0'' CHR ''9'' c then of_char c - 48
      else if in_chars CHR ''A'' CHR ''F'' c then of_char c - 55 else of_char c - 87)"

lemma hex_step:
  assumes "unat cp < 2 ^ 28"
  shows "in_chars CHR ''0'' CHR ''9'' c \<Longrightarrow>
      unat (push_bit 4 cp + unsigned_of_char c - 48) = 16 * unat cp + hex_value c \<and> hex_value c < 16"
    and "in_chars CHR ''A'' CHR ''F'' c \<Longrightarrow>
      unat (push_bit 4 cp + unsigned_of_char c - 55) = 16 * unat cp + hex_value c \<and> hex_value c < 16"
    and "in_chars CHR ''a'' CHR ''f'' c \<Longrightarrow>
      unat (push_bit 4 cp + unsigned_of_char c - 87) = 16 * unat cp + hex_value c \<and> hex_value c < 16"
proof -
  have p: "push_bit 4 cp = word_of_nat (16 * unat cp)"
    by (simp add: push_bit_eq_mult)
  have step: "unat (push_bit 4 cp + unsigned_of_char c - word_of_nat k) = 16 * unat cp + (of_char c - k)"
    if "k \<le> of_char c" "of_char c < (128 :: nat)" "of_char c < k + 16" for k
  proof -
    have "push_bit 4 cp + unsigned_of_char c - word_of_nat k = word_of_nat (16 * unat cp + (of_char c - k))"
      using that by (simp add: p unsigned_of_char_ascii of_nat_diff)
    moreover have "16 * unat cp + (of_char c - k) < 2 ^ 32"
      using less_diff_conv2 [OF that(1), of 16] that(3) assms by simp
    ultimately show ?thesis by (metis unat_of_nat_32)
  qed
  show "in_chars CHR ''0'' CHR ''9'' c \<Longrightarrow>
      unat (push_bit 4 cp + unsigned_of_char c - 48) = 16 * unat cp + hex_value c \<and> hex_value c < 16"
    using step [of 48] by (simp add: in_chars_def hex_value_def; linarith)
  show "in_chars CHR ''A'' CHR ''F'' c \<Longrightarrow>
      unat (push_bit 4 cp + unsigned_of_char c - 55) = 16 * unat cp + hex_value c \<and> hex_value c < 16"
    using step [of 55] by (simp add: in_chars_def hex_value_def; linarith)
  show "in_chars CHR ''a'' CHR ''f'' c \<Longrightarrow>
      unat (push_bit 4 cp + unsigned_of_char c - 87) = 16 * unat cp + hex_value c \<and> hex_value c < 16"
    using step [of 87] by (simp add: in_chars_def hex_value_def; linarith)
qed

lemma Hex4_loop_bound:
  "Hex4_loop n cp s = Inr (cp', s') \<Longrightarrow> unat cp < 2 ^ (4 * k) \<Longrightarrow> n + k \<le> 7 \<Longrightarrow> unat cp' < 2 ^ (4 * (k + n))"
proof (induction n cp s arbitrary: k rule: Hex4_loop.induct)
  case (2 n cp s)
  have b: "unat cp < 2 ^ 28"
    using 2(5,6) power_increasing [of "4 * k" 28 "2 :: nat"] by linarith
  obtain c s1 where t: "Take s = Inr (c, s1)" using 2(4) by (auto split: sum.splits)
  have next_: "16 * unat cp + v < 2 ^ (4 * Suc k)" if "v < 16" for v
    using that 2(5) by (simp add: power_add)
  have k: "n + Suc k \<le> 7" using 2(6) by simp
  from 2(4) show ?case
    using 2(1) [OF t refl refl _ _ _ k] 2(2) [OF t refl refl _ _ _ _ k]
      2(3) [OF t refl refl _ _ _ _ _ k] hex_step [OF b, of c] next_ t
    by (auto simp: Let_def simp del: power_Suc mult_Suc_right split: if_splits)
qed simp

lemma ParseHex4_bound: "ParseHex4 s = Inr (cp, s') \<Longrightarrow> cp \<le> 0xFFFF"
  using Hex4_loop_bound [of 4 0 s cp s' 0]
  by (simp add: ParseHex4_def word_le_nat_alt)

lemma ParseUnicode_bound:
  assumes "ParseUnicode s = Inr (cp, s')"
  shows "cp \<le> 0x10FFFF"
proof -
  have pair: "(push_bit 10 (a - 0xD800) OR (b - 0xDC00)) + 0x10000 \<le> (0x10FFFF :: u32)"
    if "0xD800 \<le> a" "a \<le> 0xDBFF" "0xDC00 \<le> b" "b \<le> 0xDFFF" for a b :: u32
  proof -
    have a: "uint (a - 0xD800) < 2 ^ 10" and b: "uint (b - 0xDC00) < 2 ^ 20"
      using that by (simp_all add: word_le_def uint_sub_lem [THEN iffD1])
    have "uint (push_bit 10 x) < 2 ^ 20" if "uint x < 2 ^ 10" for x :: u32
      using that by (simp add: push_bit_eq_mult uint_word_ariths)
    from this [OF a] have "uint (push_bit 10 (a - 0xD800)) < 2 ^ 20" .
    with b have "uint (push_bit 10 (a - 0xD800) OR (b - 0xDC00)) < 2 ^ 20"
      unfolding uint_or by (intro OR_upper) simp_all
    then show ?thesis
      by (simp add: word_le_def uint_word_ariths)
  qed
  have small: "x \<le> 0xFFFF \<Longrightarrow> x \<le> 0x10FFFF" for x :: u32
    by (rule order_trans [of _ "0xFFFF :: u32"]) simp_all
  show ?thesis
    using assms pair small ParseHex4_bound [of s] unfolding ParseUnicode_def
    by (auto simp del: Take_all.simps simp: not_less split: sum.splits if_splits bool.splits)
qed

lemma UTF8_Encode_total: "cp \<le> 0x10FFFF \<Longrightarrow> \<exists>bs. UTF8_Encode cp = Inr bs"
  by (simp add: UTF8_Encode_def)

lemma escape_not_nul: "reader_escape e = Some x \<Longrightarrow> e \<noteq> CHR 0x00"
  by (auto simp: reader_escape_def split: if_splits)

lemma fwd_ParseEscape:
  assumes "unread s = CHR 0x5C # cs"
  shows "fwd snd s (ParseEscape s)"
proof -
  have "fwd snd s1 (case reader_escape e of Some x \<Rightarrow> Inr ([x], s2)
      | None \<Rightarrow> if e = CHR ''u''
          then (case ParseUnicode s2 of Inl e \<Rightarrow> Inl e
                | Inr (cp, s3) \<Rightarrow> (case UTF8_Encode cp of Inl f \<Rightarrow> Inl (Fault f) | Inr bs \<Rightarrow> Inr (bs, s3)))
          else Inl (ParseError kParseErrorStringEscapeInvalid (Tell s2 - 1)))"
    if t: "Take s1 = Inr (e, s2)" for s1 e s2
  proof (cases "reader_escape e")
    case None
    have "fwd snd s2 (case ParseUnicode s2 of Inl e \<Rightarrow> Inl e
        | Inr (cp, s3) \<Rightarrow> (case UTF8_Encode cp of Inl f \<Rightarrow> Inl (Fault f) | Inr bs \<Rightarrow> Inr (bs, s3)))"
      by (rule fwd_bind [OF fwd_ParseUnicode])
         (auto dest!: ParseUnicode_bound UTF8_Encode_total intro!: fwd_Inr)
    with None t show ?thesis
      by (auto intro!: fwd_if fwd_error_back [OF reach_Take] intro: fwd_advance)
  next
    case (Some x)
    with t show ?thesis
      by (auto intro!: fwd_Inr intro: reach_Take inside_Take dest: escape_not_nul)
  qed
  then show ?thesis
    unfolding ParseEscape_def by (intro fwd_taken [OF assms]) (auto intro!: fwd_Take)
qed

lemma fwd_String_loop: "fwd snd s (String_loop os s)"
proof (induction os s rule: String_loop.induct)
  case (1 os s)
  have escape: "fwd snd s (case ParseEscape s of Inl e \<Rightarrow> Inl e | Inr (bs, s') \<Rightarrow> String_loop (os @ bs) s')"
    if u: "unread s = CHR 0x5C # cs" for cs
  proof (rule fwd_bind [OF fwd_ParseEscape [OF u]])
    fix p assume p: "ParseEscape s = Inr p" and r: "reach s (snd p)" "inside s \<Longrightarrow> inside (snd p)"
    obtain bs s' where bs: "p = (bs, s')" by (cases p)
    have "fwd snd s' (String_loop (os @ bs) s')"
      using 1(1) [OF _ refl p bs [symmetric]] u by (simp add: Peek_def)
    with r show "fwd snd s (case p of (bs, s') \<Rightarrow> String_loop (os @ bs) s')"
      by (simp add: bs fwd_tail)
  qed simp_all
  show ?case
    by (subst String_loop.simps, rule fwd_Peek, intro fwd_if)
       (use escape 1(2) in \<open>auto simp: Peek_def intro!: fwd_Take_end fwd_taken fwd_error_back\<close>)
qed

lemma fwd_Expect: "unread s = c # cs \<Longrightarrow> c \<noteq> CHR 0x00 \<Longrightarrow> fwd id s (Expect c s)"
  unfolding Expect_def
proof (rule fwd_Take)
  fix x s1 assume u: "unread s = c # cs" "c \<noteq> CHR 0x00" and t: "Take s = Inr (x, s1)"
  have "x = c" using u t by (auto simp: Take_Inr)
  with u t show "fwd id s (case (x, s1) of (y, s') \<Rightarrow> if y = c then Inr s' else Inl (Fault AssertionFails))"
    by (auto intro!: fwd_Inr reach_Take intro: inside_Take)
qed

lemma fwd_ParseStringToStream: "unread s = CHR 0x22 # cs \<Longrightarrow> fwd snd s (ParseStringToStream s)"
  unfolding ParseStringToStream_def
  by (auto intro!: fwd_bind [OF fwd_Expect] fwd_tail [OF fwd_String_loop])

section \<open>Values\<close>

text \<open>The heads and tails of the loops over members and elements; \<open>True\<close> asks for another
  round.\<close>

definition ObjectHead :: "'h handler \<Rightarrow> 'h \<Rightarrow> StringStream \<Rightarrow> stop + 'h \<times> StringStream" where
  "ObjectHead h st s =
     (case Expect CHR 0x7B s of Inl e \<Rightarrow> Inl e | Inr s1 \<Rightarrow>
      case emit h SStartObject st s1 of Inl e \<Rightarrow> Inl e | Inr st1 \<Rightarrow>
      map_sum id (Pair st1) (SkipWhitespace s1))"

definition ArrayHead :: "'h handler \<Rightarrow> 'h \<Rightarrow> StringStream \<Rightarrow> stop + 'h \<times> StringStream" where
  "ArrayHead h st s =
     (case Expect CHR 0x5B s of Inl e \<Rightarrow> Inl e | Inr s1 \<Rightarrow>
      case emit h SStartArray st s1 of Inl e \<Rightarrow> Inl e | Inr st1 \<Rightarrow>
      map_sum id (Pair st1) (SkipWhitespace s1))"

definition Finish :: "'h handler \<Rightarrow> sax \<Rightarrow> 'h \<Rightarrow> StringStream \<Rightarrow> stop + 'h \<times> StringStream" where
  "Finish h ev st s =
     (case Take s of Inl e \<Rightarrow> Inl e | Inr (_, s1) \<Rightarrow> map_sum id (\<lambda>st1. (st1, s1)) (emit h ev st s1))"

definition MemberName :: "'h handler \<Rightarrow> 'h \<Rightarrow> StringStream \<Rightarrow> stop + 'h \<times> StringStream" where
  "MemberName h st s =
     (case Peek s of Inl e \<Rightarrow> Inl e | Inr c \<Rightarrow>
      if c \<noteq> CHR 0x22 then Inl (ParseError kParseErrorObjectMissName (Tell s))
      else
        (case ParseString True h st s of Inl e \<Rightarrow> Inl e | Inr (st1, s1) \<Rightarrow>
         case SkipWhitespace s1 of Inl e \<Rightarrow> Inl e | Inr s2 \<Rightarrow>
         case Take s2 of
           Inl e \<Rightarrow> Inl e
         | Inr (c, s3) \<Rightarrow>
             if c \<noteq> CHR '':'' then Inl (ParseError kParseErrorObjectMissColon (Tell s3))
             else map_sum id (Pair st1) (SkipWhitespace s3)))"

definition ElementEnd ::
    "char \<Rightarrow> sax \<Rightarrow> ParseErrorCode \<Rightarrow> 'h handler \<Rightarrow> 'h \<Rightarrow> StringStream \<Rightarrow> stop + bool \<times> 'h \<times> StringStream" where
  "ElementEnd close ev err h st s =
     (case SkipWhitespace s of Inl e \<Rightarrow> Inl e | Inr s1 \<Rightarrow>
      case Take s1 of
        Inl e \<Rightarrow> Inl e
      | Inr (c, s2) \<Rightarrow>
          if c = CHR '','' then map_sum id (\<lambda>s3. (True, st, s3)) (SkipWhitespace s2)
          else if c = close then map_sum id (\<lambda>st1. (False, st1, s2)) (emit h ev st s2)
          else Inl (ParseError err (Tell s2)))"

abbreviation MemberEnd :: "nat \<Rightarrow> 'h handler \<Rightarrow> 'h \<Rightarrow> StringStream \<Rightarrow> stop + bool \<times> 'h \<times> StringStream" where
  "MemberEnd n \<equiv> ElementEnd CHR 0x7D (SEndObject n) kParseErrorObjectMissCommaOrCurlyBracket"

abbreviation ItemEnd :: "nat \<Rightarrow> 'h handler \<Rightarrow> 'h \<Rightarrow> StringStream \<Rightarrow> stop + bool \<times> 'h \<times> StringStream" where
  "ItemEnd n \<equiv> ElementEnd CHR 0x5D (SEndArray n) kParseErrorArrayMissCommaOrSquareBracket"

lemma map_sum_Inr [simp]: "map_sum id k r = Inr y \<longleftrightarrow> (\<exists>x. r = Inr x \<and> y = k x)"
  by (cases r) auto

lemma SkipWhitespace_le: "SkipWhitespace s = Inr s' \<Longrightarrow> length (unread s') \<le> length (unread s)"
  using fwd_SkipWhitespace [of s] by (simp add: fwd_def reach_length)

lemma head_less:
  "ObjectHead h st s = Inr (st', s') \<Longrightarrow> length (unread s') < length (unread s)"
  "ArrayHead h st s = Inr (st', s') \<Longrightarrow> length (unread s') < length (unread s)"
  by (auto simp: ObjectHead_def ArrayHead_def split: sum.splits dest!: Expect_less SkipWhitespace_le)

lemma ParseString_less: "ParseString k h st s = Inr (st', s') \<Longrightarrow> length (unread s') < length (unread s)"
  unfolding ParseString_def ParseStringToStream_def
  by (auto split: sum.splits dest!: Expect_less String_loop_less)

lemma MemberName_less: "MemberName h st s = Inr (st', s') \<Longrightarrow> length (unread s') < length (unread s)"
  unfolding MemberName_def
  by (auto split: sum.splits if_splits dest!: ParseString_less SkipWhitespace_le Take_less)

lemma ElementEnd_less: "ElementEnd cl ev err h st s = Inr (b, st', s') \<Longrightarrow> length (unread s') < length (unread s)"
  unfolding ElementEnd_def
  by (auto split: sum.splits if_splits dest!: SkipWhitespace_le Take_less)

lemma Finish_less: "Finish h ev st s = Inr (st', s') \<Longrightarrow> length (unread s') < length (unread s)"
  unfolding Finish_def by (auto split: sum.splits dest!: Take_less)

lemma ParseLiteral_less: "ParseLiteral x xs ev h st s = Inr (st', s') \<Longrightarrow> length (unread s') < length (unread s)"
  unfolding ParseLiteral_def
  by (auto split: sum.splits bool.splits dest!: Expect_less Take_all_le)

lemmas literal_defs = ParseNull_def ParseTrue_def ParseFalse_def

lemma ParseNumber_le: "ParseNumber h st s = Inr (st', s') \<Longrightarrow> length (unread s') \<le> length (unread s)"
  unfolding ParseNumber_def
  using fwd_ScanNumber [of s] by (auto simp: fwd_def reach_length split: sum.splits)

function ParseValue :: "'h handler \<Rightarrow> 'h \<Rightarrow> StringStream \<Rightarrow> stop + 'h \<times> StringStream"
  and ParseObject :: "'h handler \<Rightarrow> 'h \<Rightarrow> StringStream \<Rightarrow> stop + 'h \<times> StringStream"
  and ParseMembers :: "'h handler \<Rightarrow> nat \<Rightarrow> 'h \<Rightarrow> StringStream \<Rightarrow> stop + 'h \<times> StringStream"
  and ParseArray :: "'h handler \<Rightarrow> 'h \<Rightarrow> StringStream \<Rightarrow> stop + 'h \<times> StringStream"
  and ParseElements :: "'h handler \<Rightarrow> nat \<Rightarrow> 'h \<Rightarrow> StringStream \<Rightarrow> stop + 'h \<times> StringStream" where
  "ParseValue h st s =
     (case Peek s of
        Inl e \<Rightarrow> Inl e
      | Inr c \<Rightarrow>
          if c = CHR ''n'' then ParseNull h st s
          else if c = CHR ''t'' then ParseTrue h st s
          else if c = CHR ''f'' then ParseFalse h st s
          else if c = CHR 0x22 then ParseString False h st s
          else if c = CHR 0x7B then ParseObject h st s
          else if c = CHR 0x5B then ParseArray h st s
          else ParseNumber h st s)"
| "ParseObject h st s =
     (case ObjectHead h st s of
        Inl e \<Rightarrow> Inl e
      | Inr (st1, s1) \<Rightarrow>
          (case Peek s1 of
             Inl e \<Rightarrow> Inl e
           | Inr c \<Rightarrow> if c = CHR 0x7D then Finish h (SEndObject 0) st1 s1 else ParseMembers h 0 st1 s1))"
| "ParseMembers h n st s =
     (case MemberName h st s of Inl e \<Rightarrow> Inl e | Inr (st1, s1) \<Rightarrow>
      case ParseValue h st1 s1 of Inl e \<Rightarrow> Inl e | Inr (st2, s2) \<Rightarrow>
      case MemberEnd (Suc n) h st2 s2 of
        Inl e \<Rightarrow> Inl e
      | Inr (again, st3, s3) \<Rightarrow> if again then ParseMembers h (Suc n) st3 s3 else Inr (st3, s3))"
| "ParseArray h st s =
     (case ArrayHead h st s of
        Inl e \<Rightarrow> Inl e
      | Inr (st1, s1) \<Rightarrow>
          (case Peek s1 of
             Inl e \<Rightarrow> Inl e
           | Inr c \<Rightarrow> if c = CHR 0x5D then Finish h (SEndArray 0) st1 s1 else ParseElements h 0 st1 s1))"
| "ParseElements h n st s =
     (case ParseValue h st s of Inl e \<Rightarrow> Inl e | Inr (st1, s1) \<Rightarrow>
      case ItemEnd (Suc n) h st1 s1 of
        Inl e \<Rightarrow> Inl e
      | Inr (again, st2, s2) \<Rightarrow> if again then ParseElements h (Suc n) st2 s2 else Inr (st2, s2))"
  by pat_completeness auto

text \<open>What the parser leaves is no longer than what it was given: by induction over the calls
  it makes, before they are known to end.\<close>

abbreviation parse_dom where
  "parse_dom \<equiv> ParseValue_ParseObject_ParseMembers_ParseArray_ParseElements_dom"

lemma parse_partial_le:
  "parse_dom (Inl (Inl (h, st, s))) \<Longrightarrow>
     ParseValue h st s = Inr r \<longrightarrow> length (unread (snd r)) \<le> length (unread s)"
  "parse_dom (Inl (Inr (h, st, s))) \<Longrightarrow>
     ParseObject h st s = Inr r \<longrightarrow> length (unread (snd r)) \<le> length (unread s)"
  "parse_dom (Inr (Inl (h, n, st, s))) \<Longrightarrow>
     ParseMembers h n st s = Inr r \<longrightarrow> length (unread (snd r)) \<le> length (unread s)"
  "parse_dom (Inr (Inr (Inl (h, st, s)))) \<Longrightarrow>
     ParseArray h st s = Inr r \<longrightarrow> length (unread (snd r)) \<le> length (unread s)"
  "parse_dom (Inr (Inr (Inr (h, n, st, s)))) \<Longrightarrow>
     ParseElements h n st s = Inr r \<longrightarrow> length (unread (snd r)) \<le> length (unread s)"
proof (induction h st s and h st s and h n st s and h st s and h n st s arbitrary: r and r and r and r and r
    rule: ParseValue_ParseObject_ParseMembers_ParseArray_ParseElements.pinduct)
  case (1 h st s)
  then show ?case
    by (cases r) (auto simp: ParseValue.psimps literal_defs split: sum.splits if_splits
        dest!: ParseLiteral_less ParseString_less ParseNumber_le)
next
  case (2 h st s)
  then show ?case
    by (cases r) (fastforce simp: ParseObject.psimps split: sum.splits if_splits dest: head_less Finish_less)
next
  case (3 h n st s)
  show ?case
  proof
    assume "ParseMembers h n st s = Inr r"
    then obtain st1 s1 st2 s2 again st3 s3 where m: "MemberName h st s = Inr (st1, s1)"
      and v: "ParseValue h st1 s1 = Inr (st2, s2)" and e: "MemberEnd (Suc n) h st2 s2 = Inr (again, st3, s3)"
      and t: "(if again then ParseMembers h (Suc n) st3 s3 else Inr (st3, s3)) = Inr r"
      using 3(1) by (auto simp: ParseMembers.psimps split: sum.splits)
    show "length (unread (snd r)) \<le> length (unread s)"
      using 3(2) [OF m refl, of "(st2, s2)"] 3(3) [OF m refl v refl e refl refl, of r] t v
        MemberName_less [OF m] ElementEnd_less [OF e]
      by (auto split: if_splits)
  qed
next
  case (4 h st s)
  then show ?case
    by (cases r) (fastforce simp: ParseArray.psimps split: sum.splits if_splits dest: head_less Finish_less)
next
  case (5 h n st s)
  show ?case
  proof
    assume "ParseElements h n st s = Inr r"
    then obtain st1 s1 again st2 s2 where v: "ParseValue h st s = Inr (st1, s1)"
      and e: "ItemEnd (Suc n) h st1 s1 = Inr (again, st2, s2)"
      and t: "(if again then ParseElements h (Suc n) st2 s2 else Inr (st2, s2)) = Inr r"
      using 5(1) by (auto simp: ParseElements.psimps split: sum.splits)
    show "length (unread (snd r)) \<le> length (unread s)"
      using 5(2) [of "(st1, s1)"] 5(3) [OF v refl e refl refl, of r] t v ElementEnd_less [OF e]
      by (auto split: if_splits)
  qed
qed

definition parse_measure ::
    "(('h handler \<times> 'h \<times> StringStream) + ('h handler \<times> 'h \<times> StringStream)) +
     (('h handler \<times> nat \<times> 'h \<times> StringStream) +
      (('h handler \<times> 'h \<times> StringStream) + ('h handler \<times> nat \<times> 'h \<times> StringStream))) \<Rightarrow> nat" where
  "parse_measure x =
     (case x of
        Inl (Inl (h, st, s)) \<Rightarrow> 4 * length (unread s) + 2
      | Inl (Inr (h, st, s)) \<Rightarrow> 4 * length (unread s) + 1
      | Inr (Inl (h, n, st, s)) \<Rightarrow> 4 * length (unread s)
      | Inr (Inr (Inl (h, st, s))) \<Rightarrow> 4 * length (unread s) + 1
      | Inr (Inr (Inr (h, n, st, s))) \<Rightarrow> 4 * length (unread s) + 3)"

termination ParseValue
proof (relation "measure parse_measure", goal_cases)
  case (5 h n st s b x y)
  then show ?case by (auto simp: parse_measure_def dest!: MemberName_less)
next
  case (6 h n st s b x y ba xa ya bb xb yb xc yc)
  then have "length (unread y) < length (unread s)" "length (unread ya) \<le> length (unread y)"
    "length (unread yc) < length (unread ya)"
    using parse_partial_le(1) [of h x y ba] by (auto dest: MemberName_less ElementEnd_less)
  then show ?case by (simp add: parse_measure_def)
next
  case (9 h n st s b x y ba xa ya xb yb)
  then have "length (unread y) \<le> length (unread s)" "length (unread yb) < length (unread y)"
    using parse_partial_le(1) [of h st s b] by (auto dest: ElementEnd_less)
  then show ?case by (simp add: parse_measure_def)
qed (auto simp: parse_measure_def dest!: head_less)

declare ParseValue.simps [simp del] ParseObject.simps [simp del] ParseMembers.simps [simp del]
  ParseArray.simps [simp del] ParseElements.simps [simp del]

section \<open>Documents\<close>

text \<open>\<open>GenericReader::Parse\<close>.\<close>

definition Reader_Parse :: "'h handler \<Rightarrow> 'h \<Rightarrow> StringStream \<Rightarrow> stop + 'h \<times> StringStream" where
  "Reader_Parse h st s =
     (case SkipWhitespace s of Inl e \<Rightarrow> Inl e | Inr s1 \<Rightarrow>
      case Peek s1 of
        Inl e \<Rightarrow> Inl e
      | Inr c \<Rightarrow>
          if c = CHR 0x00 then Inl (ParseError kParseErrorDocumentEmpty (Tell s1))
          else
            (case ParseValue h st s1 of Inl e \<Rightarrow> Inl e | Inr (st1, s2) \<Rightarrow>
             case SkipWhitespace s2 of Inl e \<Rightarrow> Inl e | Inr s3 \<Rightarrow>
             case Peek s3 of
               Inl e \<Rightarrow> Inl e
             | Inr c \<Rightarrow>
                 if c \<noteq> CHR 0x00 then Inl (ParseError kParseErrorDocumentRootNotSingular (Tell s3))
                 else Inr (st1, s3)))"

end
