(* ===== verification/JsonDocument.thy ===== *)
theory JsonDocument
  imports JsonReader Json
begin

text \<open>
  \<open>document.h\<close> as the program uses it: \<open>GenericDocument\<close> as the handler of the reader, which
  builds values on a stack, \<open>ParseStream\<close> with the result left in the document, the type flags
  of a number, and \<open>Accept\<close>, which turns a value back into events.
\<close>

section \<open>Numbers\<close>

text \<open>The flags of a number say which accessors it allows: \<open>kIntFlag\<close>, \<open>kUintFlag\<close>,
  \<open>kInt64Flag\<close> and \<open>kUint64Flag\<close>, as the four constructors set them.\<close>

record number_flags =
  kIntFlag :: bool
  kUintFlag :: bool
  kInt64Flag :: bool
  kUint64Flag :: bool

definition flags_Int :: "u32 \<Rightarrow> number_flags" where
  "flags_Int i =
     \<lparr>kIntFlag = True, kUintFlag = 0 \<le> sint i, kInt64Flag = True, kUint64Flag = 0 \<le> sint i\<rparr>"

definition flags_Uint :: "u32 \<Rightarrow> number_flags" where
  "flags_Uint u =
     \<lparr>kIntFlag = (u AND 0x80000000 = 0), kUintFlag = True, kInt64Flag = True, kUint64Flag = True\<rparr>"

definition flags_Int64 :: "u64 \<Rightarrow> number_flags" where
  "flags_Int64 i =
     (if 0 \<le> sint i
      then \<lparr>kIntFlag = (i AND 0xFFFFFFFF80000000 = 0), kUintFlag = (i AND 0xFFFFFFFF00000000 = 0),
            kInt64Flag = True, kUint64Flag = True\<rparr>
      else \<lparr>kIntFlag = (sint (0xFFFFFFFF80000000 :: u64) \<le> sint i), kUintFlag = False,
            kInt64Flag = True, kUint64Flag = False\<rparr>)"

definition flags_Uint64 :: "u64 \<Rightarrow> number_flags" where
  "flags_Uint64 u =
     \<lparr>kIntFlag = (u AND 0xFFFFFFFF80000000 = 0), kUintFlag = (u AND 0xFFFFFFFF00000000 = 0),
      kInt64Flag = (u AND 0x8000000000000000 = 0), kUint64Flag = True\<rparr>"

text \<open>The flags of a mathematical integer: the types it fits.\<close>

definition flags_of :: "int \<Rightarrow> number_flags" where
  "flags_of i =
     \<lparr>kIntFlag = (- (2 ^ 31) \<le> i \<and> i < 2 ^ 31), kUintFlag = (0 \<le> i \<and> i < 2 ^ 32),
      kInt64Flag = (- (2 ^ 63) \<le> i \<and> i < 2 ^ 63), kUint64Flag = (0 \<le> i \<and> i < 2 ^ 64)\<rparr>"

section \<open>The document as a handler\<close>

text \<open>The values of the stack, the top first, are reinterpreted as members: a name, which is a
  string, and a value.\<close>

fun members_of :: "json list \<Rightarrow> fault + (string \<times> json) list" where
  "members_of [] = Inr []"
| "members_of (JString k # v # vs) = map_sum id (\<lambda>ms. (k, v) # ms) (members_of vs)"
| "members_of vs = Inl AssertionFails"

definition EndObject :: "nat \<Rightarrow> json list \<Rightarrow> fault + json list option" where
  "EndObject memberCount st =
     (if length st < 2 * memberCount then Inl AssertionFails
      else case drop (2 * memberCount) st of
             [] \<Rightarrow> Inl AssertionFails
           | _ # st' \<Rightarrow> map_sum id (\<lambda>ms. Some (JObject ms # st')) (members_of (rev (take (2 * memberCount) st))))"

definition EndArray :: "nat \<Rightarrow> json list \<Rightarrow> fault + json list option" where
  "EndArray elementCount st =
     (if length st < elementCount then Inl AssertionFails
      else case drop elementCount st of
             [] \<Rightarrow> Inl AssertionFails
           | _ # st' \<Rightarrow> Inr (Some (JArray (rev (take elementCount st)) # st')))"

fun Document_handler :: "json list handler" where
  "Document_handler SNull st = Inr (Some (JNull # st))"
| "Document_handler (SBool b) st = Inr (Some (JBool b # st))"
| "Document_handler (SInt i) st = Inr (Some (JInt (sint i) # st))"
| "Document_handler (SUint i) st = Inr (Some (JInt (uint i) # st))"
| "Document_handler (SInt64 i) st = Inr (Some (JInt (sint i) # st))"
| "Document_handler (SUint64 i) st = Inr (Some (JInt (uint i) # st))"
| "Document_handler (SDouble d) st = Inr (Some (JDouble d # st))"
| "Document_handler (SString s) st = Inr (Some (JString s # st))"
| "Document_handler (SKey s) st = Inr (Some (JString s # st))"
| "Document_handler SStartObject st = Inr (Some (JObject [] # st))"
| "Document_handler (SEndObject n) st = EndObject n st"
| "Document_handler SStartArray st = Inr (Some (JArray [] # st))"
| "Document_handler (SEndArray n) st = EndArray n st"

text \<open>\<open>ParseStream\<close>: the document is replaced only when the text is parsed; the stack is
  cleared in any case.\<close>

definition Document_ParseStream ::
    "json \<Rightarrow> StringStream \<Rightarrow> fault + json \<times> ParseErrorCode \<times> nat" where
  "Document_ParseStream doc s =
     (case Reader_Parse Document_handler [] s of
        Inl (Fault f) \<Rightarrow> Inl f
      | Inl (ParseError code off) \<Rightarrow> Inr (doc, code, off)
      | Inr (st, _) \<Rightarrow> (case st of [v] \<Rightarrow> Inr (v, kParseErrorNone, 0) | _ \<Rightarrow> Inl AssertionFails))"

definition Document_Parse :: "json \<Rightarrow> string \<Rightarrow> fault + json \<times> ParseErrorCode \<times> nat" where
  "Document_Parse doc str = Document_ParseStream doc (StringStream_new (c_str str))"

section \<open>Events of a value\<close>

text \<open>\<open>Accept\<close> of a number tries the types in the order of the code.\<close>

definition int_event :: "int \<Rightarrow> sax" where
  "int_event i =
     (let fl = flags_of i
      in if kIntFlag fl then SInt (word_of_int i)
         else if kUintFlag fl then SUint (word_of_int i)
         else if kInt64Flag fl then SInt64 (word_of_int i)
         else SUint64 (word_of_int i))"

definition call :: "'h handler \<Rightarrow> sax \<Rightarrow> 'h \<Rightarrow> fault + bool \<times> 'h" where
  "call h ev st =
     (case h ev st of Inl f \<Rightarrow> Inl f | Inr None \<Rightarrow> Inr (False, st) | Inr (Some st') \<Rightarrow> Inr (True, st'))"

text \<open>\<open>Accept\<close> stops at the first event that is refused.\<close>

definition and_then :: "fault + bool \<times> 'h \<Rightarrow> ('h \<Rightarrow> fault + bool \<times> 'h) \<Rightarrow> fault + bool \<times> 'h" where
  "and_then r k = (case r of Inl f \<Rightarrow> Inl f | Inr (b, st) \<Rightarrow> if b then k st else Inr (False, st))"

primrec Accept :: "'h handler \<Rightarrow> json \<Rightarrow> 'h \<Rightarrow> fault + bool \<times> 'h"
  and Accept_items :: "'h handler \<Rightarrow> json list \<Rightarrow> 'h \<Rightarrow> fault + bool \<times> 'h"
  and Accept_members :: "'h handler \<Rightarrow> (string \<times> json) list \<Rightarrow> 'h \<Rightarrow> fault + bool \<times> 'h"
  and Accept_member :: "'h handler \<Rightarrow> string \<times> json \<Rightarrow> 'h \<Rightarrow> fault + bool \<times> 'h" where
  "Accept h JNull st = call h SNull st"
| "Accept h (JBool b) st = call h (SBool b) st"
| "Accept h (JInt i) st = call h (int_event i) st"
| "Accept h (JDouble d) st = call h (SDouble d) st"
| "Accept h (JString s) st = call h (SString s) st"
| "Accept h (JArray vs) st =
     and_then (call h SStartArray st) (\<lambda>st.
     and_then (Accept_items h vs st) (call h (SEndArray (length vs))))"
| "Accept h (JObject ms) st =
     and_then (call h SStartObject st) (\<lambda>st.
     and_then (Accept_members h ms st) (call h (SEndObject (length ms))))"
| "Accept_items h [] st = Inr (True, st)"
| "Accept_items h (v # vs) st = and_then (Accept h v st) (Accept_items h vs)"
| "Accept_members h [] st = Inr (True, st)"
| "Accept_members h (m # ms) st = and_then (Accept_member h m st) (Accept_members h ms)"
| "Accept_member h (k, v) st = and_then (call h (SKey k) st) (Accept h v)"

end
