(* ===== verification/Itoa.thy ===== *)
theory Itoa
  imports Digits
begin

text \<open>
  \<open>internal/itoa.h\<close>: the decimal digits of integers of 32 and 64 bits, taken two at a time from
  a table of a hundred pairs.  A buffer is the string written to it.  The result is the plain
  digit-by-digit text.
\<close>

section \<open>The code\<close>

definition cDigitsLut :: string where
  "cDigitsLut =
     ''0001020304050607080910111213141516171819202122232425262728293031323334353637383940414243444546474849'' @
     ''5051525354555657585960616263646566676869707172737475767778798081828384858687888990919293949596979899''"

definition lut :: "u32 \<Rightarrow> char" where
  "lut i = cDigitsLut ! unat i"

text \<open>\<open>if (value >= limit) *buffer++ = c\<close>\<close>

definition put_if :: "bool \<Rightarrow> char \<Rightarrow> string" where
  "put_if b c = (if b then [c] else [])"

text \<open>A single digit: \<open>'0' + static_cast<char>(a)\<close>.\<close>

definition digit_char :: "u32 \<Rightarrow> char" where
  "digit_char a = char_of (48 + unat a)"

definition u32toa :: "u32 \<Rightarrow> string" where
  "u32toa value =
     (if value < 10000 then
        (let d1 = push_bit 1 (value div 100); d2 = push_bit 1 (value mod 100)
         in put_if (1000 \<le> value) (lut d1) @ put_if (100 \<le> value) (lut (d1 + 1)) @
            put_if (10 \<le> value) (lut d2) @ [lut (d2 + 1)])
      else if value < 100000000 then
        (let b = value div 10000; c = value mod 10000;
             d1 = push_bit 1 (b div 100); d2 = push_bit 1 (b mod 100);
             d3 = push_bit 1 (c div 100); d4 = push_bit 1 (c mod 100)
         in put_if (10000000 \<le> value) (lut d1) @ put_if (1000000 \<le> value) (lut (d1 + 1)) @
            put_if (100000 \<le> value) (lut d2) @ [lut (d2 + 1)] @
            [lut d3, lut (d3 + 1), lut d4, lut (d4 + 1)])
      else
        (let a = value div 100000000; value = value mod 100000000;
             b = value div 10000; c = value mod 10000;
             d1 = push_bit 1 (b div 100); d2 = push_bit 1 (b mod 100);
             d3 = push_bit 1 (c div 100); d4 = push_bit 1 (c mod 100)
         in (if 10 \<le> a then [lut (push_bit 1 a), lut (push_bit 1 a + 1)] else [digit_char a]) @
            [lut d1, lut (d1 + 1), lut d2, lut (d2 + 1), lut d3, lut (d3 + 1), lut d4, lut (d4 + 1)]))"

definition i32toa :: "u32 \<Rightarrow> string" where
  "i32toa value =
     (if sint value < 0 then CHR ''-'' # u32toa (NOT value + 1) else u32toa value)"

definition u64toa :: "u64 \<Rightarrow> string" where
  "u64toa value =
     (if value < 10 ^ 8 then
        (let v = (ucast value :: u32)
         in if v < 10000 then
              (let d1 = push_bit 1 (v div 100); d2 = push_bit 1 (v mod 100)
               in put_if (1000 \<le> v) (lut d1) @ put_if (100 \<le> v) (lut (d1 + 1)) @
                  put_if (10 \<le> v) (lut d2) @ [lut (d2 + 1)])
            else
              (let b = v div 10000; c = v mod 10000;
                   d1 = push_bit 1 (b div 100); d2 = push_bit 1 (b mod 100);
                   d3 = push_bit 1 (c div 100); d4 = push_bit 1 (c mod 100)
               in put_if (10000000 \<le> value) (lut d1) @ put_if (1000000 \<le> value) (lut (d1 + 1)) @
                  put_if (100000 \<le> value) (lut d2) @ [lut (d2 + 1)] @
                  [lut d3, lut (d3 + 1), lut d4, lut (d4 + 1)]))
      else if value < 10 ^ 16 then
        (let v0 = (ucast (value div 10 ^ 8) :: u32); v1 = (ucast (value mod 10 ^ 8) :: u32);
             b0 = v0 div 10000; c0 = v0 mod 10000;
             d1 = push_bit 1 (b0 div 100); d2 = push_bit 1 (b0 mod 100);
             d3 = push_bit 1 (c0 div 100); d4 = push_bit 1 (c0 mod 100);
             b1 = v1 div 10000; c1 = v1 mod 10000;
             d5 = push_bit 1 (b1 div 100); d6 = push_bit 1 (b1 mod 100);
             d7 = push_bit 1 (c1 div 100); d8 = push_bit 1 (c1 mod 100)
         in put_if (10 ^ 15 \<le> value) (lut d1) @ put_if (10 ^ 14 \<le> value) (lut (d1 + 1)) @
            put_if (10 ^ 13 \<le> value) (lut d2) @ put_if (10 ^ 12 \<le> value) (lut (d2 + 1)) @
            put_if (10 ^ 11 \<le> value) (lut d3) @ put_if (10 ^ 10 \<le> value) (lut (d3 + 1)) @
            put_if (10 ^ 9 \<le> value) (lut d4) @ put_if (10 ^ 8 \<le> value) (lut (d4 + 1)) @
            [lut d5, lut (d5 + 1), lut d6, lut (d6 + 1), lut d7, lut (d7 + 1), lut d8, lut (d8 + 1)])
      else
        (let a = (ucast (value div 10 ^ 16) :: u32); value = value mod 10 ^ 16;
             v0 = (ucast (value div 10 ^ 8) :: u32); v1 = (ucast (value mod 10 ^ 8) :: u32);
             b0 = v0 div 10000; c0 = v0 mod 10000;
             d1 = push_bit 1 (b0 div 100); d2 = push_bit 1 (b0 mod 100);
             d3 = push_bit 1 (c0 div 100); d4 = push_bit 1 (c0 mod 100);
             b1 = v1 div 10000; c1 = v1 mod 10000;
             d5 = push_bit 1 (b1 div 100); d6 = push_bit 1 (b1 mod 100);
             d7 = push_bit 1 (c1 div 100); d8 = push_bit 1 (c1 mod 100)
         in (if a < 10 then [digit_char a]
             else if a < 100 then [lut (push_bit 1 a), lut (push_bit 1 a + 1)]
             else if a < 1000 then
               [digit_char (a div 100), lut (push_bit 1 (a mod 100)), lut (push_bit 1 (a mod 100) + 1)]
             else
               [lut (push_bit 1 (a div 100)), lut (push_bit 1 (a div 100) + 1),
                lut (push_bit 1 (a mod 100)), lut (push_bit 1 (a mod 100) + 1)]) @
            [lut d1, lut (d1 + 1), lut d2, lut (d2 + 1), lut d3, lut (d3 + 1), lut d4, lut (d4 + 1),
             lut d5, lut (d5 + 1), lut d6, lut (d6 + 1), lut d7, lut (d7 + 1), lut d8, lut (d8 + 1)]))"

definition i64toa :: "u64 \<Rightarrow> string" where
  "i64toa value =
     (if sint value < 0 then CHR ''-'' # u64toa (NOT value + 1) else u64toa value)"

section \<open>Blocks of digits\<close>

abbreviation dch :: "nat \<Rightarrow> char" where
  "dch n \<equiv> char_of (48 + n)"

definition pad2 :: "nat \<Rightarrow> string" where
  "pad2 n = [dch (n div 10), dch (n mod 10)]"

definition pad4 :: "nat \<Rightarrow> string" where
  "pad4 n = pad2 (n div 100) @ pad2 (n mod 100)"

definition pad8 :: "nat \<Rightarrow> string" where
  "pad8 n = pad4 (n div 10000) @ pad4 (n mod 10000)"

lemma lut_table: "\<forall>k\<in>set [0..<100]. cDigitsLut ! (2 * k) = dch (k div 10) \<and> cDigitsLut ! (2 * k + 1) = dch (k mod 10)"
  by code_simp

lemma lut_at:
  assumes "unat k < 100"
  shows "lut (push_bit 1 k) = dch (unat k div 10)" and "lut (push_bit 1 k + 1) = dch (unat k mod 10)"
proof -
  have "unat (push_bit 1 k) = 2 * unat k" "unat (push_bit 1 k + 1) = 2 * unat k + 1"
    using assms by (simp_all add: push_bit_eq_mult unat_word_ariths)
  with lut_table assms show "lut (push_bit 1 k) = dch (unat k div 10)"
    and "lut (push_bit 1 k + 1) = dch (unat k mod 10)"
    by (simp_all add: lut_def)
qed

lemma lut_twice:
  assumes "unat k < 100"
  shows "lut (k * 2) = dch (unat k div 10)" and "lut (k * 2 + 1) = dch (unat k mod 10)"
  using lut_at [OF assms] by (simp_all add: push_bit_eq_mult)

lemma digits_small: "n < 10 \<Longrightarrow> digits n = [dch n]"
  by (simp add: digits.simps)

lemma digits_snoc: "0 < x \<Longrightarrow> d < 10 \<Longrightarrow> digits (x * 10 + d) = digits x @ [dch d]"
  by (subst digits.simps) simp

lemma digits_pad2: "0 < x \<Longrightarrow> d < 100 \<Longrightarrow> digits (x * 100 + d) = digits x @ pad2 d"
  using digits_snoc [of "x * 10 + d div 10" "d mod 10"] digits_snoc [of x "d div 10"]
  by (simp add: pad2_def ac_simps)

lemma digits_pad4: "0 < x \<Longrightarrow> d < 10000 \<Longrightarrow> digits (x * 10000 + d) = digits x @ pad4 d"
  using digits_pad2 [of "x * 100 + d div 100" "d mod 100"] digits_pad2 [of x "d div 100"]
  by (simp add: pad4_def ac_simps)

lemma digits_pad8: "0 < x \<Longrightarrow> d < 100000000 \<Longrightarrow> digits (x * 100000000 + d) = digits x @ pad8 d"
  using digits_pad4 [of "x * 10000 + d div 10000" "d mod 10000"] digits_pad4 [of x "d div 10000"]
  by (simp add: pad8_def ac_simps)

text \<open>The leading block is written without its zeros.\<close>

definition lead2 :: "nat \<Rightarrow> string" where
  "lead2 n = put_if (10 \<le> n) (dch (n div 10)) @ [dch (n mod 10)]"

definition lead4 :: "nat \<Rightarrow> string" where
  "lead4 n =
     put_if (1000 \<le> n) (dch (n div 100 div 10)) @ put_if (100 \<le> n) (dch (n div 100 mod 10)) @
     put_if (10 \<le> n) (dch (n mod 100 div 10)) @ [dch (n mod 100 mod 10)]"

lemma digits_lead2: "n < 100 \<Longrightarrow> lead2 n = digits n"
  using digits_snoc [of "n div 10" "n mod 10"]
  by (cases "n < 10") (auto simp: lead2_def put_if_def digits_small)

lemma digits_lead4:
  assumes "n < 10000"
  shows "lead4 n = digits n"
proof (cases "n < 100")
  case True
  then show ?thesis using digits_lead2 [of n] by (simp add: lead4_def lead2_def put_if_def)
next
  case False
  have "digits n = lead2 (n div 100) @ pad2 (n mod 100)"
    using False assms digits_pad2 [of "n div 100" "n mod 100"] digits_lead2 [of "n div 100"]
    by (simp add: div_greater_zero_iff)
  then show ?thesis
    using False by (simp add: lead4_def lead2_def pad2_def put_if_def less_eq_div_iff_mult_less_eq)
qed

definition lead8 :: "nat \<Rightarrow> string" where
  "lead8 n =
     (let b = n div 10000; c = n mod 10000
      in put_if (10000000 \<le> n) (dch (b div 100 div 10)) @ put_if (1000000 \<le> n) (dch (b div 100 mod 10)) @
         put_if (100000 \<le> n) (dch (b mod 100 div 10)) @ put_if (10000 \<le> n) (dch (b mod 100 mod 10)) @ pad4 c)"

lemma digits_lead8:
  assumes "10000 \<le> n" and "n < 100000000"
  shows "lead8 n = digits n"
proof -
  have "digits n = lead4 (n div 10000) @ pad4 (n mod 10000)"
    using assms digits_pad4 [of "n div 10000" "n mod 10000"] digits_lead4 [of "n div 10000"]
    by (simp add: div_greater_zero_iff)
  then show ?thesis
    using assms(1)
    by (simp add: lead8_def lead4_def put_if_def Let_def less_eq_div_iff_mult_less_eq)
qed

section \<open>The code writes the digits\<close>

lemma word_le_unat: "(x :: 'a::len word) \<le> y \<longleftrightarrow> unat x \<le> unat y" "x < y \<longleftrightarrow> unat x < unat y"
  by (simp_all add: word_le_nat_alt word_less_nat_alt)

lemmas itoa_simps = unat_div unat_mod lut_at lut_twice word_le_unat

lemma unat_less: "unat (w :: 'a::len word) < 2 ^ LENGTH('a)"
  by simp

lemma u32toa_digits: "u32toa value = digits (unat value)"
proof -
  define n where "n = unat value"
  have v: "value = word_of_nat n" by (simp add: n_def)
  consider "n < 10000" | "10000 \<le> n" "n < 100000000" | "100000000 \<le> n" by linarith
  then show ?thesis
  proof cases
    case 1
    then have "u32toa value = lead4 n"
      by (simp add: u32toa_def Let_def lead4_def itoa_simps n_def put_if_def)
    with 1 digits_lead4 show ?thesis by (simp add: n_def)
  next
    case 2
    then have "u32toa value = lead8 n"
      by (simp add: u32toa_def Let_def lead8_def itoa_simps n_def put_if_def pad4_def pad2_def)
    with 2 digits_lead8 show ?thesis by (simp add: n_def)
  next
    case 3
    have a: "n div 100000000 < 100"
      using unat_less [of "value"] by (simp add: n_def)
    with 3 have "u32toa value = lead2 (n div 100000000) @ pad8 (n mod 100000000)"
      by (simp add: u32toa_def Let_def lead2_def itoa_simps n_def put_if_def pad8_def pad4_def pad2_def digit_char_def)
    also have "\<dots> = digits n"
      using 3 a digits_pad8 [of "n div 100000000" "n mod 100000000"]
      by (simp add: digits_lead2 div_greater_zero_iff)
    finally show ?thesis by (simp add: n_def)
  qed
qed

lemma unat_ucast_32: "unat x < 2 ^ 32 \<Longrightarrow> unat (ucast (x :: u64) :: u32) = unat x"
  by (simp add: unsigned_ucast_eq take_bit_nat_eq_self take_bit_word_eq_self flip: take_bit_eq_mod)

definition full8 :: "nat \<Rightarrow> string" where
  "full8 n =
     (let b = n div 10000; c = n mod 10000
      in put_if (10000000 \<le> n) (dch (b div 100 div 10)) @ put_if (1000000 \<le> n) (dch (b div 100 mod 10)) @
         put_if (100000 \<le> n) (dch (b mod 100 div 10)) @ put_if (10000 \<le> n) (dch (b mod 100 mod 10)) @
         put_if (1000 \<le> n) (dch (c div 100 div 10)) @ put_if (100 \<le> n) (dch (c div 100 mod 10)) @
         put_if (10 \<le> n) (dch (c mod 100 div 10)) @ put_if (1 \<le> n) (dch (c mod 100 mod 10)))"

lemma digits_full8:
  assumes "0 < n" and "n < 100000000"
  shows "full8 n = digits n"
proof (cases "n < 10000")
  case True
  then show ?thesis
    using assms(1) digits_lead4 [OF True] by (simp add: full8_def lead4_def put_if_def Let_def Suc_le_eq)
next
  case False
  then show ?thesis
    using assms digits_lead8 [of n] by (simp add: full8_def lead8_def put_if_def Let_def pad4_def pad2_def)
qed

lemma digits_pad16:
  assumes "0 < a" and "r < 10 ^ 16"
  shows "digits (a * 10 ^ 16 + r) = digits a @ pad8 (r div 100000000) @ pad8 (r mod 100000000)"
proof -
  have "a * 10 ^ 16 + r = (a * 100000000 + r div 100000000) * 100000000 + r mod 100000000"
    by (simp add: algebra_simps)
  then show ?thesis
    using assms digits_pad8 [of "a * 100000000 + r div 100000000" "r mod 100000000"]
      digits_pad8 [of a "r div 100000000"] by (simp add: ac_simps)
qed

text \<open>The first one to four digits of the longest numbers.\<close>

definition head4 :: "u32 \<Rightarrow> string" where
  "head4 a =
     (if a < 10 then [digit_char a]
      else if a < 100 then [lut (push_bit 1 a), lut (push_bit 1 a + 1)]
      else if a < 1000 then
        [digit_char (a div 100), lut (push_bit 1 (a mod 100)), lut (push_bit 1 (a mod 100) + 1)]
      else
        [lut (push_bit 1 (a div 100)), lut (push_bit 1 (a div 100) + 1),
         lut (push_bit 1 (a mod 100)), lut (push_bit 1 (a mod 100) + 1)])"

lemma digits_head4:
  assumes "unat a < 10000"
  shows "head4 a = digits (unat a)"
proof -
  have "head4 a = lead4 (unat a)"
    using assms
    by (simp add: head4_def lead4_def put_if_def itoa_simps digit_char_def less_eq_div_iff_mult_less_eq)
  then show ?thesis using digits_lead4 [OF assms] by simp
qed

lemma u64toa_digits: "u64toa value = digits (unat value)"
proof -
  define n where "n = unat value"
  consider "n < 10000" | "10000 \<le> n" "n < 100000000" | "100000000 \<le> n" "n < 10 ^ 16" | "10 ^ 16 \<le> n"
    by linarith
  then show ?thesis
  proof cases
    case 1
    then have "u64toa value = lead4 n"
      by (simp add: u64toa_def Let_def lead4_def itoa_simps n_def put_if_def unat_ucast_32)
    with 1 digits_lead4 show ?thesis by (simp add: n_def)
  next
    case 2
    then have "u64toa value = lead8 n"
      by (simp add: u64toa_def Let_def lead8_def itoa_simps n_def put_if_def pad4_def pad2_def unat_ucast_32)
    with 2 digits_lead8 show ?thesis by (simp add: n_def)
  next
    case 3
    have v: "n div 100000000 < 100000000" "0 < n div 100000000"
      using 3 by (simp_all add: div_greater_zero_iff)
    have "u64toa value = full8 (n div 100000000) @ pad8 (n mod 100000000)"
      using 3 v unfolding n_def
      by (simp add: u64toa_def Let_def full8_def itoa_simps put_if_def pad8_def pad4_def pad2_def
          unat_ucast_32 less_eq_div_iff_mult_less_eq)
    also have "\<dots> = digits n"
      using v digits_full8 [OF v(2,1)] digits_pad8 [of "n div 100000000" "n mod 100000000"] by simp
    finally show ?thesis by (simp add: n_def)
  next
    case 4
    have a: "n div 10 ^ 16 < 10000" "0 < n div 10 ^ 16"
      using 4 unat_less [of "value"] by (simp_all add: n_def div_greater_zero_iff)
    have "u64toa value = head4 (ucast (value div 10 ^ 16)) @
        pad8 (n mod 10 ^ 16 div 100000000) @ pad8 (n mod 10 ^ 16 mod 100000000)"
      using 4 a unfolding n_def
      by (simp add: u64toa_def Let_def head4_def itoa_simps pad8_def pad4_def pad2_def unat_ucast_32)
    also have "head4 (ucast (value div 10 ^ 16)) = digits (n div 10 ^ 16)"
      using a digits_head4 [of "ucast (value div 10 ^ 16)"]
      by (simp add: itoa_simps unat_ucast_32 n_def)
    also have "digits (n div 10 ^ 16) @ pad8 (n mod 10 ^ 16 div 100000000) @ pad8 (n mod 10 ^ 16 mod 100000000)
        = digits n"
      using digits_pad16 [OF a(2), of "n mod 10 ^ 16"] by simp
    finally show ?thesis by (simp add: n_def)
  qed
qed

lemma word_of_sint: "(word_of_int (sint v) :: 'a :: len word) = v"
  by simp

lemma word_size_lt: "(2 :: int) ^ (LENGTH('a :: len) - 1) < 2 ^ LENGTH('a)"
  by (rule power_strict_increasing) simp_all

lemma unat_word_of_int: "0 \<le> i \<Longrightarrow> i < 2 ^ LENGTH('a) \<Longrightarrow> unat (word_of_int i :: 'a :: len word) = nat i"
  by (metis uint_word_of_int unat_eq_nat_uint mod_pos_pos_trivial)

lemma unat_nonnegative: "unat v = nat (sint v)" if "0 \<le> sint v" for v :: "'a :: len word"
proof -
  have "sint v < 2 ^ LENGTH('a)"
    using sint_lt [of v] word_size_lt [where 'a = 'a] by (rule less_trans)
  from unat_word_of_int [OF that this] show ?thesis by (simp only: word_of_sint)
qed

lemma unat_negative: "unat (NOT v + 1) = nat (- sint v)" if "sint v < 0" for v :: "'a :: len word"
proof -
  have "- sint v < 2 ^ LENGTH('a)"
    using sint_ge [of v] word_size_lt [where 'a = 'a] by linarith
  moreover have "NOT v + 1 = word_of_int (- sint v)"
    by (metis wi_hom_neg word_of_sint minus_eq_not_plus_1)
  moreover have "0 \<le> - sint v" using that by simp
  ultimately show ?thesis by (metis unat_word_of_int)
qed
lemma i32toa_digits: "i32toa value = signed_digits (sint value)"
  using unat_nonnegative [of "value"] unat_negative [of "value"]
  by (auto simp: i32toa_def signed_digits_def u32toa_digits Let_def)

lemma i64toa_digits: "i64toa value = signed_digits (sint value)"
  using unat_nonnegative [of "value"] unat_negative [of "value"]
  by (auto simp: i64toa_def signed_digits_def u64toa_digits Let_def)

text \<open>The buffers of the writer are long enough.\<close>

lemma itoa_lengths:
  "length (u32toa u) \<le> 10" "length (i32toa u) \<le> 11" "length (u64toa v) \<le> 20" "length (i64toa v) \<le> 21"
proof -
  have "length (u32toa u) \<le> 10" for u
    using length_digits [of "unat u" 9] unat_less [of u] by (simp add: u32toa_digits)
  moreover have "length (u64toa v) \<le> 20" for v
    using length_digits [of "unat v" 19] unat_less [of v] by (simp add: u64toa_digits)
  ultimately show "length (u32toa u) \<le> 10" "length (i32toa u) \<le> 11" "length (u64toa v) \<le> 20"
    "length (i64toa v) \<le> 21"
    by (auto simp: i32toa_def i64toa_def intro: le_SucI order_trans)
qed

end
