(* ===== verification/Dtoa.thy ===== *)
theory Dtoa
  imports JsonStream Itoa "HOL-Library.While_Combinator"
begin

text \<open>
  \<open>internal/dtoa.h\<close> and \<open>internal/diyfp.h\<close>: the Grisu2 printing of a \<open>double\<close>, as the JSON
  writer uses it.  The buffer is the string written to it.  A loop that may run on is a
  \<open>while_option\<close> whose missing result is the fault \<open>NeverReturns\<close>; \<open>kPow10\<close> has ten
  entries, and an index \<open>n\<close> past them is the fault \<open>PastPow10 n\<close>, kept apart from the faults
  \<open>OutOfBounds\<close> of the table of cached powers and of the buffer.
\<close>

section \<open>The bits of a \<open>double\<close>\<close>

definition sign_bit :: "bool \<Rightarrow> int" where
  "sign_bit s = (if s then 2 ^ 63 else 0)"

fun Uint64Value :: "double \<Rightarrow> u64" where
  "Uint64Value (DFinite s m e) =
     word_of_int (sign_bit s + (if m < 2 ^ 52 then m else (e + 1075) * 2 ^ 52 + (m - 2 ^ 52)))"
| "Uint64Value (DInf s) = word_of_int (sign_bit s + 0x7FF * 2 ^ 52)"
| "Uint64Value DNaN = word_of_int (0x7FF * 2 ^ 52 + 2 ^ 51)"

definition kDpExponentMask :: u64 where
  "kDpExponentMask = 0x7FF0000000000000"

definition kDpSignificandMask :: u64 where
  "kDpSignificandMask = 0x000FFFFFFFFFFFFF"

definition kDpHiddenBit :: u64 where
  "kDpHiddenBit = 0x0010000000000000"

definition IsZero :: "double \<Rightarrow> bool" where
  "IsZero d \<longleftrightarrow> Uint64Value d AND (kDpExponentMask OR kDpSignificandMask) = 0"

definition Sign :: "double \<Rightarrow> bool" where
  "Sign d \<longleftrightarrow> Uint64Value d AND 0x8000000000000000 \<noteq> 0"

section \<open>\<open>DiyFp\<close>\<close>

record DiyFp =
  fp :: u64
  exponent :: int

definition DiyFp_of :: "double \<Rightarrow> DiyFp" where
  "DiyFp_of d =
     (let u = Uint64Value d;
          biased_e = uint (drop_bit 52 (u AND kDpExponentMask));
          significand = u AND kDpSignificandMask
      in if biased_e \<noteq> 0
         then \<lparr>fp = significand + kDpHiddenBit, exponent = biased_e - (0x3FF + 52)\<rparr>
         else \<lparr>fp = significand, exponent = - (0x3FF + 52) + 1\<rparr>)"

definition DiyFp_minus :: "DiyFp \<Rightarrow> DiyFp \<Rightarrow> DiyFp" where
  "DiyFp_minus a b = \<lparr>fp = fp a - fp b, exponent = exponent a\<rparr>"

definition DiyFp_mult :: "DiyFp \<Rightarrow> DiyFp \<Rightarrow> DiyFp" where
  "DiyFp_mult a b =
     (let p = (ucast (fp a) :: 128 word) * ucast (fp b);
          h = ucast (drop_bit 64 p) :: u64;
          l = ucast p :: u64
      in \<lparr>fp = (if l AND 0x8000000000000000 \<noteq> 0 then h + 1 else h),
          exponent = exponent a + exponent b + 64\<rparr>)"

text \<open>\<open>__builtin_clzll\<close>, of a value that is not zero.\<close>

definition clz :: "u64 \<Rightarrow> nat" where
  "clz w = 64 - bit_length (uint w)"

definition DiyFp_Normalize :: "DiyFp \<Rightarrow> DiyFp" where
  "DiyFp_Normalize r =
     (let s = clz (fp r) in \<lparr>fp = push_bit s (fp r), exponent = exponent r - int s\<rparr>)"

definition NormalizeBoundary :: "DiyFp \<Rightarrow> fault + DiyFp" where
  "NormalizeBoundary r =
     (case while_option (\<lambda>r. fp r AND push_bit 1 kDpHiddenBit = 0)
             (\<lambda>r. \<lparr>fp = push_bit 1 (fp r), exponent = exponent r - 1\<rparr>) r of
        None \<Rightarrow> Inl NeverReturns
      | Some r' \<Rightarrow> Inr \<lparr>fp = push_bit 10 (fp r'), exponent = exponent r' - 10\<rparr>)"

text \<open>The lower boundary first, as the argument \<open>minus\<close> of the code.\<close>

definition NormalizedBoundaries :: "DiyFp \<Rightarrow> fault + DiyFp \<times> DiyFp" where
  "NormalizedBoundaries r =
     (case NormalizeBoundary \<lparr>fp = push_bit 1 (fp r) + 1, exponent = exponent r - 1\<rparr> of
        Inl e \<Rightarrow> Inl e
      | Inr pl \<Rightarrow>
          (let mi = (if fp r = kDpHiddenBit
                     then \<lparr>fp = push_bit 2 (fp r) - 1, exponent = exponent r - 2\<rparr>
                     else \<lparr>fp = push_bit 1 (fp r) - 1, exponent = exponent r - 1\<rparr>)
           in Inr (\<lparr>fp = push_bit (nat (exponent mi - exponent pl)) (fp mi), exponent = exponent pl\<rparr>,
                   pl)))"

definition kCachedPowers_F :: "u64 list" where
  "kCachedPowers_F =
     [0xFA8FD5A0081C0288, 0xBAAEE17FA23EBF76, 0x8B16FB203055AC76, 0xCF42894A5DCE35EA,
      0x9A6BB0AA55653B2D, 0xE61ACF033D1A45DF, 0xAB70FE17C79AC6CA, 0xFF77B1FCBEBCDC4F,
      0xBE5691EF416BD60C, 0x8DD01FAD907FFC3C, 0xD3515C2831559A83, 0x9D71AC8FADA6C9B5,
      0xEA9C227723EE8BCB, 0xAECC49914078536D, 0x823C12795DB6CE57, 0xC21094364DFB5637,
      0x9096EA6F3848984F, 0xD77485CB25823AC7, 0xA086CFCD97BF97F4, 0xEF340A98172AACE5,
      0xB23867FB2A35B28E, 0x84C8D4DFD2C63F3B, 0xC5DD44271AD3CDBA, 0x936B9FCEBB25C996,
      0xDBAC6C247D62A584, 0xA3AB66580D5FDAF6, 0xF3E2F893DEC3F126, 0xB5B5ADA8AAFF80B8,
      0x87625F056C7C4A8B, 0xC9BCFF6034C13053, 0x964E858C91BA2655, 0xDFF9772470297EBD,
      0xA6DFBD9FB8E5B88F, 0xF8A95FCF88747D94, 0xB94470938FA89BCF, 0x8A08F0F8BF0F156B,
      0xCDB02555653131B6, 0x993FE2C6D07B7FAC, 0xE45C10C42A2B3B06, 0xAA242499697392D3,
      0xFD87B5F28300CA0E, 0xBCE5086492111AEB, 0x8CBCCC096F5088CC, 0xD1B71758E219652C,
      0x9C40000000000000, 0xE8D4A51000000000, 0xAD78EBC5AC620000, 0x813F3978F8940984,
      0xC097CE7BC90715B3, 0x8F7E32CE7BEA5C70, 0xD5D238A4ABE98068, 0x9F4F2726179A2245,
      0xED63A231D4C4FB27, 0xB0DE65388CC8ADA8, 0x83C7088E1AAB65DB, 0xC45D1DF942711D9A,
      0x924D692CA61BE758, 0xDA01EE641A708DEA, 0xA26DA3999AEF774A, 0xF209787BB47D6B85,
      0xB454E4A179DD1877, 0x865B86925B9BC5C2, 0xC83553C5C8965D3D, 0x952AB45CFA97A0B3,
      0xDE469FBD99A05FE3, 0xA59BC234DB398C25, 0xF6C69A72A3989F5C, 0xB7DCBF5354E9BECE,
      0x88FCF317F22241E2, 0xCC20CE9BD35C78A5, 0x98165AF37B2153DF, 0xE2A0B5DC971F303A,
      0xA8D9D1535CE3B396, 0xFB9B7CD9A4A7443C, 0xBB764C4CA7A44410, 0x8BAB8EEFB6409C1A,
      0xD01FEF10A657842C, 0x9B10A4E5E9913129, 0xE7109BFBA19C0C9D, 0xAC2820D9623BF429,
      0x80444B5E7AA7CF85, 0xBF21E44003ACDD2D, 0x8E679C2F5E44FF8F, 0xD433179D9C8CB841,
      0x9E19DB92B4E31BA9, 0xEB96BF6EBADF77D9, 0xAF87023B9BF0EE6B]"

definition kCachedPowers_E :: "int list" where
  "kCachedPowers_E =
     [- 1220, - 1193, - 1166, - 1140, - 1113, - 1087, - 1060, - 1034, - 1007, - 980,
      - 954, - 927, - 901, - 874, - 847, - 821, - 794, - 768, - 741, - 715,
      - 688, - 661, - 635, - 608, - 582, - 555, - 529, - 502, - 475, - 449,
      - 422, - 396, - 369, - 343, - 316, - 289, - 263, - 236, - 210, - 183,
      - 157, - 130, - 103, - 77, - 50, - 24, 3, 30, 56, 83,
      109, 136, 162, 189, 216, 242, 269, 295, 322, 348,
      375, 402, 428, 455, 481, 508, 534, 561, 588, 614,
      641, 667, 694, 720, 747, 774, 800, 827, 853, 880,
      907, 933, 960, 986, 1013, 1039, 1066]"

definition GetCachedPowerByIndex :: "nat \<Rightarrow> fault + DiyFp" where
  "GetCachedPowerByIndex i =
     (if i < length kCachedPowers_F
      then Inr \<lparr>fp = kCachedPowers_F ! i, exponent = kCachedPowers_E ! i\<rparr>
      else Inl OutOfBounds)"

text \<open>The conversion of a \<open>double\<close> to an integer truncates; the code then rounds up.\<close>

fun truncated :: "double \<Rightarrow> int" where
  "truncated (DFinite s m e) = signed s (m * 2 ^ nat e div 2 ^ nat (- e))"
| "truncated d = 0"

fun has_fraction :: "double \<Rightarrow> bool" where
  "has_fraction (DFinite s m e) \<longleftrightarrow> \<not> s \<and> m * 2 ^ nat e mod 2 ^ nat (- e) \<noteq> 0"
| "has_fraction d \<longleftrightarrow> False"

text \<open>\<open>0.30102999566398114\<close>.\<close>

definition log10_of_2 :: double where
  "log10_of_2 = round64 False 30102999566398114 (10 ^ 17)"

definition GetCachedPower :: "int \<Rightarrow> fault + DiyFp \<times> int" where
  "GetCachedPower e =
     (let dk = double_add (double_mul (double_of_int (- 61 - e)) log10_of_2) (double_of_int 347);
          k = truncated dk + (if has_fraction dk then 1 else 0);
          index = nat (k div 8 + 1)
      in map_sum id (\<lambda>c. (c, - (- 348 + int (8 * index)))) (GetCachedPowerByIndex index))"

section \<open>Digits\<close>

definition kPow10 :: "u32 list" where
  "kPow10 = [1, 10, 100, 1000, 10000, 100000, 1000000, 10000000, 100000000, 1000000000]"

text \<open>\<open>buffer[len - 1]--\<close>\<close>

definition decrement_last :: "string \<Rightarrow> string" where
  "decrement_last b = butlast b @ [char_of (of_char (last b) + (255 :: nat))]"

definition Grisu_closer :: "u64 \<Rightarrow> u64 \<Rightarrow> u64 \<Rightarrow> u64 \<Rightarrow> bool" where
  "Grisu_closer delta ten_kappa wp_w rest \<longleftrightarrow>
     rest < wp_w \<and> ten_kappa \<le> delta - rest \<and>
     (rest + ten_kappa < wp_w \<or> rest + ten_kappa - wp_w < wp_w - rest)"

definition GrisuRound :: "string \<Rightarrow> u64 \<Rightarrow> u64 \<Rightarrow> u64 \<Rightarrow> u64 \<Rightarrow> fault + string" where
  "GrisuRound buffer delta rest ten_kappa wp_w =
     (if buffer = [] \<and> Grisu_closer delta ten_kappa wp_w rest then Inl OutOfBounds
      else case while_option (\<lambda>(b, r). Grisu_closer delta ten_kappa wp_w r)
                  (\<lambda>(b, r). (decrement_last b, r + ten_kappa)) (buffer, rest) of
             None \<Rightarrow> Inl NeverReturns
           | Some (b, r) \<Rightarrow> Inr b)"

definition CountDecimalDigit32 :: "u32 \<Rightarrow> nat" where
  "CountDecimalDigit32 n =
     (if n < 10 then 1 else if n < 100 then 2 else if n < 1000 then 3 else if n < 10000 then 4
      else if n < 100000 then 5 else if n < 1000000 then 6 else if n < 10000000 then 7
      else if n < 100000000 then 8 else 9)"

text \<open>\<open>if (d || *len) buffer[(*len)++] = '0' + d\<close>\<close>

definition put_digit :: "nat \<Rightarrow> string \<Rightarrow> string" where
  "put_digit d buffer = (if d \<noteq> 0 \<or> buffer \<noteq> [] then buffer @ [char_of (48 + d)] else buffer)"

text \<open>The digits before the point: the result, with what \<open>K\<close> grows by, or the buffer with
  which the digits after the point begin.\<close>

fun DigitGen_int ::
    "nat \<Rightarrow> u64 \<Rightarrow> u64 \<Rightarrow> u64 \<Rightarrow> nat \<Rightarrow> u32 \<Rightarrow> string \<Rightarrow> (fault + string \<times> int) + string" where
  "DigitGen_int sh p2 delta wp_w 0 p1 buffer = Inr buffer"
| "DigitGen_int sh p2 delta wp_w (Suc kappa) p1 buffer =
     (let d = p1 div 10 ^ kappa; p1' = p1 mod 10 ^ kappa;
          buffer' = put_digit (unat d) buffer;
          tmp = push_bit sh (ucast p1') + p2
      in if tmp \<le> delta
         then Inl (map_sum id (\<lambda>b. (b, int kappa))
                     (GrisuRound buffer' delta tmp (push_bit sh (ucast (kPow10 ! kappa))) wp_w))
         else DigitGen_int sh p2 delta wp_w kappa p1' buffer')"

text \<open>The digits after the point; \<open>n\<close> counts them and is \<open>- kappa\<close>.\<close>

definition DigitGen_step :: "nat \<Rightarrow> u64 \<times> u64 \<times> nat \<times> string \<Rightarrow> u64 \<times> u64 \<times> nat \<times> string" where
  "DigitGen_step sh =
     (\<lambda>(p2, delta, n, buffer).
        (let p2 = p2 * 10
         in (p2 AND (push_bit sh 1 - 1), delta * 10, n + 1,
             put_digit (unat (ucast (drop_bit sh p2) :: u8)) buffer)))"

definition DigitGen_frac :: "nat \<Rightarrow> u64 \<Rightarrow> u64 \<Rightarrow> u64 \<Rightarrow> string \<Rightarrow> fault + string \<times> int" where
  "DigitGen_frac sh p2 delta wp_w buffer =
     (case while_option (\<lambda>(p2, delta, n, buffer). \<not> p2 < delta) (DigitGen_step sh)
             (DigitGen_step sh (p2, delta, 0, buffer)) of
        None \<Rightarrow> Inl NeverReturns
      | Some (p2, delta, n, buffer) \<Rightarrow>
          if length kPow10 \<le> n then Inl (PastPow10 n)
          else map_sum id (\<lambda>b. (b, - int n))
                 (GrisuRound buffer delta p2 (push_bit sh 1) (wp_w * ucast (kPow10 ! n))))"

definition DigitGen :: "DiyFp \<Rightarrow> DiyFp \<Rightarrow> u64 \<Rightarrow> int \<Rightarrow> fault + string \<times> int" where
  "DigitGen W Mp delta K =
     (let sh = nat (- exponent Mp);
          wp_w = fp (DiyFp_minus Mp W);
          p1 = ucast (drop_bit sh (fp Mp)) :: u32;
          p2 = fp Mp AND (push_bit sh 1 - 1)
      in map_sum id (\<lambda>(b, k). (b, K + k))
           (case DigitGen_int sh p2 delta wp_w (CountDecimalDigit32 p1) p1 [] of
              Inl r \<Rightarrow> r
            | Inr buffer \<Rightarrow> DigitGen_frac sh p2 delta wp_w buffer))"

definition Grisu2 :: "double \<Rightarrow> fault + string \<times> int" where
  "Grisu2 value =
     (let v = DiyFp_of value
      in case NormalizedBoundaries v of Inl e \<Rightarrow> Inl e | Inr (w_m, w_p) \<Rightarrow>
         case GetCachedPower (exponent w_p) of Inl e \<Rightarrow> Inl e | Inr (c_mk, K) \<Rightarrow>
           (let W = DiyFp_mult (DiyFp_Normalize v) c_mk;
                Wp = DiyFp_mult w_p c_mk;
                Wm = DiyFp_mult w_m c_mk;
                Wm = Wm\<lparr>fp := fp Wm + 1\<rparr>;
                Wp = Wp\<lparr>fp := fp Wp - 1\<rparr>
            in DigitGen W Wp (fp Wp - fp Wm) K))"

section \<open>The text\<close>

definition WriteExponent :: "int \<Rightarrow> string" where
  "WriteExponent K =
     (let sgn = (if K < 0 then ''-'' else []); K = \<bar>K\<bar>
      in sgn @
         (if 100 \<le> K
          then [char_of (48 + nat (K div 100)), cDigitsLut ! (2 * nat (K mod 100)),
                cDigitsLut ! (2 * nat (K mod 100) + 1)]
          else if 10 \<le> K then [cDigitsLut ! (2 * nat K), cDigitsLut ! (2 * nat K + 1)]
          else [char_of (48 + nat K)]))"

definition Prettify :: "string \<Rightarrow> int \<Rightarrow> string" where
  "Prettify buffer k =
     (let kk = int (length buffer) + k
      in if int (length buffer) \<le> kk \<and> kk \<le> 21
         then buffer @ replicate (nat kk - length buffer) (CHR ''0'') @ ''.0''
         else if 0 < kk \<and> kk \<le> 21 then take (nat kk) buffer @ ''.'' @ drop (nat kk) buffer
         else if - 6 < kk \<and> kk \<le> 0 then ''0.'' @ replicate (nat (- kk)) (CHR ''0'') @ buffer
         else if length buffer = 1 then buffer @ ''e'' @ WriteExponent (kk - 1)
         else take 1 buffer @ ''.'' @ drop 1 buffer @ ''e'' @ WriteExponent (kk - 1))"

text \<open>\<open>value < 0\<close>, which is false of a NaN.\<close>

definition double_negative :: "double \<Rightarrow> bool" where
  "double_negative d = (case d of DFinite s m e \<Rightarrow> s \<and> m \<noteq> 0 | DInf s \<Rightarrow> s | DNaN \<Rightarrow> False)"

definition dtoa :: "double \<Rightarrow> fault + string" where
  "dtoa value =
     (if IsZero value then Inr ((if Sign value then ''-'' else []) @ ''0.0'')
      else let neg = double_negative value
           in map_sum id (\<lambda>(b, k). (if neg then ''-'' else []) @ Prettify b k)
                (Grisu2 (if neg then double_neg value else value)))"

end
