(* ===== verification/JsonWriter.thy ===== *)
theory JsonWriter
  imports JsonDocument Dtoa
begin

text \<open>
  \<open>writer.h\<close>: the writer as a handler of the events of a value, over a \<open>StringBuffer\<close>, which
  is the string written so far; its assertions are faults.  \<open>Print\<close> of \<open>etcd_reply.hpp\<close>
  writes a document to \<open>std::cerr\<close>.
\<close>

section \<open>The state\<close>

datatype Type =
  kNullType | kFalseType | kTrueType | kObjectType | kArrayType | kStringType | kNumberType

record Level =
  valueCount :: nat
  inArray :: bool

text \<open>The level at the top of the stack is the first of the list.\<close>

record Writer =
  written :: string
  level_stack :: "Level list"
  hasRoot :: bool

definition Writer_new :: Writer where
  "Writer_new = \<lparr>written = [], level_stack = [], hasRoot = False\<rparr>"

definition IsComplete :: "Writer \<Rightarrow> bool" where
  "IsComplete w \<longleftrightarrow> hasRoot w \<and> level_stack w = []"

definition put :: "string \<Rightarrow> Writer \<Rightarrow> Writer" where
  "put s w = w\<lparr>written := written w @ s\<rparr>"

section \<open>Texts of the values\<close>

definition hexDigit :: "nat \<Rightarrow> char" where
  "hexDigit n = ''0123456789ABCDEF'' ! n"

text \<open>The table \<open>escape\<close> of the code; \<open>None\<close> is its entry 0.\<close>

definition writer_escape :: "char \<Rightarrow> char option" where
  "writer_escape c =
     (case of_char c :: nat of
        n \<Rightarrow> if n = 8 then Some CHR ''b'' else if n = 9 then Some CHR ''t''
             else if n = 10 then Some CHR ''n'' else if n = 12 then Some CHR ''f''
             else if n = 13 then Some CHR ''r'' else if n < 32 then Some CHR ''u''
             else if c = CHR 0x22 then Some CHR 0x22 else if c = CHR 0x5C then Some CHR 0x5C
             else None)"

definition write_char :: "char \<Rightarrow> string" where
  "write_char c =
     (case writer_escape c of
        None \<Rightarrow> [c]
      | Some e \<Rightarrow>
          [CHR 0x5C, e] @
          (if e = CHR ''u''
           then [CHR ''0'', CHR ''0'', hexDigit (of_char c div 16), hexDigit (of_char c mod 16)]
           else []))"

definition string_text :: "string \<Rightarrow> string" where
  "string_text str = [CHR 0x22] @ concat (map write_char str) @ [CHR 0x22]"

definition bool_text :: "bool \<Rightarrow> string" where
  "bool_text b = (if b then ''true'' else ''false'')"

section \<open>The handler\<close>

text \<open>Between the values of an object commas and colons alternate; at an even position only a
  name may come, and there is only one root.\<close>

definition separator :: "Level \<Rightarrow> string" where
  "separator l =
     (if 0 < valueCount l
      then (if inArray l then '','' else if even (valueCount l) then '','' else '':'') else [])"

definition Prefix :: "Type \<Rightarrow> Writer \<Rightarrow> fault + Writer" where
  "Prefix type w =
     (case level_stack w of
        l # ls \<Rightarrow>
          if \<not> inArray l \<and> even (valueCount l) \<and> type \<noteq> kStringType then Inl AssertionFails
          else Inr ((put (separator l) w)\<lparr>level_stack := l\<lparr>valueCount := valueCount l + 1\<rparr> # ls\<rparr>)
      | [] \<Rightarrow> if hasRoot w then Inl AssertionFails else Inr (w\<lparr>hasRoot := True\<rparr>))"

text \<open>A value that is no container: the prefix, then its text.\<close>

definition write_value :: "Type \<Rightarrow> string \<Rightarrow> Writer \<Rightarrow> fault + Writer option" where
  "write_value type s w = map_sum id (\<lambda>w'. Some (put s w')) (Prefix type w)"

definition Writer_Double :: "double \<Rightarrow> Writer \<Rightarrow> fault + Writer option" where
  "Writer_Double d w =
     (case Prefix kNumberType w of
        Inl f \<Rightarrow> Inl f
      | Inr w' \<Rightarrow> map_sum id (\<lambda>s. Some (put s w')) (dtoa d))"

definition Writer_Start :: "Type \<Rightarrow> bool \<Rightarrow> string \<Rightarrow> Writer \<Rightarrow> fault + Writer option" where
  "Writer_Start type arr s w =
     map_sum id
       (\<lambda>w'. Some (put s (w'\<lparr>level_stack := \<lparr>valueCount = 0, inArray = arr\<rparr> # level_stack w'\<rparr>)))
       (Prefix type w)"

definition Writer_End :: "bool \<Rightarrow> string \<Rightarrow> Writer \<Rightarrow> fault + Writer option" where
  "Writer_End arr s w =
     (case level_stack w of
        [] \<Rightarrow> Inl AssertionFails
      | l # ls \<Rightarrow>
          if inArray l \<noteq> arr then Inl AssertionFails
          else Inr (Some (put s (w\<lparr>level_stack := ls\<rparr>))))"

fun Writer_handler :: "Writer handler" where
  "Writer_handler SNull w = write_value kNullType ''null'' w"
| "Writer_handler (SBool b) w = write_value (if b then kTrueType else kFalseType) (bool_text b) w"
| "Writer_handler (SInt i) w = write_value kNumberType (i32toa i) w"
| "Writer_handler (SUint u) w = write_value kNumberType (u32toa u) w"
| "Writer_handler (SInt64 i) w = write_value kNumberType (i64toa i) w"
| "Writer_handler (SUint64 u) w = write_value kNumberType (u64toa u) w"
| "Writer_handler (SDouble d) w = Writer_Double d w"
| "Writer_handler (SString s) w = write_value kStringType (string_text s) w"
| "Writer_handler (SKey s) w = write_value kStringType (string_text s) w"
| "Writer_handler SStartObject w = Writer_Start kObjectType False [CHR 0x7B] w"
| "Writer_handler (SEndObject n) w = Writer_End False [CHR 0x7D] w"
| "Writer_handler SStartArray w = Writer_Start kArrayType True [CHR 0x5B] w"
| "Writer_handler (SEndArray n) w = Writer_End True [CHR 0x5D] w"

section \<open>\<open>Print\<close>\<close>

text \<open>What \<open>RapidReply::Print\<close> puts on \<open>std::cerr\<close>; the result of \<open>Accept\<close> is ignored.\<close>

definition Print :: "RapidReply \<Rightarrow> fault + string" where
  "Print r =
     map_sum id (\<lambda>(_, w). c_str (written w) @ [CHR 0x0A]) (Accept Writer_handler (document r) Writer_new)"

end
