(* ===== verification/JsonWriterFacts.thy ===== *)
theory JsonWriterFacts
  imports JsonWriter
begin

text \<open>
  Facts about the writer: what \<open>Accept\<close> makes it write is the compact text of the value, and
  none of its assertions fails.
\<close>

section \<open>The compact text of a value\<close>

definition double_text :: "double \<Rightarrow> string" where
  "double_text d = (case dtoa d of Inl f \<Rightarrow> [] | Inr s \<Rightarrow> s)"

definition comma :: "bool \<Rightarrow> string" where
  "comma first = (if first then [] else '','')"

primrec json_text :: "json \<Rightarrow> string"
  and json_items :: "json list \<Rightarrow> bool \<Rightarrow> string"
  and json_members :: "(string \<times> json) list \<Rightarrow> bool \<Rightarrow> string"
  and json_member :: "string \<times> json \<Rightarrow> string" where
  "json_text JNull = ''null''"
| "json_text (JBool b) = bool_text b"
| "json_text (JInt i) = signed_digits i"
| "json_text (JDouble d) = double_text d"
| "json_text (JString s) = string_text s"
| "json_text (JArray vs) = [CHR 0x5B] @ json_items vs True @ [CHR 0x5D]"
| "json_text (JObject ms) = [CHR 0x7B] @ json_members ms True @ [CHR 0x7D]"
| "json_items [] first = []"
| "json_items (v # vs) first = comma first @ json_text v @ json_items vs False"
| "json_members [] first = []"
| "json_members (m # ms) first = comma first @ json_member m @ json_members ms False"
| "json_member (k, v) = string_text k @ '':'' @ json_text v"

text \<open>Every integer of the value fits 64 bits, and every \<open>double\<close> is printed.\<close>

primrec printable :: "json \<Rightarrow> bool"
  and printable_items :: "json list \<Rightarrow> bool"
  and printable_members :: "(string \<times> json) list \<Rightarrow> bool"
  and printable_member :: "string \<times> json \<Rightarrow> bool" where
  "printable JNull \<longleftrightarrow> True"
| "printable (JBool b) \<longleftrightarrow> True"
| "printable (JInt i) \<longleftrightarrow> - (2 ^ 63) \<le> i \<and> i < 2 ^ 64"
| "printable (JDouble d) \<longleftrightarrow> dtoa d = Inr (double_text d)"
| "printable (JString s) \<longleftrightarrow> True"
| "printable (JArray vs) \<longleftrightarrow> printable_items vs"
| "printable (JObject ms) \<longleftrightarrow> printable_members ms"
| "printable_items [] \<longleftrightarrow> True"
| "printable_items (v # vs) \<longleftrightarrow> printable v \<and> printable_items vs"
| "printable_members [] \<longleftrightarrow> True"
| "printable_members (m # ms) \<longleftrightarrow> printable_member m \<and> printable_members ms"
| "printable_member (k, v) \<longleftrightarrow> printable v"

section \<open>One value\<close>

text \<open>Where a value may come, and what its prefix does there.\<close>

definition value_expected :: "Writer \<Rightarrow> bool" where
  "value_expected w \<longleftrightarrow>
     (case level_stack w of [] \<Rightarrow> \<not> hasRoot w | l # ls \<Rightarrow> inArray l \<or> odd (valueCount l))"

definition prefixed :: "Writer \<Rightarrow> Writer" where
  "prefixed w =
     (case level_stack w of
        [] \<Rightarrow> w\<lparr>hasRoot := True\<rparr>
      | l # ls \<Rightarrow> (put (separator l) w)\<lparr>level_stack := l\<lparr>valueCount := valueCount l + 1\<rparr> # ls\<rparr>)"

lemma Prefix_value: "value_expected w \<Longrightarrow> Prefix t w = Inr (prefixed w)"
  by (auto simp: value_expected_def Prefix_def prefixed_def split: list.splits)

lemma Prefix_name: "level_stack w = l # ls \<Longrightarrow> Prefix kStringType w = Inr (prefixed w)"
  by (simp add: Prefix_def prefixed_def)

lemma put_simps [simp]:
  "level_stack (put s w) = level_stack w" "hasRoot (put s w) = hasRoot w"
  "written (put s w) = written w @ s" "put t (put s w) = put (s @ t) w" "put [] w = w"
  "(put s w)\<lparr>level_stack := ls\<rparr> = put s (w\<lparr>level_stack := ls\<rparr>)"
  by (simp_all add: put_def)

lemma i32toa_int: "i32toa (word_of_int i) = signed_digits i" if "- (2 ^ 31) \<le> i" "i < 2 ^ 31"
  using that by (simp add: i32toa_digits sint_sbintrunc' signed_take_bit_int_eq_self)

lemma u32toa_int: "u32toa (word_of_int i) = signed_digits i" if "0 \<le> i" "i < 2 ^ 32"
  using that
  by (simp add: u32toa_digits signed_digits_def unat_eq_nat_uint uint_word_of_int)

lemma i64toa_int: "i64toa (word_of_int i) = signed_digits i" if "- (2 ^ 63) \<le> i" "i < 2 ^ 63"
  using that by (simp add: i64toa_digits sint_sbintrunc' signed_take_bit_int_eq_self)

lemma u64toa_int: "u64toa (word_of_int i) = signed_digits i" if "0 \<le> i" "i < 2 ^ 64"
  using that
  by (simp add: u64toa_digits signed_digits_def unat_eq_nat_uint uint_word_of_int)

lemma write_int:
  "Writer_handler (int_event i) w = write_value kNumberType (signed_digits i) w"
  if "- (2 ^ 63) \<le> i" "i < 2 ^ 64"
  using that i32toa_int [of i] u32toa_int [of i] i64toa_int [of i] u64toa_int [of i]
  by (auto simp: int_event_def Let_def flags_of_def)

lemma write_value_expected:
  "value_expected w \<Longrightarrow> write_value t s w = Inr (Some (put s (prefixed w)))"
  by (simp add: write_value_def Prefix_value)

lemma call_handler: "h ev st = Inr (Some st') \<Longrightarrow> call h ev st = Inr (True, st')"
  by (simp add: call_def)

lemma and_then_True [simp]: "and_then (Inr (True, st)) k = k st"
  by (simp add: and_then_def)

section \<open>All values\<close>

definition level :: "nat \<Rightarrow> bool \<Rightarrow> Level" where
  "level n arr = \<lparr>valueCount = n, inArray = arr\<rparr>"

lemma level_simps [simp]:
  "valueCount (level n arr) = n" "inArray (level n arr) = arr"
  "(level n arr)\<lparr>valueCount := m\<rparr> = level m arr"
  by (simp_all add: level_def)

lemma Start_value:
  "value_expected w \<Longrightarrow>
     Writer_Start t arr s w = Inr (Some (put s ((prefixed w)\<lparr>level_stack := level 0 arr # level_stack (prefixed w)\<rparr>)))"
  by (simp add: Writer_Start_def Prefix_value level_def)

lemma End_level:
  "level_stack w = level n arr # ls \<Longrightarrow> Writer_End arr s w = Inr (Some (put s (w\<lparr>level_stack := ls\<rparr>)))"
  by (simp add: Writer_End_def)

lemma prefixed_level:
  "level_stack w = level n arr # ls \<Longrightarrow>
     prefixed w = put (separator (level n arr)) (w\<lparr>level_stack := level (n + 1) arr # ls\<rparr>)"
  by (simp add: prefixed_def)

lemma call_Start:
  assumes "value_expected w"
  shows "call Writer_handler SStartArray w =
      Inr (True, put [CHR 0x5B] ((prefixed w)\<lparr>level_stack := level 0 True # level_stack (prefixed w)\<rparr>))"
    and "call Writer_handler SStartObject w =
      Inr (True, put [CHR 0x7B] ((prefixed w)\<lparr>level_stack := level 0 False # level_stack (prefixed w)\<rparr>))"
  using assms by (simp_all add: call_def Start_value)

lemma call_End:
  "level_stack w = level n True # ls \<Longrightarrow>
     call Writer_handler (SEndArray k) w = Inr (True, put [CHR 0x5D] (w\<lparr>level_stack := ls\<rparr>))"
  "level_stack w = level n False # ls \<Longrightarrow>
     call Writer_handler (SEndObject k) w = Inr (True, put [CHR 0x7D] (w\<lparr>level_stack := ls\<rparr>))"
  by (simp_all add: call_def End_level)

lemma expected_array: "level_stack w = level n True # ls \<Longrightarrow> value_expected w"
  by (simp add: value_expected_def)

lemma expected_member: "level_stack w = level n False # ls \<Longrightarrow> odd n \<Longrightarrow> value_expected w"
  by (simp add: value_expected_def)

lemma separators:
  "separator (level n True) = comma (n = 0)"
  "even n \<Longrightarrow> separator (level n False) = comma (n = 0)"
  "odd n \<Longrightarrow> separator (level n False) = '':''"
  by (auto simp: separator_def comma_def odd_pos)

definition accepted :: "json \<Rightarrow> bool" where
  "accepted v \<longleftrightarrow>
     (\<forall>w. printable v \<longrightarrow> value_expected w \<longrightarrow>
        Accept Writer_handler v w = Inr (True, put (json_text v) (prefixed w)))"

lemma accepted_items:
  assumes "\<forall>v\<in>set vs. accepted v" and "printable_items vs"
    and "level_stack w = level n True # ls"
  shows "Accept_items Writer_handler vs w =
    Inr (True, put (json_items vs (n = 0)) (w\<lparr>level_stack := level (n + length vs) True # ls\<rparr>))"
  using assms
proof (induction vs arbitrary: n w)
  case (Cons v vs)
  have "Accept Writer_handler v w = Inr (True, put (json_text v) (prefixed w))"
    using Cons.prems expected_array [OF Cons.prems(3)] by (simp add: accepted_def)
  then show ?case
    using Cons by (simp add: prefixed_level [OF Cons.prems(3)] separators)
qed simp

lemma accepted_member:
  assumes "accepted v" and "printable v" and "level_stack w = level n False # ls" and "even n"
  shows "Accept_member Writer_handler (k, v) w =
    Inr (True, put (comma (n = 0) @ json_member (k, v)) (w\<lparr>level_stack := level (n + 2) False # ls\<rparr>))"
proof -
  let ?w = "put (comma (n = 0) @ string_text k) (w\<lparr>level_stack := level (n + 1) False # ls\<rparr>)"
  have "call Writer_handler (SKey k) w = Inr (True, ?w)"
    using assms(3,4)
    by (simp add: call_def write_value_def Prefix_name prefixed_level [OF assms(3)] separators)
  moreover have "level_stack ?w = level (n + 1) False # ls" by simp
  moreover from this have "Accept Writer_handler v ?w = Inr (True, put (json_text v) (prefixed ?w))"
    using assms(1,2,4) expected_member [of ?w "n + 1" ls] by (simp add: accepted_def)
  ultimately show ?thesis
    using assms(4) prefixed_level [of ?w "n + 1" False ls] by (simp add: separators)
qed

lemma accepted_members:
  assumes "\<forall>m\<in>set ms. accepted (snd m)" and "printable_members ms"
    and "level_stack w = level n False # ls" and "even n"
  shows "Accept_members Writer_handler ms w =
    Inr (True, put (json_members ms (n = 0)) (w\<lparr>level_stack := level (n + 2 * length ms) False # ls\<rparr>))"
  using assms
proof (induction ms arbitrary: n w)
  case (Cons m ms)
  obtain k v where m: "m = (k, v)" by (cases m)
  have "Accept_member Writer_handler m w =
      Inr (True, put (comma (n = 0) @ json_member m) (w\<lparr>level_stack := level (n + 2) False # ls\<rparr>))"
    unfolding m using Cons.prems by (intro accepted_member) (simp_all add: m)
  then show ?case using Cons by simp
qed simp

lemma all_accepted: "accepted v"
proof (induction v)
  case (JArray vs)
  then have "\<forall>v\<in>set vs. accepted v" by simp
  then show ?case
    unfolding accepted_def [of "JArray vs"]
    by (auto simp: call_Start call_End accepted_items [where n = 0 and ls = "level_stack (prefixed w)" for w])
next
  case (JObject ms)
  have "\<forall>m\<in>set ms. accepted (snd m)" 
    using JObject by (metis prod.collapse snds.intros)
  then show ?case
    unfolding accepted_def [of "JObject ms"]
    by (auto simp: call_Start call_End accepted_members [where n = 0 and ls = "level_stack (prefixed w)" for w])
qed (simp_all add: accepted_def call_def write_value_expected write_int Writer_Double_def Prefix_value)

lemma Accept_writes:
  "printable v \<Longrightarrow> value_expected w \<Longrightarrow>
     Accept Writer_handler v w = Inr (True, put (json_text v) (prefixed w))"
  using all_accepted by (simp add: accepted_def)

lemma Accept_document:
  "printable v \<Longrightarrow>
     Accept Writer_handler v Writer_new =
       Inr (True, \<lparr>written = json_text v, level_stack = [], hasRoot = True\<rparr>)"
  by (simp add: Accept_writes value_expected_def prefixed_def Writer_new_def put_def)

end
