(* ===== verification/DoubleFacts.thy ===== *)
theory DoubleFacts
  imports Complex_Main Doubles
begin

text \<open>
  Facts about the rounding of \<open>double\<close>: the exponent it finds is the binary exponent of the
  quotient, the result is a value of the format within half a unit of the quotient, it depends
  on the quotient alone, and a value of the format is its own rounding.
\<close>

section \<open>Binary exponents\<close>

lemma powi_two: "(2 :: real) powi k = 2 ^ nat k / 2 ^ nat (- k)"
  by (simp add: power_int_def field_simps)

lemma powi_two_pos [simp]: "0 < (2 :: real) powi k"
  by (simp add: zero_less_power_int)

lemma powi_two_add: "(2 :: real) powi (a + b) = 2 powi a * 2 powi b"
  by (simp add: power_int_add)

lemma powi_two_less: "(2 :: real) powi a < 2 powi b \<longleftrightarrow> a < b"
  by (metis one_less_numeral_iff power_int_strict_increasing linorder_neqE_linordered_idom
      order_less_asym semiring_norm(76) less_irrefl)

lemma bit_length_bounds: "0 < n \<Longrightarrow> 2 ^ (bit_length n - 1) \<le> n \<and> n < 2 ^ bit_length n \<and> 0 < bit_length n"
proof (induction n rule: bit_length.induct)
  case (1 n)
  show ?case
  proof (cases "n = 1")
    case True
    then show ?thesis by (simp add: bit_length.simps)
  next
    case False
    with 1(2) have "0 < n div 2" by simp
    with 1 have IH: "2 ^ (bit_length (n div 2) - 1) \<le> n div 2" "n div 2 < 2 ^ bit_length (n div 2)"
      "0 < bit_length (n div 2)" by simp_all
    have l: "bit_length n = Suc (bit_length (n div 2))"
      using 1(2) by (subst bit_length.simps) simp
    obtain j where j: "bit_length (n div 2) = Suc j" using IH(3) gr0_implies_Suc by blast
    have "n = 2 * (n div 2) + n mod 2" "0 \<le> n mod 2" "n mod 2 < 2" by simp_all
    with IH show ?thesis unfolding l j by (simp del: mult_div_mod_eq) linarith
  qed
qed

lemma test_powi:
  assumes "0 < d"
  shows "d * 2 ^ nat k \<le> n * 2 ^ nat (- k) \<longleftrightarrow> 2 powi k \<le> real_of_int n / real_of_int d"
proof -
  have "d * 2 ^ nat k \<le> n * 2 ^ nat (- k) \<longleftrightarrow> real_of_int (d * 2 ^ nat k) \<le> real_of_int (n * 2 ^ nat (- k))"
    by linarith
  also have "\<dots> \<longleftrightarrow> 2 powi k \<le> real_of_int n / real_of_int d"
    using assms by (simp add: powi_two field_simps)
  finally show ?thesis .
qed

lemma bit_length_real:
  assumes "0 < n" and "bit_length n = Suc i"
  shows "2 ^ i \<le> real_of_int n" and "real_of_int n < 2 * 2 ^ i"
proof -
  have "real_of_int (2 ^ i) \<le> real_of_int n" "real_of_int n < real_of_int (2 ^ Suc i)"
    using bit_length_bounds [OF assms(1)] unfolding assms(2) by (simp_all only: of_int_le_iff of_int_less_iff) simp_all
  then show "2 ^ i \<le> real_of_int n" and "real_of_int n < 2 * 2 ^ i" by simp_all
qed

lemma binary_exponent_bounds:
  assumes "0 < n" and "0 < d"
  shows "2 powi binary_exponent n d \<le> real_of_int n / real_of_int d \<and>
    real_of_int n / real_of_int d < 2 powi (binary_exponent n d + 1)"
proof -
  define bn bd where "bn = bit_length n" and "bd = bit_length d"
  obtain i j where i: "bn = Suc i" and j: "bd = Suc j"
    using bit_length_bounds [OF assms(1)] bit_length_bounds [OF assms(2)]
    unfolding bn_def bd_def by (metis gr0_implies_Suc)
  note n = bit_length_real [OF assms(1) i [unfolded bn_def]]
    and d = bit_length_real [OF assms(2) j [unfolded bd_def]]
  define l where "l = int bn - int bd"
  have p: "(2 :: real) powi (int i - int j) = 2 ^ i / 2 ^ j"
    by (simp add: power_int_diff)
  have l: "l = int i - int j" by (simp add: l_def i j)
  have up: "real_of_int n / real_of_int d < 2 powi (l + 1)"
  proof -
    have "real_of_int n * 2 ^ j < 2 * 2 ^ i * real_of_int d"
      using n d assms by (intro mult_less_le_imp_less) auto
    then show ?thesis
      using assms(2) unfolding powi_two_add l p by (simp add: field_simps)
  qed
  have low: "2 powi (l - 1) \<le> real_of_int n / real_of_int d"
  proof -
    have "2 ^ i * real_of_int d \<le> real_of_int n * (2 * 2 ^ j)"
      using n d assms by (intro mult_mono) auto
    moreover have "(2 :: real) powi (l - 1) = 2 ^ i / 2 ^ j / 2"
      by (simp add: power_int_diff l)
    moreover have "2 ^ i / 2 ^ j / 2 \<le> real_of_int n / real_of_int d \<longleftrightarrow>
        2 ^ i * real_of_int d \<le> real_of_int n * (2 * 2 ^ j)"
      using assms(2) by (simp add: field_simps)
    ultimately show ?thesis by simp
  qed
  show ?thesis
    using up low test_powi [OF assms(2), of l n]
    unfolding binary_exponent_def Let_def bn_def [symmetric] bd_def [symmetric] l_def [symmetric]
    by (auto simp: not_le)
qed

lemma binary_exponent_unique:
  assumes "0 < n" and "0 < d"
    and "2 powi k \<le> real_of_int n / real_of_int d" and "real_of_int n / real_of_int d < 2 powi (k + 1)"
  shows "binary_exponent n d = k"
proof -
  from binary_exponent_bounds [OF assms(1,2)] assms(3,4)
  have "(2 :: real) powi binary_exponent n d < 2 powi (k + 1)" "(2 :: real) powi k < 2 powi (binary_exponent n d + 1)"
    by linarith+
  then show ?thesis by (simp add: powi_two_less)
qed

section \<open>Rounding\<close>

text \<open>Rounding in terms of the quotient.\<close>

definition nearest :: "real \<Rightarrow> int" where
  "nearest x = (if 1 / 2 < frac x \<or> (frac x = 1 / 2 \<and> odd \<lfloor>x\<rfloor>) then \<lfloor>x\<rfloor> + 1 else \<lfloor>x\<rfloor>)"

lemma round_div_nearest: "0 < b \<Longrightarrow> round_div a b = nearest (real_of_int a / real_of_int b)"
proof -
  assume b: "0 < b"
  have fl: "\<lfloor>real_of_int a / real_of_int b\<rfloor> = a div b"
    by (simp add: floor_divide_of_int_eq)
  have "real_of_int a = real_of_int b * real_of_int (a div b) + real_of_int (a mod b)"
    by (metis mult_div_mod_eq of_int_add of_int_mult)
  then have fr: "frac (real_of_int a / real_of_int b) = real_of_int (a mod b) / real_of_int b"
    using b unfolding frac_def fl by (simp add: field_simps)
  have "1 / 2 < real_of_int (a mod b) / real_of_int b \<longleftrightarrow> b < 2 * (a mod b)"
    "real_of_int (a mod b) / real_of_int b = 1 / 2 \<longleftrightarrow> b = 2 * (a mod b)"
    using b by (simp_all add: field_simps, linarith+)
  then show ?thesis
    by (simp add: round_div_def nearest_def Let_def fl fr)
qed

lemma nearest_half: "\<bar>x - real_of_int (nearest x)\<bar> \<le> 1 / 2"
  using frac_lt_1 [of x] frac_ge_0 [of x] by (auto simp: nearest_def frac_def)

lemma nearest_of_int [simp]: "nearest (real_of_int i) = i"
  by (simp add: nearest_def frac_def)

lemma nearest_bounds: "real_of_int a \<le> x \<Longrightarrow> x < real_of_int b \<Longrightarrow> a \<le> nearest x \<and> nearest x \<le> b"
  by (auto simp: nearest_def) linarith+

text \<open>The rounding of a positive quotient \<open>x\<close>.\<close>

definition round_real :: "bool \<Rightarrow> int \<Rightarrow> real \<Rightarrow> double" where
  "round_real s k x =
     (let e = max (- 1074) (k - 52); m = nearest (x / 2 powi e)
      in if m = 2 ^ 53
         then (if 970 < e then DInf s else DFinite s (2 ^ 52) (e + 1))
         else (if 971 < e then DInf s else DFinite s m e))"

lemma round64_real:
  assumes "0 < n" and "0 < d"
  shows "round64 s n d = round_real s (binary_exponent n d) (real_of_int n / real_of_int d)"
proof -
  have "round_div (n * 2 ^ nat (- e)) (d * 2 ^ nat e) = nearest (real_of_int n / real_of_int d / 2 powi e)" for e
    using assms(2) by (simp add: round_div_nearest powi_two field_simps)
  then show ?thesis
    using assms by (simp add: round64_def round_real_def Let_def)
qed

text \<open>Only the quotient matters.\<close>

lemma round64_cong:
  assumes "0 \<le> n" "0 < d" "0 \<le> n'" "0 < d'" and "n * d' = n' * d"
  shows "round64 s n d = round64 s n' d'"
proof (cases "n = 0")
  case True
  with assms show ?thesis by (auto simp: round64_def)
next
  case False
  with assms have n: "0 < n" by simp
  then have n': "0 < n'" using assms by (metis mult_pos_pos zero_less_mult_pos2)
  have x: "real_of_int n / real_of_int d = real_of_int n' / real_of_int d'"
    using assms by (simp add: field_simps) (metis mult.commute of_int_mult)
  have "binary_exponent n d = binary_exponent n' d'"
    using binary_exponent_bounds [OF n' assms(4)] unfolding x [symmetric]
    by (intro binary_exponent_unique [OF n assms(2)]) simp_all
  with x show ?thesis by (simp add: round64_real n n' assms)
qed

section \<open>Values of the format\<close>

lemma of_int_powi: "0 \<le> k \<Longrightarrow> (2 :: real) powi k = real_of_int (2 ^ nat k)"
  by (simp add: powi_two)

text \<open>The significand that is rounded lies between two powers of two.\<close>

lemma scaled_bounds:
  fixes x :: real
  assumes "2 powi k \<le> x" and "x < 2 powi (k + 1)"
  shows "2 powi (k - e) \<le> x / 2 powi e \<and> x / 2 powi e < 2 powi (k + 1 - e)"
  using assms by (simp add: power_int_diff divide_simps)

lemma significand_bounds:
  fixes x :: real
  assumes "2 powi k \<le> x" and "x < 2 powi (k + 1)" and "e = max (- 1074) (k - 52)"
  shows "0 \<le> nearest (x / 2 powi e) \<and> nearest (x / 2 powi e) \<le> 2 ^ 53 \<and>
    (2 ^ 52 \<le> nearest (x / 2 powi e) \<or> e = - 1074)"
proof (cases "e = k - 52")
  case True
  have "(2 :: real) powi (k - e) = real_of_int (2 ^ 52)" "(2 :: real) powi (k + 1 - e) = real_of_int (2 ^ 53)"
    by (simp_all add: True of_int_powi)
  with scaled_bounds [OF assms(1,2), of e] nearest_bounds [of "2 ^ 52" "x / 2 powi e" "2 ^ 53"]
  show ?thesis by simp
next
  case False
  with assms(3) have e: "e = - 1074" and k: "k + 1 - e \<le> 52" by auto
  have "(2 :: real) powi (k + 1 - e) \<le> 2 powi 52"
    using k by (intro power_int_increasing) auto
  also have "\<dots> = real_of_int (2 ^ 52)" by (simp add: of_int_powi)
  finally have "x / 2 powi e < real_of_int (2 ^ 52)"
    using scaled_bounds [OF assms(1,2), of e] by linarith
  moreover have "0 \<le> x" using assms(1) powi_two_pos [of k] by linarith
  then have "real_of_int 0 \<le> x / 2 powi e" by (simp add: divide_nonneg_pos)
  ultimately show ?thesis
    using nearest_bounds [of 0 "x / 2 powi e" "2 ^ 52"] by (simp add: e)
qed

lemma round64_ok:
  assumes "0 \<le> n" and "0 < d"
  shows "double_ok (round64 s n d)" and "round64 s n d \<noteq> DNaN"
proof -
  have "double_ok (round64 s n d) \<and> round64 s n d \<noteq> DNaN"
  proof (cases "n = 0")
    case False
    with assms have n: "0 < n" by simp
    define k where "k = binary_exponent n d"
    define e where "e = max (- 1074) (k - 52)"
    define m where "m = nearest (real_of_int n / real_of_int d / 2 powi e)"
    have "- 1074 \<le> e" by (simp add: e_def)
    moreover have "0 \<le> m" "m \<le> 2 ^ 53" "2 ^ 52 \<le> m \<or> e = - 1074"
      using binary_exponent_bounds [OF n assms(2), folded k_def]
        significand_bounds [OF _ _ e_def, of "real_of_int n / real_of_int d"] by (simp_all add: m_def)
    moreover have "round64 s n d =
        (if m = 2 ^ 53 then (if 970 < e then DInf s else DFinite s (2 ^ 52) (e + 1))
         else (if 971 < e then DInf s else DFinite s m e))"
      unfolding round64_real [OF n assms(2)] round_real_def Let_def k_def [symmetric] e_def [symmetric]
        m_def [symmetric] ..
    ultimately show ?thesis by auto
  qed (simp add: round64_def)
  then show "double_ok (round64 s n d)" and "round64 s n d \<noteq> DNaN" by simp_all
qed

text \<open>A positive value of the format is its own rounding.\<close>

lemma round64_exact:
  assumes "double_ok (DFinite t m e)" and "0 < m" and "0 < n" and "0 < d"
    and x: "real_of_int n / real_of_int d = real_of_int m * 2 powi e"
  shows "round64 s n d = DFinite s m e"
proof -
  define k where "k = binary_exponent n d"
  have b: "2 powi k \<le> real_of_int m * 2 powi e" "real_of_int m * 2 powi e < 2 powi (k + 1)"
    using binary_exponent_bounds [OF assms(3,4)] x by (simp_all add: k_def)
  have m: "real_of_int m < 2 ^ 53"
  proof -
    have "real_of_int m < real_of_int (2 ^ 53)"
      using assms(1) by (simp only: of_int_less_iff double_ok.simps)
    then show ?thesis by simp
  qed
  have hi: "k \<le> e + 52"
  proof -
    have "(2 :: real) powi (e + 53) = 2 ^ 53 * 2 powi e" by (simp add: powi_two_add)
    then have "(2 :: real) powi k < 2 powi (e + 53)"
      using b(1) mult_strict_right_mono [OF m powi_two_pos [of e]] by linarith
    then show ?thesis by (simp add: powi_two_less)
  qed
  have lo: "e + 52 \<le> k" if "2 ^ 52 \<le> m"
  proof -
    have "real_of_int (2 ^ 52) \<le> real_of_int m" using that by (simp only: of_int_le_iff)
    then have "2 ^ 52 * 2 powi e \<le> real_of_int m * 2 powi e"
      by (intro mult_right_mono) (simp_all add: less_imp_le)
    moreover have "(2 :: real) powi (e + 52) = 2 ^ 52 * 2 powi e" by (simp add: powi_two_add)
    ultimately have "(2 :: real) powi (e + 52) < 2 powi (k + 1)"
      using b(2) by linarith
    then show ?thesis by (simp add: powi_two_less)
  qed
  have "max (- 1074) (k - 52) = e"
    using assms(1) hi lo by auto
  moreover have "real_of_int m * 2 powi e / 2 powi e = real_of_int m"
    using powi_two_pos [of e] by simp
  ultimately show ?thesis
    using assms(1) by (simp add: round64_real [OF assms(3,4)] k_def [symmetric] x round_real_def Let_def)
qed

section \<open>Operations\<close>

text \<open>A number: a value of the format other than a NaN.\<close>

definition is_num :: "double \<Rightarrow> bool" where
  "is_num d \<longleftrightarrow> double_ok d \<and> d \<noteq> DNaN"

lemma is_num_round64 [simp]: "0 \<le> n \<Longrightarrow> 0 < d \<Longrightarrow> is_num (round64 s n d)"
  by (simp add: is_num_def round64_ok)

lemma is_num_of_int [simp]: "is_num (double_of_int i)"
  by (simp add: double_of_int_def)

lemma is_num_neg [simp]: "is_num (double_neg d) = is_num d"
  by (cases d) (auto simp: is_num_def)

lemma is_num_zero [simp]: "is_num (DFinite s 0 (- 1074))"
  by (simp add: is_num_def)

definition is_positive :: "double \<Rightarrow> bool" where
  "is_positive d \<longleftrightarrow> (\<exists>m e. d = DFinite False m e \<and> 0 < m \<and> double_ok d)"

lemma is_num_mul: "is_num d \<Longrightarrow> is_positive c \<Longrightarrow> is_num (double_mul d c)"
  by (cases d) (auto simp: is_positive_def is_num_def round64_ok)

lemma is_num_div: "is_num d \<Longrightarrow> is_positive c \<Longrightarrow> is_num (double_div d c)"
  by (cases d) (auto simp: is_positive_def is_num_def round64_ok)

lemma is_num_add: "is_num d \<Longrightarrow> is_num (DFinite t n f) \<Longrightarrow> is_num (double_add d (DFinite t n f))"
  by (cases d) (auto simp: is_num_def round64_ok Let_def)

text \<open>A quotient between one and the largest value stays finite and positive.\<close>

lemma round64_finite:
  assumes "0 < d" and "d \<le> n" and "n \<le> (2 ^ 53 - 1) * 2 ^ 971 * d"
  shows "is_positive (round64 False n d)"
proof -
  have n: "0 < n" using assms by linarith
  define x where "x = real_of_int n / real_of_int d"
  define k where "k = binary_exponent n d"
  define e where "e = max (- 1074) (k - 52)"
  define m where "m = nearest (x / 2 powi e)"
  have kb: "2 powi k \<le> x" "x < 2 powi (k + 1)"
    using binary_exponent_bounds [OF n assms(1)] by (simp_all add: x_def k_def)
  have "real_of_int n \<le> real_of_int ((2 ^ 53 - 1) * 2 ^ 971 * d)" using assms(3) by (simp only: of_int_le_iff)
  then have "x \<le> real_of_int ((2 ^ 53 - 1) * 2 ^ 971)"
    using assms(1) by (simp only: x_def of_int_mult divide_le_eq) simp
  also have "\<dots> = real_of_int (2 ^ 53 - 1) * 2 powi 971"
    by (simp only: of_int_mult of_int_powi) simp
  finally have hi: "x \<le> real_of_int (2 ^ 53 - 1) * 2 powi 971" .
  have "real_of_int (2 ^ 53 - 1) * 2 powi 971 < (2 :: real) powi 1024"
    by (simp add: powi_two)
  with kb(1) hi have "(2 :: real) powi k < 2 powi 1024" by linarith
  then have "k < 1024" by (simp only: powi_two_less)
  then have e: "e \<le> 971" by (simp add: e_def)
  have one: "1 \<le> x" using assms(1,2) by (simp add: x_def)
  then have "(2 :: real) powi 0 < 2 powi (k + 1)" using kb(2) by simp
  then have "0 < k + 1" by (simp only: powi_two_less)
  then have "e = k - 52" by (simp add: e_def)
  then have m: "2 ^ 52 \<le> m \<and> m \<le> 2 ^ 53"
    using significand_bounds [OF kb e_def] scaled_bounds [OF kb, of e]
      nearest_bounds [of "2 ^ 52" "x / 2 powi e" "2 ^ 53"]
    by (simp add: m_def of_int_powi)
  have "m \<noteq> 2 ^ 53" if "e = 971"
  proof -
    have "x / 2 powi e \<le> real_of_int (2 ^ 53 - 1)"
      using hi by (simp only: that divide_le_eq powi_two_pos if_True)
    then have "nearest (x / 2 powi e) \<le> 2 ^ 53 - 1"
      using nearest_half [of "x / 2 powi e"] by linarith
    then show ?thesis by (simp add: m_def)
  qed
  moreover have "round64 False n d =
      (if m = 2 ^ 53 then (if 970 < e then DInf False else DFinite False (2 ^ 52) (e + 1))
       else (if 971 < e then DInf False else DFinite False m e))"
    unfolding round64_real [OF n assms(1)] round_real_def Let_def k_def [symmetric] e_def [symmetric]
      x_def [symmetric] m_def [symmetric] ..
  moreover have "double_ok (round64 False n d)" using n assms(1) by (simp add: round64_ok)
  ultimately show ?thesis using m e by (auto simp: is_positive_def split: if_splits)
qed

end
