(* ===== verification/JsonReaderFacts.thy ===== *)
theory JsonReaderFacts
  imports JsonDocument DoubleFacts
begin

text \<open>
  Facts about reading a document: the events of numbers, the stack of the document while the
  reader feeds it, what a successful parse leaves and what an unsuccessful one does.
\<close>

section \<open>Powers of ten\<close>

lemma Pow10_ok:
  assumes "0 \<le> n" and "n \<le> 308"
  shows "\<exists>d. Pow10 n = Inr d \<and> is_positive d"
proof -
  have "(10 :: int) ^ nat n \<le> 10 ^ 308"
    using assms by (intro power_increasing) simp_all
  also have "\<dots> \<le> (2 ^ 53 - 1) * 2 ^ 971 * 1" by simp
  finally have "is_positive (round64 False (10 ^ nat n) 1)"
    by (intro round64_finite) simp_all
  with assms show ?thesis by (simp add: Pow10_def)
qed

lemma FastPath_ok:
  assumes "is_num d" and "p \<le> 308"
  shows "\<exists>d'. FastPath d p = Inr d' \<and> is_num d'"
  using Pow10_ok [of p] Pow10_ok [of "- p"] assms is_num_mul is_num_div
  by (cases "p < - 308"; cases "0 \<le> p") (fastforce simp: FastPath_def)+

lemma StrtodNormalPrecision_ok:
  assumes "is_num d" and "p \<le> 308"
  shows "\<exists>d'. StrtodNormalPrecision d p = Inr d' \<and> is_num d'"
proof (cases "p < - 308")
  case True
  obtain d1 where "FastPath d (- 308) = Inr d1" "is_num d1"
    using FastPath_ok [OF assms(1), of "- 308"] by auto
  with True FastPath_ok [of d1 "p + 308"] show ?thesis by (simp add: StrtodNormalPrecision_def)
qed (use FastPath_ok [OF assms] in \<open>simp add: StrtodNormalPrecision_def\<close>)

section \<open>Numbers\<close>

lemma double_of_small:
  assumes "0 \<le> i" and "i \<le> 10"
  shows "\<exists>m e. double_of_int i = DFinite False m e \<and> (0 < i \<longrightarrow> is_positive (double_of_int i))"
proof (cases "i = 0")
  case False
  with assms have "is_positive (double_of_int i)"
    using round64_finite [of 1 i] by (simp add: double_of_int_def)
  then show ?thesis by (auto simp: is_positive_def)
qed (simp add: double_of_int_def round64_def)

lemma digit_of_le: "is_digit c \<Longrightarrow> digit_of c \<le> 9"
  by (auto simp: is_digit_def digit_of_def)

lemma is_num_times_ten_plus: "is_num d \<Longrightarrow> is_digit c \<Longrightarrow> is_num (times_ten_plus d c)"
proof -
  assume d: "is_num d" and c: "is_digit c"
  have "is_num (double_mul d (double_of_int 10))"
    using double_of_small [of 10] d by (auto intro: is_num_mul)
  moreover obtain m e where "double_of_int (int (digit_of c)) = DFinite False m e"
    using double_of_small [of "int (digit_of c)"] digit_of_le [OF c] by auto
  ultimately show ?thesis
    using is_num_add [of "double_mul d (double_of_int 10)" False m e]
    by (metis is_num_of_int times_ten_plus_def)
qed

text \<open>A property of every result of a routine.\<close>

definition post :: "('a \<Rightarrow> bool) \<Rightarrow> 'e + 'a \<Rightarrow> bool" where
  "post P r \<longleftrightarrow> (\<forall>a. r = Inr a \<longrightarrow> P a)"

lemma post_Inr: "P a \<Longrightarrow> post P (Inr a)"
  by (simp add: post_def)

lemma post_Inl: "post P (Inl e)"
  by (simp add: post_def)

lemma post_if: "(b \<Longrightarrow> post P x) \<Longrightarrow> (\<not> b \<Longrightarrow> post P y) \<Longrightarrow> post P (if b then x else y)"
  by simp

lemma post_bind: "(\<And>a. r = Inr a \<Longrightarrow> post P (F a)) \<Longrightarrow> post P (case r of Inl e \<Rightarrow> Inl (k e) | Inr a \<Rightarrow> F a)"
  by (cases r) (auto simp: post_def)

lemma post_map: "post (P \<circ> k) r \<Longrightarrow> post P (map_sum id k r)"
  by (cases r) (auto simp: post_def)

lemma post_split: "(\<And>a b. p = (a, b) \<Longrightarrow> post P (F a b)) \<Longrightarrow> post P (case p of (a, b) \<Rightarrow> F a b)"
  by (cases p) auto

lemmas post_rules = post_Inr post_Inl post_if post_bind post_map post_split

lemma postD: "r = Inr a \<Longrightarrow> post P r \<Longrightarrow> P a"
  by (simp add: post_def)

lemma Peek_Take: "Peek s = Inr c \<Longrightarrow> Take s = Inr (c', s') \<Longrightarrow> c' = c"
  by (auto simp: Peek_def Take_def split: list.splits)

lemma Big_loop_num: "is_num d \<Longrightarrow> post (\<lambda>(d', s'). is_num d') (Big_loop d s)"
proof (induction d s rule: Big_loop.induct)
  case (1 d s)
  show ?case
  proof (subst Big_loop.simps, intro post_rules)
    fix c p c1 s1
    assume c: "Peek s = Inr c" "\<not> \<not> is_digit c" "\<not> double_le tenth_of_max d"
      and t: "Take s = Inr p" "p = (c1, s1)"
    from c t have "is_digit c1" using Peek_Take [of s c c1 s1] by simp
    then have "is_num (times_ten_plus d c1)" by (rule is_num_times_ten_plus [OF 1(2)])
    from 1(1) [OF c t(1) t(2) [symmetric] this]
    show "post (\<lambda>(d', s'). is_num d') (Big_loop (times_ten_plus d c1) s1)" .
  qed (use 1(2) in simp)
qed

lemma Frac_int_loop_exp: "post (\<lambda>(i', ef', sig', s'). ef' \<le> ef) (Frac_int_loop i ef sig s)"
proof (induction i ef sig s rule: Frac_int_loop.induct)
  case (1 i ef sig s)
  show ?case
  proof (subst Frac_int_loop.simps, unfold Let_def, intro post_rules)
    fix c p c1 s1
    assume c: "Peek s = Inr c" "\<not> (\<not> is_digit c \<or> 0x1FFFFFFFFFFFFF < i)"
      and t: "Take s = Inr p" "p = (c1, s1)"
    from 1 [OF c t(1) t(2) [symmetric] refl]
    show "post (\<lambda>(i', ef', sig', s'). ef' \<le> ef)
        (Frac_int_loop (i * 10 + word_of_nat (digit_of c1)) (ef - 1)
           (if i * 10 + word_of_nat (digit_of c1) \<noteq> 0 then sig + 1 else sig) s1)"
      by (auto simp: post_def)
  qed simp
qed

lemma Frac_loop_num:
  "is_num d \<Longrightarrow> post (\<lambda>(d', ef', sig', s'). is_num d' \<and> ef' \<le> ef) (Frac_loop d ef sig s)"
proof (induction d ef sig s rule: Frac_loop.induct)
  case (1 d ef sig s)
  show ?case
  proof (subst Frac_loop.simps, unfold Let_def, intro post_rules)
    fix c p c1 s1
    assume c: "Peek s = Inr c" "\<not> \<not> is_digit c" and t: "Take s = Inr p" "p = (c1, s1)"
    { assume "sig < 17"
      moreover from c t have "is_digit c1" using Peek_Take [of s c c1 s1] by simp
      then have "is_num (times_ten_plus d c1)" by (rule is_num_times_ten_plus [OF 1(3)])
      ultimately show "post (\<lambda>(d', ef', sig', s'). is_num d' \<and> ef' \<le> ef)
          (Frac_loop (times_ten_plus d c1) (ef - 1)
             (if double_is_pos (times_ten_plus d c1) then sig + 1 else sig) s1)"
        using 1(1) [OF c t(1) t(2) [symmetric] _ refl] by (fastforce simp: post_def)
    next
      assume "\<not> sig < 17"
      from 1(2) [OF c t(1) t(2) [symmetric] this 1(3)]
      show "post (\<lambda>(d', ef', sig', s'). is_num d' \<and> ef' \<le> ef) (Frac_loop d ef sig s1)" . }
  qed (use 1(3) in simp)
qed

lemma Exp_plus_loop_bound: "x \<le> max m 9 \<Longrightarrow> post (\<lambda>(x', s'). x' \<le> max m 9) (Exp_plus_loop m x s)"
proof (induction m x s rule: Exp_plus_loop.induct)
  case (1 m x s)
  show ?case
  proof (subst Exp_plus_loop.simps, unfold Let_def, intro post_rules)
    fix c p c1 s1
    assume c: "Peek s = Inr c" "\<not> \<not> is_digit c" and t: "Take s = Inr p" "p = (c1, s1)"
      and m: "\<not> m < x * 10 + int (digit_of c1)"
    from m 1(1) [OF c t(1) t(2) [symmetric] refl m]
    show "post (\<lambda>(x', s'). x' \<le> max m 9) (Exp_plus_loop m (x * 10 + int (digit_of c1)) s1)" by simp
  qed (use 1(2) in simp)
qed

lemma Exp_minus_loop_bound: "0 \<le> x \<Longrightarrow> post (\<lambda>(x', s'). 0 \<le> x') (Exp_minus_loop x s)"
proof (induction x s rule: Exp_minus_loop.induct)
  case (1 x s)
  show ?case
  proof (subst Exp_minus_loop.simps, unfold Let_def, intro post_rules)
    fix c p c1 s1
    assume c: "Peek s = Inr c" "\<not> \<not> is_digit c" and t: "Take s = Inr p" "p = (c1, s1)"
    { assume "\<not> 214748364 \<le> x * 10 + int (digit_of c1)"
      from 1(1) [OF c t(1) t(2) [symmetric] refl this] 1(2)
      show "post (\<lambda>(x', s'). 0 \<le> x') (Exp_minus_loop (x * 10 + int (digit_of c1)) s1)" by simp }
  qed (use 1(2) in \<open>auto simp: post_def\<close>)
qed

text \<open>What each stage of \<open>ParseNumber\<close> keeps: the value is a number and the fraction counts
  downwards.\<close>

definition number_ok :: "number \<Rightarrow> bool" where
  "number_ok n \<longleftrightarrow> is_num (dbl n) \<and> expFrac n \<le> 0"

lemma number_ok_start: "post (number_ok \<circ> fst) (ParseMinus s)"
  unfolding ParseMinus_def
  by (intro post_rules) (auto simp: number_ok_def number_start_def post_def split: prod.splits)

lemma number_ok_int32: "number_ok n \<Longrightarrow> post (number_ok \<circ> fst) (ParseInt32 n s)"
  unfolding ParseInt32_def
  by (intro post_rules) (auto simp: number_ok_def post_def split: prod.splits)

lemma number_ok_int64: "number_ok n \<Longrightarrow> post (number_ok \<circ> fst) (ParseInt64 n s)"
  unfolding ParseInt64_def
  by (intro post_rules) (auto simp: number_ok_def)

lemma number_ok_big: "number_ok n \<Longrightarrow> post (number_ok \<circ> fst) (ParseBig n s)"
  unfolding ParseBig_def
  using Big_loop_num [of "dbl n" s] by (auto simp: number_ok_def post_def)

lemma number_ok_frac_int: "number_ok n \<Longrightarrow> post (number_ok \<circ> fst) (ParseFracInt n s)"
  unfolding ParseFracInt_def
  using Frac_int_loop_exp [of "expFrac n" "significand n" "significandDigit n" s]
  by (auto simp: number_ok_def post_def split: sum.splits)

lemma number_ok_frac: "number_ok n \<Longrightarrow> post (number_ok \<circ> fst) (ParseFrac n s)"
  unfolding ParseFrac_def
  by (intro post_rules)
     (auto simp: number_ok_def dest!: postD [OF _ number_ok_frac_int] postD [OF _ Frac_loop_num])

lemma ParseExpDigits_bound:
  "ef \<le> 0 \<Longrightarrow> post (\<lambda>(x, s'). x + ef \<le> 308) (ParseExpDigits m ef s)"
  unfolding ParseExpDigits_def
proof (intro post_rules)
  fix c p c1 s1
  assume ef: "ef \<le> 0" and c: "Peek s = Inr c" "\<not> \<not> is_digit c" and t: "Take s = Inr p" "p = (c1, s1)"
  have d: "0 \<le> int (digit_of c1)" "int (digit_of c1) \<le> 9"
    using c t Peek_Take [of s c c1 s1] digit_of_le [of c1] by simp_all
  show "post (case_prod (\<lambda>x s'. x + ef \<le> 308) \<circ> (\<lambda>(x, s2). (- x, s2))) (Exp_minus_loop (int (digit_of c1)) s1)"
    using Exp_minus_loop_bound [OF d(1), of s1] ef by (auto simp: post_def)
  show "post (\<lambda>(x, s'). x + ef \<le> 308) (Exp_plus_loop (308 - ef) (int (digit_of c1)) s1)"
    using Exp_plus_loop_bound [of "int (digit_of c1)" "308 - ef" s1] d ef by (auto simp: post_def)
qed

definition scan_ok :: "number \<times> int \<times> StringStream \<Rightarrow> bool" where
  "scan_ok = (\<lambda>(n, x, s'). is_num (dbl n) \<and> x + expFrac n \<le> 308)"

lemma scan_ok_exp: "number_ok n \<Longrightarrow> post scan_ok (ParseExp n s)"
  unfolding ParseExp_def
  by (intro post_rules) (auto simp: scan_ok_def number_ok_def dest!: postD [OF _ ParseExpDigits_bound])

lemma scan_ok_number: "post scan_ok (ScanNumber s)"
  unfolding ScanNumber_def
  by (intro post_rules)
     (auto intro!: scan_ok_exp dest!: postD [OF _ number_ok_start] postD [OF _ number_ok_int32]
       postD [OF _ number_ok_int64] postD [OF _ number_ok_big] postD [OF _ number_ok_frac])

fun number_sax :: "sax \<Rightarrow> bool" where
  "number_sax (SInt i) \<longleftrightarrow> True"
| "number_sax (SUint i) \<longleftrightarrow> True"
| "number_sax (SInt64 i) \<longleftrightarrow> True"
| "number_sax (SUint64 i) \<longleftrightarrow> True"
| "number_sax (SDouble d) \<longleftrightarrow> is_num d"
| "number_sax ev \<longleftrightarrow> False"

lemma number_event_ok:
  "scan_ok (n, x, s) \<Longrightarrow> (case number_event n x of Inl f \<Rightarrow> f = SignedOverflow | Inr ev \<Rightarrow> number_sax ev)"
  using StrtodNormalPrecision_ok [of "dbl n" "x + expFrac n"]
  by (auto simp: number_event_def scan_ok_def Let_def)

end
