(* ===== verification/JsonDocumentFacts.thy ===== *)
theory JsonDocumentFacts
  imports JsonReaderFacts
begin

text \<open>
  Facts about \<open>Document::Parse\<close>: the stack of the document while the reader feeds it, the type
  of the value a parse leaves, and the faults that cannot happen.
\<close>

section \<open>Typed values\<close>

text \<open>What a document can hold: integers of 64 bits, signed or unsigned, and numbers that are no
  NaN, at any depth.\<close>

primrec json_typed :: "json \<Rightarrow> bool"
  and json_typed_items :: "json list \<Rightarrow> bool"
  and json_typed_members :: "(string \<times> json) list \<Rightarrow> bool"
  and json_typed_member :: "string \<times> json \<Rightarrow> bool" where
  "json_typed JNull \<longleftrightarrow> True"
| "json_typed (JBool b) \<longleftrightarrow> True"
| "json_typed (JInt i) \<longleftrightarrow> - (2 ^ 63) \<le> i \<and> i < 2 ^ 64"
| "json_typed (JDouble d) \<longleftrightarrow> is_num d"
| "json_typed (JString s) \<longleftrightarrow> True"
| "json_typed (JArray vs) \<longleftrightarrow> json_typed_items vs"
| "json_typed (JObject ms) \<longleftrightarrow> json_typed_members ms"
| "json_typed_items [] \<longleftrightarrow> True"
| "json_typed_items (v # vs) \<longleftrightarrow> json_typed v \<and> json_typed_items vs"
| "json_typed_members [] \<longleftrightarrow> True"
| "json_typed_members (m # ms) \<longleftrightarrow> json_typed_member m \<and> json_typed_members ms"
| "json_typed_member (k, v) \<longleftrightarrow> json_typed v"

lemma json_typed_items_append [simp]:
  "json_typed_items (vs @ ws) \<longleftrightarrow> json_typed_items vs \<and> json_typed_items ws"
  by (induction vs) auto

lemma json_typed_members_append [simp]:
  "json_typed_members (ms @ ns) \<longleftrightarrow> json_typed_members ms \<and> json_typed_members ns"
  by (induction ms) auto

section \<open>The stack\<close>

text \<open>The members read so far, on the stack: a name below its value.\<close>

definition member_values :: "(string \<times> json) list \<Rightarrow> json list" where
  "member_values ms = concat (map (\<lambda>(k, v). [JString k, v]) ms)"

lemma member_values_simps [simp]:
  "member_values [] = []"
  "member_values ((k, v) # ms) = JString k # v # member_values ms"
  "member_values (ms @ ns) = member_values ms @ member_values ns"
  by (simp_all add: member_values_def)

lemma length_member_values [simp]: "length (member_values ms) = 2 * length ms"
  by (induction ms) auto

lemma members_of_values [simp]: "members_of (member_values ms) = Inr ms"
  by (induction ms) auto

lemma EndObject_members:
  "EndObject (length ms) (rev (member_values ms) @ t # st) = Inr (Some (JObject ms # st))"
  by (simp add: EndObject_def)

lemma EndArray_items:
  "EndArray (length vs) (rev vs @ t # st) = Inr (Some (JArray vs # st))"
  by (simp add: EndArray_def)

section \<open>One value\<close>

text \<open>A routine of the reader that puts one typed value on the stack of the document.\<close>

definition builds :: "json list \<Rightarrow> StringStream \<Rightarrow> stop + json list \<times> StringStream \<Rightarrow> bool" where
  "builds st s r \<longleftrightarrow> fwd snd s r \<and> post (\<lambda>(st', s'). \<exists>v. st' = v # st \<and> json_typed v) r"

lemma emit_push: "h ev st = Inr (Some st') \<Longrightarrow> emit h ev st s = Inr st'"
  by (simp add: emit_def)

lemma builds_Inr:
  "reach s s' \<Longrightarrow> (inside s \<Longrightarrow> inside s') \<Longrightarrow> json_typed v \<Longrightarrow> builds st s (Inr (v # st, s'))"
  by (auto simp: builds_def fwd_def post_def)

lemma builds_error: "reach s s1 \<Longrightarrow> c \<noteq> kParseErrorNone \<Longrightarrow> builds st s (Inl (ParseError c (Tell s1 - k)))"
  by (simp add: builds_def fwd_error_back post_def)

lemma builds_tail:
  "builds st s1 r \<Longrightarrow> reach s s1 \<Longrightarrow> (inside s \<Longrightarrow> inside s1) \<Longrightarrow> builds st s r"
  by (auto simp: builds_def intro: fwd_tail)

lemma builds_bind:
  assumes "fwd f s1 r" and "reach s s1" and "inside s \<Longrightarrow> inside s1"
    and "\<And>a. r = Inr a \<Longrightarrow> reach s (f a) \<Longrightarrow> (inside s \<Longrightarrow> inside (f a)) \<Longrightarrow> builds st s (F a)"
  shows "builds st s (case r of Inl e \<Rightarrow> Inl e | Inr a \<Rightarrow> F a)"
proof -
  have "fwd snd s (case r of Inl e \<Rightarrow> Inl e | Inr a \<Rightarrow> F a)"
    using assms by (intro fwd_bind [OF assms(1-3)]) (simp_all add: builds_def)
  moreover have "post (\<lambda>(st', s'). \<exists>v. st' = v # st \<and> json_typed v) (case r of Inl e \<Rightarrow> Inl e | Inr a \<Rightarrow> F a)"
  proof (intro post_bind)
    fix a assume a: "r = Inr a"
    with assms(1) have "reach s1 (f a)" "inside s1 \<Longrightarrow> inside (f a)" by (simp_all add: fwd_def)
    with assms(2-4) a show "post (\<lambda>(st', s'). \<exists>v. st' = v # st \<and> json_typed v) (F a)"
      by (auto simp: builds_def intro: reach_trans)
  qed
  ultimately show ?thesis by (simp add: builds_def)
qed

lemma builds_Peek:
  "(\<And>c cs. unread s = c # cs \<Longrightarrow> builds st s (F c)) \<Longrightarrow>
     builds st s (case Peek s of Inl e \<Rightarrow> Inl e | Inr c \<Rightarrow> F c)"
  using fwd_Peek [of s snd F] by (auto simp: builds_def post_def Peek_def split: list.splits)

lemma builds_literal:
  assumes "unread s = x # cs" and "x \<noteq> CHR 0x00" and "CHR 0x00 \<notin> set xs"
    and "Document_handler ev st = Inr (Some (v # st))" and "json_typed v"
  shows "builds st s (ParseLiteral x xs ev Document_handler st s)"
  unfolding ParseLiteral_def
proof (rule builds_bind [OF fwd_Expect [OF assms(1,2)]])
  fix s1 assume s1: "reach s (id s1)" "inside s \<Longrightarrow> inside (id s1)"
  show "builds st s (case Take_all xs s1 of Inl e \<Rightarrow> Inl e
      | Inr (True, s2) \<Rightarrow> map_sum id (\<lambda>st'. (st', s2)) (emit Document_handler ev st s2)
      | Inr (False, s2) \<Rightarrow> Inl (ParseError kParseErrorValueInvalid (Tell s2 - 1)))"
  proof (cases "Take_all xs s1")
    case (Inl e)
    with Take_all_result [OF assms(3), of s1] s1 show ?thesis
      by (auto simp: builds_def fwd_def post_def)
  next
    case (Inr p)
    then obtain b s2 where p: "p = (b, s2)" by (cases p)
    have r: "reach s1 s2" "b \<Longrightarrow> inside s1 \<Longrightarrow> inside s2"
      using Take_all_result [OF assms(3), of s1] by (simp_all add: Inr p)
    show ?thesis
      using r s1 assms(4,5)
      by (cases b) (auto simp: Inr p emit_push intro!: builds_Inr builds_error intro: reach_trans)
  qed
qed simp_all

lemma ParseString_Document:
  "ParseString isKey Document_handler st s = map_sum id (\<lambda>(str, s'). (JString str # st, s')) (ParseStringToStream s)"
  unfolding ParseString_def by (cases "ParseStringToStream s") (auto simp: emit_push)

lemma fwd_ParseString:
  "unread s = CHR 0x22 # cs \<Longrightarrow> fwd snd s (ParseString isKey Document_handler st s)"
  unfolding ParseString_Document by (intro fwd_map_pair fwd_ParseStringToStream)

lemma builds_string: "unread s = CHR 0x22 # cs \<Longrightarrow> builds st s (ParseString isKey Document_handler st s)"
  using fwd_ParseString [of s cs isKey st]
  by (auto simp: builds_def ParseString_Document post_def)

lemma number_push:
  "number_sax ev \<Longrightarrow> \<exists>v. Document_handler ev st = Inr (Some (v # st)) \<and> json_typed v"
proof (cases ev)
  case (SInt i)
  then show ?thesis using sint_ge [of i] sint_lt [of i] by simp
next
  case (SInt64 i)
  then show ?thesis using sint_ge [of i] sint_lt [of i] by simp
next
  case (SUint i)
  then show ?thesis using uint_lt2p [of i] order_trans [OF _ uint_ge_0 [of i], of "- (2 ^ 63)"] by simp
next
  case (SUint64 i)
  then show ?thesis using uint_lt2p [of i] order_trans [OF _ uint_ge_0 [of i], of "- (2 ^ 63)"] by simp
qed simp_all

lemma builds_number: "builds st s (ParseNumber Document_handler st s)"
  unfolding ParseNumber_def
proof (rule builds_bind [OF fwd_ScanNumber])
  fix a assume a: "ScanNumber s = Inr a" and r: "reach s (third a)" "inside s \<Longrightarrow> inside (third a)"
  obtain n x s' where n: "a = (n, x, s')" by (cases a)
  have "scan_ok (n, x, s')" using postD [OF a scan_ok_number] n by simp
  from number_event_ok [OF this] r
  show "builds st s (case a of (n, x, s') \<Rightarrow> case number_event n x of Inl f \<Rightarrow> Inl (Fault f)
      | Inr ev \<Rightarrow> map_sum id (\<lambda>st'. (st', s')) (emit Document_handler ev st s'))"
    by (cases "number_event n x")
       (auto simp: n builds_def fwd_def post_def dest!: number_push [of _ st] simp: emit_push)
qed simp_all

section \<open>Objects and arrays\<close>

lemma fwd_skip: "fwd snd s (map_sum id (Pair st) (SkipWhitespace s))"
  by (intro fwd_map_Pair fwd_SkipWhitespace)

lemma fwd_head:
  "unread s = CHR 0x7B # cs \<Longrightarrow> fwd snd s (ObjectHead Document_handler st s)"
  "unread s = CHR 0x5B # cs \<Longrightarrow> fwd snd s (ArrayHead Document_handler st s)"
  unfolding ObjectHead_def ArrayHead_def
  by (auto simp: emit_push intro!: fwd_bind [OF fwd_Expect] fwd_tail [OF fwd_skip])

lemma head_state:
  "ObjectHead Document_handler st s = Inr (st1, s1) \<Longrightarrow> st1 = JObject [] # st"
  "ArrayHead Document_handler st s = Inr (st1, s1) \<Longrightarrow> st1 = JArray [] # st"
  by (auto simp: ObjectHead_def ArrayHead_def emit_push split: sum.splits)

lemma builds_Finish:
  assumes "unread s = c # cs" and "c \<noteq> CHR 0x00"
    and "Document_handler ev st1 = Inr (Some (v # st))" and "json_typed v"
  shows "builds st s (Finish Document_handler ev st1 s)"
proof -
  obtain s1 where t: "Take s = Inr (c, s1)" using assms(1) by (simp add: Take_def)
  then show ?thesis
    using assms(2-4) by (auto simp: Finish_def emit_push intro!: builds_Inr reach_Take intro: inside_Take)
qed

lemma fwd_after:
  assumes "x \<noteq> CHR 0x00" and "err \<noteq> kParseErrorNone"
  shows "fwd snd s (case Take s of Inl e \<Rightarrow> Inl e
      | Inr (c, s1) \<Rightarrow> if c \<noteq> x then Inl (ParseError err (Tell s1)) else map_sum id (Pair st) (SkipWhitespace s1))"
proof (rule fwd_Take)
  fix c s1 assume t: "Take s = Inr (c, s1)"
  show "fwd snd s (case (c, s1) of (c, s1) \<Rightarrow>
      if c \<noteq> x then Inl (ParseError err (Tell s1)) else map_sum id (Pair st) (SkipWhitespace s1))"
    using assms fwd_error_back [OF reach_Take [OF t], where g = snd and c = err and k = 0]
    by (auto intro: fwd_advance [OF t] fwd_skip)
qed

lemma fwd_MemberName: "fwd snd s (MemberName Document_handler st s)"
  unfolding MemberName_def
  by (rule fwd_Peek, intro fwd_if)
     (auto intro!: fwd_error Tell_le_total fwd_bind [OF fwd_ParseString] fwd_bind [OF fwd_SkipWhitespace]
        fwd_tail [OF fwd_after])

lemma MemberName_state:
  "MemberName Document_handler st s = Inr (st1, s1) \<Longrightarrow> \<exists>k. st1 = JString k # st"
  by (auto simp: MemberName_def ParseString_Document split: sum.splits if_splits)

text \<open>The end of a member or an element: either another round on the same stack, or the value
  is complete.\<close>

lemma fwd_ElementEnd:
  assumes "cl \<noteq> CHR 0x00" and "Document_handler ev st = Inr (Some st')" and "err \<noteq> kParseErrorNone"
  shows "fwd (snd \<circ> snd) s (ElementEnd cl ev err Document_handler st s)"
  unfolding ElementEnd_def
proof (rule fwd_bind [OF fwd_SkipWhitespace])
  fix s1 assume r: "reach s (id s1)" "inside s \<Longrightarrow> inside (id s1)"
  have "fwd (snd \<circ> snd) s1 (case Take s1 of Inl e \<Rightarrow> Inl e
      | Inr (c, s2) \<Rightarrow> if c = CHR '','' then map_sum id (\<lambda>s3. (True, st, s3)) (SkipWhitespace s2)
          else if c = cl then map_sum id (\<lambda>st1. (False, st1, s2)) (emit Document_handler ev st s2)
          else Inl (ParseError err (Tell s2)))"
  proof (rule fwd_Take)
    fix c s2 assume t: "Take s1 = Inr (c, s2)"
    have "fwd (snd \<circ> snd) s2 (map_sum id (\<lambda>s3. (True, st, s3)) (SkipWhitespace s2))"
      unfolding fwd_map using fwd_SkipWhitespace [of s2] by (simp add: comp_def id_def)
    then show "fwd (snd \<circ> snd) s1 (case (c, s2) of (c, s2) \<Rightarrow>
        if c = CHR '','' then map_sum id (\<lambda>s3. (True, st, s3)) (SkipWhitespace s2)
        else if c = cl then map_sum id (\<lambda>st1. (False, st1, s2)) (emit Document_handler ev st s2)
        else Inl (ParseError err (Tell s2)))"
      using assms t fwd_error_back [OF reach_Take [OF t], where g = "snd \<circ> snd" and c = err and k = 0]
      by (auto simp: emit_push intro!: fwd_Inr intro: fwd_advance [OF t] reach_Take inside_Take)
  qed
  with r show "fwd (snd \<circ> snd) s (case Take s1 of Inl e \<Rightarrow> Inl e
      | Inr (c, s2) \<Rightarrow> if c = CHR '','' then map_sum id (\<lambda>s3. (True, st, s3)) (SkipWhitespace s2)
          else if c = cl then map_sum id (\<lambda>st1. (False, st1, s2)) (emit Document_handler ev st s2)
          else Inl (ParseError err (Tell s2)))"
    by (auto intro: fwd_tail)
qed simp_all

lemma ElementEnd_state:
  assumes "ElementEnd cl ev err Document_handler st s = Inr (again, st1, s1)"
    and "Document_handler ev st = Inr (Some st')"
  shows "st1 = (if again then st else st')"
  using assms by (auto simp: ElementEnd_def emit_push split: sum.splits if_splits)

lemma builds_cons:
  "(\<And>v' s'. r = Inr (v' # st, s') \<Longrightarrow> json_typed v' \<Longrightarrow> reach s s' \<Longrightarrow> (inside s \<Longrightarrow> inside s') \<Longrightarrow>
       builds st0 s0 (F (v' # st, s'))) \<Longrightarrow>
   builds st s r \<Longrightarrow> reach s0 s \<Longrightarrow> (inside s0 \<Longrightarrow> inside s) \<Longrightarrow>
   builds st0 s0 (case r of Inl e \<Rightarrow> Inl e | Inr p \<Rightarrow> F p)"
  by (rule builds_bind [of snd s])
     (auto simp: builds_def fwd_def post_def split: sum.splits)

lemma parse_builds:
  "h = Document_handler \<Longrightarrow> builds st s (ParseValue h st s)"
  "h = Document_handler \<Longrightarrow> unread s = CHR 0x7B # cs \<Longrightarrow> builds st s (ParseObject h st s)"
  "h = Document_handler \<Longrightarrow> st = rev (member_values ms) @ JObject [] # st0 \<Longrightarrow> length ms = n \<Longrightarrow>
     json_typed_members ms \<Longrightarrow> builds st0 s (ParseMembers h n st s)"
  "h = Document_handler \<Longrightarrow> unread s = CHR 0x5B # cs \<Longrightarrow> builds st s (ParseArray h st s)"
  "h = Document_handler \<Longrightarrow> st = rev vs @ JArray [] # st0 \<Longrightarrow> length vs = n \<Longrightarrow>
     json_typed_items vs \<Longrightarrow> builds st0 s (ParseElements h n st s)"
proof (induction h st s and h st s and h n st s and h st s and h n st s
    arbitrary: and cs and ms st0 and cs and vs st0
    rule: ParseValue_ParseObject_ParseMembers_ParseArray_ParseElements.induct)
  case (1 h st s)
  have o: "builds st s (ParseObject h st s)" if "unread s = CHR 0x7B # cs" for cs
    by (rule 1(1) [OF _ _ _ _ _ _ 1(3)]) (simp_all add: that Peek_def)
  have a: "builds st s (ParseArray h st s)" if "unread s = CHR 0x5B # cs" for cs
    by (rule 1(2) [OF _ _ _ _ _ _ _ 1(3)]) (simp_all add: that Peek_def)
  show ?case
  proof (subst ParseValue.simps, rule builds_Peek)
    fix c cs assume u: "unread s = c # cs"
    have "c = CHR ''n'' \<Longrightarrow> builds st s (ParseNull h st s)"
      using u unfolding literal_defs 1(3) by (intro builds_literal [where v = "JNull"]) simp_all
    moreover have "c = CHR ''t'' \<Longrightarrow> builds st s (ParseTrue h st s)"
      using u unfolding literal_defs 1(3) by (intro builds_literal [where v = "JBool True"]) simp_all
    moreover have "c = CHR ''f'' \<Longrightarrow> builds st s (ParseFalse h st s)"
      using u unfolding literal_defs 1(3) by (intro builds_literal [where v = "JBool False"]) simp_all
    moreover have "c = CHR 0x22 \<Longrightarrow> builds st s (ParseString False h st s)"
      using u unfolding 1(3) by (intro builds_string) simp_all
    moreover have "builds st s (ParseNumber h st s)"
      unfolding 1(3) by (rule builds_number)
    ultimately show "builds st s (if c = CHR ''n'' then ParseNull h st s
        else if c = CHR ''t'' then ParseTrue h st s else if c = CHR ''f'' then ParseFalse h st s
        else if c = CHR 0x22 then ParseString False h st s
        else if c = CHR 0x7B then ParseObject h st s
        else if c = CHR 0x5B then ParseArray h st s else ParseNumber h st s)"
      using o [of cs] a [of cs] u by presburger
  qed
next
  case (2 h st s)
  show ?case
  proof (subst ParseObject.simps, unfold 2(2), rule builds_bind [OF fwd_head(1) [OF 2(3)]])
    fix p assume p: "ObjectHead Document_handler st s = Inr p"
      and r: "reach s (snd p)" "inside s \<Longrightarrow> inside (snd p)"
    obtain st1 s1 where [simp]: "p = (st1, s1)" by (cases p)
    have st1: "st1 = JObject [] # st" using head_state(1) p by simp
    have "builds st s1 (case Peek s1 of Inl e \<Rightarrow> Inl e | Inr c \<Rightarrow>
        if c = CHR 0x7D then Finish Document_handler (SEndObject 0) st1 s1
        else ParseMembers Document_handler 0 st1 s1)"
    proof (rule builds_Peek)
      fix c cs assume u: "unread s1 = c # cs"
      show "builds st s1 (if c = CHR 0x7D then Finish Document_handler (SEndObject 0) st1 s1
          else ParseMembers Document_handler 0 st1 s1)"
        using builds_Finish [OF u, of "SEndObject 0" st1 "JObject []" st]
          2(1) [of p st1 s1 c "[]" st] u p 2(2) EndObject_members [of "[]" "JObject []" st]
        by (auto simp: st1 Peek_def)
    qed
    with r show "builds st s (case p of (st1, s1) \<Rightarrow> case Peek s1 of Inl e \<Rightarrow> Inl e | Inr c \<Rightarrow>
        if c = CHR 0x7D then Finish Document_handler (SEndObject 0) st1 s1
        else ParseMembers Document_handler 0 st1 s1)"
      by (auto intro: builds_tail)
  qed simp_all
next
  case (3 h n st s)
  show ?case
  proof (subst ParseMembers.simps, unfold 3(3), rule builds_bind [OF fwd_MemberName])
    fix p assume p: "MemberName Document_handler st s = Inr p"
      and r: "reach s (snd p)" "inside s \<Longrightarrow> inside (snd p)"
    obtain st1 s1 where p1: "p = (st1, s1)" by (cases p)
    obtain k where st1: "st1 = JString k # st" using MemberName_state p p1 by blast
    have v: "builds st1 s1 (ParseValue Document_handler st1 s1)"
      using 3(1) [OF p [folded 3(3)] p1 [symmetric] 3(3)] 3(3) by simp
    have "builds st0 s1 (case ParseValue Document_handler st1 s1 of Inl e \<Rightarrow> Inl e
        | Inr (st2, s2) \<Rightarrow> case MemberEnd (Suc n) Document_handler st2 s2 of Inl e \<Rightarrow> Inl e
        | Inr (again, st3, s3) \<Rightarrow>
            if again then ParseMembers Document_handler (Suc n) st3 s3 else Inr (st3, s3))"
    proof (rule builds_cons [OF _ v])
      fix v s2 assume pv: "ParseValue Document_handler st1 s1 = Inr (v # st1, s2)" and tv: "json_typed v"
        and r2: "reach s1 s2" "inside s1 \<Longrightarrow> inside s2"
      have stack: "v # st1 = rev (member_values (ms @ [(k, v)])) @ JObject [] # st0"
        by (simp add: st1 3(4))
      have ev: "Document_handler (SEndObject (Suc n)) (v # st1) = Inr (Some (JObject (ms @ [(k, v)]) # st0))"
        using EndObject_members [of "ms @ [(k, v)]" "JObject []" st0] unfolding stack by (simp add: 3(5))
      have "builds st0 s2 (case MemberEnd (Suc n) Document_handler (v # st1) s2 of Inl e \<Rightarrow> Inl e
          | Inr (again, st3, s3) \<Rightarrow>
              if again then ParseMembers Document_handler (Suc n) st3 s3 else Inr (st3, s3))"
      proof (rule builds_bind [OF fwd_ElementEnd [OF _ ev]])
        fix q assume q: "MemberEnd (Suc n) Document_handler (v # st1) s2 = Inr q"
          and rq: "reach s2 ((snd \<circ> snd) q)" "inside s2 \<Longrightarrow> inside ((snd \<circ> snd) q)"
        obtain again st3 s3 where q1: "q = (again, st3, s3)" by (cases q)
        have st3: "st3 = (if again then v # st1 else JObject (ms @ [(k, v)]) # st0)"
          using ElementEnd_state [OF _ ev] q q1 by simp
        show "builds st0 s2 (case q of (again, st3, s3) \<Rightarrow>
            if again then ParseMembers Document_handler (Suc n) st3 s3 else Inr (st3, s3))"
        proof (cases again)
          case True
          have "builds st0 s3 (ParseMembers h (Suc n) st3 s3)"
          proof (rule 3(2) [OF _ refl _ refl _ refl refl True 3(3)])
            show "MemberName h st s = Inr (st1, s1)" using p p1 3(3) by simp
            show "ParseValue h st1 s1 = Inr (v # st1, s2)" using pv 3(3) by simp
            show "MemberEnd (Suc n) h (v # st1) s2 = Inr (again, st3, s3)" using q q1 3(3) by simp
            show "st3 = rev (member_values (ms @ [(k, v)])) @ JObject [] # st0" using st3 True stack by simp
          qed (use tv 3(5,6) in simp_all)
          with True rq q1 3(3) show ?thesis by (auto intro: builds_tail)
        next
          case False
          with rq q1 st3 tv 3(6) show ?thesis by (auto intro!: builds_Inr)
        qed
      qed simp_all
      with r2 show "builds st0 s1 (case (v # st1, s2) of (st2, s2) \<Rightarrow>
          case MemberEnd (Suc n) Document_handler st2 s2 of Inl e \<Rightarrow> Inl e
          | Inr (again, st3, s3) \<Rightarrow>
              if again then ParseMembers Document_handler (Suc n) st3 s3 else Inr (st3, s3))"
        by (auto intro: builds_tail)
    qed simp_all
    with r p1 show "builds st0 s (case p of (st1, s1) \<Rightarrow>
        case ParseValue Document_handler st1 s1 of Inl e \<Rightarrow> Inl e
        | Inr (st2, s2) \<Rightarrow> case MemberEnd (Suc n) Document_handler st2 s2 of Inl e \<Rightarrow> Inl e
        | Inr (again, st3, s3) \<Rightarrow>
            if again then ParseMembers Document_handler (Suc n) st3 s3 else Inr (st3, s3))"
      by (auto intro: builds_tail)
  qed simp_all
next
  case (4 h st s)
  show ?case
  proof (subst ParseArray.simps, unfold 4(2), rule builds_bind [OF fwd_head(2) [OF 4(3)]])
    fix p assume p: "ArrayHead Document_handler st s = Inr p"
      and r: "reach s (snd p)" "inside s \<Longrightarrow> inside (snd p)"
    obtain st1 s1 where [simp]: "p = (st1, s1)" by (cases p)
    have st1: "st1 = JArray [] # st" using head_state(2) p by simp
    have "builds st s1 (case Peek s1 of Inl e \<Rightarrow> Inl e | Inr c \<Rightarrow>
        if c = CHR 0x5D then Finish Document_handler (SEndArray 0) st1 s1
        else ParseElements Document_handler 0 st1 s1)"
    proof (rule builds_Peek)
      fix c cs assume u: "unread s1 = c # cs"
      show "builds st s1 (if c = CHR 0x5D then Finish Document_handler (SEndArray 0) st1 s1
          else ParseElements Document_handler 0 st1 s1)"
        using builds_Finish [OF u, of "SEndArray 0" st1 "JArray []" st]
          4(1) [of p st1 s1 c "[]" st] u p 4(2) EndArray_items [of "[]" "JArray []" st]
        by (auto simp: st1 Peek_def)
    qed
    with r show "builds st s (case p of (st1, s1) \<Rightarrow> case Peek s1 of Inl e \<Rightarrow> Inl e | Inr c \<Rightarrow>
        if c = CHR 0x5D then Finish Document_handler (SEndArray 0) st1 s1
        else ParseElements Document_handler 0 st1 s1)"
      by (auto intro: builds_tail)
  qed simp_all
next
  case (5 h n st s)
  have v: "builds st s (ParseValue Document_handler st s)"
    using 5(1) [OF 5(3)] 5(3) by simp
  show ?case
  proof (subst ParseElements.simps, unfold 5(3), rule builds_cons [OF _ v])
    fix v s2 assume pv: "ParseValue Document_handler st s = Inr (v # st, s2)" and tv: "json_typed v"
      and r2: "reach s s2" "inside s \<Longrightarrow> inside s2"
    have stack: "v # st = rev (vs @ [v]) @ JArray [] # st0"
      by (simp add: 5(4))
    have ev: "Document_handler (SEndArray (Suc n)) (v # st) = Inr (Some (JArray (vs @ [v]) # st0))"
      using EndArray_items [of "vs @ [v]" "JArray []" st0] unfolding stack by (simp add: 5(5))
    have "builds st0 s2 (case ItemEnd (Suc n) Document_handler (v # st) s2 of Inl e \<Rightarrow> Inl e
        | Inr (again, st3, s3) \<Rightarrow>
            if again then ParseElements Document_handler (Suc n) st3 s3 else Inr (st3, s3))"
    proof (rule builds_bind [OF fwd_ElementEnd [OF _ ev]])
      fix q assume q: "ItemEnd (Suc n) Document_handler (v # st) s2 = Inr q"
        and rq: "reach s2 ((snd \<circ> snd) q)" "inside s2 \<Longrightarrow> inside ((snd \<circ> snd) q)"
      obtain again st3 s3 where q1: "q = (again, st3, s3)" by (cases q)
      have st3: "st3 = (if again then v # st else JArray (vs @ [v]) # st0)"
        using ElementEnd_state [OF _ ev] q q1 by simp
      show "builds st0 s2 (case q of (again, st3, s3) \<Rightarrow>
          if again then ParseElements Document_handler (Suc n) st3 s3 else Inr (st3, s3))"
      proof (cases again)
        case True
        have "builds st0 s3 (ParseElements h (Suc n) st3 s3)"
        proof (rule 5(2) [OF _ refl _ refl refl True 5(3)])
          show "ParseValue h st s = Inr (v # st, s2)" using pv 5(3) by simp
          show "ItemEnd (Suc n) h (v # st) s2 = Inr (again, st3, s3)" using q q1 5(3) by simp
          show "st3 = rev (vs @ [v]) @ JArray [] # st0" using st3 True stack by simp
        qed (use tv 5(5,6) in simp_all)
        with True rq q1 5(3) show ?thesis by (auto intro: builds_tail)
      next
        case False
        with rq q1 st3 tv 5(6) show ?thesis by (auto intro!: builds_Inr)
      qed
    qed simp_all
    with r2 show "builds st0 s (case (v # st, s2) of (st2, s2) \<Rightarrow>
        case ItemEnd (Suc n) Document_handler st2 s2 of Inl e \<Rightarrow> Inl e
        | Inr (again, st3, s3) \<Rightarrow>
            if again then ParseElements Document_handler (Suc n) st3 s3 else Inr (st3, s3))"
      by (auto intro: builds_tail)
  qed simp_all
qed

section \<open>The document\<close>

lemma builds_Reader_Parse:
  "builds [] s (Reader_Parse Document_handler [] s)"
  unfolding Reader_Parse_def
proof (rule builds_bind [OF fwd_SkipWhitespace])
  fix s1 assume r: "reach s (id s1)" "inside s \<Longrightarrow> inside (id s1)"
  have "builds [] s1 (case Peek s1 of Inl e \<Rightarrow> Inl e | Inr c \<Rightarrow>
      if c = CHR 0x00 then Inl (ParseError kParseErrorDocumentEmpty (Tell s1))
      else case ParseValue Document_handler [] s1 of Inl e \<Rightarrow> Inl e
      | Inr (st1, s2) \<Rightarrow> case SkipWhitespace s2 of Inl e \<Rightarrow> Inl e
      | Inr s3 \<Rightarrow> case Peek s3 of Inl e \<Rightarrow> Inl e
      | Inr c \<Rightarrow> if c \<noteq> CHR 0x00 then Inl (ParseError kParseErrorDocumentRootNotSingular (Tell s3))
               else Inr (st1, s3))"
  proof (rule builds_Peek)
    fix c cs
    have "builds [] s1 (case ParseValue Document_handler [] s1 of Inl e \<Rightarrow> Inl e
      | Inr (st1, s2) \<Rightarrow> case SkipWhitespace s2 of Inl e \<Rightarrow> Inl e
      | Inr s3 \<Rightarrow> case Peek s3 of Inl e \<Rightarrow> Inl e
      | Inr c \<Rightarrow> if c \<noteq> CHR 0x00 then Inl (ParseError kParseErrorDocumentRootNotSingular (Tell s3))
               else Inr (st1, s3))"
    proof (rule builds_cons [OF _ parse_builds(1) [OF refl]])
      fix v s2 assume v: "json_typed v" and r2: "reach s1 s2" "inside s1 \<Longrightarrow> inside s2"
      have "builds [] s2 (case SkipWhitespace s2 of Inl e \<Rightarrow> Inl e
        | Inr s3 \<Rightarrow> case Peek s3 of Inl e \<Rightarrow> Inl e
        | Inr c \<Rightarrow> if c \<noteq> CHR 0x00 then Inl (ParseError kParseErrorDocumentRootNotSingular (Tell s3))
                 else Inr ([v], s3))"
      proof (rule builds_bind [OF fwd_SkipWhitespace])
        fix s3 assume r3: "reach s2 (id s3)" "inside s2 \<Longrightarrow> inside (id s3)"
        have "builds [] s3 (case Peek s3 of Inl e \<Rightarrow> Inl e
          | Inr c \<Rightarrow> if c \<noteq> CHR 0x00 then Inl (ParseError kParseErrorDocumentRootNotSingular (Tell s3))
                   else Inr ([v], s3))"
          using builds_error [of s3 s3 kParseErrorDocumentRootNotSingular "[]" 0]
          by (intro builds_Peek) (auto intro: builds_Inr v)
        with r3 show "builds [] s2 (case Peek s3 of Inl e \<Rightarrow> Inl e
          | Inr c \<Rightarrow> if c \<noteq> CHR 0x00 then Inl (ParseError kParseErrorDocumentRootNotSingular (Tell s3))
                   else Inr ([v], s3))"
          by (auto intro: builds_tail)
      qed simp_all
      with r2 show "builds [] s1 (case ([v], s2) of (st1, s2) \<Rightarrow> case SkipWhitespace s2 of Inl e \<Rightarrow> Inl e
        | Inr s3 \<Rightarrow> case Peek s3 of Inl e \<Rightarrow> Inl e
        | Inr c \<Rightarrow> if c \<noteq> CHR 0x00 then Inl (ParseError kParseErrorDocumentRootNotSingular (Tell s3))
                 else Inr (st1, s3))"
        by (auto intro: builds_tail)
    qed simp_all
    then show "builds [] s1 (if c = CHR 0x00 then Inl (ParseError kParseErrorDocumentEmpty (Tell s1))
      else case ParseValue Document_handler [] s1 of Inl e \<Rightarrow> Inl e
      | Inr (st1, s2) \<Rightarrow> case SkipWhitespace s2 of Inl e \<Rightarrow> Inl e
      | Inr s3 \<Rightarrow> case Peek s3 of Inl e \<Rightarrow> Inl e
      | Inr c \<Rightarrow> if c \<noteq> CHR 0x00 then Inl (ParseError kParseErrorDocumentRootNotSingular (Tell s3))
               else Inr (st1, s3))"
      using builds_error [of s1 s1 kParseErrorDocumentEmpty "[]" 0] by simp
  qed
  with r show "builds [] s (case Peek s1 of Inl e \<Rightarrow> Inl e | Inr c \<Rightarrow>
      if c = CHR 0x00 then Inl (ParseError kParseErrorDocumentEmpty (Tell s1))
      else case ParseValue Document_handler [] s1 of Inl e \<Rightarrow> Inl e
      | Inr (st1, s2) \<Rightarrow> case SkipWhitespace s2 of Inl e \<Rightarrow> Inl e
      | Inr s3 \<Rightarrow> case Peek s3 of Inl e \<Rightarrow> Inl e
      | Inr c \<Rightarrow> if c \<noteq> CHR 0x00 then Inl (ParseError kParseErrorDocumentRootNotSingular (Tell s3))
               else Inr (st1, s3))"
    by (auto intro: builds_tail)
qed simp_all

lemma inside_new: "inside (StringStream_new (c_str t))"
proof -
  have "CHR 0x00 \<notin> set (c_str t)" by (auto simp: c_str_def dest: set_takeWhileD)
  then show ?thesis by (auto simp: inside_def StringStream_new_def)
qed

lemma total_new: "total (StringStream_new t) = length t + 1"
  by (simp add: total_def StringStream_new_def)

text \<open>What a parse gives, for any text: one typed value, or an error at a position of the text
  that leaves the document as it was, or the overflow of an exponent.\<close>

lemma Document_Parse_cases:
  obtains (overflow) "Document_Parse doc t = Inl SignedOverflow"
  | (error) code off where "Document_Parse doc t = Inr (doc, code, off)" "code \<noteq> kParseErrorNone"
      "off \<le> length (c_str t) + 1"
  | (parsed) v where "Document_Parse doc t = Inr (v, kParseErrorNone, 0)" "json_typed v"
proof -
  define s where "s = StringStream_new (c_str t)"
  have b: "builds [] s (Reader_Parse Document_handler [] s)" by (rule builds_Reader_Parse)
  have i: "inside s" "total s = length (c_str t) + 1"
    by (simp_all only: s_def inside_new total_new)
  show thesis
  proof (cases "Reader_Parse Document_handler [] s")
    case (Inl e)
    with b i show ?thesis
      using overflow error
      by (cases e) (auto simp: builds_def fwd_def Document_Parse_def Document_ParseStream_def s_def)
  next
    case (Inr p)
    with b i show ?thesis
      using parsed
      by (cases p) (auto simp: builds_def post_def Document_Parse_def Document_ParseStream_def s_def)
  qed
qed

end
