(* ===== verification/JsonRoundtrip.thy ===== *)
theory JsonRoundtrip
  imports JsonWriterFacts JsonDocumentFacts
begin

text \<open>
  The writer and the reader are inverse: the text of a value without \<open>double\<close>s, with strings
  of arbitrary bytes and integers up to the 64-bit limits, is read back as that value.
\<close>

section \<open>The stream\<close>

abbreviation stream :: "string \<Rightarrow> nat \<Rightarrow> StringStream" where
  "stream t k \<equiv> \<lparr>unread = t, Tell = k\<rparr>"

lemma Peek_at [simp]: "Peek (stream (c # cs) k) = Inr c"
  by (simp add: Peek_def)

lemma Take_at [simp]: "Take (stream (c # cs) k) = Inr (c, stream cs (Suc k))"
  by (simp add: Take_def)

lemma Expect_at [simp]: "Expect c (stream (c # cs) k) = Inr (stream cs (Suc k))"
  by (simp add: Expect_def)

lemma SkipWhitespace_at [simp]: "\<not> is_white c \<Longrightarrow> SkipWhitespace (stream (c # cs) k) = Inr (stream (c # cs) k)"
  by (subst SkipWhitespace.simps) simp

lemma Take_all_at [simp]: "Take_all xs (stream (xs @ cs) k) = Inr (True, stream cs (k + length xs))"
  by (induction xs arbitrary: k) simp_all

section \<open>Strings\<close>

lemma unsigned_of_char_of:
  assumes "k < 256"
  shows "unat (unsigned_of_char (char_of k)) = (if k < 128 then k else 2 ^ 32 - 256 + k)"
proof -
  have "sint (word_of_nat k :: u8) = (if k < 128 then int k else int k - 256)"
  proof -
    have "(int k + 128) mod 256 = (if k < 128 then int k + 128 else int k - 128)"
      using assms mod_add_self2 [of "int k - 128" 256] by (cases "k < 128") (simp_all add: add.commute)
    then show ?thesis using int_word_sint [where 'a = 8, of "int k"] by simp
  qed
  moreover have "unsigned_of_char (char_of k) = word_of_int (sint (word_of_nat k :: u8))"
    using assms by (simp add: unsigned_of_char_def)
  ultimately have "unat (unsigned_of_char (char_of k)) =
      nat ((if k < 128 then int k else int k - 256) mod 2 ^ 32)"
    by (simp add: unat_eq_nat_uint uint_word_of_int del: of_int_diff)
  then show ?thesis
    using assms mod_add_self2 [of "int k - 256" "2 ^ 32"] by (cases "k < 128") (simp_all add: add.commute)
qed

lemma unsigned_control:
  fixes k :: nat
  shows "k < 256 \<Longrightarrow> unsigned_of_char (char_of k) < 0x20 \<longleftrightarrow> k < 32"
  by (simp add: word_less_nat_alt unsigned_of_char_of)

lemma hexDigits:
  "d < 16 \<Longrightarrow> if d < 10 then in_chars CHR ''0'' CHR ''9'' (hexDigit d) \<and> unsigned_of_char (hexDigit d) = word_of_nat d + 48
     else \<not> in_chars CHR ''0'' CHR ''9'' (hexDigit d) \<and> in_chars CHR ''A'' CHR ''F'' (hexDigit d) \<and>
       unsigned_of_char (hexDigit d) = word_of_nat d + (65 - 10)"
proof -
  have "\<forall>d\<in>set [0..<16]. if d < 10 then in_chars CHR ''0'' CHR ''9'' (hexDigit d) \<and> unsigned_of_char (hexDigit d) = word_of_nat d + 48
     else \<not> in_chars CHR ''0'' CHR ''9'' (hexDigit d) \<and> in_chars CHR ''A'' CHR ''F'' (hexDigit d) \<and>
       unsigned_of_char (hexDigit d) = word_of_nat d + (65 - 10)"
    by code_simp
  then show "d < 16 \<Longrightarrow> ?thesis" by simp
qed

lemma Hex4_loop_at:
  "d < 16 \<Longrightarrow>
     Hex4_loop (Suc n) cp (stream (hexDigit d # t) k) = Hex4_loop n (push_bit 4 cp + word_of_nat d) (stream t (Suc k))"
  using hexDigits [of d] by (simp add: Let_def split: if_splits)

lemma hexDigit_0: "CHR ''0'' = hexDigit 0"
  by (simp add: hexDigit_def)

lemma ParseHex4_at:
  assumes "a < 16" and "b < 16"
  shows "ParseHex4 (stream (CHR ''0'' # CHR ''0'' # hexDigit a # hexDigit b # t) k) =
    Inr (push_bit 4 (word_of_nat a) + word_of_nat b, stream t (k + 4))"
proof -
  have "ParseHex4 (stream (CHR ''0'' # CHR ''0'' # hexDigit a # hexDigit b # t) k) =
      Hex4_loop (Suc (Suc (Suc (Suc 0)))) 0 (stream (hexDigit 0 # hexDigit 0 # hexDigit a # hexDigit b # t) k)"
    by (simp add: ParseHex4_def hexDigit_0 numeral_eq_Suc del: Hex4_loop.simps)
  also have "\<dots> = Inr (push_bit 4 (word_of_nat a) + word_of_nat b, stream t (k + 4))"
    using assms by (simp add: Hex4_loop_at del: Hex4_loop.simps(2))
  finally show ?thesis .
qed

lemma control_code_point:
  "c < 32 \<Longrightarrow>
     (let cp = push_bit 4 (word_of_nat (c div 16)) + word_of_nat (c mod 16)
      in \<not> (0xD800 \<le> cp \<and> cp \<le> 0xDBFF) \<and> UTF8_Encode cp = Inr [char_of c])"
proof -
  have "\<forall>c\<in>set [0..<32]. let cp = push_bit 4 (word_of_nat (c div 16)) + word_of_nat (c mod 16)
      in \<not> (0xD800 \<le> cp \<and> cp \<le> 0xDBFF) \<and> UTF8_Encode cp = Inr [char_of c]"
    by code_simp
  then show "c < 32 \<Longrightarrow> ?thesis" by simp
qed

text \<open>The text of one character is read back as that character.\<close>

lemma String_loop_plain:
  assumes "of_char c = (k :: nat)" and "32 \<le> k" and "c \<noteq> CHR 0x22" and "c \<noteq> CHR 0x5C"
  shows "String_loop os (stream (c # t) n) = String_loop (os @ [c]) (stream t (Suc n))"
proof -
  have k: "k < 256" "c = char_of k" using assms(1) nat_of_char_less_256 [of c] by auto
  have "c \<noteq> CHR 0x00" using assms(1,2) by auto
  moreover have "\<not> unsigned_of_char c < 0x20"
    using assms(2) k unsigned_control [of k] by simp
  ultimately have "c \<noteq> CHR 0x00" "\<not> unsigned_of_char c < 0x20" by simp_all
  with assms(3,4) show ?thesis by (subst String_loop.simps) simp
qed

lemma String_loop_escape:
  assumes "reader_escape e = Some c"
  shows "String_loop os (stream (CHR 0x5C # e # t) n) = String_loop (os @ [c]) (stream t (n + 2))"
  using assms by (subst String_loop.simps) (simp add: ParseEscape_def)

lemma String_loop_control:
  assumes "k < 32"
  shows "String_loop os (stream ([CHR 0x5C, CHR ''u'', CHR ''0'', CHR ''0'', hexDigit (k div 16), hexDigit (k mod 16)] @ t) n) =
    String_loop (os @ [char_of k]) (stream t (n + 6))"
proof -
  have "reader_escape CHR ''u'' = None" by (simp add: reader_escape_def)
  moreover have "k div 16 < 16" "k mod 16 < 16" using assms by simp_all
  ultimately show ?thesis
    using control_code_point [OF assms]
    by (subst String_loop.simps)
      (auto simp: ParseEscape_def ParseUnicode_def ParseHex4_at Let_def add.commute [of 6])
qed

lemma String_loop_char:
  "String_loop os (stream (write_char c @ t) n) =
     String_loop (os @ [c]) (stream t (n + length (write_char c)))"
proof -
  define k :: nat where "k = of_char c"
  then have k: "of_char c = k" "k < 256" "c = char_of k"
    by simp_all
  have special: "c = x" if "k = of_char x" for x
    using that k(1) by simp
  consider "c \<in> set [CHR 0x08, CHR 0x09, CHR 0x0A, CHR 0x0C, CHR 0x0D, CHR 0x22, CHR 0x5C]"
    | "k < 32" "k \<notin> {8, 9, 10, 12, 13}" | "32 \<le> k" "c \<noteq> CHR 0x22" "c \<noteq> CHR 0x5C"
    using special [of "CHR 0x08"] special [of "CHR 0x09"] special [of "CHR 0x0A"]
      special [of "CHR 0x0C"] special [of "CHR 0x0D"]
    by (cases "k < 32") auto
  then show ?thesis
  proof cases
    case 1
    then show ?thesis
      by (auto simp: write_char_def writer_escape_def reader_escape_def String_loop_escape)
  next
    case 2
    then have "writer_escape c = Some CHR ''u''"
      by (simp add: writer_escape_def k(1))
    moreover have six: "n + 6 = Suc (Suc (Suc (Suc (Suc (Suc n)))))" by simp
    ultimately show ?thesis
      using String_loop_control [OF 2(1), of os t n] by (simp add: write_char_def k six)
  next
    case 3
    then have "writer_escape c = None" by (simp add: writer_escape_def k(1))
    then show ?thesis using String_loop_plain [OF k(1)] 3 by (simp add: write_char_def)
  qed
qed

lemma String_loop_text:
  "String_loop os (stream (concat (map write_char str) @ CHR 0x22 # t) n) =
     Inr (os @ str, stream t (n + length (concat (map write_char str)) + 1))"
proof (induction str arbitrary: os n)
  case Nil
  show ?case by (subst String_loop.simps) simp
next
  case (Cons c str)
  show ?case
    using String_loop_char [of os c "concat (map write_char str) @ CHR 0x22 # t" n]
      Cons [of "os @ [c]" "n + length (write_char c)"]
    by (simp add: add.assoc)
qed

lemma ParseString_text:
  "ParseString isKey Document_handler st (stream (string_text str @ t) n) =
     Inr (JString str # st, stream t (n + length (string_text str)))"
  by (simp add: ParseString_Document ParseStringToStream_def string_text_def String_loop_text)

section \<open>Numbers\<close>

lemma digits_value_Cons: "digits_value (c # ds) = digit_of c * 10 ^ length ds + digits_value ds"
proof (induction ds rule: rev_induct)
  case (snoc d ds)
  then show ?case
    using digits_value_snoc [of "c # ds" d] by (simp add: digits_value_snoc algebra_simps)
qed (simp add: digits_value_def digit_of_def)

lemma digit_of_less: "is_digit c \<Longrightarrow> digit_of c < 10"
  by (auto simp: is_digit_def digit_of_def)

text \<open>The largest number the loop takes in, \<open>10 * lim + lastd\<close>, fits the word.\<close>

lemma digit_loop_step:
  fixes i lim :: "'a :: len word"
  assumes "is_digit c" and "unat i * 10 + digit_of c \<le> unat lim * 10 + lastd"
    and "unat lim * 10 + lastd < 2 ^ LENGTH('a)" and "lastd \<le> 9"
  shows "digit_loop lim lastd i sig (stream (c # t) n) =
      digit_loop lim lastd (i * 10 + word_of_nat (digit_of c)) (sig + 1) (stream t (Suc n))"
    and "unat (i * 10 + word_of_nat (digit_of c)) = unat i * 10 + digit_of c"
proof -
  have "\<not> (lim \<le> i \<and> (i \<noteq> lim \<or> lastd < digit_of c))"
  proof
    assume "lim \<le> i \<and> (i \<noteq> lim \<or> lastd < digit_of c)"
    then consider "unat lim < unat i" | "i = lim" "lastd < digit_of c"
      by (metis le_neq_trans word_less_nat_alt word_le_nat_alt)
    then show False using assms(2,4) by cases auto
  qed
  then show "digit_loop lim lastd i sig (stream (c # t) n) =
      digit_loop lim lastd (i * 10 + word_of_nat (digit_of c)) (sig + 1) (stream t (Suc n))"
    using assms(1) by (subst digit_loop.simps) auto
  have "i * 10 + word_of_nat (digit_of c) = word_of_nat (unat i * 10 + digit_of c)"
    by simp
  then show "unat (i * 10 + word_of_nat (digit_of c)) = unat i * 10 + digit_of c"
    using assms(2,3) by (simp only: unat_of_nat) simp
qed

lemma digit_loop_all:
  fixes i lim :: "'a :: len word"
  assumes "\<forall>c\<in>set ds. is_digit c" and "\<not> is_digit r"
    and "unat i * 10 ^ length ds + digits_value ds \<le> unat lim * 10 + lastd"
    and "unat lim * 10 + lastd < 2 ^ LENGTH('a)" and "lastd \<le> 9"
  shows "digit_loop lim lastd i sig (stream (ds @ r # t) n) =
    Inr (word_of_nat (unat i * 10 ^ length ds + digits_value ds), sig + int (length ds), False,
         stream (r # t) (n + length ds))"
  using assms
proof (induction ds arbitrary: i sig n)
  case Nil
  then show ?case by (subst digit_loop.simps) (simp add: digits_value_def)
next
  case (Cons c ds)
  let ?i = "i * 10 + word_of_nat (digit_of c)"
  have v: "(unat i * 10 + digit_of c) * 10 ^ length ds + digits_value ds =
      unat i * 10 ^ length (c # ds) + digits_value (c # ds)"
    by (simp add: digits_value_Cons algebra_simps)
  have "(unat i * 10 + digit_of c) * 1 \<le> (unat i * 10 + digit_of c) * 10 ^ length ds"
    by (intro mult_le_mono) simp_all
  then have "unat i * 10 + digit_of c \<le> (unat i * 10 + digit_of c) * 10 ^ length ds + digits_value ds"
    by (simp only: mult_1_right trans_le_add1)
  with v Cons.prems(3) have le: "unat i * 10 + digit_of c \<le> unat lim * 10 + lastd"
    by (metis order_trans)
  from Cons.prems(1) have c: "is_digit c" by simp
  note step = digit_loop_step [OF c le Cons.prems(4,5)]
  have v': "unat ?i * 10 ^ length ds + digits_value ds = unat i * 10 ^ length (c # ds) + digits_value (c # ds)"
    by (simp only: step(2) v)
  have "digit_loop lim lastd ?i (sig + 1) (stream (ds @ r # t) (Suc n)) =
      Inr (word_of_nat (unat ?i * 10 ^ length ds + digits_value ds), sig + 1 + int (length ds), False,
         stream (r # t) (Suc n + length ds))"
    using Cons.prems v' by (intro Cons.IH) simp_all
  then have "digit_loop lim lastd ?i (sig + 1) (stream (ds @ r # t) (Suc n)) =
      Inr (word_of_nat (unat i * 10 ^ length (c # ds) + digits_value (c # ds)),
         sig + int (length (c # ds)), False, stream (r # t) (n + length (c # ds)))"
    by (simp only: v') simp
  then show ?case by (simp only: append_Cons step(1))
qed

lemma digit_loop_more:
  fixes i lim :: "'a :: len word"
  assumes "\<forall>c\<in>set ds. is_digit c" and "unat i \<le> unat lim * 10 + lastd"
    and "unat lim * 10 + lastd < unat i * 10 ^ length ds + digits_value ds"
    and "unat lim * 10 + lastd < 2 ^ LENGTH('a)" and "lastd \<le> 9"
  shows "\<exists>d1 d2 i'. ds = d1 @ d2 \<and>
    digit_loop lim lastd i sig (stream (ds @ t) n) =
      Inr (i', sig + int (length d1), True, stream (d2 @ t) (n + length d1)) \<and>
    unat i' = unat i * 10 ^ length d1 + digits_value d1"
  using assms
proof (induction ds arbitrary: i sig n)
  case Nil
  then show ?case by (simp add: digits_value_def)
next
  case (Cons c ds)
  from Cons.prems(1) have c: "is_digit c" by simp
  show ?case
  proof (cases "lim \<le> i \<and> (i \<noteq> lim \<or> lastd < digit_of c)")
    case True
    then have "digit_loop lim lastd i sig (stream ((c # ds) @ t) n) = Inr (i, sig, True, stream ((c # ds) @ t) n)"
      using c by (subst digit_loop.simps) simp
    then show ?thesis by (intro exI [of _ "[]"] exI [of _ "c # ds"] exI [of _ i]) (simp add: digits_value_def)
  next
    case False
    let ?i = "i * 10 + word_of_nat (digit_of c)"
    have "unat i < unat lim \<or> (i = lim \<and> digit_of c \<le> lastd)"
      using False by (auto simp: word_le_nat_alt)
    then have le: "unat i * 10 + digit_of c \<le> unat lim * 10 + lastd"
      using digit_of_less [OF c] by auto
    note step = digit_loop_step [OF c le Cons.prems(4,5)]
    have v: "unat ?i * 10 ^ length ds + digits_value ds = unat i * 10 ^ length (c # ds) + digits_value (c # ds)"
      by (simp only: step(2)) (simp add: digits_value_Cons algebra_simps)
    obtain d1 d2 i' where "ds = d1 @ d2" 
      "digit_loop lim lastd ?i (sig + 1) (stream (ds @ t) (Suc n)) =
         Inr (i', sig + 1 + int (length d1), True, stream (d2 @ t) (Suc n + length d1))"
      "unat i' = unat ?i * 10 ^ length d1 + digits_value d1"
      using Cons.IH [of ?i "sig + 1" "Suc n"] Cons.prems v le step(2) by auto
    moreover from this have "unat i' = unat i * 10 ^ length (c # d1) + digits_value (c # d1)"
      by (simp only: step(2)) (simp add: digits_value_Cons algebra_simps)
    ultimately have "c # ds = (c # d1) @ d2 \<and>
        digit_loop lim lastd i sig (stream ((c # ds) @ t) n) =
          Inr (i', sig + int (length (c # d1)), True, stream (d2 @ t) (n + length (c # d1))) \<and>
        unat i' = unat i * 10 ^ length (c # d1) + digits_value (c # d1)"
      by (simp add: step(1))
    then show ?thesis by blast
  qed
qed

lemma digits_zero: "digits n = CHR ''0'' # cs \<Longrightarrow> n = 0 \<and> cs = []"
proof (induction n arbitrary: cs rule: digits.induct)
  case (1 n)
  show ?case
  proof (cases "n < 10")
    case True
    have "digits n = [char_of (48 + n)]" using True by (simp add: digits.simps [of n])
    with 1(2) have e: "char_of (48 + n) = CHR ''0''" "cs = []" by simp_all
    have "of_char (char_of (48 + n) :: char) = (of_char CHR ''0'' :: nat)" by (simp only: e)
    then show ?thesis using e(2) char_digit [OF True] by simp
  next
    case False
    obtain d ds where d: "digits (n div 10) = d # ds" using digits_nonempty [of "n div 10"] by (cases "digits (n div 10)") auto
    then have "d = CHR ''0''" using 1(2) False by (simp add: digits.simps [of n])
    then have "n div 10 = 0" using 1(1) [OF False] d by simp
    then show ?thesis using False by simp
  qed
qed

definition fits :: "bool \<Rightarrow> nat \<Rightarrow> nat \<Rightarrow> bool" where
  "fits m w n \<longleftrightarrow> (if m then n \<le> 2 ^ (w - 1) else n < 2 ^ w)"

lemma fits_limits:
  "fits m 32 n \<longleftrightarrow> n \<le> (if m then unat (214748364 :: u32) * 10 + 8 else unat (429496729 :: u32) * 10 + 5)"
  "fits m 64 n \<longleftrightarrow> n \<le> (if m then unat (0x0CCCCCCCCCCCCCCC :: u64) * 10 + 8
     else unat (0x1999999999999999 :: u64) * 10 + 5)"
  by (auto simp: fits_def)

definition number_end :: "char \<Rightarrow> bool" where
  "number_end r \<longleftrightarrow> \<not> is_digit r \<and> r \<noteq> CHR ''.'' \<and> r \<noteq> CHR ''e'' \<and> r \<noteq> CHR ''E''"

lemma ParseInt32_small:
  assumes "\<not> is_digit r" and "fits m 32 N"
  shows "\<exists>sig. ParseInt32 (number_start m) (stream (digits N @ r # t) n) =
    Inr ((number_start m)\<lparr>int32 := word_of_nat N, significandDigit := sig\<rparr>, stream (r # t) (n + length (digits N)))"
proof -
  obtain c cs where d: "digits N = c # cs" and c: "is_digit c" using digits_head by blast
  show ?thesis
  proof (cases "c = CHR ''0''")
    case True
    with digits_zero [of N cs] d show ?thesis by (simp add: ParseInt32_def number_start_def)
  next
    case False
    have all: "\<forall>c\<in>set cs. is_digit c" using digits_all [of N] d by simp
    have v: "digit_of c * 10 ^ length cs + digits_value cs = N"
      using digits_value_Cons [of c cs] by (simp flip: d)
    have u: "unat (word_of_nat (digit_of c) :: u32) = digit_of c"
      using digit_of_less [OF c] by (simp add: unat_of_nat)
    show ?thesis
      using False c d assms v
        digit_loop_all [OF all assms(1), of "word_of_nat (digit_of c) :: u32" 214748364 8 0 t "Suc n"]
        digit_loop_all [OF all assms(1), of "word_of_nat (digit_of c) :: u32" 429496729 5 0 t "Suc n"]
      by (cases m) (simp_all add: ParseInt32_def number_start_def u fits_limits)
  qed
qed

lemma ParseInt32_large:
  assumes "\<not> fits m 32 N"
  shows "\<exists>sig d1 d2 i. digits N = d1 @ d2 \<and> unat (i :: u32) = digits_value d1 \<and>
    ParseInt32 (number_start m) (stream (digits N @ t) n) =
      Inr ((number_start m)\<lparr>int32 := i, int64 := ucast i, use64bit := True, significandDigit := sig\<rparr>,
        stream (d2 @ t) (n + length d1))"
proof -
  obtain c cs where d: "digits N = c # cs" and c: "is_digit c" using digits_head by blast
  have z: "c \<noteq> CHR ''0''"
    using digits_zero [of N cs] d assms by (cases m) (auto simp: fits_def)
  have all: "\<forall>c\<in>set cs. is_digit c" using digits_all [of N] d by simp
  have v: "digit_of c * 10 ^ length cs + digits_value cs = N"
    using digits_value_Cons [of c cs] by (simp flip: d)
  have u: "unat (word_of_nat (digit_of c) :: u32) = digit_of c"
    using digit_of_less [OF c] by (simp add: unat_of_nat)
  have "\<exists>d1 d2 i'. cs = d1 @ d2 \<and>
      (if m then digit_loop 214748364 8 (word_of_nat (digit_of c)) 0 (stream (cs @ t) (Suc n))
       else digit_loop 429496729 5 (word_of_nat (digit_of c)) 0 (stream (cs @ t) (Suc n))) =
        Inr (i' :: u32, int (length d1), True, stream (d2 @ t) (Suc n + length d1)) \<and>
      unat i' = digit_of c * 10 ^ length d1 + digits_value d1"
    using assms v digit_of_less [OF c] 
      digit_loop_more [OF all, of "word_of_nat (digit_of c) :: u32" 214748364 8 0 t "Suc n"]
      digit_loop_more [OF all, of "word_of_nat (digit_of c) :: u32" 429496729 5 0 t "Suc n"]
    by (cases m) (simp_all add: u fits_limits)
  then obtain d1 d2 i' where split: "cs = d1 @ d2"
    and loop: "(if m then digit_loop 214748364 8 (word_of_nat (digit_of c)) 0 (stream (cs @ t) (Suc n))
       else digit_loop 429496729 5 (word_of_nat (digit_of c)) 0 (stream (cs @ t) (Suc n))) =
        Inr (i' :: u32, int (length d1), True, stream (d2 @ t) (Suc n + length d1))"
    and i': "unat i' = digit_of c * 10 ^ length d1 + digits_value d1" by blast
  have "ParseInt32 (number_start m) (stream (digits N @ t) n) =
      Inr ((number_start m)\<lparr>int32 := i', int64 := ucast i', use64bit := True, significandDigit := int (length d1)\<rparr>,
        stream (d2 @ t) (n + length (c # d1)))"
    using z c loop by (cases m) (simp_all add: ParseInt32_def number_start_def d)
  moreover have "digits N = (c # d1) @ d2" using d split by simp
  moreover have "unat i' = digits_value (c # d1)" by (simp add: i' digits_value_Cons)
  ultimately show ?thesis by blast
qed

lemma ParseInt64_stops: "\<not> use64bit n \<Longrightarrow> ParseInt64 n s = Inr (n, s)"
  by (simp add: ParseInt64_def)

lemma ParseInt64_rest:
  assumes "\<forall>c\<in>set ds. is_digit c" and "\<not> is_digit r" and "use64bit n"
    and "fits (negative n) 64 (unat (int64 n) * 10 ^ length ds + digits_value ds)"
  shows "\<exists>sig. ParseInt64 n (stream (ds @ r # t) k) =
    Inr (n\<lparr>int64 := word_of_nat (unat (int64 n) * 10 ^ length ds + digits_value ds),
           significandDigit := sig, useDouble := False\<rparr>, stream (r # t) (k + length ds))"
  using assms digit_loop_all [OF assms(1,2), of "int64 n" "0x0CCCCCCCCCCCCCCC" 8 "significandDigit n" t k]
    digit_loop_all [OF assms(1,2), of "int64 n" "0x1999999999999999" 5 "significandDigit n" t k]
  by (intro exI [of _ "significandDigit n + int (length ds)"], cases "negative n")
    (simp_all add: ParseInt64_def fits_limits)

lemma ParseFrac_none: "c \<noteq> CHR ''.'' \<Longrightarrow> ParseFrac n (stream (c # t) k) = Inr (n, stream (c # t) k)"
  by (simp add: ParseFrac_def)

lemma ParseExp_none:
  "c \<noteq> CHR ''e'' \<Longrightarrow> c \<noteq> CHR ''E'' \<Longrightarrow> ParseExp n (stream (c # t) k) = Inr (n, 0, stream (c # t) k)"
  by (simp add: ParseExp_def)

lemma ParseBig_none: "\<not> useDouble n \<Longrightarrow> ParseBig n s = Inr (n, s)"
  by (simp add: ParseBig_def)

definition sign_text :: "bool \<Rightarrow> string" where
  "sign_text m = (if m then ''-'' else [])"

lemma ParseMinus_text:
  "is_digit c \<Longrightarrow>
     ParseMinus (stream (sign_text m @ c # t) k) = Inr (number_start m, stream (c # t) (k + length (sign_text m)))"
  by (auto simp: ParseMinus_def sign_text_def is_digit_def)

lemma number_start_simps [simp]:
  "negative (number_start m) = m" "use64bit (number_start m) = False" "useDouble (number_start m) = False"
  by (simp_all add: number_start_def)

lemma ScanNumber_digits:
  assumes "number_end r" and "fits m 64 N"
  shows "\<exists>n. ScanNumber (stream (sign_text m @ digits N @ r # t) k) =
      Inr (n, 0, stream (r # t) (k + length (sign_text m @ digits N))) \<and>
    negative n = m \<and> \<not> useDouble n \<and>
    (if use64bit n then int64 n = word_of_nat N else int32 n = word_of_nat N \<and> fits m 32 N)"
proof -
  let ?k = "k + length (sign_text m)"
  obtain c cs where d: "digits N = c # cs" and c: "is_digit c" using digits_head by blast
  have r: "\<not> is_digit r" "r \<noteq> CHR ''.''" "r \<noteq> CHR ''e''" "r \<noteq> CHR ''E''"
    using assms(1) by (simp_all add: number_end_def)
  have minus: "ParseMinus (stream (sign_text m @ digits N @ r # t) k) =
      Inr (number_start m, stream (digits N @ r # t) ?k)"
    using ParseMinus_text [OF c, of m "cs @ r # t" k] by (simp add: d)
  show ?thesis
  proof (cases "fits m 32 N")
    case True
    obtain sig where "ParseInt32 (number_start m) (stream (digits N @ r # t) ?k) =
        Inr ((number_start m)\<lparr>int32 := word_of_nat N, significandDigit := sig\<rparr>,
             stream (r # t) (?k + length (digits N)))"
      using ParseInt32_small [OF r(1) True] by blast
    then show ?thesis
      using True r by (simp add: ScanNumber_def minus ParseInt64_stops ParseBig_none ParseFrac_none ParseExp_none)
  next
    case False
    obtain sig d1 d2 i where split: "digits N = d1 @ d2" "unat (i :: u32) = digits_value d1"
      and large: "ParseInt32 (number_start m) (stream (digits N @ r # t) ?k) =
        Inr ((number_start m)\<lparr>int32 := i, int64 := ucast i, use64bit := True, significandDigit := sig\<rparr>,
             stream (d2 @ r # t) (?k + length d1))"
      using ParseInt32_large [OF False] by blast
    let ?n = "(number_start m)\<lparr>int32 := i, int64 := ucast i, use64bit := True, significandDigit := sig\<rparr>"
    have "unat (int64 ?n) * 10 ^ length d2 + digits_value d2 = N"
    proof -
      have "unat (int64 ?n) = digits_value d1"
        using split(2) unat_less [of i]
        by (simp add: unsigned_ucast_eq take_bit_nat_eq_self_iff)
      then show ?thesis using digits_value_append [of d1 d2] by (simp flip: split(1))
    qed
    then obtain sig' where "ParseInt64 ?n (stream (d2 @ r # t) (?k + length d1)) =
        Inr (?n\<lparr>int64 := word_of_nat N, significandDigit := sig', useDouble := False\<rparr>,
             stream (r # t) (?k + length d1 + length d2))"
      using ParseInt64_rest [of d2 r ?n t "?k + length d1"] digits_all [of N] r(1) assms(2) split(1) by auto
    moreover have "length (digits N) = length d1 + length d2" using split(1) by simp
    ultimately show ?thesis
      using r by (simp add: ScanNumber_def minus large ParseBig_none ParseFrac_none ParseExp_none)
  qed
qed

lemma negated_word: "NOT (word_of_nat N :: 'a :: len word) + 1 = word_of_int (- int N)"
  by (metis minus_eq_not_plus_1 of_int_minus of_int_of_nat_eq)

lemma sint_in_range:
  "- (2 ^ (LENGTH('a) - 1)) \<le> x \<Longrightarrow> x < 2 ^ (LENGTH('a) - 1) \<Longrightarrow> sint (word_of_int x :: 'a :: len word) = x"
  by (simp only: sint_sbintrunc') (simp add: signed_take_bit_int_eq_self)

lemma number_value:
  "N \<le> 2 ^ 31 \<Longrightarrow> sint (NOT (word_of_nat N :: u32) + 1) = - int N"
  "N \<le> 2 ^ 63 \<Longrightarrow> sint (NOT (word_of_nat N :: u64) + 1) = - int N"
  unfolding negated_word by (rule sint_in_range; simp)+

lemma ParseNumber_text:
  assumes "number_end r" and "- (2 ^ 63) \<le> i" and "i < 2 ^ 64"
  shows "ParseNumber Document_handler st (stream (signed_digits i @ r # t) k) =
    Inr (JInt i # st, stream (r # t) (k + length (signed_digits i)))"
proof -
  define m N where "m = (i < 0)" and "N = nat \<bar>i\<bar>"
  have written: "signed_digits i = sign_text m @ digits N"
    by (simp add: signed_digits_def sign_text_def m_def N_def)
  have f: "fits m 64 N" using assms(2,3) by (auto simp: fits_def m_def N_def)
  have i: "i = (if m then - int N else int N)" by (simp add: m_def N_def)
  obtain n where scan: "ScanNumber (stream (signed_digits i @ r # t) k) =
      Inr (n, 0, stream (r # t) (k + length (signed_digits i)))"
    and n: "negative n = m" "\<not> useDouble n"
      "if use64bit n then int64 n = word_of_nat N else int32 n = word_of_nat N \<and> fits m 32 N"
    using ScanNumber_digits [OF assms(1) f, of t k] unfolding written by auto
  have "\<exists>ev. number_event n 0 = Inr ev \<and> Document_handler ev st = Inr (Some (JInt i # st))"
    using n f number_value [of N]
    by (cases m; cases "use64bit n")
      (auto simp: number_event_def i fits_def uint_nat unat_of_nat)
  then show ?thesis by (auto simp: ParseNumber_def scan emit_push)
qed

section \<open>Values\<close>

text \<open>Values without \<open>double\<close>s whose integers fit 64 bits, signed or unsigned.\<close>

primrec integral :: "json \<Rightarrow> bool"
  and integral_items :: "json list \<Rightarrow> bool"
  and integral_members :: "(string \<times> json) list \<Rightarrow> bool"
  and integral_member :: "string \<times> json \<Rightarrow> bool" where
  "integral JNull \<longleftrightarrow> True"
| "integral (JBool b) \<longleftrightarrow> True"
| "integral (JInt i) \<longleftrightarrow> - (2 ^ 63) \<le> i \<and> i < 2 ^ 64"
| "integral (JDouble d) \<longleftrightarrow> False"
| "integral (JString s) \<longleftrightarrow> True"
| "integral (JArray vs) \<longleftrightarrow> integral_items vs"
| "integral (JObject ms) \<longleftrightarrow> integral_members ms"
| "integral_items [] \<longleftrightarrow> True"
| "integral_items (v # vs) \<longleftrightarrow> integral v \<and> integral_items vs"
| "integral_members [] \<longleftrightarrow> True"
| "integral_members (m # ms) \<longleftrightarrow> integral_member m \<and> integral_members ms"
| "integral_member (k, v) \<longleftrightarrow> integral v"

lemma integral_items_iff: "integral_items vs \<longleftrightarrow> (\<forall>v\<in>set vs. integral v)"
  by (induction vs) auto

lemma integral_members_iff: "integral_members ms \<longleftrightarrow> (\<forall>m\<in>set ms. integral (snd m))"
  by (induction ms) auto

lemma printable_items_iff: "printable_items vs \<longleftrightarrow> (\<forall>v\<in>set vs. printable v)"
  by (induction vs) auto

lemma printable_members_iff: "printable_members ms \<longleftrightarrow> (\<forall>m\<in>set ms. printable (snd m))"
  by (induction ms) auto

lemma integral_printable: "integral v \<Longrightarrow> printable v"
  by (induction v) (force simp: integral_items_iff printable_items_iff integral_members_iff printable_members_iff)+

text \<open>The first character of a text: no white space, no end of a container, no NUL.\<close>

definition value_start :: "char \<Rightarrow> bool" where
  "value_start c \<longleftrightarrow> \<not> is_white c \<and> c \<noteq> CHR 0x5D \<and> c \<noteq> CHR 0x7D \<and> c \<noteq> CHR 0x00"

lemma digit_start: "is_digit c \<Longrightarrow> value_start c \<and> c \<notin> {CHR ''n'', CHR ''t'', CHR ''f'', CHR 0x22, CHR 0x7B, CHR 0x5B}"
  by (auto simp: is_digit_def value_start_def is_white_def)

lemma signed_digits_start:
  "\<exists>c cs. signed_digits i = c # cs \<and> value_start c \<and>
     c \<notin> {CHR ''n'', CHR ''t'', CHR ''f'', CHR 0x22, CHR 0x7B, CHR 0x5B}"
proof (cases "i < 0")
  case True
  then show ?thesis by (simp add: signed_digits_def value_start_def is_white_def)
next
  case False
  obtain c cs where "digits (nat i) = c # cs" "is_digit c" using digits_head by blast
  with False digit_start [of c] show ?thesis by (simp add: signed_digits_def)
qed

lemma json_text_start: "integral v \<Longrightarrow> \<exists>c cs. json_text v = c # cs \<and> value_start c"
proof (cases v)
  case (JInt i)
  then show ?thesis using signed_digits_start [of i] by auto
qed (auto simp: bool_text_def string_text_def value_start_def is_white_def)

definition value_end :: "char \<Rightarrow> bool" where
  "value_end r \<longleftrightarrow> r = CHR '','' \<or> r = CHR 0x5D \<or> r = CHR 0x7D \<or> r = CHR 0x00"

lemma value_end_number: "value_end r \<Longrightarrow> number_end r"
  by (auto simp: value_end_def number_end_def is_digit_def)

definition reads :: "json \<Rightarrow> bool" where
  "reads v \<longleftrightarrow>
     (\<forall>st r t k. integral v \<longrightarrow> value_end r \<longrightarrow>
        ParseValue Document_handler st (stream (json_text v @ r # t) k) =
          Inr (v # st, stream (r # t) (k + length (json_text v))))"

lemma reads_value:
  "reads v \<Longrightarrow> integral v \<Longrightarrow> value_end r \<Longrightarrow>
     ParseValue Document_handler st (stream (json_text v @ r # t) k) =
       Inr (v # st, stream (r # t) (k + length (json_text v)))"
  by (simp add: reads_def)

lemma SkipWhitespace_start: "value_start c \<Longrightarrow> SkipWhitespace (stream (c # t) k) = Inr (stream (c # t) k)"
  by (simp add: value_start_def)

lemma SkipWhitespace_text:
  assumes "integral v"
  shows "SkipWhitespace (stream (json_text v @ t) k) = Inr (stream (json_text v @ t) k)"
  using json_text_start [OF assms] by (auto simp: SkipWhitespace_start)

lemma white_chars [simp]:
  "\<not> is_white CHR 0x22" "\<not> is_white CHR 0x5B" "\<not> is_white CHR 0x5D" "\<not> is_white CHR 0x7B"
  "\<not> is_white CHR 0x7D" "\<not> is_white CHR '':''" "\<not> is_white CHR '',''" "\<not> is_white CHR 0x00"
  by (simp_all add: is_white_def)

lemma emit_at: "h ev st = Inr (Some st') \<Longrightarrow> emit h ev st s = Inr st'"
  by (simp add: emit_def)

lemma ItemEnd_more:
  assumes "integral v"
  shows "ItemEnd n h st (stream (CHR '','' # json_text v @ t) k) = Inr (True, st, stream (json_text v @ t) (Suc k))"
  using SkipWhitespace_text [OF assms] by (simp add: ElementEnd_def)

lemma ItemEnd_last:
  "ItemEnd (length vs) Document_handler (rev vs @ JArray [] # st) (stream (CHR 0x5D # t) k) =
     Inr (False, JArray vs # st, stream t (Suc k))"
  by (simp add: ElementEnd_def emit_def EndArray_items)

lemma ParseElements_text:
  assumes "\<forall>v\<in>set vs. reads v \<and> integral v" and "vs \<noteq> []"
  shows "ParseElements Document_handler (length pre) (rev pre @ JArray [] # st)
      (stream (json_items vs True @ CHR 0x5D # t) k) =
    Inr (JArray (pre @ vs) # st, stream t (k + length (json_items vs True) + 1))"
  using assms
proof (induction vs arbitrary: pre k)
  case (Cons v vs)
  have v: "reads v" "integral v" using Cons.prems by simp_all
  show ?case
  proof (cases vs)
    case Nil
    then show ?thesis
      using ItemEnd_last [of "pre @ [v]"] reads_value [OF v]
      by (subst ParseElements.simps) (simp add: comma_def value_end_def)
  next
    case (Cons v' vs')
    then show ?thesis
      using Cons.IH [of "pre @ [v]"] Cons.prems reads_value [OF v]
      by (subst ParseElements.simps) (simp add: comma_def value_end_def ItemEnd_more)
  qed
qed simp

lemma string_text_start: "string_text str = CHR 0x22 # concat (map write_char str) @ [CHR 0x22]"
  by (simp add: string_text_def)

lemma SkipWhitespace_string:
  "SkipWhitespace (stream (string_text str @ t) k) = Inr (stream (string_text str @ t) k)"
  by (simp add: string_text_start)

lemma Peek_string [simp]: "Peek (stream (string_text str @ t) k) = Inr CHR 0x22"
  by (simp add: string_text_start)

lemma MemberName_text:
  assumes "integral v"
  shows "MemberName Document_handler st (stream (string_text name @ CHR '':'' # json_text v @ t) k) =
    Inr (JString name # st, stream (json_text v @ t) (k + length (string_text name) + 1))"
  using SkipWhitespace_text [OF assms] by (simp add: MemberName_def ParseString_text)

lemma MemberEnd_more:
  "MemberEnd n h st (stream (CHR '','' # string_text name @ t) k) =
     Inr (True, st, stream (string_text name @ t) (Suc k))"
  by (simp add: ElementEnd_def SkipWhitespace_string)

lemma MemberEnd_last:
  "MemberEnd (length ms) Document_handler (rev (member_values ms) @ JObject [] # st) (stream (CHR 0x7D # t) k) =
     Inr (False, JObject ms # st, stream t (Suc k))"
  by (simp add: ElementEnd_def emit_def EndObject_members)

lemma ParseMembers_text:
  assumes "\<forall>m\<in>set ms. reads (snd m) \<and> integral (snd m)" and "ms \<noteq> []"
  shows "ParseMembers Document_handler (length pre) (rev (member_values pre) @ JObject [] # st)
      (stream (json_members ms True @ CHR 0x7D # t) k) =
    Inr (JObject (pre @ ms) # st, stream t (k + length (json_members ms True) + 1))"
  using assms
proof (induction ms arbitrary: pre k)
  case (Cons m ms)
  obtain name v where m: "m = (name, v)" by (cases m)
  have v: "reads v" "integral v" using Cons.prems by (simp_all add: m)
  show ?case
  proof (cases ms)
    case Nil
    then show ?thesis
      using MemberEnd_last [of "pre @ [m]"] reads_value [OF v]
      by (subst ParseMembers.simps) (simp add: comma_def value_end_def m MemberName_text v)
  next
    case (Cons m' ms')
    obtain name' v' where m': "m' = (name', v')" by (cases m')
    show ?thesis
      using Cons Cons.IH [of "pre @ [m]"] Cons.prems reads_value [OF v]
      by (subst ParseMembers.simps)
        (simp add: comma_def value_end_def m m' MemberName_text v MemberEnd_more)
  qed
qed simp

lemma ObjectHead_at:
  "\<not> is_white c \<Longrightarrow>
     ObjectHead Document_handler st (stream (CHR 0x7B # c # t) k) = Inr (JObject [] # st, stream (c # t) (Suc k))"
  by (simp add: ObjectHead_def emit_def)

lemma ArrayHead_at:
  "\<not> is_white c \<Longrightarrow>
     ArrayHead Document_handler st (stream (CHR 0x5B # c # t) k) = Inr (JArray [] # st, stream (c # t) (Suc k))"
  by (simp add: ArrayHead_def emit_def)

lemma Finish_at:
  "h ev st = Inr (Some st') \<Longrightarrow> Finish h ev st (stream (c # t) k) = Inr (st', stream t (Suc k))"
  by (simp add: Finish_def emit_def)

lemma reads_array:
  assumes "\<forall>v\<in>set vs. reads v" and "integral_items vs"
  shows "ParseArray Document_handler st (stream (json_text (JArray vs) @ t) k) =
    Inr (JArray vs # st, stream t (k + length (json_text (JArray vs))))"
proof (cases vs)
  case Nil
  then show ?thesis
    by (subst ParseArray.simps) (simp add: ArrayHead_at Finish_at EndArray_def)
next
  case (Cons v vs')
  then obtain c cs where c: "json_text v = c # cs" "value_start c"
    using assms(2) json_text_start [of v] by auto
  then have w: "\<not> is_white c" "c \<noteq> CHR 0x5D" by (simp_all add: value_start_def)
  have "ParseElements Document_handler 0 (JArray [] # st) (stream (json_items vs True @ CHR 0x5D # t) (Suc k)) =
      Inr (JArray vs # st, stream t (Suc k + length (json_items vs True) + 1))"
    using ParseElements_text [of vs "[]" st t "Suc k"] assms Cons by (simp add: integral_items_iff)
  then show ?thesis
    using w c Cons by (subst ParseArray.simps) (simp add: ArrayHead_at comma_def)
qed

lemma reads_object:
  assumes "\<forall>m\<in>set ms. reads (snd m)" and "integral_members ms"
  shows "ParseObject Document_handler st (stream (json_text (JObject ms) @ t) k) =
    Inr (JObject ms # st, stream t (k + length (json_text (JObject ms))))"
proof (cases ms)
  case Nil
  then show ?thesis
    by (subst ParseObject.simps) (simp add: ObjectHead_at Finish_at EndObject_def)
next
  case (Cons m ms')
  then obtain name v where m: "m = (name, v)" by (cases m)
  have "ParseMembers Document_handler 0 (JObject [] # st) (stream (json_members ms True @ CHR 0x7D # t) (Suc k)) =
      Inr (JObject ms # st, stream t (Suc k + length (json_members ms True) + 1))"
    using ParseMembers_text [of ms "[]" st t "Suc k"] assms Cons by (simp add: integral_members_iff)
  then show ?thesis
    using Cons by (subst ParseObject.simps) (simp add: ObjectHead_at comma_def m string_text_start)
qed

lemma ParseLiteral_at:
  "h ev st = Inr (Some st') \<Longrightarrow>
     ParseLiteral x xs ev h st (stream (x # xs @ t) k) = Inr (st', stream t (k + length xs + 1))"
  by (simp add: ParseLiteral_def emit_def)

lemma all_reads: "reads v"
proof (induction v)
  case (JArray vs)
  then show ?case
    unfolding reads_def [of "JArray vs"]
    using reads_array [of vs] by (auto simp: ParseValue.simps)
next
  case (JObject ms)
  have "\<forall>m\<in>set ms. reads (snd m)"
    using JObject by (metis prod.collapse snds.intros)
  then show ?case
    unfolding reads_def [of "JObject ms"]
    using reads_object [of ms] by (auto simp: ParseValue.simps)
next
  case (JString str)
  then show ?case
    using ParseString_text [of False _ str] by (simp add: reads_def ParseValue.simps)
next
  case (JInt i)
  obtain c cs where "signed_digits i = c # cs"
    "c \<notin> {CHR ''n'', CHR ''t'', CHR ''f'', CHR 0x22, CHR 0x7B, CHR 0x5B}"
    using signed_digits_start [of i] by blast
  then show ?case
    using ParseNumber_text [of _ i] by (auto simp: reads_def ParseValue.simps value_end_number)
next
  case JNull
  then show ?case
    using ParseLiteral_at [of Document_handler SNull _ _ "CHR ''n''" "''ull''"]
    by (simp add: reads_def ParseValue.simps ParseNull_def)
next
  case (JBool b)
  then show ?case
    using ParseLiteral_at [of Document_handler "SBool b" _ _ "CHR ''t''" "''rue''"]
      ParseLiteral_at [of Document_handler "SBool b" _ _ "CHR ''f''" "''alse''"]
    by (cases b) (simp_all add: reads_def ParseValue.simps ParseTrue_def ParseFalse_def bool_text_def)
qed (simp add: reads_def)

section \<open>Documents\<close>

lemma NUL_strings: "CHR 0x00 \<notin> set (write_char c)"
proof -
  have hex: "hexDigit d \<noteq> CHR 0x00" if "d < 16" for d
  proof -
    have "\<forall>d\<in>set [0..<16]. hexDigit d \<noteq> CHR 0x00" by code_simp
    with that show ?thesis by simp
  qed
  have "writer_escape c \<noteq> Some CHR 0x00" "writer_escape c = None \<Longrightarrow> c \<noteq> CHR 0x00"
    by (auto simp: writer_escape_def split: if_splits)
  moreover have "of_char c div 16 < (16 :: nat)"
    using nat_of_char_less_256 [of c] by (simp add: less_mult_imp_div_less)
  ultimately show ?thesis
    using hex [of "of_char c div 16"] hex [of "of_char c mod 16"]
    by (auto simp: write_char_def split: option.splits)
qed

lemma NUL_digits: "CHR 0x00 \<notin> set (signed_digits i)"
proof -
  have "CHR 0x00 \<notin> set (digits n)" for n
    using digits_all [of n] by (auto simp: is_digit_def)
  then show ?thesis by (simp add: signed_digits_def)
qed

lemma NUL_text: "integral v \<Longrightarrow> CHR 0x00 \<notin> set (json_text v)"
proof (induction v)
  case (JArray vs)
  have "CHR 0x00 \<notin> set (json_items ws b)" if "set ws \<subseteq> set vs" for ws b
    using that JArray by (induction ws arbitrary: b) (auto simp: comma_def integral_items_iff)
  then show ?case by simp
next
  case (JObject ms)
  have "CHR 0x00 \<notin> set (json_members ns b)" if "set ns \<subseteq> set ms" for ns b
    using that
  proof (induction ns arbitrary: b)
    case (Cons m ns)
    obtain name v where m: "m = (name, v)" by (cases m)
    with Cons.prems JObject.prems have "integral v" by (auto simp: integral_members_iff)
    with Cons.prems m JObject.IH [of m v] have "CHR 0x00 \<notin> set (json_text v)" by auto
    then show ?case using Cons NUL_strings by (auto simp: m comma_def string_text_def)
  qed simp
  then show ?case by simp
qed (use NUL_digits NUL_strings in \<open>auto simp: bool_text_def string_text_def\<close>)

lemma Reader_Parse_text:
  assumes "integral v"
  shows "Reader_Parse Document_handler [] (stream (json_text v @ [CHR 0x00]) k) =
    Inr ([v], stream [CHR 0x00] (k + length (json_text v)))"
proof -
  obtain c cs where "json_text v = c # cs" "value_start c" using json_text_start [OF assms] by blast
  then have "Peek (stream (json_text v @ [CHR 0x00]) k) = Inr c" "c \<noteq> CHR 0x00"
    by (simp_all add: value_start_def)
  then show ?thesis
    using reads_value [OF all_reads assms, of "CHR 0x00" "[]" "[]" k] SkipWhitespace_text [OF assms]
    by (simp add: Reader_Parse_def value_end_def)
qed

lemma c_str_text: "integral v \<Longrightarrow> c_str (json_text v) = json_text v"
  using NUL_text [of v] by (simp add: c_str_def takeWhile_eq_all_conv) metis

end
