(* ===== verification/DtoaPowers.thy ===== *)
theory DtoaPowers
  imports Dtoa DoubleFacts
begin

text \<open>
  Facts about the cached powers of \<open>dtoa\<close>: the estimate of the decimal exponent in \<open>double\<close>
  arithmetic picks a power of the table that brings every scaled value into the range the
  generation of digits needs.
\<close>

section \<open>Rounding errors\<close>

lemma powi_two_not_neg [simp]: "\<not> (2 :: real) powi e < 0"
  by (simp add: not_less less_imp_le)

text \<open>A finite \<open>double\<close> within a distance of a real number.\<close>

fun real_of_double :: "double \<Rightarrow> real" where
  "real_of_double (DFinite s m e) = real_of_int (signed s m) * 2 powi e"
| "real_of_double d = 0"

definition near :: "real \<Rightarrow> double \<Rightarrow> real \<Rightarrow> bool" where
  "near eps d x \<longleftrightarrow> (\<exists>s m e. d = DFinite s m e \<and> 0 \<le> m) \<and> \<bar>real_of_double d - x\<bar> \<le> eps"

definition ulp :: real where
  "ulp = 1 / 2 ^ 43"

lemma round64_near_positive:
  assumes "0 < n" and "0 < d" and "real_of_int n / real_of_int d < 2 ^ 11"
  shows "\<exists>m e. round64 s n d = DFinite s m e \<and> 0 \<le> m \<and>
    \<bar>real_of_int m * 2 powi e - real_of_int n / real_of_int d\<bar> \<le> ulp"
proof -
  define x where "x = real_of_int n / real_of_int d"
  define k where "k = binary_exponent n d"
  define e where "e = max (- 1074) (k - 52)"
  define m where "m = nearest (x / 2 powi e)"
  have k: "2 powi k \<le> x" "x < 2 powi (k + 1)"
    using binary_exponent_bounds [OF assms(1,2)] by (simp_all add: x_def k_def)
  have "(2 :: real) powi k < 2 powi 11" using k assms(3) by (simp add: x_def)
  then have "k < 11" by (simp only: powi_two_less)
  then have e: "e \<le> - 42" by (simp add: e_def)
  have m: "0 \<le> m" "m \<le> 2 ^ 53"
    using significand_bounds [OF k e_def] by (simp_all add: m_def)
  have near: "\<bar>real_of_int m * 2 powi e - x\<bar> \<le> ulp"
  proof -
    have "\<bar>x / 2 powi e - real_of_int m\<bar> * 2 powi e \<le> 1 / 2 * 2 powi e"
      unfolding m_def by (intro mult_right_mono nearest_half) simp
    also have "\<bar>x / 2 powi e - real_of_int m\<bar> * 2 powi e = \<bar>(x / 2 powi e - real_of_int m) * 2 powi e\<bar>"
      by (simp add: abs_mult)
    also have "(x / 2 powi e - real_of_int m) * 2 powi e = x - real_of_int m * 2 powi e"
      by (simp add: left_diff_distrib)
    also have "1 / 2 * (2 :: real) powi e = 2 powi (e - 1)" by (simp add: power_int_diff)
    also have "(2 :: real) powi (e - 1) \<le> 2 powi (- 43)" using e by (intro power_int_increasing) simp_all
    also have "\<dots> = ulp" by (simp add: ulp_def power_int_minus inverse_eq_divide)
    finally show ?thesis by (simp add: abs_minus_commute)
  qed
  have r: "round64 s n d = (if m = 2 ^ 53 then DFinite s (2 ^ 52) (e + 1) else DFinite s m e)"
    using e by (simp add: round64_real [OF assms(1,2)] round_real_def Let_def
        flip: x_def k_def e_def m_def)
  have "real_of_int (2 ^ 52) * 2 powi (e + 1) = real_of_int (2 ^ 53) * 2 powi e"
    by (simp add: power_int_add)
  with r near m show ?thesis by (auto simp: x_def)
qed

definition signed_real :: "bool \<Rightarrow> real \<Rightarrow> real" where
  "signed_real s x = (if s then - x else x)"

lemma real_of_int_signed: "real_of_int (signed s m) = signed_real s (real_of_int m)"
  by (simp add: signed_def signed_real_def)

lemma round64_near:
  assumes "0 \<le> n" and "0 < d" and "real_of_int n / real_of_int d < 2 ^ 11"
  shows "near ulp (round64 s n d) (signed_real s (real_of_int n / real_of_int d))"
proof (cases "n = 0")
  case True
  then show ?thesis by (auto simp: round64_def near_def signed_def signed_real_def ulp_def)
next
  case False
  then obtain m e where "round64 s n d = DFinite s m e" "0 \<le> m"
    "\<bar>real_of_int m * 2 powi e - real_of_int n / real_of_int d\<bar> \<le> ulp"
    using round64_near_positive [of n d s] assms by auto
  then show ?thesis
    by (auto simp: near_def real_of_int_signed signed_real_def abs_minus_commute)
qed

lemma near_of_int: "\<bar>i\<bar> < 2 ^ 11 \<Longrightarrow> near ulp (double_of_int i) (real_of_int i)"
  using round64_near [of "\<bar>i\<bar>" 1 "i < 0"]
  by (cases "i < 0") (simp_all add: double_of_int_def signed_real_def)

lemma near_mul:
  assumes "near eps c x" and "near 0 d y" and "\<bar>x * y\<bar> + eps * \<bar>y\<bar> < 2 ^ 11"
  shows "near (eps * \<bar>y\<bar> + ulp) (double_mul c d) (x * y)"
proof -
  obtain s m e where c: "c = DFinite s m e" "0 \<le> m" and cx: "\<bar>real_of_double c - x\<bar> \<le> eps"
    using assms(1) by (auto simp: near_def)
  obtain t n f where d: "d = DFinite t n f" "0 \<le> n" and dy: "real_of_double d = y"
    using assms(2) by (auto simp: near_def)
  let ?p = "m * n * 2 ^ nat (e + f)" and ?q = "2 ^ nat (- (e + f)) :: int"
  have r: "real_of_int ?p / real_of_int ?q = (real_of_int m * 2 powi e) * (real_of_int n * 2 powi f)"
    using arg_cong [OF powi_two [of "e + f"], of "\<lambda>z. real_of_int (m * n) * z"]
    by (simp add: powi_two_add mult_ac)
  have v: "signed_real (s \<noteq> t) (real_of_int ?p / real_of_int ?q) = real_of_double c * y"
    unfolding r using c d dy by (auto simp: signed_real_def signed_def)
  have err: "\<bar>real_of_double c * y - x * y\<bar> \<le> eps * \<bar>y\<bar>"
    using mult_right_mono [OF cx, of "\<bar>y\<bar>"] by (simp add: abs_mult [symmetric] left_diff_distrib)
  have "\<bar>real_of_double c * y\<bar> < 2 ^ 11" using err assms(3) by linarith
  then have "real_of_int ?p / real_of_int ?q < 2 ^ 11"
    using v by (auto simp: signed_real_def split: if_splits)
  from round64_near [of ?p ?q "s \<noteq> t", OF _ _ this]
  have "near ulp (double_mul c d) (real_of_double c * y)"
    using c d by (simp only: v double_mul.simps) simp
  with err show ?thesis by (auto simp: near_def)
qed

lemma powi_two_min:
  "k \<le> e \<Longrightarrow> real_of_int (i * 2 ^ nat (e - k)) * 2 powi k = real_of_int i * 2 powi e"
proof -
  assume "k \<le> e"
  then have "(2 :: real) ^ nat (e - k) * 2 powi k = 2 powi (e - k + k)"
    unfolding powi_two_add by (simp add: powi_two [of "e - k"])
  then show ?thesis by (simp add: mult.assoc)
qed

lemma near_add:
  assumes "near eps c x" and "near eps' d y" and "\<bar>x + y\<bar> + eps + eps' < 2 ^ 11"
  shows "near (eps + eps' + ulp) (double_add c d) (x + y)"
proof -
  obtain s m e where c: "c = DFinite s m e" and cx: "\<bar>real_of_double c - x\<bar> \<le> eps"
    using assms(1) by (auto simp: near_def)
  obtain t n f where d: "d = DFinite t n f" and dy: "\<bar>real_of_double d - y\<bar> \<le> eps'"
    using assms(2) by (auto simp: near_def)
  define k where "k = min e f"
  define v where "v = signed s m * 2 ^ nat (e - k) + signed t n * 2 ^ nat (f - k)"
  let ?p = "\<bar>v\<bar> * 2 ^ nat k" and ?q = "2 ^ nat (- k) :: int"
  have sum: "real_of_int v * 2 powi k = real_of_double c + real_of_double d"
    unfolding v_def of_int_add distrib_right c d real_of_double.simps
    by (subst (1 2) powi_two_min) (simp_all add: k_def)
  have r: "real_of_int ?p / real_of_int ?q = \<bar>real_of_double c + real_of_double d\<bar>"
    using arg_cong [OF powi_two [of k], of "\<lambda>z. \<bar>real_of_int v\<bar> * z"] sum [symmetric]
    by (simp add: abs_mult)
  have err: "\<bar>real_of_double c + real_of_double d - (x + y)\<bar> \<le> eps + eps'"
    using cx dy by linarith
  show ?thesis
  proof (cases "v = 0")
    case True
    then have "real_of_double c + real_of_double d = 0" using sum by simp
    moreover have "double_add c d = DFinite (s \<and> t) 0 (- 1074)" using True by (simp add: c d v_def k_def Let_def)
    moreover have "0 \<le> ulp" by (simp add: ulp_def)
    ultimately show ?thesis using err by (auto simp: near_def signed_def)
  next
    case False
    have "\<bar>real_of_double c + real_of_double d\<bar> < 2 ^ 11" using err assms(3) by linarith
    then have "near ulp (round64 (v < 0) ?p ?q) (signed_real (v < 0) (real_of_int ?p / real_of_int ?q))"
      using r by (intro round64_near) simp_all
    moreover have "signed_real (v < 0) (real_of_int ?p / real_of_int ?q) = real_of_double c + real_of_double d"
    proof -
      have "v < 0 \<longleftrightarrow> real_of_double c + real_of_double d < 0"
        using sum [symmetric] by (simp add: mult_less_0_iff)
      then show ?thesis unfolding r signed_real_def by auto
    qed
    moreover have "double_add c d = round64 (v < 0) ?p ?q"
      using False by (simp add: c d Let_def flip: k_def v_def)
    ultimately show ?thesis using err by (auto simp: near_def)
  qed
qed

section \<open>The estimate of the decimal exponent\<close>

definition log_num :: int where
  "log_num = 5422874305198590"

lemma log10_of_2_eq: "log10_of_2 = DFinite False log_num (- 54)"
  unfolding log10_of_2_def log_num_def by code_simp

text \<open>Truncation followed by the correction of the code rounds a positive value up.\<close>

lemma truncated_up:
  assumes "near eps d x" and "eps < x"
  shows "truncated d + (if has_fraction d then 1 else 0) = \<lceil>real_of_double d\<rceil>"
proof -
  obtain s m e where d: "d = DFinite s m e" "0 \<le> m" using assms(1) by (auto simp: near_def)
  have pos: "0 < real_of_double d" using assms by (auto simp: near_def)
  have s: "\<not> s"
    using pos d by (auto simp: signed_def zero_less_mult_iff)
  have r: "real_of_double d = real_of_int (m * 2 ^ nat e) / real_of_int (2 ^ nat (- e))"
    using s by (simp add: d signed_def powi_two)
  show ?thesis
    unfolding r using s by (simp add: d signed_def ceiling_divide_eq_div zdiv_zminus1_eq_if
        del: of_int_mult of_int_power)
qed

section \<open>The table\<close>

text \<open>The arguments \<open>a\<close>, the exponent to add in units of two, for which entry \<open>i\<close> may be chosen.\<close>

definition arg_min :: "nat \<Rightarrow> int" where
  "arg_min i = ((8 * int i - 356) * 2 ^ 54 - 2 ^ 14) div log_num + 1"

definition arg_max :: "nat \<Rightarrow> int" where
  "arg_max i = ((8 * int i - 348) * 2 ^ 54 + 2 ^ 14) div log_num"

definition entry_ok :: "nat \<Rightarrow> bool" where
  "entry_ok i \<longleftrightarrow>
     (let F = uint (kCachedPowers_F ! i); lo = 3 - arg_max i + kCachedPowers_E ! i;
          hi = 3 - arg_min i + kCachedPowers_E ! i
      in - 60 \<le> lo \<and> hi \<le> - 34 \<and> F < 10 ^ 9 * 2 ^ nat (- hi) \<and> 2 ^ 63 \<le> F)"

lemma entries_ok: "list_all entry_ok [0..<87]"
  by code_simp

lemma entry_ok: "i < 87 \<Longrightarrow> entry_ok i"
  using entries_ok by (simp add: list_all_iff)

lemma div_le_arg: "0 < d \<Longrightarrow> x < a * d \<Longrightarrow> x div d + 1 \<le> (a :: int)"
  using pos_mod_sign [of d x] div_mult_mod_eq [of x d] mult_right_mono [of a "x div d" d]
  by linarith

lemma arg_le_div: "0 < d \<Longrightarrow> a * d \<le> x \<Longrightarrow> (a :: int) \<le> x div d"
  using zdiv_mono1 [of "a * d" x d] by simp

lemma GetCachedPower_ok:
  assumes "- 1137 \<le> e" and "e \<le> 961"
  obtains i where "i < 87"
    and "GetCachedPower e = Inr (\<lparr>fp = kCachedPowers_F ! i, exponent = kCachedPowers_E ! i\<rparr>, 348 - 8 * int i)"
    and "arg_min i \<le> - 61 - e" and "- 61 - e \<le> arg_max i"
proof -
  define a where "a = - 61 - e"
  define y where "y = real_of_int log_num / 2 ^ 54"
  define dk where "dk = double_add (double_mul (double_of_int a) log10_of_2) (double_of_int 347)"
  have a: "- 1022 \<le> a" "a \<le> 1076" using assms by (simp_all add: a_def)
  then have a_real: "- 1022 \<le> real_of_int a" "real_of_int a \<le> 1076" by linarith+
  have y: "0.30 < y" "y < 0.302" by (simp_all add: y_def log_num_def)
  have ay: "\<bar>real_of_int a * y\<bar> < 326"
  proof -
    have "\<bar>real_of_int a\<bar> * \<bar>y\<bar> \<le> 1076 * 0.302" using a_real y by (intro mult_mono) auto
    then show ?thesis by (simp add: abs_mult)
  qed
  have "near 0 log10_of_2 y"
    by (auto simp: near_def log10_of_2_eq signed_def y_def log_num_def power_int_minus)
  then have "near (ulp * \<bar>y\<bar> + ulp) (double_mul (double_of_int a) log10_of_2) (real_of_int a * y)"
    using a ay y by (intro near_mul near_of_int) (simp_all add: ulp_def)
  moreover have "near ulp (double_of_int 347) 347" using near_of_int [of 347] by simp
  ultimately have n: "near (ulp * \<bar>y\<bar> + ulp + ulp + ulp) dk (real_of_int a * y + 347)"
    unfolding dk_def by (rule near_add) (use ay y in \<open>simp add: ulp_def\<close>)
  define k where "k = \<lceil>real_of_double dk\<rceil>"
  have k: "truncated dk + (if has_fraction dk then 1 else 0) = k"
    unfolding k_def by (rule truncated_up [OF n]) (use ay y in \<open>simp add: ulp_def\<close>)
  have r: "\<bar>real_of_double dk - (real_of_int a * y + 347)\<bar> \<le> 4 * ulp"
    using n y by (auto simp: near_def ulp_def)
  have k_real: "real_of_int k - 1 < real_of_double dk" "real_of_double dk \<le> real_of_int k"
    by (simp_all add: k_def) linarith
  define i where "i = nat (k div 8 + 1)"
  have "ulp \<le> 1" by (simp add: ulp_def)
  then have "0 < real_of_int k" using k_real(2) r ay by linarith
  then have "0 \<le> k" by simp
  then have idx: "k div 8 + 1 = int i" and i: "8 * int i - 8 \<le> k" "k \<le> 8 * int i - 1"
    by (simp_all add: i_def)
  then have i_real: "8 * real i - 8 \<le> real_of_int k" "real_of_int k \<le> 8 * real i - 1" by linarith+
  have scaled: "real_of_int a * real_of_int log_num = real_of_int a * y * 2 ^ 54" by (simp add: y_def)
  have bounds: "8 * real i - 356 - 4 * ulp < real_of_int a * y"
    "real_of_int a * y \<le> 8 * real i - 348 + 4 * ulp"
    using k_real i_real r by linarith+
  have lower: "real_of_int ((8 * int i - 356) * 2 ^ 54 - 2 ^ 14) < real_of_int (a * log_num)"
    using bounds(1) by (simp add: scaled ulp_def)
  have upper: "real_of_int (a * log_num) \<le> real_of_int ((8 * int i - 348) * 2 ^ 54 + 2 ^ 14)"
    using bounds(2) by (simp add: scaled ulp_def)
  from lower have lower: "(8 * int i - 356) * 2 ^ 54 - 2 ^ 14 < a * log_num" by (simp only: of_int_less_iff)
  from upper have upper: "a * log_num \<le> (8 * int i - 348) * 2 ^ 54 + 2 ^ 14" by (simp only: of_int_le_iff)
  have "i < 87" using lower a by (simp add: log_num_def)
  moreover have "GetCachedPower e =
      Inr (\<lparr>fp = kCachedPowers_F ! i, exponent = kCachedPowers_E ! i\<rparr>, 348 - 8 * int i)"
    using \<open>i < 87\<close> k
    by (simp add: GetCachedPower_def Let_def GetCachedPowerByIndex_def kCachedPowers_F_def idx
        flip: a_def dk_def)
  moreover have "arg_min i \<le> - 61 - e" "- 61 - e \<le> arg_max i"
    unfolding arg_min_def arg_max_def a_def [symmetric]
    using lower upper by (auto intro!: div_le_arg arg_le_div simp: log_num_def)
  ultimately show ?thesis by (rule that)
qed

end
