(* ===== verification/DtoaDigits.thy ===== *)
theory DtoaDigits
  imports DtoaPowers
begin

text \<open>
  Facts about the digits \<open>dtoa\<close> generates: the loops end, at most seventeen digits come out,
  and the decimal number they form lies in the interval that was asked for.  Where \<open>kPow10\<close> is
  read past its end, no number with nine digits after the point lies in the interval.
\<close>

section \<open>The value of the buffer\<close>

definition digit_value :: "char \<Rightarrow> int" where
  "digit_value c = int (of_char c - 48)"

definition buffer_value :: "string \<Rightarrow> int" where
  "buffer_value b = int (digits_value b)"

lemma buffer_value_Nil [simp]: "buffer_value [] = 0"
  by (simp add: buffer_value_def digits_value_def)

lemma buffer_value_snoc: "buffer_value (b @ [c]) = 10 * buffer_value b + digit_value c"
  by (simp add: buffer_value_def digits_value_snoc digit_value_def)

lemma digit_char: "d < 10 \<Longrightarrow> is_digit (char_of (48 + d)) \<and> digit_value (char_of (48 + d)) = int d"
  using char_digit [of d] by (simp add: digit_value_def)

lemma put_digit_length: "length (put_digit d b) \<le> Suc (length b)"
  by (simp add: put_digit_def)

lemma put_digit_nonempty: "b \<noteq> [] \<or> d \<noteq> 0 \<Longrightarrow> put_digit d b \<noteq> []"
  by (auto simp: put_digit_def)

lemma put_digit_value: "d < 10 \<Longrightarrow> buffer_value (put_digit d b) = 10 * buffer_value b + int d"
  using digit_char [of d] by (auto simp: put_digit_def buffer_value_snoc)

lemma put_digit_digits: "d < 10 \<Longrightarrow> list_all is_digit b \<Longrightarrow> list_all is_digit (put_digit d b)"
  using digit_char [of d] by (auto simp: put_digit_def)

lemma put_digit_last: "d < 10 \<Longrightarrow> b \<noteq> [] \<or> d \<noteq> 0 \<Longrightarrow> digit_value (last (put_digit d b)) = int d"
  using digit_char [of d] by (auto simp: put_digit_def)

section \<open>Rounding\<close>

lemma decrement_last_ok:
  assumes "b \<noteq> []" and "list_all is_digit b" and "0 < digit_value (last b)"
  shows "length (decrement_last b) = length b" and "list_all is_digit (decrement_last b)"
    and "buffer_value (decrement_last b) = buffer_value b - 1"
    and "digit_value (last (decrement_last b)) = digit_value (last b) - 1"
proof -
  have "is_digit (last b)" using assms(1,2) by (simp add: list_all_iff)
  then obtain k where k: "(of_char (last b) :: nat) = 48 + Suc k" "k < 9"
    using assms(3) by (intro that [of "of_char (last b) - 49"]) (auto simp: is_digit_def digit_value_def)
  have "(char_of (of_char (last b) + (255 :: nat)) :: char) = char_of ((48 + k) + 256 :: nat)"
    by (simp add: k)
  also have "\<dots> = char_of (48 + k)" by (metis char_of_mod_256 mod_add_self2)
  finally have d: "decrement_last b = butlast b @ [char_of (48 + k)]" by (simp only: decrement_last_def)
  have v: "digit_value (last b) = int (Suc k)" by (simp add: digit_value_def k)
  note c = digit_char [of k]
  have "buffer_value b = 10 * buffer_value (butlast b) + digit_value (last b)"
    using buffer_value_snoc [of "butlast b" "last b"] assms(1) by simp
  with c k(2) v show "buffer_value (decrement_last b) = buffer_value b - 1"
    by (simp only: d buffer_value_snoc)
  show "length (decrement_last b) = length b" using assms(1) by (simp add: d)
  show "digit_value (last (decrement_last b)) = digit_value (last b) - 1" using c k(2) v by (simp add: d)
  show "list_all is_digit (decrement_last b)"
    using assms(2) c k(2) by (auto simp: d list_all_iff dest: in_set_butlastD)
qed

lemma Grisu_closer_step:
  assumes "Grisu_closer delta ten wp_w r" and "r \<le> delta"
  shows "uint (r + ten) = uint r + uint ten" and "uint r + uint ten \<le> uint delta"
proof -
  have "uint ten \<le> uint (delta - r)"
    using assms(1) by (simp add: Grisu_closer_def word_le_def)
  also have "\<dots> = uint delta - uint r" using assms(2) by (simp add: uint_sub_lem [THEN iffD1] word_le_def)
  finally show le: "uint r + uint ten \<le> uint delta" by simp
  then show "uint (r + ten) = uint r + uint ten"
    using uint_lt2p [of delta] by (intro uint_add_lem [THEN iffD1]) simp
qed

text \<open>
  Rounding keeps the sum of number and rest, and the rest within \<open>delta\<close>, provided that the
  last digit was needed: without it the rest had been \<open>delta\<close> or more.
\<close>

fun round_inv :: "string \<Rightarrow> u64 \<Rightarrow> u64 \<Rightarrow> u64 \<Rightarrow> string \<times> u64 \<Rightarrow> bool" where
  "round_inv buffer delta rest ten (b, r) \<longleftrightarrow>
     length b = length buffer \<and> list_all is_digit b \<and> r \<le> delta \<and>
     buffer_value b * uint ten + uint r = buffer_value buffer * uint ten + uint rest \<and>
     uint delta \<le> uint r + digit_value (last b) * uint ten"

lemma round_inv_step:
  assumes "round_inv buffer delta rest ten (b, r)" and "Grisu_closer delta ten wp_w r"
    and "buffer \<noteq> []" and "ten \<noteq> 0"
  shows "round_inv buffer delta rest ten (decrement_last b, r + ten)"
    and "nat (uint delta - uint (r + ten)) < nat (uint delta - uint r)"
proof -
  have r: "r \<le> delta" using assms(1) by simp
  note s = Grisu_closer_step [OF assms(2) r]
  have t: "0 < uint ten" using assms(4) by (simp add: word_neq_0_conv word_less_def)
  have "uint ten \<le> digit_value (last b) * uint ten" using assms(1) s(2) by simp
  then have q: "0 < digit_value (last b)" using t by (simp add: mult_le_cancel_right1)
  have b: "b \<noteq> []" "list_all is_digit b" using assms(1,3) by auto
  note d = decrement_last_ok [OF b q]
  show "round_inv buffer delta rest ten (decrement_last b, r + ten)"
    using assms(1) d s by (simp add: word_le_def left_diff_distrib)
  show "nat (uint delta - uint (r + ten)) < nat (uint delta - uint r)" using s t by simp
qed

lemma GrisuRound_ok:
  assumes "buffer \<noteq> []" and "list_all is_digit buffer" and "rest \<le> delta" and "ten \<noteq> 0"
    and "uint delta \<le> uint rest + digit_value (last buffer) * uint ten"
  shows "\<exists>b r. GrisuRound buffer delta rest ten wp_w = Inr b \<and> length b = length buffer \<and> list_all is_digit b \<and>
    buffer_value b * uint ten + r = buffer_value buffer * uint ten + uint rest \<and> 0 \<le> r \<and> r \<le> uint delta"
proof -
  let ?b = "\<lambda>(b :: string, r). Grisu_closer delta ten wp_w r"
  let ?c = "\<lambda>(b, r). (decrement_last b, r + ten)"
  let ?I = "round_inv buffer delta rest ten"
  let ?m = "\<lambda>x :: string \<times> u64. nat (uint delta - uint (snd x))"
  have step: "?I (?c x) \<and> ?m (?c x) < ?m x" if "?I x" "?b x" for x
    using that round_inv_step [OF _ _ assms(1,4), of delta rest "fst x" "snd x" wp_w]
    by (cases x) (simp del: round_inv.simps)
  have I: "?I (buffer, rest)" using assms by simp
  then obtain t where t: "while_option ?b ?c (buffer, rest) = Some t"
    using measure_while_option_Some [of ?I ?b ?c ?m] step by blast
  have "?I t" by (rule while_option_rule [OF _ t]) (use step I in auto)
  moreover obtain b r where "t = (b, r)" by (cases t)
  ultimately show ?thesis
    using t assms(1) by (intro exI [of _ b] exI [of _ "uint r"]) (simp add: GrisuRound_def word_le_def)
qed

section \<open>Digits before the point\<close>

lemma uint_of_int: "0 \<le> i \<Longrightarrow> i < 2 ^ 64 \<Longrightarrow> uint (word_of_int i :: u64) = i"
  by (simp add: unsigned_of_int take_bit_int_eq_self)

lemma kPow10_nth: "i < 10 \<Longrightarrow> uint (kPow10 ! i) = 10 ^ i"
proof -
  have "list_all (\<lambda>i. uint (kPow10 ! i) = 10 ^ i) [0..<10]" by code_simp
  then show "i < 10 \<Longrightarrow> uint (kPow10 ! i) = 10 ^ i" by (simp add: list_all_iff)
qed

lemma uint_push:
  fixes x :: u32
  assumes "uint x * 2 ^ sh < 2 ^ 64"
  shows "uint (push_bit sh (ucast x) :: u64) = uint x * 2 ^ sh"
proof -
  have "uint (ucast x :: u64) = uint x"
    using uint_lt2p [of x] unfolding unsigned_ucast_eq by (simp add: take_bit_int_eq_self)
  then show ?thesis
    using assms by (simp add: unsigned_push_bit_eq) (simp add: push_bit_eq_mult take_bit_int_eq_self)
qed

text \<open>One digit: what is left of the integer part, and the value of the digit.\<close>

lemma digit_step:
  fixes p1 :: u32
  assumes "kappa < 9" and "uint p1 < 10 ^ Suc kappa"
  shows "uint (p1 mod 10 ^ kappa) = uint p1 mod 10 ^ kappa" and "uint (p1 div 10 ^ kappa) = uint p1 div 10 ^ kappa"
    and "unat (p1 div 10 ^ kappa) < 10"
    and "uint p1 = int (unat (p1 div 10 ^ kappa)) * 10 ^ kappa + uint (p1 mod 10 ^ kappa)"
proof -
  have ten: "uint ((10 :: u32) ^ kappa) = 10 ^ kappa"
  proof -
    have "(10 :: int) ^ kappa \<le> 10 ^ 9" using assms(1) by (intro power_increasing) simp_all
    moreover have "(10 :: u32) ^ kappa = word_of_int (10 ^ kappa)" by simp
    ultimately show ?thesis by (simp only: unsigned_of_int) (simp add: take_bit_int_eq_self)
  qed
  show m: "uint (p1 mod 10 ^ kappa) = uint p1 mod 10 ^ kappa" and d: "uint (p1 div 10 ^ kappa) = uint p1 div 10 ^ kappa"
    by (simp_all add: uint_mod_distrib uint_div_distrib ten)
  have "uint p1 div 10 ^ kappa < 10"
    using div_le_arg [of "10 ^ kappa" "uint p1" 10] assms(2) by simp
  then have "uint (p1 div 10 ^ kappa) < 10" by (simp only: d)
  then show "unat (p1 div 10 ^ kappa) < 10" by (simp flip: of_nat_less_iff [where ?'a = int])
  show "uint p1 = int (unat (p1 div 10 ^ kappa)) * 10 ^ kappa + uint (p1 mod 10 ^ kappa)"
    by (simp add: m d) (metis div_mult_mod_eq)
qed

text \<open>
  \<open>T\<close> is the value, in units of \<open>2 powi - sh\<close>, that the digits so far and what is left add up
  to.  Either the digits end here, close enough below \<open>T\<close>, or all digits before the point are
  written and the rest is still too large.
\<close>

definition close_below :: "nat \<Rightarrow> int \<Rightarrow> int \<Rightarrow> string \<Rightarrow> int \<Rightarrow> bool" where
  "close_below sh T delta b k \<longleftrightarrow>
     (T - delta) * 10 ^ nat (- k) \<le> buffer_value b * 10 ^ nat k * 2 ^ sh \<and>
     buffer_value b * 10 ^ nat k * 2 ^ sh \<le> T * 10 ^ nat (- k)"

lemma DigitGen_int_ok:
  assumes "uint p1 * 2 ^ sh + uint p2 < 2 ^ 64" and "10 ^ (kappa - 1) * 2 ^ sh < (2 :: int) ^ 64"
    and "kappa < 10" and "uint p1 < 10 ^ kappa"
    and "buffer \<noteq> [] \<or> 0 < kappa \<and> 10 ^ (kappa - 1) \<le> uint p1" and "list_all is_digit buffer"
    and "uint delta \<le> uint p1 * 2 ^ sh + uint p2"
    and "T = (buffer_value buffer * 10 ^ kappa + uint p1) * 2 ^ sh + uint p2"
  shows "case DigitGen_int sh p2 delta wp_w kappa p1 buffer of
      Inl (Inl f) \<Rightarrow> False
    | Inl (Inr (b, k)) \<Rightarrow> b \<noteq> [] \<and> length b \<le> length buffer + kappa \<and> list_all is_digit b \<and>
        close_below sh T (uint delta) b k \<and> 0 \<le> k \<and> k < int kappa
    | Inr b \<Rightarrow> b \<noteq> [] \<and> length b \<le> length buffer + kappa \<and> list_all is_digit b \<and>
        (0 < kappa \<longrightarrow> delta < p2) \<and> T = buffer_value b * 2 ^ sh + uint p2"
  using assms
proof (induction sh p2 delta wp_w kappa p1 buffer rule: DigitGen_int.induct)
  case (1 sh p2 delta wp_w p1 buffer)
  then have "uint p1 < 1" by simp
  then have "uint p1 = 0" using uint_ge_0 [of p1] by linarith
  with 1 show ?case by simp
next
  case (2 sh p2 delta wp_w kappa p1 buffer)
  define d where "d = p1 div 10 ^ kappa"
  define p1' where "p1' = p1 mod 10 ^ kappa"
  define buffer' where "buffer' = put_digit (unat d) buffer"
  define tmp where "tmp = push_bit sh (ucast p1') + p2"
  define ten :: u64 where "ten = push_bit sh (ucast (kPow10 ! kappa))"
  have kappa: "kappa < 9" using 2(4) by simp
  note digit = digit_step [OF kappa 2(5), folded d_def p1'_def]
  have le: "uint p1' * 2 ^ sh \<le> uint p1 * 2 ^ sh"
    by (intro mult_right_mono) (simp_all add: digit(4))
  then have push: "uint (push_bit sh (ucast p1') :: u64) = uint p1' * 2 ^ sh"
    using 2(2) uint_ge_0 [of p2] by (intro uint_push) linarith
  have tmp: "uint tmp = uint p1' * 2 ^ sh + uint p2"
  proof -
    have "uint (push_bit sh (ucast p1') :: u64) + uint p2 < 2 ^ 64" using le 2(2) push by linarith
    then have "uint (push_bit sh (ucast p1') + p2) = uint (push_bit sh (ucast p1') :: u64) + uint p2"
      by (intro uint_add_lem [THEN iffD1]) simp
    then show ?thesis by (simp only: tmp_def push)
  qed
  have ten: "uint ten = 10 ^ kappa * 2 ^ sh"
    unfolding ten_def using kappa 2(3) by (simp add: uint_push kPow10_nth)
  have d: "d \<noteq> 0" if "10 ^ kappa \<le> uint p1"
    using that digit(2) zdiv_mono1 [OF that, of "10 ^ kappa"] by auto
  have b: "buffer \<noteq> [] \<or> unat d \<noteq> 0"
    using 2(6) d by (auto simp: unsigned_eq_0_iff)
  then have ne: "buffer' \<noteq> []" unfolding buffer'_def by (rule put_digit_nonempty)
  have len: "length buffer' \<le> Suc (length buffer)" unfolding buffer'_def by (rule put_digit_length)
  have ds: "list_all is_digit buffer'" unfolding buffer'_def by (rule put_digit_digits [OF digit(3) 2(7)])
  have sum: "uint p1 * 2 ^ sh + uint p2 = uint tmp + int (unat d) * uint ten"
    by (simp add: tmp ten digit(4) algebra_simps)
  have T: "T = (buffer_value buffer' * 10 ^ kappa + uint p1') * 2 ^ sh + uint p2"
    by (simp add: 2(9) buffer'_def put_digit_value [OF digit(3)] digit(4) algebra_simps)
  have unfold: "DigitGen_int sh p2 delta wp_w (Suc kappa) p1 buffer =
      (if tmp \<le> delta
       then Inl (map_sum id (\<lambda>b. (b, int kappa)) (GrisuRound buffer' delta tmp ten wp_w))
       else DigitGen_int sh p2 delta wp_w kappa p1' buffer')"
    by (simp add: Let_def d_def p1'_def buffer'_def tmp_def ten_def)
  show ?case
  proof (cases "tmp \<le> delta")
    case True
    have "0 < uint ten" by (simp add: ten)
    then have "ten \<noteq> 0" by auto
    moreover have "uint delta \<le> uint tmp + digit_value (last buffer') * uint ten"
      using 2(8) put_digit_last [OF digit(3) b] by (simp add: buffer'_def sum)
    ultimately obtain b r where r: "GrisuRound buffer' delta tmp ten wp_w = Inr b" "length b = length buffer'"
      "list_all is_digit b" "buffer_value b * uint ten + r = buffer_value buffer' * uint ten + uint tmp"
      "0 \<le> r" "r \<le> uint delta"
      using GrisuRound_ok [OF ne ds True] by blast
    have "buffer_value b * 10 ^ kappa * 2 ^ sh + r = T"
      using r(4) by (simp add: T tmp ten algebra_simps)
    then have "close_below sh T (uint delta) b (int kappa)"
      using r(5,6) by (simp add: close_below_def)
    with True r(1-3) ne len show ?thesis unfolding unfold by auto
  next
    case False
    have less: "uint delta < uint tmp" using False by (simp add: word_le_def)
    have small: "10 ^ (kappa - 1) * 2 ^ sh < (2 :: int) ^ 64"
    proof -
      have "(10 :: int) ^ (kappa - 1) * 2 ^ sh \<le> 10 ^ kappa * 2 ^ sh"
        by (intro mult_right_mono power_increasing) simp_all
      also have "\<dots> < 2 ^ 64" using 2(3) by simp
      finally show ?thesis .
    qed
    have p1': "uint p1' < 10 ^ kappa" by (simp add: digit(1))
    have bound: "uint p1' * 2 ^ sh + uint p2 < 2 ^ 64" using le 2(2) by linarith
    have IH: "case DigitGen_int sh p2 delta wp_w kappa p1' buffer' of
        Inl (Inl f) \<Rightarrow> False
      | Inl (Inr (b, k)) \<Rightarrow> b \<noteq> [] \<and> length b \<le> length buffer' + kappa \<and> list_all is_digit b \<and>
          close_below sh T (uint delta) b k \<and> 0 \<le> k \<and> k < int kappa
      | Inr b \<Rightarrow> b \<noteq> [] \<and> length b \<le> length buffer' + kappa \<and> list_all is_digit b \<and>
          (0 < kappa \<longrightarrow> delta < p2) \<and> T = buffer_value b * 2 ^ sh + uint p2"
      by (rule 2(1) [OF d_def p1'_def buffer'_def tmp_def False bound small _ p1' _ ds _ T])
         (use kappa ne less in \<open>simp_all add: tmp\<close>)
    have e: "DigitGen_int sh p2 delta wp_w (Suc kappa) p1 buffer = DigitGen_int sh p2 delta wp_w kappa p1' buffer'"
      using False unfold by (simp only: if_False)
    have "delta < p2" if "kappa = 0"
    proof -
      have "uint p1' < 1" using p1' that by simp
      then have "uint p1' = 0" using uint_ge_0 [of p1'] by linarith
      with less show ?thesis by (simp add: tmp word_less_def)
    qed
    with IH len show ?thesis unfolding e by (fastforce split: sum.splits)
  qed
qed

section \<open>Digits after the point\<close>

lemma uint_two_power: "sh < 64 \<Longrightarrow> uint (2 ^ sh :: u64) = 2 ^ sh"
proof -
  assume "sh < 64"
  moreover have "(2 :: u64) ^ sh = word_of_int (2 ^ sh)" by simp
  ultimately show ?thesis by (simp only: unsigned_of_int) (simp add: take_bit_int_eq_self)
qed

lemma two_power_nonzero: "sh < 64 \<Longrightarrow> (2 :: u64) ^ sh \<noteq> 0"
  using uint_two_power [of sh] by (metis power_not_zero unsigned_0 zero_neq_numeral)

lemma uint_low_bits:
  assumes "sh < 64"
  shows "uint (x AND (2 ^ sh - 1) :: u64) = uint x mod 2 ^ sh"
proof -
  have "x AND (2 ^ sh - 1) = take_bit sh x" by (simp only: take_bit_eq_mask mask_eq_exp_minus_1)
  then have "uint (x AND (2 ^ sh - 1)) = take_bit sh (uint x)" by (simp only: unsigned_take_bit_eq)
  then show ?thesis by (simp only: take_bit_eq_mod)
qed

text \<open>One digit: the next rest and the value of the digit.\<close>

lemma frac_digit:
  fixes p2 :: u64
  assumes "sh \<le> 60" and "uint p2 < 2 ^ sh"
  defines "d \<equiv> unat (ucast (drop_bit sh (p2 * 10)) :: u8)"
  shows "d < 10" and "uint p2 * 10 = int d * 2 ^ sh + uint (p2 * 10 AND (2 ^ sh - 1))"
    and "uint (p2 * 10 AND (2 ^ sh - 1)) < 2 ^ sh"
proof -
  have "(2 :: int) ^ sh \<le> 2 ^ 60" using assms(1) by (intro power_increasing) simp_all
  then have p10: "uint (p2 * 10) = uint p2 * 10"
    using assms(2) uint_mult_lem [of p2 10] by simp
  have m: "uint (p2 * 10 AND (2 ^ sh - 1)) = uint p2 * 10 mod 2 ^ sh"
    using assms(1) by (simp add: uint_low_bits p10)
  have q: "0 \<le> uint p2 * 10 div 2 ^ sh" "uint p2 * 10 div 2 ^ sh < 10"
    using div_le_arg [of "2 ^ sh" "uint p2 * 10" 10] assms(2) by (simp_all add: pos_imp_zdiv_nonneg_iff)
  have "uint (drop_bit sh (p2 * 10)) = uint p2 * 10 div 2 ^ sh"
    unfolding unsigned_drop_bit_eq p10
    using p10 uint_lt2p [of "p2 * 10"] by (simp add: drop_bit_eq_div take_bit_int_eq_self)
  then have "uint (ucast (drop_bit sh (p2 * 10)) :: u8) = uint p2 * 10 div 2 ^ sh"
    unfolding unsigned_ucast_eq using q by (simp only:) (simp add: take_bit_int_eq_self)
  then have d: "int d = uint p2 * 10 div 2 ^ sh" by (simp add: d_def)
  show "d < 10" using d q(2) by linarith
  show "uint p2 * 10 = int d * 2 ^ sh + uint (p2 * 10 AND (2 ^ sh - 1))"
    unfolding d m by (metis div_mult_mod_eq)
  show "uint (p2 * 10 AND (2 ^ sh - 1)) < 2 ^ sh" by (simp add: m)
qed

text \<open>
  Each digit keeps the sum; before the next digit, and before the first, the rest was not below
  \<open>delta\<close>.
\<close>

fun frac_inv :: "nat \<Rightarrow> int \<Rightarrow> u64 \<Rightarrow> nat \<Rightarrow> u64 \<times> u64 \<times> nat \<times> string \<Rightarrow> bool" where
  "frac_inv sh T delta kappa (p2, dl, n, b) \<longleftrightarrow>
     uint p2 < 2 ^ sh \<and> uint dl = uint delta * 10 ^ n \<and> kappa + n \<le> 17 \<and> b \<noteq> [] \<and> length b \<le> kappa + n \<and>
     list_all is_digit b \<and> buffer_value b * 2 ^ sh + uint p2 = T * 10 ^ n \<and>
     (0 < n \<longrightarrow> uint dl \<le> uint p2 + digit_value (last b) * 2 ^ sh) \<and>
     (\<forall>j<n. uint delta * 10 ^ j \<le> T * 10 ^ j mod 2 ^ sh)"

lemma frac_inv_step:
  assumes "frac_inv sh T delta kappa (p2, dl, n, b)" and "\<not> p2 < dl"
    and "sh \<le> 60" and "0 < kappa" and ratio: "10 ^ (kappa - 1) * 2 ^ sh < 10 ^ 16 * uint delta"
  shows "frac_inv sh T delta kappa (DigitGen_step sh (p2, dl, n, b))" and "n < 17"
proof -
  have le: "uint dl \<le> uint p2" and p2: "uint p2 < 2 ^ sh" using assms(1,2) by (auto simp: word_less_def)
  have "(2 :: int) ^ sh \<le> 2 ^ 60" using assms(3) by (intro power_increasing) simp_all
  then have dl10: "uint (dl * 10) = uint delta * 10 ^ Suc n"
    using le p2 assms(1) uint_mult_lem [of dl 10] by simp
  have small: "kappa + n \<le> 16"
  proof (rule ccontr)
    assume "\<not> kappa + n \<le> 16"
    then have n: "kappa - 1 + n = 16" using assms(1,4) by auto
    have "10 ^ (kappa - 1) * 2 ^ sh * 10 ^ n < 10 ^ 16 * uint delta * (10 :: int) ^ n"
      using ratio by (intro mult_strict_right_mono) simp_all
    also have "\<dots> = 10 ^ 16 * uint dl" using assms(1) by simp
    also have "10 ^ (kappa - 1) * 2 ^ sh * (10 :: int) ^ n = 10 ^ 16 * 2 ^ sh"
      using n by (metis mult.assoc mult.commute power_add)
    finally show False using le p2 by simp
  qed
  show "n < 17" using small by simp
  define d where "d = unat (ucast (drop_bit sh (p2 * 10)) :: u8)"
  note digit = frac_digit [OF assms(3) p2, folded d_def]
  have b: "b \<noteq> []" "list_all is_digit b" using assms(1) by simp_all
  have sum: "buffer_value (put_digit d b) * 2 ^ sh + uint (p2 * 10 AND (2 ^ sh - 1)) = T * 10 ^ Suc n"
  proof -
    have "T * 10 ^ Suc n = 10 * (buffer_value b * 2 ^ sh + uint p2)" using assms(1) by simp
    then show ?thesis using digit(2) by (simp add: put_digit_value [OF digit(1)] algebra_simps)
  qed
  have rest: "T * 10 ^ n mod 2 ^ sh = uint p2"
  proof -
    have "T * 10 ^ n = uint p2 + buffer_value b * 2 ^ sh" using assms(1) by simp
    then show ?thesis using p2 by (simp only: mod_mult_self1) (simp add: mod_pos_pos_trivial)
  qed
  have below: "\<forall>j<Suc n. uint delta * 10 ^ j \<le> T * 10 ^ j mod 2 ^ sh"
    using assms(1) le by (auto simp: less_Suc_eq rest)
  have "uint (dl * 10) \<le> uint (p2 * 10 AND (2 ^ sh - 1)) + digit_value (last (put_digit d b)) * 2 ^ sh"
    using le digit(2) dl10 assms(1) by (simp add: put_digit_last [OF digit(1)] b)
  then show "frac_inv sh T delta kappa (DigitGen_step sh (p2, dl, n, b))"
    using small dl10 digit(3) sum below b put_digit_length [of d b] put_digit_nonempty [of b d]
      put_digit_digits [OF digit(1) b(2)] assms(1)
    by (simp add: DigitGen_step_def Let_def flip: d_def)
qed

text \<open>The index past \<open>kPow10\<close> means that nine digits after the point were not enough.\<close>

lemma DigitGen_frac_ok:
  assumes "sh \<le> 60" and "delta \<le> p2" and "uint p2 < 2 ^ sh" and "0 < kappa" and "kappa < 10"
    and "buffer \<noteq> []" and "length buffer \<le> kappa" and "list_all is_digit buffer"
    and T: "T = buffer_value buffer * 2 ^ sh + uint p2"
    and ratio: "10 ^ (kappa - 1) * 2 ^ sh < 10 ^ 16 * uint delta"
  shows "case DigitGen_frac sh p2 delta wp_w buffer of
      Inl f \<Rightarrow> \<exists>n. f = PastPow10 n \<and> 10 \<le> n \<and> n \<le> 16 \<and>
        (\<forall>j<10. uint delta * 10 ^ j \<le> T * 10 ^ j mod 2 ^ sh)
    | Inr (b, k) \<Rightarrow> b \<noteq> [] \<and> length b \<le> 17 \<and> list_all is_digit b \<and>
        close_below sh T (uint delta) b k \<and> - 10 < k \<and> k \<le> 0"
proof -
  let ?b = "\<lambda>(p2, delta, n, buffer). \<not> p2 < delta"
  let ?I = "frac_inv sh T delta kappa"
  let ?n = "\<lambda>x :: u64 \<times> u64 \<times> nat \<times> string. fst (snd (snd x))"
  have step: "?I (DigitGen_step sh x) \<and> ?n (DigitGen_step sh x) = Suc (?n x) \<and> ?n x < 17"
    if "?I x" "?b x" for x
  proof -
    obtain p2 dl n b where x: "x = (p2, dl, n, b)" by (cases x)
    have "\<not> p2 < dl" using that(2) by (simp add: x)
    note frac_inv_step [OF that(1) [unfolded x] this assms(1,4) ratio]
    moreover have "fst (snd (snd (DigitGen_step sh x))) = Suc n" by (simp add: x DigitGen_step_def Let_def)
    ultimately show ?thesis by (simp add: x)
  qed
  let ?J = "\<lambda>x. ?I x \<and> 0 < ?n x"
  have J: "?J (DigitGen_step sh (p2, delta, 0, buffer))"
    using assms step [of "(p2, delta, 0, buffer)"] by (simp add: not_less)
  then obtain t where t: "while_option ?b (DigitGen_step sh) (DigitGen_step sh (p2, delta, 0, buffer)) = Some t"
    using measure_while_option_Some [of ?J ?b "DigitGen_step sh" "\<lambda>x. 17 - ?n x"] step
    by (metis (no_types, lifting) Suc_diff_Suc lessI zero_less_Suc)
  have Jt: "?J t" by (rule while_option_rule [OF _ t, of ?J]) (use step J in auto)
  obtain q dl n b where x: "t = (q, dl, n, b)" by (cases t)
  have stop: "q < dl" using while_option_stop [OF t] by (simp add: x)
  have inv: "uint dl = uint delta * 10 ^ n" "kappa + n \<le> 17" "b \<noteq> []" "length b \<le> kappa + n" "list_all is_digit b"
    "buffer_value b * 2 ^ sh + uint q = T * 10 ^ n" "uint dl \<le> uint q + digit_value (last b) * 2 ^ sh"
    "\<forall>j<n. uint delta * 10 ^ j \<le> T * 10 ^ j mod 2 ^ sh" "0 < n"
    using Jt unfolding x frac_inv.simps fst_conv snd_conv by blast+
  show ?thesis
  proof (cases "10 \<le> n")
    case True
    then have "DigitGen_frac sh p2 delta wp_w buffer = Inl (PastPow10 n)"
      using t by (simp add: DigitGen_frac_def x kPow10_def)
    with True inv(2,8) assms(4) show ?thesis by auto
  next
    case False
    have two: "(2 :: u64) ^ sh \<noteq> 0" "uint (2 ^ sh :: u64) = 2 ^ sh"
      using assms(1) by (simp_all add: two_power_nonzero uint_two_power)
    obtain b' r where b': "GrisuRound b dl q (2 ^ sh) (wp_w * ucast (kPow10 ! n)) = Inr b'"
      "length b' = length b" "list_all is_digit b'"
      "buffer_value b' * 2 ^ sh + r = buffer_value b * 2 ^ sh + uint q" "0 \<le> r" "r \<le> uint dl"
      using GrisuRound_ok [OF inv(3,5) less_imp_le [OF stop] two(1), of "wp_w * ucast (kPow10 ! n)"] inv(7)
      unfolding two(2) by blast
    have "DigitGen_frac sh p2 delta wp_w buffer = Inr (b', - int n)"
      using t b'(1) False by (simp add: DigitGen_frac_def x kPow10_def)
    moreover have "close_below sh T (uint delta) b' (- int n)"
      using b'(4-6) inv(1,6) by (simp add: close_below_def left_diff_distrib)
    moreover have "b' \<noteq> []" using b'(2) inv(3) by auto
    ultimately show ?thesis using b'(2,3) inv(2,4) False by simp
  qed
qed

section \<open>All digits\<close>

lemma CountDecimalDigit32_ok:
  assumes "0 < uint n" and "uint n < 10 ^ 9"
  shows "0 < CountDecimalDigit32 n" and "CountDecimalDigit32 n < 10"
    and "10 ^ (CountDecimalDigit32 n - 1) \<le> uint n" and "uint n < 10 ^ CountDecimalDigit32 n"
  using assms by (auto simp: CountDecimalDigit32_def word_less_def)

text \<open>The scaled upper bound \<open>P\<close> has at most nine digits before the point.\<close>

lemma DigitGen_ok:
  assumes sh: "34 \<le> sh" "sh \<le> 60" and P: "2 ^ sh \<le> P" "P < 10 ^ 9 * 2 ^ sh" "P < 2 ^ 64"
    and delta: "P < 10 ^ 16 * uint delta" "uint delta \<le> P"
  shows "case DigitGen W \<lparr>fp = word_of_int P, exponent = - int sh\<rparr> delta K of
      Inl f \<Rightarrow> \<exists>n. f = PastPow10 n \<and> 10 \<le> n \<and> n \<le> 16 \<and>
        (\<forall>j<10. uint delta * 10 ^ j \<le> P * 10 ^ j mod 2 ^ sh)
    | Inr (b, k) \<Rightarrow> b \<noteq> [] \<and> length b \<le> 17 \<and> list_all is_digit b \<and>
        close_below sh P (uint delta) b (k - K) \<and> - 10 < k - K \<and> k - K < 10"
proof -
  define wp_w where "wp_w = word_of_int P - fp W"
  define p1 :: u32 where "p1 = ucast (drop_bit sh (word_of_int P :: u64))"
  define p2 :: u64 where "p2 = word_of_int P AND (2 ^ sh - 1)"
  define kappa where "kappa = CountDecimalDigit32 p1"
  have "0 \<le> P" using P(1) by (rule order_trans [rotated]) simp
  then have P': "uint (word_of_int P :: u64) = P" using P(3) by (rule uint_of_int)
  have q: "1 \<le> P div 2 ^ sh" "P div 2 ^ sh < 10 ^ 9"
    using P(1,2) zdiv_mono1 [OF P(1), of "2 ^ sh"] div_le_arg [of "2 ^ sh" P "10 ^ 9"] by simp_all
  have "uint (drop_bit sh (word_of_int P :: u64)) = P div 2 ^ sh"
    unfolding unsigned_drop_bit_eq P' using \<open>0 \<le> P\<close> P(3) by (simp add: drop_bit_eq_div take_bit_int_eq_self)
  then have p1: "uint p1 = P div 2 ^ sh"
    unfolding p1_def unsigned_ucast_eq using q by (simp only:) (simp add: take_bit_int_eq_self)
  have p2: "uint p2 = P mod 2 ^ sh" using sh(2) by (simp add: p2_def uint_low_bits P')
  have sum: "uint p1 * 2 ^ sh + uint p2 = P" by (simp only: p1 p2 div_mult_mod_eq)
  note k = CountDecimalDigit32_ok [of p1, folded kappa_def, unfolded p1]
  have k: "0 < kappa" "kappa < 10" "10 ^ (kappa - 1) \<le> uint p1" "uint p1 < 10 ^ kappa"
    using k q by (simp_all add: p1)
  have "10 ^ (kappa - 1) * 2 ^ sh \<le> uint p1 * 2 ^ sh"
    using k(3) by (intro mult_right_mono) simp_all
  then have unit: "10 ^ (kappa - 1) * 2 ^ sh \<le> P" using sum uint_ge_0 [of p2] by linarith
  have eq: "DigitGen W \<lparr>fp = word_of_int P, exponent = - int sh\<rparr> delta K =
      map_sum id (\<lambda>(b, k). (b, K + k))
        (case DigitGen_int sh p2 delta wp_w kappa p1 [] of
           Inl r \<Rightarrow> r | Inr buffer \<Rightarrow> DigitGen_frac sh p2 delta wp_w buffer)"
    unfolding kappa_def p1_def p2_def wp_w_def by (simp add: DigitGen_def Let_def DiyFp_minus_def)
  have int: "case DigitGen_int sh p2 delta wp_w kappa p1 [] of
      Inl (Inl f) \<Rightarrow> False
    | Inl (Inr (b, k)) \<Rightarrow> b \<noteq> [] \<and> length b \<le> length ([] :: string) + kappa \<and> list_all is_digit b \<and>
        close_below sh P (uint delta) b k \<and> 0 \<le> k \<and> k < int kappa
    | Inr b \<Rightarrow> b \<noteq> [] \<and> length b \<le> length ([] :: string) + kappa \<and> list_all is_digit b \<and>
        (0 < kappa \<longrightarrow> delta < p2) \<and> P = buffer_value b * 2 ^ sh + uint p2"
    by (rule DigitGen_int_ok) (use unit P k delta in \<open>auto simp: sum\<close>)
  show ?thesis
  proof (cases "DigitGen_int sh p2 delta wp_w kappa p1 []")
    case (Inl r)
    with int k show ?thesis by (cases r) (auto simp: eq)
  next
    case (Inr buffer)
    have "case DigitGen_frac sh p2 delta wp_w buffer of
        Inl f \<Rightarrow> \<exists>n. f = PastPow10 n \<and> 10 \<le> n \<and> n \<le> 16 \<and>
          (\<forall>j<10. uint delta * 10 ^ j \<le> P * 10 ^ j mod 2 ^ sh)
      | Inr (b, k) \<Rightarrow> b \<noteq> [] \<and> length b \<le> 17 \<and> list_all is_digit b \<and>
          close_below sh P (uint delta) b k \<and> - 10 < k \<and> k \<le> 0"
      by (rule DigitGen_frac_ok) (use int Inr sh k unit delta in \<open>auto simp: p2\<close>)
    with Inr show ?thesis by (auto simp: eq split: sum.splits)
  qed
qed

end
