(* ===== verification/DtoaTable.thy ===== *)
theory DtoaTable
  imports DtoaPowers
begin

text \<open>
  The accuracy of the cached powers of \<open>dtoa\<close>: every significand of the table is within one
  half of the power of ten it stands for.  The powers are enclosed between integers of 128 bits,
  step by step from the exact entry \<open>10 ^ 4\<close> to both ends of the table.
\<close>

section \<open>Enclosures\<close>

text \<open>\<open>10 powi q\<close> lies between \<open>lo\<close> and \<open>hi\<close> in units of \<open>2 powi (E - 64)\<close>.\<close>

definition enclosed :: "int \<Rightarrow> int \<Rightarrow> int \<Rightarrow> int \<Rightarrow> bool" where
  "enclosed q E lo hi \<longleftrightarrow>
     real_of_int lo * 2 powi (E - 64) \<le> 10 powi q \<and> 10 powi q \<le> real_of_int hi * 2 powi (E - 64)"

definition accurate :: "int \<Rightarrow> int \<Rightarrow> int \<Rightarrow> bool" where
  "accurate q F E \<longleftrightarrow> \<bar>real_of_int F * 2 powi E - 10 powi q\<bar> \<le> 2 powi E / 2"

definition entry_near :: "int \<Rightarrow> int \<Rightarrow> int \<Rightarrow> bool" where
  "entry_near F lo hi \<longleftrightarrow> F * 2 ^ 64 - 2 ^ 63 \<le> lo \<and> hi \<le> F * 2 ^ 64 + 2 ^ 63"

lemma entry_near_accurate:
  assumes "enclosed q E lo hi" and "entry_near F lo hi"
  shows "accurate q F E"
proof -
  define u :: real where "u = 2 powi (E - 64)"
  have u: "0 < u" "2 powi E = 2 ^ 64 * u" by (simp_all add: u_def power_int_diff)
  have r: "real_of_int (F * 2 ^ 64 - 2 ^ 63) \<le> real_of_int lo" "real_of_int hi \<le> real_of_int (F * 2 ^ 64 + 2 ^ 63)"
    using assms(2) unfolding entry_near_def of_int_le_iff by simp_all
  have "real_of_int (F * 2 ^ 64 - 2 ^ 63) * u \<le> 10 powi q" "10 powi q \<le> real_of_int (F * 2 ^ 64 + 2 ^ 63) * u"
    using assms(1) mult_right_mono [OF r(1), of u] mult_right_mono [OF r(2), of u] u(1)
    unfolding enclosed_def u_def [symmetric] by linarith+
  then show ?thesis unfolding accurate_def u(2) by (simp add: algebra_simps abs_le_iff)
qed

lemma floor_enclosed:
  assumes "real_of_int lo \<le> x" and "x \<le> real_of_int hi" and "0 < c"
  shows "real_of_int (lo div c) \<le> x / real_of_int c" and "x / real_of_int c \<le> real_of_int (hi div c + 1)"
proof -
  have "real_of_int (lo div c) \<le> real_of_int lo / real_of_int c"
    by (metis floor_divide_of_int_eq of_int_floor_le)
  also have "\<dots> \<le> x / real_of_int c" using assms by (intro divide_right_mono) simp_all
  finally show "real_of_int (lo div c) \<le> x / real_of_int c" .
  have "x / real_of_int c \<le> real_of_int hi / real_of_int c" using assms by (intro divide_right_mono) simp_all
  also have "\<dots> \<le> real_of_int (hi div c + 1)"
    by (metis floor_divide_of_int_eq less_imp_le of_int_add of_int_1 floor_correct)
  finally show "x / real_of_int c \<le> real_of_int (hi div c + 1)" .
qed

lemma enclosed_iff:
  "enclosed q E lo hi \<longleftrightarrow> real_of_int lo \<le> 10 powi q / 2 powi (E - 64) \<and> 10 powi q / 2 powi (E - 64) \<le> real_of_int hi"
  by (simp add: enclosed_def pos_le_divide_eq pos_divide_le_eq)

lemma powi_ten_8: "(10 :: real) powi (q + 8) = 10 powi q * 100000000"
  by (simp add: power_int_add)

lemma enclosed_up:
  assumes "enclosed q E lo hi" and "E \<le> E'"
  shows "enclosed (q + 8) E' (lo * 100000000 div 2 ^ nat (E' - E)) (hi * 100000000 div 2 ^ nat (E' - E) + 1)"
proof -
  let ?x = "10 powi q / 2 powi (E - 64) * 100000000 :: real"
  have "(2 :: real) powi (E' - 64) = 2 powi (E - 64 + (E' - E))" by simp
  also have "\<dots> = 2 powi (E - 64) * real_of_int (2 ^ nat (E' - E))"
    using assms(2) unfolding powi_two_add by (simp add: of_int_powi)
  finally have e: "10 powi (q + 8) / 2 powi (E' - 64) = ?x / real_of_int (2 ^ nat (E' - E))"
    by (simp add: powi_ten_8)
  have "real_of_int (lo * 100000000) \<le> ?x" "?x \<le> real_of_int (hi * 100000000)"
    using assms(1) unfolding enclosed_iff of_int_mult by (auto intro!: mult_right_mono simp del: times_divide_eq_left)
  from floor_enclosed [OF this, of "2 ^ nat (E' - E)"] show ?thesis unfolding enclosed_iff e by simp
qed

lemma enclosed_down:
  assumes "enclosed q E lo hi" and "E' \<le> E"
  shows "enclosed (q - 8) E' (lo * 2 ^ nat (E - E') div 100000000) (hi * 2 ^ nat (E - E') div 100000000 + 1)"
proof -
  let ?x = "10 powi q / 2 powi (E - 64) * real_of_int (2 ^ nat (E - E')) :: real"
  have "(2 :: real) powi (E - 64) = 2 powi (E' - 64 + (E - E'))" by simp
  also have "\<dots> = 2 powi (E' - 64) * real_of_int (2 ^ nat (E - E'))"
    using assms(2) unfolding powi_two_add by (simp add: of_int_powi)
  finally have e: "10 powi (q - 8) / 2 powi (E' - 64) = ?x / real_of_int 100000000"
    using powi_ten_8 [of "q - 8"] by (simp add: field_simps)
  have "real_of_int (lo * 2 ^ nat (E - E')) \<le> ?x" "?x \<le> real_of_int (hi * 2 ^ nat (E - E'))"
    using assms(1) unfolding enclosed_iff of_int_mult by (simp_all only: mult_right_mono of_int_0_le_iff zero_le_power zero_le_numeral)
  from floor_enclosed [OF this, of 100000000] show ?thesis unfolding enclosed_iff e by simp
qed

section \<open>The table\<close>

fun up_ok :: "int \<Rightarrow> int \<Rightarrow> int \<Rightarrow> u64 list \<Rightarrow> int list \<Rightarrow> bool" where
  "up_ok E lo hi (F # Fs) (E' # Es) \<longleftrightarrow>
     (let c = 2 ^ nat (E' - E); lo' = lo * 100000000 div c; hi' = hi * 100000000 div c + 1
      in E \<le> E' \<and> entry_near (uint F) lo' hi' \<and> up_ok E' lo' hi' Fs Es)"
| "up_ok E lo hi _ _ \<longleftrightarrow> True"

fun down_ok :: "int \<Rightarrow> int \<Rightarrow> int \<Rightarrow> u64 list \<Rightarrow> int list \<Rightarrow> bool" where
  "down_ok E lo hi (F # Fs) (E' # Es) \<longleftrightarrow>
     (let c = 2 ^ nat (E - E'); lo' = lo * c div 100000000; hi' = hi * c div 100000000 + 1
      in E' \<le> E \<and> entry_near (uint F) lo' hi' \<and> down_ok E' lo' hi' Fs Es)"
| "down_ok E lo hi _ _ \<longleftrightarrow> True"

lemma up_ok_accurate:
  "up_ok E lo hi Fs Es \<Longrightarrow> enclosed q E lo hi \<Longrightarrow> j < length Fs \<Longrightarrow> j < length Es \<Longrightarrow>
     accurate (q + 8 * int (Suc j)) (uint (Fs ! j)) (Es ! j)"
proof (induction E lo hi Fs Es arbitrary: q j rule: up_ok.induct)
  case (1 E lo hi F Fs E' Es)
  let ?c = "2 ^ nat (E' - E) :: int"
  have e: "enclosed (q + 8) E' (lo * 100000000 div ?c) (hi * 100000000 div ?c + 1)"
    using 1(2,3) by (intro enclosed_up) (simp_all add: Let_def)
  show ?case
  proof (cases j)
    case 0
    with 1(2) entry_near_accurate [OF e] show ?thesis by (simp add: Let_def)
  next
    case (Suc i)
    with 1(2,4,5) 1(1) [OF refl refl refl _ e, of i] show ?thesis by (simp add: Let_def algebra_simps)
  qed
qed simp_all

lemma down_ok_accurate:
  "down_ok E lo hi Fs Es \<Longrightarrow> enclosed q E lo hi \<Longrightarrow> j < length Fs \<Longrightarrow> j < length Es \<Longrightarrow>
     accurate (q - 8 * int (Suc j)) (uint (Fs ! j)) (Es ! j)"
proof (induction E lo hi Fs Es arbitrary: q j rule: down_ok.induct)
  case (1 E lo hi F Fs E' Es)
  let ?c = "2 ^ nat (E - E') :: int"
  have e: "enclosed (q - 8) E' (lo * ?c div 100000000) (hi * ?c div 100000000 + 1)"
    using 1(2,3) by (intro enclosed_down) (simp_all add: Let_def)
  show ?case
  proof (cases j)
    case 0
    with 1(2) entry_near_accurate [OF e] show ?thesis by (simp add: Let_def)
  next
    case (Suc i)
    with 1(2,4,5) 1(1) [OF refl refl refl _ e, of i] show ?thesis by (simp add: Let_def algebra_simps)
  qed
qed simp_all

definition ten_to_4 :: int where
  "ten_to_4 = 0x9C40000000000000 * 2 ^ 64"

lemma ten_to_4_enclosed: "enclosed 4 (- 50) ten_to_4 ten_to_4"
  by (simp add: enclosed_def ten_to_4_def power_int_minus)

lemma table_up: "up_ok (- 50) ten_to_4 ten_to_4 (drop 45 kCachedPowers_F) (drop 45 kCachedPowers_E)"
  unfolding ten_to_4_def by code_simp

lemma table_down:
  "down_ok (- 50) ten_to_4 ten_to_4 (rev (take 44 kCachedPowers_F)) (rev (take 44 kCachedPowers_E))"
  unfolding ten_to_4_def by code_simp

lemma table_length: "length kCachedPowers_F = 87" "length kCachedPowers_E = 87"
  by (simp_all add: kCachedPowers_F_def kCachedPowers_E_def)

lemma kCachedPowers_accurate:
  assumes "i < 87"
  shows "accurate (8 * int i - 348) (uint (kCachedPowers_F ! i)) (kCachedPowers_E ! i)"
proof -
  consider "i = 44" | j where "i = 45 + j" "j < 42" | j where "i = 43 - j" "j < 44"
    using assms that(2) [of "i - 45"] that(3) [of "43 - i"] by fastforce
  then show ?thesis
  proof cases
    case 1
    then show ?thesis
      by (simp add: kCachedPowers_F_def kCachedPowers_E_def accurate_def power_int_minus)
  next
    case (2 j)
    from up_ok_accurate [OF table_up ten_to_4_enclosed, of j] 2 show ?thesis
      by (simp add: table_length algebra_simps)
  next
    case (3 j)
    from down_ok_accurate [OF table_down ten_to_4_enclosed, of j] 3 show ?thesis
      by (simp add: table_length rev_nth of_nat_diff algebra_simps)
  qed
qed

end
