(* ===== verification/DtoaFacts.thy ===== *)
theory DtoaFacts
  imports DtoaDigits DtoaTable
begin

text \<open>
  Facts about Grisu2: the bits of a value, its boundaries, the scaling with a cached power, and
  what follows for the digits: the decimal number they form lies strictly between the
  boundaries of the value, so that the value is the only one of the format it rounds to.  Where
  \<open>kPow10\<close> is read past its end the value has more than ten significant decimal digits.
\<close>

section \<open>Bits\<close>

lemma bit_fields:
  assumes "0 \<le> c" and "c < 2 ^ 11" and "0 \<le> r" and "r < 2 ^ 52"
  shows "uint (drop_bit 52 (word_of_int (c * 2 ^ 52 + r) AND kDpExponentMask)) = c"
    and "(word_of_int (c * 2 ^ 52 + r) :: u64) AND kDpSignificandMask = word_of_int r"
proof -
  define n where "n = c * 2 ^ 52 + r"
  define w :: u64 where "w = word_of_int n"
  have "c * 2 ^ 52 \<le> (2 ^ 11 - 1) * 2 ^ 52" using assms by (intro mult_right_mono) simp_all
  then have b: "0 \<le> n" "n < 2 ^ 64" using assms by (simp_all add: n_def)
  then have u: "uint w = n" unfolding w_def by (rule uint_of_int)
  have n: "n div 2 ^ 52 = c" "n mod 2 ^ 52 = r" using assms by (simp_all add: n_def)
  have "uint (drop_bit 52 (w AND kDpExponentMask)) = drop_bit 52 n AND drop_bit 52 0x7FF0000000000000"
    by (simp add: unsigned_drop_bit_eq unsigned_and_eq u kDpExponentMask_def drop_bit_and take_bit_int_eq_self [OF b])
  also have "\<dots> = c AND mask 11" using n(1) by (simp add: drop_bit_eq_div mask_eq_exp_minus_1)
  also have "\<dots> = c" using assms by (simp add: take_bit_int_eq_self flip: take_bit_eq_mask)
  finally show "uint (drop_bit 52 (w AND kDpExponentMask)) = c" .
  have m: "(kDpSignificandMask :: u64) = mask 52" by (simp add: kDpSignificandMask_def mask_eq_exp_minus_1)
  have "w AND kDpSignificandMask = take_bit 52 w" unfolding m by (simp add: take_bit_eq_mask)
  also have "uint (take_bit 52 w) = r" unfolding unsigned_take_bit_eq u using n(2) by (simp add: take_bit_eq_mod)
  finally show "w AND kDpSignificandMask = word_of_int r" by (metis word_of_int_uint)
qed

text \<open>The values with which \<open>Grisu2\<close> works: a positive significand and its exponent.\<close>

definition significant :: "int \<Rightarrow> int \<Rightarrow> bool" where
  "significant f e \<longleftrightarrow> 0 < f \<and> f < 2 ^ 53 \<and> - 1074 \<le> e \<and> e \<le> 972 \<and> (2 ^ 52 \<le> f \<or> e = - 1074)"

lemma DiyFp_of_bits:
  assumes "Uint64Value d = word_of_int (c * 2 ^ 52 + r)"
    and "0 \<le> c" and "c < 2 ^ 11" and "0 \<le> r" and "r < 2 ^ 52" and "c = 0 \<Longrightarrow> 0 < r"
    and "f = (if c = 0 then r else r + 2 ^ 52)" and "e = (if c = 0 then - 1074 else c - 1075)"
  shows "DiyFp_of d = \<lparr>fp = word_of_int f, exponent = e\<rparr>" and "significant f e"
proof -
  show "DiyFp_of d = \<lparr>fp = word_of_int f, exponent = e\<rparr>"
    unfolding DiyFp_of_def Let_def assms(1) bit_fields [OF assms(2-5)] assms(7,8)
    by (simp add: kDpHiddenBit_def)
  show "significant f e" using assms(2-8) by (auto simp: significant_def)
qed

text \<open>Every value but a NaN is the one its significand and exponent stand for.\<close>

definition positive_double :: "int \<Rightarrow> int \<Rightarrow> double" where
  "positive_double f e = (if e \<le> 971 then DFinite False f e else DInf False)"

lemma DiyFp_of_ok:
  assumes "double_ok d" and "d \<noteq> DFinite True 0 (- 1074)" and "d \<noteq> DFinite False 0 (- 1074)"
    and "\<not> double_negative d"
  obtains f e where "DiyFp_of d = \<lparr>fp = word_of_int f, exponent = e\<rparr>" and "significant f e"
    and "d \<noteq> DNaN \<longrightarrow> d = positive_double f e"
proof (cases d)
  case (DFinite s m e)
  have m: "0 < m" using assms DFinite by (cases "m = 0"; cases s) auto
  then have s: "\<not> s" using assms(4) DFinite by (simp add: double_negative_def)
  show ?thesis
  proof (cases "m < 2 ^ 52")
    case True
    have "DiyFp_of d = \<lparr>fp = word_of_int m, exponent = - 1074\<rparr>" "significant m (- 1074)"
      by (rule DiyFp_of_bits [where d = d and c = 0 and r = m]; use True m s DFinite in \<open>simp add: sign_bit_def\<close>)+
    with that [of m "- 1074"] show ?thesis using True s assms(1) DFinite by (simp add: positive_double_def)
  next
    case False
    have "DiyFp_of d = \<lparr>fp = word_of_int m, exponent = e\<rparr>" "significant m e"
      by (rule DiyFp_of_bits [where d = d and c = "e + 1075" and r = "m - 2 ^ 52"];
          use False m s DFinite assms(1) in \<open>auto simp: sign_bit_def\<close>)+
    with that [of m e] show ?thesis using s assms(1) DFinite by (simp add: positive_double_def)
  qed
next
  case (DInf s)
  then have "\<not> s" using assms(4) by (simp add: double_negative_def)
  then have "DiyFp_of d = \<lparr>fp = word_of_int (2 ^ 52), exponent = 972\<rparr>" "significant (2 ^ 52) 972"
    by (rule_tac [1-2] DiyFp_of_bits [where d = d and c = "0x7FF" and r = 0])
       (use DInf in \<open>auto simp: sign_bit_def\<close>)
  with that [of "2 ^ 52" 972] show ?thesis using \<open>\<not> s\<close> DInf by (simp add: positive_double_def)
next
  case DNaN
  have "DiyFp_of d = \<lparr>fp = word_of_int (2 ^ 51 + 2 ^ 52), exponent = 972\<rparr>" "significant (2 ^ 51 + 2 ^ 52) 972"
    by (rule DiyFp_of_bits [where d = d and c = "0x7FF" and r = "2 ^ 51"]; use DNaN in simp)+
  with that [of "2 ^ 51 + 2 ^ 52" 972] show ?thesis using DNaN by simp
qed

section \<open>Boundaries\<close>

lemma bit_length_double: "0 < g \<Longrightarrow> bit_length (2 * g) = Suc (bit_length g)"
  "0 < g \<Longrightarrow> bit_length (2 * g + 1) = Suc (bit_length g)"
  by (simp_all add: bit_length.simps [of "2 * g"] bit_length.simps [of "2 * g + 1"])

lemma bit_length_less: "0 < g \<Longrightarrow> g < 2 ^ k \<Longrightarrow> bit_length g \<le> k"
proof (rule ccontr)
  assume g: "0 < g" "g < 2 ^ k" and "\<not> bit_length g \<le> k"
  then have "(2 :: int) ^ k \<le> 2 ^ (bit_length g - 1)" by (intro power_increasing) simp_all
  also have "\<dots> \<le> g" using bit_length_bounds [OF g(1)] by simp
  finally show False using g(2) by simp
qed


lemma bit_length_eq: "0 < g \<Longrightarrow> 2 ^ (k - 1) \<le> g \<Longrightarrow> g < 2 ^ k \<Longrightarrow> 0 < k \<Longrightarrow> bit_length g = k"
proof (rule antisym [OF bit_length_less])
  assume g: "0 < g" "2 ^ (k - 1) \<le> g" "0 < k"
  show "k \<le> bit_length g"
  proof (rule ccontr)
    assume "\<not> k \<le> bit_length g"
    then have "(2 :: int) ^ bit_length g \<le> 2 ^ (k - 1)" by (intro power_increasing) simp_all
    moreover have "g < 2 ^ bit_length g" using bit_length_bounds [OF g(1)] by simp
    ultimately show False using g(2) by linarith
  qed
qed

lemma shifted_less:
  assumes "0 < g" and "bit_length g + s \<le> k"
  shows "g * 2 ^ s < 2 ^ k"
proof -
  have "g * 2 ^ s < 2 ^ bit_length g * 2 ^ s"
    using bit_length_bounds [OF assms(1)] by (intro mult_strict_right_mono) simp_all
  also have "\<dots> \<le> 2 ^ k" using assms(2) by (simp add: power_increasing flip: power_add)
  finally show ?thesis .
qed

lemma push_bit_of_int: "push_bit s (word_of_int g :: u64) = word_of_int (g * 2 ^ s)"
  by (simp add: push_bit_eq_mult)

lemma hidden_boundary:
  assumes "0 < g" and "g < 2 ^ 54"
  shows "(word_of_int g :: u64) AND push_bit 1 kDpHiddenBit = 0 \<longleftrightarrow> g < 2 ^ 53"
proof -
  have m: "push_bit 1 kDpHiddenBit = (push_bit 53 1 :: u64)" by (simp add: kDpHiddenBit_def)
  have "(word_of_int g :: u64) AND push_bit 53 1 = 0 \<longleftrightarrow> \<not> bit (word_of_int g :: u64) 53"
    by (simp add: bit_iff_and_push_bit_not_eq_0)
  also have "bit (word_of_int g :: u64) 53 = bit g 53" by (simp add: bit_word_of_int_iff)
  also have "bit g 53 \<longleftrightarrow> odd (g div 2 ^ 53)" by (simp add: bit_iff_odd)
  also have "odd (g div 2 ^ 53) \<longleftrightarrow> 2 ^ 53 \<le> g"
  proof (cases "2 ^ 53 \<le> g")
    case True
    then have "g div 2 ^ 53 = 1" using assms by simp
    with True show ?thesis by simp
  qed (use assms in simp)
  finally show ?thesis unfolding m by (simp add: not_le)
qed

lemma boundary_loop:
  assumes "0 < g" and "bit_length g + s = 54"
  shows "while_option (\<lambda>r. fp r AND push_bit 1 kDpHiddenBit = 0)
      (\<lambda>r. \<lparr>fp = push_bit 1 (fp r), exponent = exponent r - 1\<rparr>)
      \<lparr>fp = word_of_int g, exponent = x\<rparr> = Some \<lparr>fp = word_of_int (g * 2 ^ s), exponent = x - int s\<rparr>"
  using assms
proof (induction s arbitrary: g x)
  case 0
  have "2 ^ 53 \<le> g" "g < 2 ^ 54" using bit_length_bounds [OF 0(1)] 0(2) by simp_all
  then show ?case using hidden_boundary [OF 0(1)] by (subst while_option_unfold) simp
next
  case (Suc s)
  have g: "g < 2 ^ 53" using shifted_less [OF Suc(2), of 0 53] Suc(3) by simp
  have d: "bit_length (2 * g) + s = 54" using Suc(2,3) by (simp add: bit_length_double)
  have "word_of_int (2 * g) = push_bit 1 (word_of_int g :: u64)" by simp
  with Suc(1) [OF _ d, of "x - 1"] Suc(2) g hidden_boundary [OF Suc(2)] show ?case
    by (subst while_option_unfold) (simp add: mult_ac)
qed

lemma NormalizeBoundary_ok:
  assumes "0 < g" and "bit_length g + s = 54"
  shows "NormalizeBoundary \<lparr>fp = word_of_int g, exponent = x\<rparr> =
    Inr \<lparr>fp = word_of_int (g * 2 ^ (s + 10)), exponent = x - int (s + 10)\<rparr>"
  unfolding NormalizeBoundary_def boundary_loop [OF assms]
  by (simp add: push_bit_of_int power_add mult.assoc del: of_int_mult)

definition lower_boundary :: "int \<Rightarrow> nat \<Rightarrow> int" where
  "lower_boundary f s = (if f = 2 ^ 52 then (4 * f - 1) * 2 ^ (s - 1) else (2 * f - 1) * 2 ^ s)"

lemma NormalizedBoundaries_ok:
  assumes "significant f e" and s: "s = 63 - bit_length f"
  shows "NormalizedBoundaries \<lparr>fp = word_of_int f, exponent = e\<rparr> =
    Inr (\<lparr>fp = word_of_int (lower_boundary f s), exponent = e - 1 - int s\<rparr>,
         \<lparr>fp = word_of_int ((2 * f + 1) * 2 ^ s), exponent = e - 1 - int s\<rparr>)"
proof -
  have f: "0 < f" "f < 2 ^ 53" using assms(1) by (simp_all add: significant_def)
  have bl: "bit_length f \<le> 53" "0 < bit_length f"
    using bit_length_less [OF f] bit_length_bounds [OF f(1)] by simp_all
  have up: "NormalizeBoundary \<lparr>fp = word_of_int (2 * f + 1), exponent = e - 1\<rparr> =
      Inr \<lparr>fp = word_of_int ((2 * f + 1) * 2 ^ s), exponent = e - 1 - int s\<rparr>"
    using NormalizeBoundary_ok [of "2 * f + 1" "53 - bit_length f" "e - 1"] f bl
    by (simp add: bit_length_double s)
  have up_word: "push_bit 1 (word_of_int f :: u64) + 1 = word_of_int (2 * f + 1)" by simp
  have hidden: "(word_of_int f :: u64) = kDpHiddenBit \<longleftrightarrow> f = 2 ^ 52"
  proof
    assume "(word_of_int f :: u64) = kDpHiddenBit"
    then have "uint (word_of_int f :: u64) = 2 ^ 52" by (simp add: kDpHiddenBit_def)
    then show "f = 2 ^ 52" using f by (subst (asm) uint_of_int) simp_all
  qed (simp add: kDpHiddenBit_def)
  have low_word: "push_bit 2 (word_of_int f :: u64) - 1 = word_of_int (4 * f - 1)"
    "push_bit 1 (word_of_int f :: u64) - 1 = word_of_int (2 * f - 1)"
    by (simp_all add: push_bit_eq_mult)
  have shift: "nat (e - 2 - (e - 1 - int s)) = s - 1" "nat (e - 1 - (e - 1 - int s)) = s"
    using bl by (simp_all add: s nat_diff_distrib')
  have "NormalizedBoundaries \<lparr>fp = word_of_int f, exponent = e\<rparr> =
      Inr (if f = 2 ^ 52
           then \<lparr>fp = push_bit (nat (e - 2 - (e - 1 - int s))) (word_of_int (4 * f - 1)), exponent = e - 1 - int s\<rparr>
           else \<lparr>fp = push_bit (nat (e - 1 - (e - 1 - int s))) (word_of_int (2 * f - 1)), exponent = e - 1 - int s\<rparr>,
           \<lparr>fp = word_of_int ((2 * f + 1) * 2 ^ s), exponent = e - 1 - int s\<rparr>)"
    unfolding NormalizedBoundaries_def DiyFp.select_convs up_word up hidden low_word sum.case Let_def
    by (cases "f = 2 ^ 52") (simp_all only: simp_thms if_True if_False DiyFp.select_convs)
  then show ?thesis
    unfolding shift push_bit_of_int by (simp only: lower_boundary_def if_distrib [of word_of_int] if_distribR) auto
qed

section \<open>Scaling\<close>

definition scaled :: "int \<Rightarrow> int \<Rightarrow> int" where
  "scaled a b = (a * b + 2 ^ 63) div 2 ^ 64"

lemma DiyFp_mult_ok:
  assumes a: "0 \<le> a" "a < 2 ^ 64" and b: "0 \<le> b" "b < 2 ^ 64"
  shows "DiyFp_mult \<lparr>fp = word_of_int a, exponent = x\<rparr> \<lparr>fp = word_of_int b, exponent = y\<rparr> =
    \<lparr>fp = word_of_int (scaled a b), exponent = x + y + 64\<rparr>"
proof -
  define A :: "128 word" where "A = ucast (word_of_int a :: u64)"
  define B :: "128 word" where "B = ucast (word_of_int b :: u64)"
  define p where "p = A * B"
  have "uint (ucast (word_of_int i :: u64) :: 128 word) = i" if "0 \<le> i" "i < 2 ^ 64" for i
    unfolding unsigned_ucast_eq uint_of_int [OF that] using that by (simp add: take_bit_int_eq_self)
  from this [OF a] this [OF b] have AB: "uint A = a" "uint B = b" by (simp_all only: A_def B_def)
  have "a * b \<le> (2 ^ 64 - 1) * (2 ^ 64 - 1)" using a b by (intro mult_mono) simp_all
  then have p: "uint p = a * b"
    unfolding p_def using uint_mult_lem [of A B] by (simp add: AB)
  have n: "0 \<le> a * b" "a * b < 2 ^ 128" using p uint_lt2p [of p] uint_ge_0 [of p] by simp_all
  have "uint (drop_bit 64 p) = a * b div 2 ^ 64"
    unfolding unsigned_drop_bit_eq p using n by (simp add: drop_bit_eq_div take_bit_int_eq_self)
  then have h: "(ucast (drop_bit 64 p) :: u64) = word_of_int (a * b div 2 ^ 64)"
    by (simp only: ucast_eq)
  have l: "(ucast p :: u64) AND 0x8000000000000000 \<noteq> 0 \<longleftrightarrow> odd (a * b div 2 ^ 63)"
  proof -
    have "(ucast p :: u64) = word_of_int (a * b)" by (simp only: ucast_eq p)
    moreover have "(0x8000000000000000 :: u64) = push_bit 63 1" by simp
    moreover have "w AND push_bit 63 1 \<noteq> 0 \<longleftrightarrow> bit w 63" for w :: u64
      by (simp only: bit_iff_and_push_bit_not_eq_0)
    ultimately show ?thesis by (simp only: bit_word_of_int_iff) (simp add: bit_iff_odd)
  qed
  have "(n + 2 ^ 63) div 2 ^ 64 = n div 2 ^ 64 + (if odd (n div 2 ^ 63) then 1 else 0)" for n :: int
  proof -
    have "(n + 2 ^ 63) div 2 ^ 64 = (n div 2 ^ 63 + 1) div 2"
      using zdiv_zmult2_eq [of 2 "n + 2 ^ 63" "2 ^ 63"] by simp
    moreover have "n div 2 ^ 64 = n div 2 ^ 63 div 2" using zdiv_zmult2_eq [of 2 n "2 ^ 63"] by simp
    moreover have "(q + 1) div 2 = q div 2 + (if odd q then 1 else 0)" for q :: int by presburger
    ultimately show ?thesis by (simp only:)
  qed
  then show ?thesis
    by (simp add: DiyFp_mult_def Let_def scaled_def h l flip: A_def B_def p_def)
qed

lemma DiyFp_Normalize_ok:
  assumes "0 < f" and "f < 2 ^ 53"
  shows "DiyFp_Normalize \<lparr>fp = word_of_int f, exponent = e\<rparr> =
    \<lparr>fp = word_of_int (f * 2 ^ (64 - bit_length f)), exponent = e - int (64 - bit_length f)\<rparr>"
  using assms by (simp add: DiyFp_Normalize_def Let_def clz_def uint_of_int push_bit_of_int del: of_int_mult)

lemma scaled_product_bounds:
  shows "2 ^ 64 * scaled a b \<le> a * b + 2 ^ 63" and "a * b - 2 ^ 63 < 2 ^ 64 * scaled a b"
proof -
  define n where "n = a * b + 2 ^ 63"
  have "n = 2 ^ 64 * (n div 2 ^ 64) + n mod 2 ^ 64" "0 \<le> n mod 2 ^ 64" "n mod 2 ^ 64 < 2 ^ 64"
    by simp_all
  then have "2 ^ 64 * (n div 2 ^ 64) \<le> n" "n - 2 ^ 64 < 2 ^ 64 * (n div 2 ^ 64)" by linarith+
  then show "2 ^ 64 * scaled a b \<le> a * b + 2 ^ 63" and "a * b - 2 ^ 63 < 2 ^ 64 * scaled a b"
    by (simp_all add: scaled_def n_def)
qed

text \<open>The distance of the boundaries, and how many digits are enough to tell them apart.\<close>

lemma boundary_distance:
  assumes "significant f e" and s: "s = 63 - bit_length f"
  defines "P \<equiv> (2 * f + 1) * 2 ^ s" and "L \<equiv> lower_boundary f s"
  shows "2 ^ 63 \<le> P" and "P < 2 ^ 64" and "0 \<le> L" and "1536 \<le> P - L" and "P \<le> 2 ^ 53 * (P - L)"
    and "10 \<le> s" and "s \<le> 62"
proof -
  have f: "0 < f" "f < 2 ^ 53" using assms(1) by (simp_all add: significant_def)
  have bl: "bit_length f \<le> 53" "0 < bit_length f"
    using bit_length_less [OF f] bit_length_bounds [OF f(1)] by simp_all
  show s': "10 \<le> s" "s \<le> 62" using bl by (simp_all add: s)
  have blg: "bit_length (2 * f + 1) + s = 64" using bl f by (simp add: bit_length_double s)
  show "P < 2 ^ 64" unfolding P_def using f blg by (intro shifted_less) simp_all
  have "2 ^ 63 = (2 :: int) ^ (bit_length (2 * f + 1) - 1) * 2 ^ s"
    using blg bl f by (simp add: bit_length_double s flip: power_add)
  also have "\<dots> \<le> P"
    unfolding P_def using bit_length_bounds [of "2 * f + 1"] f by (intro mult_right_mono) simp_all
  finally show "2 ^ 63 \<le> P" .
  have pow: "(2 :: int) ^ s = 2 * 2 ^ (s - 1)" using s'(1) by (simp flip: power_Suc)
  have big: "(2 :: int) ^ 9 \<le> 2 ^ (s - 1)" using s'(1) by (intro power_increasing) simp_all
  define t :: int where "t = 2 ^ (s - 1)"
  have PL: "P = (2 * f + 1) * (2 * t)" "L = (if f = 2 ^ 52 then (4 * f - 1) * t else (2 * f - 1) * (2 * t))"
    by (simp_all add: P_def L_def lower_boundary_def pow t_def)
  have t: "512 \<le> t" using big by (simp add: t_def)
  show "0 \<le> L" using f t by (auto simp: PL intro!: mult_nonneg_nonneg)
  show "1536 \<le> P - L" using t by (simp add: PL algebra_simps)
  show "P \<le> 2 ^ 53 * (P - L)"
  proof (cases "f = 2 ^ 52")
    case False
    have d: "P - L = 4 * t" using False by (simp add: PL algebra_simps)
    have "(2 * f + 1) * (2 * t) \<le> 2 ^ 54 * (2 * t)" using f t by (intro mult_right_mono) simp_all
    then show ?thesis unfolding d by (simp add: PL)
  qed (use t in \<open>simp add: PL algebra_simps\<close>)
qed

section \<open>The scaled boundaries\<close>

text \<open>Scaling with a power that is accurate to one half errs by less than one.\<close>

lemma scaled_near:
  fixes C :: real
  assumes "0 \<le> a" and "a < 2 ^ 64" and "\<bar>real_of_int F - C\<bar> \<le> 1 / 2"
  shows "\<bar>real_of_int (scaled a F) - real_of_int a * (C / 2 ^ 64)\<bar> < 1"
proof -
  have "real_of_int (2 ^ 64 * scaled a F) \<le> real_of_int (a * F + 2 ^ 63)"
    "real_of_int (a * F - 2 ^ 63) \<le> real_of_int (2 ^ 64 * scaled a F)"
    using scaled_product_bounds [of a F] unfolding of_int_le_iff by simp_all
  then have 1: "\<bar>2 ^ 64 * real_of_int (scaled a F) - real_of_int a * real_of_int F\<bar> \<le> 2 ^ 63"
    by (simp add: abs_le_iff)
  have a: "0 \<le> real_of_int a" "real_of_int a < 2 ^ 64"
    using assms(1,2) of_int_less_iff [of a "2 ^ 64", where ?'a = real] by simp_all
  have "\<bar>real_of_int a * (real_of_int F - C)\<bar> \<le> real_of_int a * (1 / 2)"
    unfolding abs_mult using assms(3) a by (intro mult_mono) simp_all
  then have 2: "\<bar>real_of_int a * real_of_int F - real_of_int a * C\<bar> < 2 ^ 63"
    using a(2) by (simp add: right_diff_distrib)
  from 1 2 have "\<bar>2 ^ 64 * real_of_int (scaled a F) - real_of_int a * C\<bar> < 2 ^ 64"
    by (simp add: abs_less_iff abs_le_iff)
  then show ?thesis by (simp add: abs_less_iff field_simps)
qed

text \<open>
  What Grisu2 computes: the digits of the scaled upper boundary \<open>U - 1\<close> within the distance
  to the lower boundary \<open>V + 1\<close>.  \<open>c\<close> is the exact factor of the scaling.
\<close>

lemma Grisu2_scaled:
  assumes v: "DiyFp_of d = \<lparr>fp = word_of_int f, exponent = e\<rparr>" and f: "significant f e"
    and s: "s = 63 - bit_length f"
  obtains W delta sh U V K and c :: real
  where "Grisu2 d = DigitGen W \<lparr>fp = word_of_int (U - 1), exponent = - int sh\<rparr> delta K"
    and "34 \<le> sh" "sh \<le> 60" "2 ^ sh \<le> U - 1" "U - 1 < 10 ^ 9 * 2 ^ sh" "U - 1 < 2 ^ 64"
    and "uint delta = U - V - 2" "U - 1 < 10 ^ 16 * uint delta" "0 \<le> V"
    and "\<bar>K\<bar> \<le> 348" "c = 2 powi (e - 1 - int s) * 10 powi (- K) * 2 ^ sh" "1 / 4 \<le> c"
    and "\<bar>real_of_int U - real_of_int ((2 * f + 1) * 2 ^ s) * c\<bar> < 1"
    and "\<bar>real_of_int V - real_of_int (lower_boundary f s) * c\<bar> < 1"
proof -
  define P where "P = (2 * f + 1) * 2 ^ s"
  define L where "L = lower_boundary f s"
  note dist = boundary_distance [OF f s, folded P_def L_def]
  define x where "x = e - 1 - int s"
  have x: "- 1137 \<le> x" "x \<le> 961" using f dist(6,7) by (simp_all add: x_def significant_def)
  obtain i where i: "i < 87"
    and c: "GetCachedPower x = Inr (\<lparr>fp = kCachedPowers_F ! i, exponent = kCachedPowers_E ! i\<rparr>, 348 - 8 * int i)"
    and a: "arg_min i \<le> - 61 - x" "- 61 - x \<le> arg_max i"
    by (rule GetCachedPower_ok [OF x])
  define F where "F = uint (kCachedPowers_F ! i)"
  define E where "E = kCachedPowers_E ! i"
  have F_word: "kCachedPowers_F ! i = word_of_int F" by (simp add: F_def)
  define hi where "hi = 3 - arg_min i + E"
  have e: "- 60 \<le> 3 - arg_max i + E" "hi \<le> - 34" "F < 10 ^ 9 * 2 ^ nat (- hi)" "2 ^ 63 \<le> F"
    using entry_ok [OF i] by (simp_all add: entry_ok_def Let_def F_def E_def hi_def)
  have F: "0 \<le> F" "F < 2 ^ 64" unfolding F_def using uint_lt2p [of "kCachedPowers_F ! i"] by simp_all
  define sh where "sh = nat (- (x + E + 64))"
  have sh: "34 \<le> sh" "sh \<le> 60" "x + E + 64 = - int sh" "nat (- hi) \<le> sh"
    using a e by (simp_all add: sh_def hi_def)
  define U where "U = scaled P F"
  define V where "V = scaled L F"
  have wp: "DiyFp_mult \<lparr>fp = word_of_int P, exponent = x\<rparr> \<lparr>fp = word_of_int F, exponent = E\<rparr> =
      \<lparr>fp = word_of_int U, exponent = - int sh\<rparr>"
    unfolding U_def sh(3) [symmetric] using dist F by (intro DiyFp_mult_ok) simp_all
  have wm: "DiyFp_mult \<lparr>fp = word_of_int L, exponent = x\<rparr> \<lparr>fp = word_of_int F, exponent = E\<rparr> =
      \<lparr>fp = word_of_int V, exponent = - int sh\<rparr>"
    unfolding V_def sh(3) [symmetric] using dist F by (intro DiyFp_mult_ok) simp_all
  define Z where "Z = (P - L) * F"
  have Z: "1536 * 2 ^ 63 \<le> Z" unfolding Z_def using dist(4) e(4) by (intro mult_mono) simp_all
  have PF: "P * F = L * F + Z" by (simp add: Z_def left_diff_distrib)
  have ratio: "P * F \<le> 2 ^ 53 * Z" 
    unfolding Z_def mult.assoc [symmetric] by (rule mult_right_mono [OF dist(5) F(1)])
  have upper: "P * F < 2 ^ 64 * F" using dist(2) e(4) by (intro mult_strict_right_mono) simp_all
  have lower: "2 ^ 63 * 2 ^ 63 \<le> P * F" using dist(1) e(4) by (intro mult_mono) simp_all
  note U = scaled_product_bounds [of P F, folded U_def]
  note V = scaled_product_bounds [of L F, folded V_def]
  have "0 \<le> L * F" using dist(3) F by simp
  then have V0: "0 \<le> V" using V(2) by simp
  have U_less: "U - 1 < F" using U upper by simp
  have U_large: "2 ^ 60 \<le> U - 1" using U lower by simp
  have D: "0 \<le> U - V - 2" "U - 1 < 10 ^ 16 * (U - V - 2)"
    using U V PF Z ratio by simp_all
  define delta :: u64 where "delta = word_of_int U - 1 - (word_of_int V + 1)"
  have "delta = word_of_int (U - V - 2)" by (simp add: delta_def)
  then have delta: "uint delta = U - V - 2" using D(1) U_less F V0 by (simp add: uint_of_int del: of_int_diff)
  have "2 ^ sh \<le> (2 :: int) ^ 60" using sh by (intro power_increasing) simp_all
  then have P1: "2 ^ sh \<le> U - 1" using U_large by simp
  have "10 ^ 9 * 2 ^ nat (- hi) \<le> (10 ^ 9 * 2 ^ sh :: int)"
    using sh(4) by (intro mult_left_mono power_increasing) simp_all
  then have P2: "U - 1 < 10 ^ 9 * 2 ^ sh" using U_less e(3) by linarith
  have P3: "U - 1 < 2 ^ 64" using U_less F by simp
  have G: "Grisu2 d = DigitGen (DiyFp_mult (DiyFp_Normalize \<lparr>fp = word_of_int f, exponent = e\<rparr>)
      \<lparr>fp = word_of_int F, exponent = E\<rparr>) \<lparr>fp = word_of_int (U - 1), exponent = - int sh\<rparr> delta (348 - 8 * int i)"
    unfolding Grisu2_def Let_def v NormalizedBoundaries_ok [OF f s, folded P_def L_def x_def]
      sum.case prod.case DiyFp.select_convs c F_word E_def [symmetric] wp wm delta_def
    by simp
  define C :: real where "C = 10 powi (8 * int i - 348) / 2 powi E"
  have acc: "\<bar>real_of_int F - C\<bar> \<le> 1 / 2"
  proof -
    have "\<bar>(real_of_int F - C) * 2 powi E\<bar> \<le> 1 / 2 * 2 powi E"
      using kCachedPowers_accurate [OF i] by (simp add: accurate_def C_def left_diff_distrib flip: F_def E_def)
    then show ?thesis by (simp only: abs_mult mult_le_cancel_right abs_of_pos powi_two_pos)
  qed
  have "real_of_int (2 ^ 63) \<le> real_of_int F" using e(4) by (simp only: of_int_le_iff)
  then have "real_of_int (2 ^ 63) - 1 / 2 \<le> C" using acc by linarith
  then have C: "1 / 4 \<le> C / 2 ^ 64" by simp
  have two: "(2 :: real) powi x * 2 ^ sh = 1 / 2 powi E / 2 ^ 64"
  proof -
    have "(2 :: real) powi x * 2 powi (int sh) * 2 powi E * 2 powi 64 = 2 powi (x + int sh + E + 64)"
      by (simp only: powi_two_add)
    also have "x + int sh + E + 64 = 0" using sh(3) by simp
    finally show ?thesis by (simp add: field_simps)
  qed
  have "C / 2 ^ 64 = 2 powi x * 10 powi (- (348 - 8 * int i)) * 2 ^ sh"
    using two by (simp add: C_def field_simps)
  moreover have "\<bar>348 - 8 * int i\<bar> \<le> 348" using i by simp
  moreover have "\<bar>real_of_int U - real_of_int P * (C / 2 ^ 64)\<bar> < 1"
    unfolding U_def using dist acc by (intro scaled_near) simp_all
  moreover have "\<bar>real_of_int V - real_of_int L * (C / 2 ^ 64)\<bar> < 1"
    unfolding V_def using dist acc by (intro scaled_near) simp_all
  moreover have "U - 1 < 10 ^ 16 * uint delta" using D(2) by (simp only: delta)
  ultimately show ?thesis
    using C unfolding P_def L_def x_def by (intro that [OF G sh(1,2) P1 P2 P3 delta _ V0])
qed

section \<open>What the digits say\<close>

text \<open>The boundaries of a value of the format, half way to its neighbours.\<close>

definition lower_half :: "int \<Rightarrow> int \<Rightarrow> real" where
  "lower_half f e = (if f = 2 ^ 52 then (4 * real_of_int f - 1) * 2 powi (e - 2) else (2 * real_of_int f - 1) * 2 powi (e - 1))"

definition upper_half :: "int \<Rightarrow> int \<Rightarrow> real" where
  "upper_half f e = (2 * real_of_int f + 1) * 2 powi (e - 1)"

lemma boundary_values:
  assumes "10 \<le> s"
  shows "real_of_int ((2 * f + 1) * 2 ^ s) * 2 powi (e - 1 - int s) = upper_half f e"
    and "real_of_int (lower_boundary f s) * 2 powi (e - 1 - int s) = lower_half f e"
    and "real_of_int (2 * f * 2 ^ s) * 2 powi (e - 1 - int s) = real_of_int f * 2 powi e"
proof -
  have p: "(2 :: real) ^ s * 2 powi (e - 1 - int s) = 2 powi (e - 1)"
    by (simp add: power_int_diff)
  obtain t where t: "s = Suc t" using assms by (cases s) simp_all
  have q: "(2 :: real) ^ (s - 1) * 2 powi (e - 1 - int s) = 2 powi (e - 2)"
    by (simp add: t power_int_diff)
  have r: "2 * (2 :: real) powi (e - 1) = 2 powi e" by (simp add: power_int_diff)
  show "real_of_int ((2 * f + 1) * 2 ^ s) * 2 powi (e - 1 - int s) = upper_half f e"
    by (simp add: upper_half_def p mult.assoc)
  show "real_of_int (lower_boundary f s) * 2 powi (e - 1 - int s) = lower_half f e"
    using q by (simp add: lower_half_def lower_boundary_def p mult.assoc)
  show "real_of_int (2 * f * 2 ^ s) * 2 powi (e - 1 - int s) = real_of_int f * 2 powi e"
    by (simp add: p mult.assoc mult.left_commute r flip: r)
qed

lemma powi_split: "(10 :: real) powi k * 10 ^ nat (- k) = 10 ^ nat k"
  by (cases "0 \<le> k") (simp_all add: power_int_def flip: power_mult_distrib)

text \<open>A decimal number of at most ten significant digits.\<close>

definition short_decimal :: "real \<Rightarrow> bool" where
  "short_decimal r \<longleftrightarrow> (\<exists>D J. 0 \<le> D \<and> D < 10 ^ 10 \<and> r = real_of_int D * 10 powi J)"

lemma multiple_between:
  fixes m :: int
  assumes "(T - delta) * c < M * m" and "M * m \<le> T * c" and "0 < m"
  shows "T * c mod m < delta * c"
proof -
  have "M \<le> T * c div m" using assms(2,3) by (rule arg_le_div [rotated])
  then have "M * m \<le> T * c div m * m" using assms(3) by (intro mult_right_mono) simp_all
  moreover have "T * c mod m = T * c - T * c div m * m" by (rule minus_div_mult_eq_mod [symmetric])
  ultimately show ?thesis using assms(1) by (simp only: left_diff_distrib)
qed

lemma close_below_real:
  assumes "close_below sh T delta b k"
  shows "real_of_int (T - delta) \<le> real_of_int (buffer_value b) * 10 powi k * 2 ^ sh"
    and "real_of_int (buffer_value b) * 10 powi k * 2 ^ sh \<le> real_of_int T"
proof -
  let ?y = "real_of_int (buffer_value b) * 10 powi k * 2 ^ sh"
  have y: "?y * 10 ^ nat (- k) = real_of_int (buffer_value b * 10 ^ nat k * 2 ^ sh)"
    using powi_split [of k] by (simp add: mult_ac)
  have "real_of_int ((T - delta) * 10 ^ nat (- k)) \<le> real_of_int (buffer_value b * 10 ^ nat k * 2 ^ sh)"
    "real_of_int (buffer_value b * 10 ^ nat k * 2 ^ sh) \<le> real_of_int (T * 10 ^ nat (- k))"
    using assms unfolding close_below_def of_int_le_iff by simp_all
  then have "real_of_int (T - delta) * 10 ^ nat (- k) \<le> ?y * 10 ^ nat (- k)"
    "?y * 10 ^ nat (- k) \<le> real_of_int T * 10 ^ nat (- k)"
    unfolding y by simp_all
  then show "real_of_int (T - delta) \<le> ?y" and "?y \<le> real_of_int T"
    by (simp_all only: mult_le_cancel_right_pos zero_less_power zero_less_numeral)
qed

text \<open>
  A short decimal number between the scaled boundaries would have been found with nine digits
  after the point.
\<close>

lemma short_decimal_hit:
  fixes c :: real
  assumes D: "0 \<le> D" "D < 10 ^ 10" and w: "real_of_int (2 * f * 2 ^ s) * c = real_of_int D * 10 powi j * 2 ^ sh"
    and near: "\<bar>real_of_int U - real_of_int ((2 * f + 1) * 2 ^ s) * c\<bar> < 1"
      "\<bar>real_of_int V - real_of_int (lower_boundary f s) * c\<bar> < 1"
    and c: "1 / 4 \<le> c" and f: "significant f e" and s: "s = 63 - bit_length f" and sh: "sh \<le> 60"
    and delta: "delta = U - V - 2"
  shows "\<not> delta * 10 ^ 9 \<le> (U - 1) * 10 ^ 9 mod 2 ^ sh"
proof -
  note dist = boundary_distance [OF f s]
  define w' where "w' = real_of_int (2 * f * 2 ^ s) * c"
  obtain t where t: "s = Suc t" using dist(6) by (cases s) simp_all
  have big: "(512 :: real) \<le> 2 ^ t"
  proof -
    have "(2 :: real) ^ 9 \<le> 2 ^ t" using dist(6) t by (intro power_increasing) simp_all
    then show ?thesis by simp
  qed
  then have room: "128 \<le> 2 ^ t * c" using c mult_mono [of 512 "2 ^ t" "1 / 4" c] by simp
  have "real_of_int ((2 * f + 1) * 2 ^ s) * c = w' + 2 * (2 ^ t * c)"
    by (simp add: w'_def t algebra_simps)
  then have up: "w' < real_of_int (U - 1)" using near(1) room by (simp add: abs_less_iff)
  have "real_of_int (lower_boundary f s) * c \<le> w' - 2 ^ t * c"
    using room by (auto simp: w'_def t lower_boundary_def algebra_simps)
  then have low: "real_of_int (V + 1) < w'" using near(2) room by (simp add: abs_less_iff)
  have "2 ^ sh \<le> w'"
  proof -
    have f0: "0 < f" using f by (simp add: significant_def)
    define g where "g = f * 2 ^ s"
    have "2 ^ s \<le> g" "0 \<le> g" using f0 by (simp_all add: g_def)
    moreover have "2 ^ 63 \<le> 2 * g + 2 ^ s" using dist(1) by (simp add: g_def algebra_simps)
    ultimately have "2 ^ 63 \<le> 4 * (f * 2 ^ s)" unfolding g_def [symmetric] by linarith
    then have "real_of_int (2 ^ 62) \<le> real_of_int (2 * f * 2 ^ s)" unfolding of_int_le_iff by simp
    then have "real_of_int (2 ^ 62) * (1 / 4) \<le> w'" unfolding w'_def using c f0 by (intro mult_mono) simp_all
    moreover have "(2 :: real) ^ sh \<le> 2 ^ 60" using sh by (intro power_increasing) simp_all
    ultimately show ?thesis by simp
  qed
  then have "1 * 2 ^ sh \<le> real_of_int D * 10 powi j * 2 ^ sh" unfolding w'_def w by simp
  then have one: "1 \<le> real_of_int D * 10 powi j"
    by (simp only: mult_le_cancel_right_pos zero_less_power zero_less_numeral)
  have j: "- 9 \<le> j"
  proof (rule ccontr)
    assume "\<not> - 9 \<le> j"
    then have "(10 :: real) powi j \<le> 10 powi (- 10)" by (intro power_int_increasing) simp_all
    moreover have "real_of_int D < 10 ^ 10" using D(2) of_int_less_iff [of D "10 ^ 10", where ?'a = real] by simp
    ultimately have "real_of_int D * 10 powi j < 10 ^ 10 * 10 powi (- 10)"
      using D(1) by (intro mult_less_le_imp_less) simp_all
    then show False using one by (simp add: power_int_minus)
  qed
  define M where "M = D * 10 ^ nat (j + 9)"
  have w'_eq: "w' = real_of_int D * 10 powi j * 2 ^ sh" by (simp only: w'_def w)
  have "(10 :: real) ^ nat (j + 9) = 10 powi (j + 9)" using j by (simp add: power_int_def)
  then have p: "(10 :: real) ^ nat (j + 9) = 10 powi j * 10 ^ 9" by (simp add: power_int_add)
  have M: "w' * 10 ^ 9 = real_of_int (M * 2 ^ sh)"
    unfolding w'_eq M_def of_int_mult of_int_power of_int_numeral p by (simp only: mult_ac)
  have "real_of_int ((V + 1) * 10 ^ 9) < real_of_int (M * 2 ^ sh)"
    "real_of_int (M * 2 ^ sh) < real_of_int ((U - 1) * 10 ^ 9)"
    unfolding M [symmetric] using low up by simp_all
  then have "(U - 1 - delta) * 10 ^ 9 < M * 2 ^ sh" "M * 2 ^ sh \<le> (U - 1) * 10 ^ 9"
    unfolding of_int_less_iff by (simp_all add: delta)
  then have "(U - 1) * 10 ^ 9 mod 2 ^ sh < delta * 10 ^ 9" by (rule multiple_between) simp
  then show ?thesis by simp
qed

lemma Grisu2_ok:
  assumes v: "DiyFp_of d = \<lparr>fp = word_of_int f, exponent = e\<rparr>" and f: "significant f e"
  shows "case Grisu2 d of
      Inl x \<Rightarrow> \<exists>n. x = PastPow10 n \<and> 10 \<le> n \<and> n \<le> 16 \<and> \<not> short_decimal (real_of_int f * 2 powi e)
    | Inr (b, k) \<Rightarrow> b \<noteq> [] \<and> length b \<le> 17 \<and> list_all is_digit b \<and> \<bar>k\<bar> < 358 \<and>
        lower_half f e < real_of_int (buffer_value b) * 10 powi k \<and>
        real_of_int (buffer_value b) * 10 powi k < upper_half f e"
proof -
  define s where "s = 63 - bit_length f"
  note dist = boundary_distance [OF f s_def]
  obtain W delta sh U V K and c :: real where G: "Grisu2 d = DigitGen W \<lparr>fp = word_of_int (U - 1), exponent = - int sh\<rparr> delta K"
    and sh: "34 \<le> sh" "sh \<le> 60" "2 ^ sh \<le> U - 1" "U - 1 < 10 ^ 9 * 2 ^ sh" "U - 1 < 2 ^ 64"
    and delta: "uint delta = U - V - 2" "U - 1 < 10 ^ 16 * uint delta" "0 \<le> V"
    and K: "\<bar>K\<bar> \<le> 348" "c = 2 powi (e - 1 - int s) * 10 powi (- K) * 2 ^ sh" "1 / 4 \<le> c"
    and near: "\<bar>real_of_int U - real_of_int ((2 * f + 1) * 2 ^ s) * c\<bar> < 1"
      "\<bar>real_of_int V - real_of_int (lower_boundary f s) * c\<bar> < 1"
    by (rule Grisu2_scaled [OF v f s_def])
  define u :: real where "u = 10 powi (- K) * 2 ^ sh"
  have u: "0 < u" by (simp add: u_def)
  have c: "real_of_int n * c = real_of_int n * 2 powi (e - 1 - int s) * u" for n by (simp add: K(2) u_def)
  note near0 = near
  note near = near [unfolded c boundary_values [OF dist(6)]]
  have d2: "uint delta \<le> U - 1" using delta by simp
  note digits = DigitGen_ok [OF sh delta(2) d2, where W = W and K = K, folded G]
  show ?thesis
  proof (cases "Grisu2 d")
    case (Inr r)
    obtain b k where r: "r = (b, k)" by (cases r)
    have b: "b \<noteq> []" "length b \<le> 17" "list_all is_digit b" "close_below sh (U - 1) (uint delta) b (k - K)"
      "- 10 < k - K" "k - K < 10"
      using digits Inr r by simp_all
    let ?y = "real_of_int (buffer_value b) * 10 powi k"
    have y: "real_of_int (buffer_value b) * 10 powi (k - K) * 2 ^ sh = ?y * u"
      by (simp add: u_def power_int_diff power_int_minus field_simps)
    note close_below_real [OF b(4), unfolded y delta(1)]
    with near have "lower_half f e * u < ?y * u" "?y * u < upper_half f e * u" by (simp_all add: abs_less_iff)
    with u have "lower_half f e < ?y" "?y < upper_half f e" by (simp_all add: mult_less_cancel_right_pos)
    with b K(1) Inr r show ?thesis by simp
  next
    case (Inl x)
    have nine: "(9 :: nat) < 10" by simp
    obtain n where n: "x = PastPow10 n" "10 \<le> n" "n \<le> 16"
      and hits: "\<forall>j<10. uint delta * 10 ^ j \<le> (U - 1) * 10 ^ j mod 2 ^ sh"
      using digits [unfolded Inl sum.case] by blast
    have "\<not> short_decimal (real_of_int f * 2 powi e)"
    proof
      assume "short_decimal (real_of_int f * 2 powi e)"
      then obtain D J where D: "0 \<le> D" "D < 10 ^ 10" "real_of_int f * 2 powi e = real_of_int D * 10 powi J"
        by (auto simp: short_decimal_def)
      have w: "real_of_int (2 * f * 2 ^ s) * c = real_of_int D * 10 powi (J - K) * 2 ^ sh"
        unfolding c boundary_values [OF dist(6)] D(3) by (simp add: u_def power_int_diff power_int_minus field_simps)
      have "\<not> uint delta * 10 ^ 9 \<le> (U - 1) * 10 ^ 9 mod 2 ^ sh"
        by (rule short_decimal_hit [OF D(1,2) w near0 K(3) f s_def sh(2) delta(1)])
      with hits nine show False by blast
    qed
    with n Inl show ?thesis by auto
  qed
qed

end
