(* ===== verification/DtoaText.thy ===== *)
theory DtoaText
  imports DtoaFacts
begin

text \<open>
  Facts about \<open>dtoa\<close>, for every value of the format: which text it writes and which fault it
  meets.  A text reads back, as an exact decimal number rounded to the format, as the value it
  was written for, and fits the 25 characters the writer reserves.
\<close>

section \<open>What lies between the boundaries rounds to the value\<close>

lemma nearest_eq: "\<bar>z - real_of_int m\<bar> < 1 / 2 \<Longrightarrow> nearest z = m"
  using nearest_half [of z] by linarith

lemma half_scaled:
  "lower_half f e = (if f = 2 ^ 52 then real_of_int f - 1 / 4 else real_of_int f - 1 / 2) * 2 powi e"
  "upper_half f e = (real_of_int f + 1 / 2) * 2 powi e"
  by (simp_all add: lower_half_def upper_half_def power_int_diff field_simps)

lemma powi_nat_less:
  "2 powi k \<le> z \<Longrightarrow> z < real_of_int (2 ^ i) \<Longrightarrow> k < int i"
  "z < 2 powi (k + 1) \<Longrightarrow> real_of_int (2 ^ i) \<le> z \<Longrightarrow> int i \<le> k"
proof -
  have p: "real_of_int (2 ^ i) = 2 powi (int i)" by simp
  show "k < int i" if "2 powi k \<le> z" "z < real_of_int (2 ^ i)"
    using le_less_trans [OF that] unfolding p powi_two_less .
  show "int i \<le> k" if "z < 2 powi (k + 1)" "real_of_int (2 ^ i) \<le> z"
    using le_less_trans [OF that(2,1)] unfolding p powi_two_less by simp
qed

lemma between_halves:
  assumes "significant f e" and "0 < n" and "0 < d"
    and y: "lower_half f e < real_of_int n / real_of_int d" "real_of_int n / real_of_int d < upper_half f e"
  shows "round64 t n d = (if e \<le> 971 then DFinite t f e else DInf t)"
proof -
  define z where "z = real_of_int n / real_of_int d / 2 powi e"
  define k where "k = binary_exponent n d"
  have f: "0 < f" "f < 2 ^ 53" "- 1074 \<le> e" "2 ^ 52 \<le> f \<or> e = - 1074" using assms(1) by (simp_all add: significant_def)
  have z: "(if f = 2 ^ 52 then real_of_int f - 1 / 4 else real_of_int f - 1 / 2) < z" "z < real_of_int f + 1 / 2"
    using y unfolding z_def half_scaled by (simp_all only: pos_less_divide_eq pos_divide_less_eq powi_two_pos)
  have kz: "2 powi (k - e) \<le> z" "z < 2 powi (k - e + 1)"
    using scaled_bounds [of k "real_of_int n / real_of_int d" e] binary_exponent_bounds [OF assms(2,3)]
    by (simp_all add: z_def k_def algebra_simps)
  have fz: "real_of_int f + 1 \<le> real_of_int (2 ^ 53)"
    using f(2) of_int_le_iff [of "f + 1" "2 ^ 53", where ?'a = real] by simp
  have "z < real_of_int (2 ^ 53)" using z(2) fz by linarith
  from powi_nat_less(1) [OF kz(1) this] have k: "k \<le> e + 52" by simp
  have r: "round64 t n d = round_real t k (real_of_int n / real_of_int d)"
    by (simp add: round64_real assms k_def)
  show ?thesis
  proof (cases "f = 2 ^ 52 \<and> z < real_of_int (2 ^ 52) \<and> - 1074 < e")
    case True
    then have "real_of_int (2 ^ 51) \<le> z" using z(1) by simp
    with True powi_nat_less(1) [OF kz(1), of 52] powi_nat_less(2) [OF kz(2), of 51]
    have ke: "max (- 1074) (k - 52) = e - 1" by simp
    have "real_of_int n / real_of_int d / 2 powi (e - 1) = 2 * z" by (simp add: z_def power_int_diff)
    moreover have "nearest (2 * z) = 2 ^ 53" using True z(1) by (intro nearest_eq) simp
    ultimately show ?thesis using True unfolding r round_real_def Let_def ke by simp
  next
    case False
    have ke: "max (- 1074) (k - 52) = e"
    proof (cases "2 ^ 52 \<le> f")
      case True
      have "real_of_int (2 ^ 52) \<le> z" if "- 1074 < e"
      proof (cases "f = 2 ^ 52")
        case True
        with False that show ?thesis by simp
      next
        case f': False
        then have "2 ^ 52 + 1 \<le> f" using True by simp
        then have "real_of_int (2 ^ 52 + 1) \<le> real_of_int f" by (simp only: of_int_le_iff)
        then show ?thesis using f' z(1) by simp
      qed
      then show ?thesis using powi_nat_less(2) [OF kz(2), of 52] k f(3) by fastforce
    next
      case small: False
      then have "real_of_int (f + 1) \<le> real_of_int (2 ^ 52)" by (simp only: of_int_le_iff)
      then have "z < real_of_int (2 ^ 52)" using z(2) by simp
      from powi_nat_less(1) [OF kz(1) this] small f(4) show ?thesis by simp
    qed
    have "real_of_int f - 1 / 2 < z" using z(1) by (simp split: if_splits)
    then have "nearest z = f" using z(2) by (intro nearest_eq) (simp only: abs_less_iff, intro conjI, linarith+)
    then show ?thesis using f(2) unfolding r round_real_def Let_def ke z_def [symmetric] by simp
  qed
qed

section \<open>Reading a text\<close>

text \<open>
  A decimal number as it is written: digits, perhaps a point and more digits, perhaps an
  exponent.  It is read exactly, as an integer and a power of ten.
\<close>

definition read_exponent :: "string \<Rightarrow> int option" where
  "read_exponent x =
     (let neg = (x \<noteq> [] \<and> hd x = CHR ''-''); ds = (if neg then tl x else x)
      in if ds \<noteq> [] \<and> list_all is_digit ds
         then Some (if neg then - int (digits_value ds) else int (digits_value ds)) else None)"

definition read_number :: "string \<Rightarrow> (nat \<times> int) option" where
  "read_number t =
     (let m = takeWhile (\<lambda>c. c \<noteq> CHR ''e'') t; ip = takeWhile (\<lambda>c. c \<noteq> CHR ''.'') m;
          fr = drop (Suc (length ip)) m; x = drop (length m) t
      in if ip \<noteq> [] \<and> list_all is_digit (ip @ fr)
         then map_option (\<lambda>k. (digits_value (ip @ fr), k - int (length fr)))
                (if x = [] then Some 0 else read_exponent (tl x))
         else None)"

definition read_decimal :: "string \<Rightarrow> (bool \<times> nat \<times> int) option" where
  "read_decimal s =
     (if s \<noteq> [] \<and> hd s = CHR ''-'' then map_option (Pair True) (read_number (tl s))
      else map_option (Pair False) (read_number s))"

lemma digit_not: "is_digit c \<Longrightarrow> c \<noteq> CHR ''e'' \<and> c \<noteq> CHR ''.'' \<and> c \<noteq> CHR ''-''"
  by (auto simp: is_digit_def)

lemma takeWhile_digits_not:
  "list_all is_digit ds \<Longrightarrow> takeWhile (\<lambda>c. c \<noteq> CHR ''e'') (ds @ r) = ds @ takeWhile (\<lambda>c. c \<noteq> CHR ''e'') r"
  "list_all is_digit ds \<Longrightarrow> takeWhile (\<lambda>c. c \<noteq> CHR ''.'') (ds @ r) = ds @ takeWhile (\<lambda>c. c \<noteq> CHR ''.'') r"
  by (induction ds) (auto dest: digit_not)

text \<open>The four forms of a number.\<close>

lemma read_number_forms:
  assumes "list_all is_digit ip" and "ip \<noteq> []" and "list_all is_digit fr"
  shows "read_number (ip @ ''.'' @ fr) = Some (digits_value (ip @ fr), - int (length fr))"
    and "read_number (ip @ ''e'' @ x) = map_option (\<lambda>k. (digits_value ip, k)) (read_exponent x)"
    and "read_number (ip @ ''.'' @ fr @ ''e'' @ x) =
      map_option (\<lambda>k. (digits_value (ip @ fr), k - int (length fr))) (read_exponent x)"
proof -
  have e: "takeWhile (\<lambda>c. c \<noteq> CHR ''e'') (ip @ ''.'' @ fr) = ip @ ''.'' @ fr"
    "takeWhile (\<lambda>c. c \<noteq> CHR ''e'') (ip @ ''e'' @ x) = ip"
    "takeWhile (\<lambda>c. c \<noteq> CHR ''e'') (ip @ ''.'' @ fr @ ''e'' @ x) = ip @ ''.'' @ fr"
    using takeWhile_digits_not(1) [OF assms(3), of "[]"] takeWhile_digits_not(1) [OF assms(3), of "''e'' @ x"]
    by (simp_all add: takeWhile_digits_not(1) [OF assms(1)])
  have p: "takeWhile (\<lambda>c. c \<noteq> CHR ''.'') (ip @ ''.'' @ fr) = ip" "takeWhile (\<lambda>c. c \<noteq> CHR ''.'') ip = ip"
    using takeWhile_digits_not(2) [OF assms(1), of "[]"] by (simp_all add: takeWhile_digits_not(2) [OF assms(1)])
  show "read_number (ip @ ''.'' @ fr) = Some (digits_value (ip @ fr), - int (length fr))"
    unfolding read_number_def Let_def e p using assms by simp
  show "read_number (ip @ ''e'' @ x) = map_option (\<lambda>k. (digits_value ip, k)) (read_exponent x)"
    unfolding read_number_def Let_def e p using assms by simp
  show "read_number (ip @ ''.'' @ fr @ ''e'' @ x) =
      map_option (\<lambda>k. (digits_value (ip @ fr), k - int (length fr))) (read_exponent x)"
    unfolding read_number_def Let_def e p using assms by simp
qed

lemma zeros:
  "digits_value (replicate n (CHR ''0'')) = 0" "list_all is_digit (replicate n (CHR ''0''))"
  "digits_value ''0'' = 0" "list_all is_digit ''0''"
proof -
  show "digits_value (replicate n (CHR ''0'')) = 0"
    by (induction n) (simp_all add: digits_value_snoc flip: replicate_append_same, simp add: digits_value_def)
qed (simp_all add: list_all_iff is_digit_def digits_value_def)

section \<open>The exponent\<close>

lemma WriteExponent_digits:
  assumes "\<bar>K\<bar> < 1000"
  shows "WriteExponent K = (if K < 0 then ''-'' else []) @ digits (nat \<bar>K\<bar>)"
proof -
  define n where "n = nat \<bar>K\<bar>"
  have n: "n < 1000" "\<bar>K\<bar> = int n" using assms by (simp_all add: n_def)
  have l: "cDigitsLut ! (2 * k) = char_of (48 + k div 10)" "cDigitsLut ! (2 * k + 1) = char_of (48 + k mod 10)"
    if "k < 100" for k
    using lut_table that by simp_all
  have d: "digits n = (if 100 \<le> n then [char_of (48 + n div 100), cDigitsLut ! (2 * (n mod 100)), cDigitsLut ! (2 * (n mod 100) + 1)]
      else if 10 \<le> n then [cDigitsLut ! (2 * n), cDigitsLut ! (2 * n + 1)] else [char_of (48 + n)])"
  proof -
    consider "n < 10" | "10 \<le> n" "n < 100" | "100 \<le> n" by linarith
    then show ?thesis
    proof cases
      case 1
      then show ?thesis by (simp add: digits.simps [of n])
    next
      case 2
      then show ?thesis using l [of n] by (simp add: digits.simps [of n] digits.simps [of "n div 10"] div_less_iff_less_mult)
    next
      case 3
      have "n div 10 div 10 = n div 100" "n div 10 mod 10 = n mod 100 div 10" "n mod 100 mod 10 = n mod 10"
        by (simp_all add: div_mult2_eq [symmetric] mod_mult2_eq [of n 10 10, simplified] mod_mod_cancel)
      with 3 n(1) l [of "n mod 100"] show ?thesis
        by (simp add: digits.simps [of n] digits.simps [of "n div 10"] digits.simps [of "n div 100"]
            div_less_iff_less_mult)
    qed
  qed
  have "nat (int n div 100) = n div 100" "nat (int n mod 100) = n mod 100"
    by (simp_all add: nat_div_distrib nat_mod_distrib)
  then show ?thesis unfolding WriteExponent_def Let_def n(2) nat_int d by simp
qed

lemma read_exponent_written: "\<bar>K\<bar> < 1000 \<Longrightarrow> read_exponent (WriteExponent K) = Some K"
proof -
  assume "\<bar>K\<bar> < 1000"
  moreover obtain c cs where "digits (nat \<bar>K\<bar>) = c # cs" "is_digit c" using digits_head by blast
  moreover have "list_all is_digit (digits (nat \<bar>K\<bar>))" using digits_all by (simp add: list_all_iff)
  ultimately show ?thesis
    using digits_value_digits [of "nat \<bar>K\<bar>"] digit_not [of c]
    by (simp add: WriteExponent_digits read_exponent_def)
qed

section \<open>The text\<close>

lemma WriteExponent_length: "1 \<le> length (WriteExponent K) \<and> length (WriteExponent K) \<le> 4"
  by (auto simp: WriteExponent_def Let_def)

lemma Prettify_length:
  "buffer \<noteq> [] \<Longrightarrow> length buffer \<le> 17 \<Longrightarrow> Prettify buffer k \<noteq> [] \<and> length (Prettify buffer k) \<le> 24"
  using WriteExponent_length [of "int (length buffer) + k - 1"]
  by (auto simp: Prettify_def Let_def)

lemma Prettify_head:
  assumes "b \<noteq> []" and "list_all is_digit b"
  shows "hd (Prettify b k) \<noteq> CHR ''-''"
proof -
  have "is_digit (hd b)" using assms by (simp add: list_all_iff)
  then have "hd b \<noteq> CHR ''-''" using digit_not by blast
  then show ?thesis using assms(1) by (auto simp: Prettify_def Let_def hd_append take_eq_Nil)
qed

lemma list_all_take_drop:
  "list_all P xs \<Longrightarrow> list_all P (take n xs)" "list_all P xs \<Longrightarrow> list_all P (drop n xs)"
  by (auto simp: list_all_iff dest: in_set_takeD in_set_dropD)

text \<open>Where the zeros and the point go does not change the number.\<close>

lemma Prettify_reads:
  assumes b: "b \<noteq> []" "list_all is_digit b" and "length b \<le> 17" and "\<bar>k\<bar> < 358"
  shows "\<exists>N K. read_number (Prettify b k) = Some (N, K) \<and>
    real N * 10 powi K = real_of_int (buffer_value b) * 10 powi k"
proof -
  define kk where "kk = int (length b) + k"
  let ?v = "digits_value b"
  have v: "real_of_int (buffer_value b) = real ?v" by (simp add: buffer_value_def)
  have ex: "read_exponent (WriteExponent (kk - 1)) = Some (kk - 1)"
    using assms(3,4) by (intro read_exponent_written) (simp add: kk_def)
  consider (integer) "int (length b) \<le> kk" "kk \<le> 21"
    | (inside) "\<not> int (length b) \<le> kk" "0 < kk" "kk \<le> 21"
    | (small) "- 6 < kk" "kk \<le> 0"
    | (one) "\<not> (int (length b) \<le> kk \<and> kk \<le> 21)" "\<not> (0 < kk \<and> kk \<le> 21)" "\<not> (- 6 < kk \<and> kk \<le> 0)" "length b = 1"
    | (many) "\<not> (int (length b) \<le> kk \<and> kk \<le> 21)" "\<not> (0 < kk \<and> kk \<le> 21)" "\<not> (- 6 < kk \<and> kk \<le> 0)" "length b \<noteq> 1"
    by linarith
  then show ?thesis
  proof cases
    case integer
    define z where "z = replicate (nat kk - length b) (CHR ''0'')"
    have k: "0 \<le> k" "length z = nat k" using integer by (simp_all add: kk_def z_def nat_diff_distrib')
    have P: "Prettify b k = (b @ z) @ ''.'' @ ''0''"
      using integer by (simp add: Prettify_def Let_def z_def flip: kk_def)
    have "list_all is_digit (b @ z)" using b zeros by (simp add: z_def)
    from read_number_forms(1) [OF this _ zeros(4)] b(1)
    have r: "read_number (Prettify b k) = Some (digits_value (b @ z @ ''0''), - 1)" by (simp add: P)
    have "digits_value (b @ z @ ''0'') = ?v * 10 ^ nat k * 10"
      using zeros k(2) by (simp add: digits_value_append z_def)
    moreover have "(10 :: real) powi k = 10 ^ nat k" using k by (simp add: power_int_def)
    ultimately show ?thesis using r by (simp add: v power_int_minus)
  next
    case inside
    have P: "Prettify b k = take (nat kk) b @ ''.'' @ drop (nat kk) b"
      using inside by (simp add: Prettify_def Let_def flip: kk_def)
    have "take (nat kk) b \<noteq> []" using b(1) inside by simp
    from read_number_forms(1) [OF list_all_take_drop(1) [OF b(2)] this list_all_take_drop(2) [OF b(2)]]
    have "read_number (Prettify b k) = Some (?v, k)"
      using inside by (simp add: P kk_def of_nat_diff nat_le_iff)
    then show ?thesis by (simp add: v)
  next
    case small
    have P: "Prettify b k = ''0'' @ ''.'' @ replicate (nat (- kk)) (CHR ''0'') @ b"
    proof -
      have "0 < int (length b)" using b(1) by simp
      then have "\<not> int (length b) \<le> kk" using small by linarith
      then show ?thesis using small by (simp add: Prettify_def Let_def flip: kk_def)
    qed
    have "list_all is_digit (replicate (nat (- kk)) (CHR ''0'') @ b)" using b zeros by simp
    from read_number_forms(1) [OF zeros(4) _ this]
    have "read_number (Prettify b k) = Some (digits_value (''0'' @ replicate (nat (- kk)) (CHR ''0'') @ b), k)"
      using small by (simp add: P kk_def)
    moreover have "digits_value (''0'' @ replicate (nat (- kk)) (CHR ''0'') @ b) = ?v"
      unfolding digits_value_append zeros by simp
    ultimately show ?thesis by (simp add: v)
  next
    case one
    have P: "Prettify b k = b @ ''e'' @ WriteExponent (kk - 1)"
      unfolding Prettify_def Let_def kk_def [symmetric]
      by (simp only: if_not_P [OF one(1)] if_not_P [OF one(2)] if_not_P [OF one(3)] if_P [OF one(4)])
    have "kk - 1 = k" using one by (simp add: kk_def)
    with read_number_forms(2) [OF b(2,1) zeros(4), of "WriteExponent (kk - 1)"] ex
    have "read_number (Prettify b k) = Some (?v, k)" by (simp add: P)
    then show ?thesis by (simp add: v)
  next
    case many
    have P: "Prettify b k = take 1 b @ ''.'' @ drop 1 b @ ''e'' @ WriteExponent (kk - 1)"
      unfolding Prettify_def Let_def kk_def [symmetric]
      by (simp only: if_not_P [OF many(1)] if_not_P [OF many(2)] if_not_P [OF many(3)] if_not_P [OF many(4)])
    have "take 1 b \<noteq> []" using b(1) by simp
    from read_number_forms(3) [OF list_all_take_drop(1) [OF b(2)] this list_all_take_drop(2) [OF b(2)]]
    have "read_number (Prettify b k) = Some (digits_value (take 1 b @ drop 1 b), kk - 1 - int (length (drop 1 b)))"
      unfolding P by (simp only: ex option.map)
    moreover have "kk - 1 - int (length (drop 1 b)) = k" using b(1) by (cases b) (simp_all add: kk_def)
    ultimately show ?thesis by (simp only: v append_take_drop_id) blast
  qed
qed

section \<open>The text of a value\<close>

lemma masked_63: "(word_of_int n :: u64) AND (kDpExponentMask OR kDpSignificandMask) = 0 \<longleftrightarrow> n mod 2 ^ 63 = 0"
proof -
  have m: "(kDpExponentMask OR kDpSignificandMask :: u64) = mask 63"
    by (simp add: kDpExponentMask_def kDpSignificandMask_def mask_eq_exp_minus_1)
  have "(word_of_int n :: u64) AND mask 63 = take_bit 63 (word_of_int n)" by (simp only: take_bit_eq_mask)
  moreover have "uint (take_bit 63 (word_of_int n :: u64)) = n mod 2 ^ 63"
    by (simp add: unsigned_take_bit_eq unsigned_of_int) (simp add: take_bit_eq_mod)
  ultimately show ?thesis unfolding m by (metis uint_0_iff)
qed

lemma IsZero_iff:
  assumes "double_ok d"
  shows "IsZero d \<longleftrightarrow> (\<exists>s. d = DFinite s 0 (- 1074))"
proof (cases d)
  case (DFinite s m e)
  define low where "low = (if m < 2 ^ 52 then m else (e + 1075) * 2 ^ 52 + (m - 2 ^ 52))"
  have m: "0 \<le> m" "m < 2 ^ 53" "- 1074 \<le> e" "e \<le> 971" "2 ^ 52 \<le> m \<or> e = - 1074" using assms DFinite by simp_all
  have "(e + 1075) * 2 ^ 52 \<le> 2046 * 2 ^ 52" "1 * 2 ^ 52 \<le> (e + 1075) * 2 ^ 52"
    using m by (intro mult_right_mono; simp)+
  then have low: "0 \<le> low" "low < 2 ^ 63" "low = 0 \<longleftrightarrow> m = 0" using m by (auto simp: low_def)
  have "(sign_bit s + low) mod 2 ^ 63 = low" using low by (simp add: sign_bit_def)
  then have "IsZero d \<longleftrightarrow> m = 0"
    using low by (simp only: IsZero_def DFinite Uint64Value.simps masked_63 flip: low_def)
  then show ?thesis using m DFinite by auto
next
  case (DInf s)
  have "(sign_bit s + 0x7FF * 2 ^ 52) mod 2 ^ 63 \<noteq> 0" by (simp add: sign_bit_def)
  then show ?thesis unfolding IsZero_def DInf Uint64Value.simps masked_63 by simp
next
  case DNaN
  have "(0x7FF * 2 ^ 52 + 2 ^ 51) mod 2 ^ 63 \<noteq> (0 :: int)" by simp
  then show ?thesis unfolding IsZero_def DNaN Uint64Value.simps masked_63 by simp
qed

lemma Sign_zero: "Sign (DFinite s 0 (- 1074)) = s"
  by (cases s) (simp_all add: Sign_def sign_bit_def)

definition double_short :: "double \<Rightarrow> bool" where
  "double_short d \<longleftrightarrow> (case d of DFinite s m e \<Rightarrow> short_decimal (real_of_int m * 2 powi e) | _ \<Rightarrow> False)"

text \<open>What \<open>dtoa\<close> computes for a value that is not zero.\<close>

lemma dtoa_nonzero:
  assumes "double_ok d" and "\<not> IsZero d"
  obtains n where "dtoa d = Inl (PastPow10 n)" and "10 \<le> n" and "n \<le> 16" and "\<not> double_short d"
    | b k f e where "dtoa d = Inr ((if double_negative d then ''-'' else []) @ Prettify b k)"
      and "b \<noteq> []" and "length b \<le> 17" and "list_all is_digit b" and "\<bar>k\<bar> < 358" and "significant f e"
      and "d \<noteq> DNaN \<Longrightarrow> d = (if double_negative d then double_neg (positive_double f e) else positive_double f e)"
      and "lower_half f e < real_of_int (buffer_value b) * 10 powi k"
      and "real_of_int (buffer_value b) * 10 powi k < upper_half f e"
proof -
  define v where "v = (if double_negative d then double_neg d else d)"
  have v: "double_ok v" "\<not> double_negative v" "d \<noteq> DNaN \<Longrightarrow> v \<noteq> DNaN"
    "d = (if double_negative d then double_neg v else v)"
    using assms(1) by (cases d; auto simp: v_def double_negative_def)+
  have "v \<noteq> DFinite True 0 (- 1074)" "v \<noteq> DFinite False 0 (- 1074)"
    using assms(2) IsZero_iff [OF assms(1)] by (cases d; auto simp: v_def)+
  then obtain f e where f: "DiyFp_of v = \<lparr>fp = word_of_int f, exponent = e\<rparr>" "significant f e"
    "v \<noteq> DNaN \<longrightarrow> v = positive_double f e"
    by (rule DiyFp_of_ok [OF v(1) _ _ v(2)])
  have dt: "dtoa d = map_sum id (\<lambda>(b, k). (if double_negative d then ''-'' else []) @ Prettify b k) (Grisu2 v)"
    using assms(2) by (simp add: dtoa_def Let_def flip: v_def)
  note G = Grisu2_ok [OF f(1,2)]
  show thesis
  proof (cases "Grisu2 v")
    case (Inl x)
    with G obtain n where n: "x = PastPow10 n" "10 \<le> n" "n \<le> 16" "\<not> short_decimal (real_of_int f * 2 powi e)" by auto
    have "\<not> double_short d"
      using f(3) v(3,4) n(4) by (cases d) (auto simp: double_short_def v_def positive_double_def split: if_splits)
    with that(1) Inl n dt show thesis by simp
  next
    case (Inr r)
    obtain b k where r: "r = (b, k)" by (cases r)
    have "d \<noteq> DNaN \<Longrightarrow> d = (if double_negative d then double_neg (positive_double f e) else positive_double f e)"
      using f(3) v(3,4) by auto
    with that(2) [of b k f e] G Inr r dt f(2) show thesis by simp
  qed
qed

text \<open>
  C20. Bounds and termination of \<open>dtoa\<close>, for every value of the format, subnormal numbers and
  infinity included: every loop ends, and the text is not empty and fits the 25 characters
  \<open>WriteDouble\<close> reserves in the buffer, unless \<open>kPow10\<close>, which has ten entries, is read at
  an index between 10 and 16; that is the only fault, no other index leaves its table or the
  buffer, and it never happens to a value with at most ten significant decimal digits.
\<close>

theorem dtoa_fits:
  assumes "double_ok d"
  shows "(\<exists>n. dtoa d = Inl (PastPow10 n) \<and> 10 \<le> n \<and> n \<le> 16 \<and> \<not> double_short d) \<or>
    (\<exists>s. dtoa d = Inr s \<and> s \<noteq> [] \<and> length s \<le> 25)"
proof (cases "IsZero d")
  case False
  show ?thesis
  proof (cases rule: dtoa_nonzero [OF assms False])
    case (2 b k f e)
    from Prettify_length [OF 2(2,3), of k] 2(1) show ?thesis by auto
  qed blast
qed (simp add: dtoa_def)

lemma dtoa_fits_witness:
  "\<exists>s. dtoa (DFinite False 6755399441055744 (- 52)) = Inr s \<and> s \<noteq> [] \<and> length s \<le> 25"
proof -
  have "real_of_int 6755399441055744 * 2 powi (- 52) = real_of_int 15 * 10 powi (- 1)"
    by (simp add: power_int_minus)
  then have "double_short (DFinite False 6755399441055744 (- 52))"
    unfolding double_short_def short_decimal_def by (simp only: double.case) (intro exI [of _ 15] exI [of _ "- 1"], simp)
  with dtoa_fits [of "DFinite False 6755399441055744 (- 52)"] show ?thesis by simp
qed

text \<open>
  C23. Round trip: whatever \<open>dtoa\<close> writes is a decimal number which, rounded exactly once to the
  format, is the value it was written for, sign of zero, subnormal numbers and infinity
  included.  (A NaN is written as a number above the largest value.)
\<close>

theorem dtoa_reads_back:
  assumes "double_ok d" and "d \<noteq> DNaN" and "dtoa d = Inr s"
  shows "\<exists>neg N K. read_decimal s = Some (neg, N, K) \<and>
    round64 neg (int N * 10 ^ nat K) (10 ^ nat (- K)) = d"
proof (cases "IsZero d")
  case True
  then obtain z where d: "d = DFinite z 0 (- 1074)" using IsZero_iff [OF assms(1)] by blast
  have s: "s = (if z then ''-'' else []) @ ''0'' @ ''.'' @ ''0''"
    using assms(3) True by (simp add: dtoa_def d Sign_zero)
  have "read_number (''0'' @ ''.'' @ ''0'') = Some (digits_value (''0'' @ ''0''), - 1)"
    using read_number_forms(1) [OF zeros(4) _ zeros(4)] by simp
  then have "read_decimal s = Some (z, 0, - 1)"
    unfolding s digits_value_append zeros by (simp add: read_decimal_def)
  moreover have "round64 z (int 0 * 10 ^ nat (- 1)) (10 ^ nat (- (- 1))) = d" by (simp add: round64_def d)
  ultimately show ?thesis by blast
next
  case False
  show ?thesis
  proof (cases rule: dtoa_nonzero [OF assms(1) False])
    case (2 b k f e)
    let ?neg = "double_negative d"
    obtain N K where r: "read_number (Prettify b k) = Some (N, K)"
      and y: "real N * 10 powi K = real_of_int (buffer_value b) * 10 powi k"
      using Prettify_reads [OF 2(2,4,3,5)] by blast
    have s: "s = (if ?neg then ''-'' else []) @ Prettify b k" using assms(3) 2(1) by simp
    have read: "read_decimal s = Some (?neg, N, K)"
      using r Prettify_head [OF 2(2,4), of k] Prettify_length [OF 2(2,3), of k] by (simp add: s read_decimal_def)
    have q: "real_of_int (int N * 10 ^ nat K) / real_of_int (10 ^ nat (- K)) = real N * 10 powi K"
      using powi_split [of K] by (simp add: field_simps)
    have "0 < f" using 2(6) by (simp add: significant_def)
    then have "0 < lower_half f e" by (simp add: lower_half_def)
    then have "0 < real N * 10 powi K" using 2(8) y by simp
    then have "0 < int N * 10 ^ nat K" by (auto simp: zero_less_mult_iff)
    from between_halves [OF 2(6) this, of "10 ^ nat (- K)" ?neg] 2(8,9)
    have "round64 ?neg (int N * 10 ^ nat K) (10 ^ nat (- K)) =
        (if e \<le> 971 then DFinite ?neg f e else DInf ?neg)"
      unfolding q y by simp
    also have "\<dots> = d"
      using 2(7) assms(2) by (cases ?neg) (simp_all add: positive_double_def split: if_splits)
    finally show ?thesis using read by blast
  qed (use assms(3) in simp)
qed

text \<open>A half is printed, and read back.\<close>

lemma dtoa_reads_back_witness:
  "\<exists>neg N K. read_decimal ''0.5'' = Some (neg, N, K) \<and>
     round64 neg (int N * 10 ^ nat K) (10 ^ nat (- K)) = DFinite False 4503599627370496 (- 53)"
proof -
  have "dtoa (DFinite False 4503599627370496 (- 53)) = Inr ''0.5''" by code_simp
  from dtoa_reads_back [OF _ _ this] show ?thesis by simp
qed

end
