(* ===== verification/JsonPrint.thy ===== *)
theory JsonPrint
  imports DtoaText JsonWriterFacts JsonDocumentFacts
begin

text \<open>
  Printing any well-typed value, \<open>double\<close>s included: the writer writes the whole text, unless
  \<open>dtoa\<close> reads past its table at one of the \<open>double\<close>s of the value; then it ends with the fault
  of the first of them.
\<close>

section \<open>The \<open>double\<close>s of a value\<close>

primrec doubles :: "json \<Rightarrow> double list"
  and doubles_items :: "json list \<Rightarrow> double list"
  and doubles_members :: "(string \<times> json) list \<Rightarrow> double list"
  and doubles_member :: "string \<times> json \<Rightarrow> double list" where
  "doubles JNull = []"
| "doubles (JBool b) = []"
| "doubles (JInt i) = []"
| "doubles (JDouble d) = [d]"
| "doubles (JString s) = []"
| "doubles (JArray vs) = doubles_items vs"
| "doubles (JObject ms) = doubles_members ms"
| "doubles_items [] = []"
| "doubles_items (v # vs) = doubles v @ doubles_items vs"
| "doubles_members [] = []"
| "doubles_members (m # ms) = doubles_member m @ doubles_members ms"
| "doubles_member (k, v) = doubles v"

text \<open>The fault of the first \<open>double\<close> that is not printed.\<close>

fun first_fault :: "double list \<Rightarrow> fault option" where
  "first_fault [] = None"
| "first_fault (d # ds) = (case dtoa d of Inl f \<Rightarrow> Some f | Inr s \<Rightarrow> first_fault ds)"

lemma first_fault_append:
  "first_fault (xs @ ys) = (case first_fault xs of None \<Rightarrow> first_fault ys | Some f \<Rightarrow> Some f)"
  by (induction xs) (simp_all split: sum.splits)

lemma first_fault_Some: "first_fault ds = Some f \<Longrightarrow> \<exists>d\<in>set ds. dtoa d = Inl f"
  by (induction ds) (auto split: sum.splits)

lemma first_fault_items:
  "first_fault (doubles_items vs) = None \<longleftrightarrow> (\<forall>v\<in>set vs. first_fault (doubles v) = None)"
  by (induction vs) (auto simp: first_fault_append split: option.splits)

lemma first_fault_members:
  "first_fault (doubles_members ms) = None \<longleftrightarrow> (\<forall>m\<in>set ms. first_fault (doubles (snd m)) = None)"
  by (induction ms) (auto simp: first_fault_append split: option.splits)

lemma json_typed_parts:
  "json_typed_items vs \<longleftrightarrow> (\<forall>v\<in>set vs. json_typed v)"
  "json_typed_members ms \<longleftrightarrow> (\<forall>m\<in>set ms. json_typed (snd m))"
  "printable_items vs \<longleftrightarrow> (\<forall>v\<in>set vs. printable v)"
  "printable_members ms \<longleftrightarrow> (\<forall>m\<in>set ms. printable (snd m))"
proof -
  show "json_typed_items vs \<longleftrightarrow> (\<forall>v\<in>set vs. json_typed v)" and "printable_items vs \<longleftrightarrow> (\<forall>v\<in>set vs. printable v)"
    by (induction vs) auto
  show "json_typed_members ms \<longleftrightarrow> (\<forall>m\<in>set ms. json_typed (snd m))"
    and "printable_members ms \<longleftrightarrow> (\<forall>m\<in>set ms. printable (snd m))"
    by (induction ms) auto
qed

lemma printable_iff: "json_typed v \<Longrightarrow> printable v \<longleftrightarrow> first_fault (doubles v) = None"
proof (induction v)
  case (JArray vs)
  then show ?case by (auto simp: json_typed_parts first_fault_items)
next
  case (JObject ms)
  then show ?case by (auto simp: json_typed_parts first_fault_members) (metis snd_conv snds.intros prod.collapse)+
next
  case (JDouble d)
  then show ?case by (auto simp: double_text_def split: sum.splits)
qed simp_all

lemma set_doubles:
  "set (doubles_items vs) = (\<Union>v\<in>set vs. set (doubles v))"
  "set (doubles_members ms) = (\<Union>m\<in>set ms. set (doubles (snd m)))"
proof -
  show "set (doubles_items vs) = (\<Union>v\<in>set vs. set (doubles v))" by (induction vs) auto
  show "set (doubles_members ms) = (\<Union>m\<in>set ms. set (doubles (snd m)))" by (induction ms) auto
qed

lemma doubles_num: "json_typed v \<Longrightarrow> \<forall>d\<in>set (doubles v). is_num d"
proof (induction v)
  case (JArray vs)
  then show ?case by (fastforce simp: json_typed_parts set_doubles)
next
  case (JObject ms)
  then show ?case by (fastforce simp: json_typed_parts set_doubles)
qed simp_all

text \<open>A fault is an index past \<open>kPow10\<close>, at a \<open>double\<close> of more than ten significant digits.\<close>

lemma first_fault_index:
  assumes "json_typed v" and "first_fault (doubles v) = Some f"
  shows "\<exists>d n. d \<in> set (doubles v) \<and> dtoa d = Inl (PastPow10 n) \<and> f = PastPow10 n \<and> 10 \<le> n \<and> n \<le> 16 \<and>
    \<not> double_short d"
proof -
  from doubles_num [OF assms(1)] show ?thesis
    using first_fault_Some [OF assms(2)] dtoa_fits by (fastforce simp: is_num_def)
qed

section \<open>Values that are not printed\<close>

definition refused :: "json \<Rightarrow> bool" where
  "refused v \<longleftrightarrow>
     (\<forall>w f. json_typed v \<longrightarrow> first_fault (doubles v) = Some f \<longrightarrow> value_expected w \<longrightarrow>
        Accept Writer_handler v w = Inl f)"

lemma and_then_Inl [simp]: "and_then (Inl f) k = Inl f"
  by (simp add: and_then_def)

lemma refused_items:
  assumes "\<forall>v\<in>set vs. refused v" and "json_typed_items vs" and "first_fault (doubles_items vs) = Some f"
    and "level_stack w = level n True # ls"
  shows "Accept_items Writer_handler vs w = Inl f"
  using assms
proof (induction vs arbitrary: n w)
  case (Cons v vs)
  have w: "value_expected w" by (rule expected_array [OF Cons.prems(4)])
  show ?case
  proof (cases "printable v")
    case True
    then show ?thesis
      using Cons w by (simp add: Accept_writes prefixed_level [OF Cons.prems(4)] printable_iff first_fault_append)
  qed (use Cons.prems w in \<open>auto simp: refused_def printable_iff first_fault_append\<close>)
qed simp

lemma refused_member:
  assumes "refused v" and "json_typed v" and "first_fault (doubles v) = Some f" and "level_stack w = level n False # ls" and "even n"
  shows "Accept_member Writer_handler (k, v) w = Inl f"
proof -
  let ?w = "put (comma (n = 0) @ string_text k) (w\<lparr>level_stack := level (n + 1) False # ls\<rparr>)"
  have "call Writer_handler (SKey k) w = Inr (True, ?w)"
    using assms(4,5)
    by (simp add: call_def write_value_def Prefix_name prefixed_level [OF assms(4)] separators)
  moreover have "value_expected ?w" using assms(5) by (intro expected_member [of _ "n + 1" ls]) simp_all
  ultimately show ?thesis using assms(1-3) by (simp add: refused_def)
qed

lemma refused_members:
  assumes "\<forall>m\<in>set ms. refused (snd m)" and "json_typed_members ms" and "first_fault (doubles_members ms) = Some f"
    and "level_stack w = level n False # ls" and "even n"
  shows "Accept_members Writer_handler ms w = Inl f"
  using assms
proof (induction ms arbitrary: n w)
  case (Cons m ms)
  obtain k v where m: "m = (k, v)" by (cases m)
  show ?case
  proof (cases "printable v")
    case True
    have "Accept_member Writer_handler (k, v) w =
        Inr (True, put (comma (n = 0) @ json_member (k, v)) (w\<lparr>level_stack := level (n + 2) False # ls\<rparr>))"
      by (rule accepted_member [OF all_accepted True Cons.prems(4,5)])
    then show ?thesis using Cons True by (simp add: m printable_iff first_fault_append)
  next
    case False
    then have ff: "first_fault (doubles v) = Some f"
      using Cons.prems m by (auto simp: printable_iff first_fault_append)
    have "Accept_member Writer_handler (k, v) w = Inl f"
      by (rule refused_member [OF _ _ ff Cons.prems(4,5)]) (use Cons.prems m in simp_all)
    then show ?thesis by (simp add: m)
  qed
qed simp

lemma all_refused: "refused v"
proof (induction v)
  case (JArray vs)
  then have "\<forall>v\<in>set vs. refused v" by simp
  then show ?case
    unfolding refused_def [of "JArray vs"]
    by (auto simp: call_Start refused_items [where n = 0 and ls = "level_stack (prefixed w)" for w])
next
  case (JObject ms)
  have "\<forall>m\<in>set ms. refused (snd m)"
    using JObject by (metis prod.collapse snds.intros)
  then show ?case
    unfolding refused_def [of "JObject ms"]
    by (auto simp: call_Start refused_members [where n = 0 and ls = "level_stack (prefixed w)" for w])
next
  case (JDouble d)
  show ?case
    unfolding refused_def by (auto simp: call_def Writer_Double_def Prefix_value split: sum.splits)
qed (simp_all add: refused_def)

lemma Accept_total:
  assumes "json_typed v"
  shows "Accept Writer_handler v Writer_new =
    (case first_fault (doubles v) of
       None \<Rightarrow> Inr (True, \<lparr>written = json_text v, level_stack = [], hasRoot = True\<rparr>)
     | Some f \<Rightarrow> Inl f)"
  using all_refused [of v] assms Accept_document [of v]
  by (simp add: refused_def value_expected_def Writer_new_def printable_iff split: option.splits)

end
