(* ===== verification/JsonProperties.thy ===== *)
theory JsonProperties
  imports JsonRoundtrip JsonPrint EtcdFacts
begin

text \<open>
  What \<open>rapidjson\<close> promises the etcd client: the type of a parsed document, the faults a text
  can cause, the round trip of writer and reader, the
  writing of every parsed document, the integers of \<open>itoa.h\<close>, the flags of a
  number, and the reading of a reply from its text.
\<close>

section \<open>Parsing\<close>

text \<open>
  C17. Safety and errors of \<open>Document::Parse\<close>, for every text: the reader never reads past the
  terminating NUL, fails no assertion, indexes no table out of range and always ends.  Either
  one well-typed value is left in the document without an error, or the document is as it was
  and the error lies at a position of the text, or the exponent of a number overflows an
  \<open>int\<close>.
\<close>

theorem parse_outcome:
  "Document_Parse doc t = Inl SignedOverflow \<or>
   (\<exists>code off. Document_Parse doc t = Inr (doc, code, off) \<and> code \<noteq> kParseErrorNone \<and>
      off \<le> length (c_str t) + 1) \<or>
   (\<exists>v. Document_Parse doc t = Inr (v, kParseErrorNone, 0) \<and> json_typed v)"
  by (rule Document_Parse_cases [of doc t]) blast+

text \<open>
  Error: twelve digits and an exponent make \<open>int p = exp + expFrac\<close> overflow: after the
  exponent has passed 214748364 the digits are skipped, but the largest exponent let through
  and the ten digits of the fraction together leave the range of an \<open>int\<close>.
\<close>

theorem exponent_overflows: "Document_Parse JNull ''0.1234567890e-2147483639'' = Inl SignedOverflow"
  by code_simp

lemma binary_exponent_int:
  assumes "2 ^ k \<le> n" and "n < 2 ^ Suc k"
  shows "binary_exponent n 1 = int k"
proof (rule binary_exponent_unique)
  show "0 < n" using assms(1) by (meson less_le_trans zero_less_numeral zero_less_power)
  have "real_of_int (2 ^ k) \<le> real_of_int n" "real_of_int n < real_of_int (2 ^ Suc k)"
    using assms by (simp_all only: of_int_le_iff of_int_less_iff)
  then show "2 powi int k \<le> real_of_int n / real_of_int 1" "real_of_int n / real_of_int 1 < 2 powi (int k + 1)"
    by (simp_all add: power_int_add)
qed simp

lemma round_div_up: "a div b = q \<Longrightarrow> b < 2 * (a mod b) \<Longrightarrow> round_div a b = q + 1"
  by (simp add: round_div_def Let_def)

lemma Pow10_308: "Pow10 308 = Inr (DFinite False 5010420900022432 971)"
proof -
  define a :: int where "a = 10 ^ 308"
  have "binary_exponent a 1 = int 1023"
    unfolding a_def by (rule binary_exponent_int) simp_all
  moreover have "round_div a (2 ^ 971) = 5010420900022431 + 1"
    unfolding a_def by (rule round_div_up) simp_all
  moreover have "a \<noteq> 0" by (simp add: a_def)
  ultimately have "round64 False a 1 = DFinite False 5010420900022432 971"
    by (simp add: round64_def)
  then show ?thesis by (simp only: Pow10_def a_def) simp
qed
lemma ten_times_Pow10_308:
  "double_mul (DFinite False 5629499534213120 (- 49)) (DFinite False 5010420900022432 971) = DInf False"
proof -
  have "binary_exponent (5629499534213120 * 5010420900022432 * 2 ^ 922) 1 = int 1026"
    by (rule binary_exponent_int) simp_all
  then show ?thesis by (simp add: round64_def round_div_def Let_def)
qed

definition ten_number :: number where
  "ten_number = (number_start False)\<lparr>int32 := 10, significandDigit := 1, useDouble := True,
     dbl := DFinite False 5629499534213120 (- 49)\<rparr>"

lemma ScanNumber_10e308:
  "ScanNumber (StringStream_new ''10e308'') = Inr (ten_number, 308, stream [CHR 0x00] 6)"
  by code_simp

lemma number_event_10e308: "number_event ten_number 308 = Inr (SDouble (DInf False))"
  by (simp add: number_event_def ten_number_def number_start_def StrtodNormalPrecision_def FastPath_def
      Pow10_308 ten_times_Pow10_308 del: double_mul.simps)

text \<open>
  Error: a number beyond the largest \<open>double\<close> is refused with
  \<open>kParseErrorNumberTooBig\<close> only when its exponent alone is too large; \<open>10e308\<close> is read as
  infinity and accepted.
\<close>

theorem infinity_accepted:
  "Document_Parse JNull ''1e309'' = Inr (JNull, kParseErrorNumberTooBig, 5) \<and>
   Document_Parse JNull ''10e308'' = Inr (JDouble (DInf False), kParseErrorNone, 0)"
proof
  show "Document_Parse JNull ''1e309'' = Inr (JNull, kParseErrorNumberTooBig, 5)" by code_simp
  show "Document_Parse JNull ''10e308'' = Inr (JDouble (DInf False), kParseErrorNone, 0)"
    using ScanNumber_10e308
    by (simp add: Document_Parse_def c_str_def StringStream_new_def Document_ParseStream_def Reader_Parse_def
        is_white_def ParseValue.simps ParseNumber_def number_event_10e308 emit_def)
qed

section \<open>Writing\<close>

text \<open>
  C25. Equivalence: the unrolled, table-driven \<open>itoa.h\<close> writes exactly the plain decimal digits
  of every 32-bit and 64-bit integer, signed and unsigned.
\<close>

theorem itoa_digits:
  "u32toa u = digits (unat u) \<and> i32toa i = signed_digits (sint i) \<and>
   u64toa v = digits (unat v) \<and> i64toa j = signed_digits (sint j)"
  by (simp add: u32toa_digits i32toa_digits u64toa_digits i64toa_digits)

lemma write_parse_text:
  assumes "integral v"
  shows "Document_Parse doc (json_text v) = Inr (v, kParseErrorNone, 0)"
  using Reader_Parse_text [OF assms, of 0]
  by (simp add: Document_Parse_def Document_ParseStream_def c_str_text [OF assms] StringStream_new_def)

text \<open>
  Safety of the writer: while a value all of whose \<open>double\<close>s are printed is accepted, no
  assertion of the writer fails, and what it has written at the end is the compact text of the
  value, with the writer complete.
\<close>

theorem writer_accepts:
  assumes "printable v"
  shows "\<exists>w. Accept Writer_handler v Writer_new = Inr (True, w) \<and> IsComplete w \<and> written w = json_text v"
  using Accept_document [OF assms] by (simp add: IsComplete_def)

lemma writer_accepts_witness:
  "\<exists>w. Accept Writer_handler (JObject [(''a'', JArray [JInt 1, JNull])]) Writer_new = Inr (True, w) \<and>
     IsComplete w \<and> written w = json_text (JObject [(''a'', JArray [JInt 1, JNull])])"
  by (rule writer_accepts) simp

text \<open>
  C18. Round trip of \<open>Writer\<close> and \<open>Document::Parse\<close>: a value without \<open>double\<close>s, with strings
  and names of arbitrary bytes and integers up to the limits of 64 bits, nested to any depth,
  is written completely and read back as the same value, whatever the document was before.
\<close>

theorem write_parse_roundtrip:
  assumes "integral v"
  shows "\<exists>w. Accept Writer_handler v Writer_new = Inr (True, w) \<and> IsComplete w \<and>
    Document_Parse doc (written w) = Inr (v, kParseErrorNone, 0)"
  using Accept_document [OF integral_printable [OF assms]] write_parse_text [OF assms]
  by (simp add: IsComplete_def)

lemma write_parse_roundtrip_witness:
  "\<exists>w. Accept Writer_handler (JObject [(''k'', JArray [JInt (- 5), JString [CHR 0x00, CHR 0x22]])]) Writer_new =
       Inr (True, w) \<and> IsComplete w \<and>
     Document_Parse JNull (written w) =
       Inr (JObject [(''k'', JArray [JInt (- 5), JString [CHR 0x00, CHR 0x22]])], kParseErrorNone, 0)"
  by (rule write_parse_roundtrip) simp

text \<open>
  C21. Safety over reader, document, writer and \<open>dtoa\<close>: every document that \<open>Parse\<close> accepts is
  written.  No assertion of the writer fails and no loop runs on: the compact text of the
  document is written and the writer is complete, unless one of its \<open>double\<close>s, of more than ten
  significant decimal digits, makes \<open>dtoa\<close> read \<open>kPow10\<close> past its ten entries; then the writer
  ends with that fault and no other.
\<close>

theorem parsed_is_written:
  assumes "Document_Parse doc t = Inr (v, kParseErrorNone, off)"
  shows "(\<exists>w. Accept Writer_handler v Writer_new = Inr (True, w) \<and> IsComplete w \<and> written w = json_text v) \<or>
    (\<exists>d n. d \<in> set (doubles v) \<and> \<not> double_short d \<and> 10 \<le> n \<and> n \<le> 16 \<and>
       dtoa d = Inl (PastPow10 n) \<and> Accept Writer_handler v Writer_new = Inl (PastPow10 n))"
proof -
  have t: "json_typed v" using assms by (cases rule: Document_Parse_cases [of doc t]) auto
  show ?thesis
  proof (cases "first_fault (doubles v)")
    case None
    with Accept_total [OF t] show ?thesis by (simp add: IsComplete_def)
  next
    case (Some f)
    with Accept_total [OF t] first_fault_index [OF t Some] show ?thesis by auto
  qed
qed

lemma parsed_is_written_witness:
  "\<exists>w. Accept Writer_handler (JArray [JInt 1]) Writer_new = Inr (True, w) \<and> IsComplete w \<and>
      written w = json_text (JArray [JInt 1])"
proof -
  have "Document_Parse JNull ''[1]'' = Inr (JArray [JInt 1], kParseErrorNone, 0)" by code_simp
  from parsed_is_written [OF this] show ?thesis by simp
qed

text \<open>
  Printing the \<open>double\<close> nearest to one third takes twelve digits after the point of the scaled
  value.
\<close>

lemma dtoa_reads_past_table: "dtoa (DFinite False 6004799503160661 (- 54)) = Inl (PastPow10 12)"
  by code_simp

section \<open>Numbers\<close>

lemma masked_zero_iff: "u AND NOT (mask n) = 0 \<longleftrightarrow> uint u < 2 ^ n" for u :: "'a :: len word"
proof -
  have "u AND NOT (mask n) = 0 \<longleftrightarrow> take_bit n u = u"
    by (simp add: bit_eq_iff bit_simps) blast
  also have "\<dots> \<longleftrightarrow> take_bit n (uint u) = uint u"
    by (simp only: word_uint_eq_iff [of "take_bit n u"] unsigned_take_bit_eq)
  also have "\<dots> \<longleftrightarrow> uint u < 2 ^ n" by (simp add: take_bit_int_eq_self_iff)
  finally show ?thesis .
qed

lemma mask_31: "(0xFFFFFFFF80000000 :: u64) = NOT (mask 31)"
  unfolding minus_exp_eq_not_mask [symmetric] by simp

lemma mask_32: "(0xFFFFFFFF00000000 :: u64) = NOT (mask 32)"
  unfolding minus_exp_eq_not_mask [symmetric] by simp

lemma mask_63: "(0x8000000000000000 :: u64) = NOT (mask 63)"
  unfolding minus_exp_eq_not_mask [symmetric] by simp

lemma sign_mask: "(0x80000000 :: u32) = NOT (mask 31)"
  unfolding minus_exp_eq_not_mask [symmetric] by simp

lemmas masks = mask_31 mask_32 mask_63 sign_mask

lemma masked_31: "u AND 0xFFFFFFFF80000000 = 0 \<longleftrightarrow> uint u < 2 ^ 31" for u :: u64
  by (simp only: mask_31 masked_zero_iff)

lemma masked_32: "u AND 0xFFFFFFFF00000000 = 0 \<longleftrightarrow> uint u < 2 ^ 32" for u :: u64
  by (simp only: mask_32 masked_zero_iff)

lemma below_uint: "m \<le> 0 \<Longrightarrow> m \<le> uint u"
  by (rule order_trans [of _ 0]) simp_all

lemma uint_nonnegative: "0 \<le> sint v \<Longrightarrow> uint v = sint v" for v :: "'a :: len word"
  by (simp only: uint_nat unat_nonnegative int_nat_eq if_True)

text \<open>
  Equivalence: whichever of the four constructors made a number, its flags are those of its
  mathematical value, the types the value fits; so what \<open>Accept\<close>, \<open>GetInt\<close> and \<open>GetUint64\<close>
  do depends on the value only.
\<close>

theorem flags_of_value:
  "flags_Int i = flags_of (sint i) \<and> flags_Uint u = flags_of (uint u) \<and>
   flags_Int64 j = flags_of (sint j) \<and> flags_Uint64 v = flags_of (uint v)"
proof -
  have "flags_Int i = flags_of (sint i)"
    using sint_ge [of i] sint_lt [of i] by (simp add: flags_Int_def flags_of_def)
  moreover have "flags_Uint u = flags_of (uint u)"
    using uint_range_size [of u] by (simp add: flags_Uint_def flags_of_def masks masked_zero_iff word_size below_uint)
  moreover have "flags_Int64 j = flags_of (sint j)"
    using sint_ge [of j] sint_lt [of j] uint_nonnegative [of j]
    by (simp add: flags_Int64_def flags_of_def mask_31 [symmetric] masked_31 masked_32)
  moreover have "flags_Uint64 v = flags_of (uint v)"
    using uint_range_size [of v] by (simp add: flags_Uint64_def flags_of_def masks masked_zero_iff word_size below_uint)
  ultimately show ?thesis by simp
qed

section \<open>The reply of the store\<close>

text \<open>
  What the parameter \<open>parse\<close> of the etcd client is now: the document \<open>rapidjson\<close> leaves, for
  every text whose parsing has a defined result.  Of a text whose exponent overflows an \<open>int\<close>
  nothing is assumed.
\<close>

definition reads_documents :: "(string \<Rightarrow> json) \<Rightarrow> bool" where
  "reads_documents parse \<longleftrightarrow>
     (\<forall>t v code off. Document_Parse JNull t = Inr (v, code, off) \<longrightarrow> parse t = v)"

lemma reads_documents_text:
  assumes "reads_documents parse" and "integral v"
  shows "parse (c_str (json_text v)) = v"
  using assms(1) write_parse_text [OF assms(2), of JNull]
  unfolding reads_documents_def by (simp add: c_str_text [OF assms(2)])

fun index_ok :: "etcd_node \<Rightarrow> bool" where
  "index_ok (Leaf k v i) \<longleftrightarrow> 0 \<le> i \<and> i < 2 ^ 64"
| "index_ok (Directory k ns i) \<longleftrightarrow> 0 \<le> i \<and> i < 2 ^ 64 \<and> (\<forall>n\<in>set ns. index_ok n)"

lemma integral_node: "index_ok n \<Longrightarrow> integral (node_json n)"
  by (induction n) (auto simp: integral_items_iff integral_members_iff)

lemma integral_reply: "index_ok n \<Longrightarrow> integral (reply_json act n)"
  by (simp add: reply_json_def integral_node)

lemma integral_error:
  "- (2 ^ 31) \<le> code \<Longrightarrow> code < 2 ^ 31 \<Longrightarrow> 0 \<le> i \<Longrightarrow> i < 2 ^ 64 \<Longrightarrow> integral (error_json code msg cause i)"
  by (simp add: error_json_def)

text \<open>
  C24. Functional, over the stack of helper, client, curl, reply and JSON parser, for a parser
  that leaves the document \<open>rapidjson\<close> leaves: when the server answers with the text of a leaf
  of its store, \<open>etcd_get\<close> returns the value of the leaf; with the text of a directory that does
  not hold the key, the empty string; with the text of an error of any code, it throws that
  error; the base path stays.  The member that asks curl for the header of the answer must be
  unset: the constructor of the client leaves it uninitialised.
\<close>

theorem etcd_get_reads_text:
  assumes "reads_documents parse"
    and "perform (get_request (url_prefix (hclient h) @ basep h @ ''/'' @ path)) w = (a, w')"
    and "ans_code a = 0" and "\<not> client_header (hclient h)"
    and "key = basep h @ ''/'' @ path"
  shows "(concat (ans_body a) = json_text (reply_json act (Leaf key v i)) \<longrightarrow>
       index_ok (Leaf key v i) \<longrightarrow> plain key \<longrightarrow> plain v \<longrightarrow>
       fst (etcd_get what parse perform path False h w) = Inr v) \<and>
    (concat (ans_body a) = json_text (reply_json act (Directory key ns i)) \<longrightarrow>
       index_ok (Directory key ns i) \<longrightarrow> plain_node (Directory key ns i) \<longrightarrow>
       key \<notin> fst ` set (leaves (Directory key ns i)) \<longrightarrow>
       fst (etcd_get what parse perform path False h w) = Inr []) \<and>
    (concat (ans_body a) = json_text (error_json code msg cause i) \<longrightarrow> plain msg \<longrightarrow> plain cause \<longrightarrow>
       - (2 ^ 31) \<le> code \<longrightarrow> code < 2 ^ 31 \<longrightarrow> 0 \<le> i \<longrightarrow> i < 2 ^ 64 \<longrightarrow>
       fst (etcd_get what parse perform path False h w) = Inl (ReplyException code msg cause)) \<and>
    basep (fst (snd (etcd_get what parse perform path False h w))) = basep h"
  using etcd_get_reads_store [where parse = parse and perform = perform and h = h and path = path
      and w = w and w' = w' and a = a and key = key and ix = i, OF assms(2-)]
    reads_documents_text [OF assms(1) integral_reply] reads_documents_text [OF assms(1) integral_error]
  by simp

text \<open>A parser as assumed: it stands for no document where the exponent overflows.\<close>

definition document_of :: "string \<Rightarrow> json" where
  "document_of t = (case Document_Parse JNull t of Inl f \<Rightarrow> JNull | Inr (v, code, off) \<Rightarrow> v)"

lemma document_of_ok: "reads_documents document_of"
  by (simp add: reads_documents_def document_of_def)

definition demo_leaf :: etcd_node where
  "demo_leaf = Leaf ''/hvbench/tenants/t1/setup/port'' ''6633'' 4"

definition demo_answer :: answer where
  "demo_answer = \<lparr>ans_header = [], ans_body = [json_text (reply_json ''get'' demo_leaf)], ans_code = 0\<rparr>"

definition demo_error :: answer where
  "demo_error = \<lparr>ans_header = [], ans_body = [json_text (error_json 110 ''denied'' ''/x'' 9)], ans_code = 0\<rparr>"

lemma etcd_get_reads_text_witness:
  "fst (etcd_get [] document_of (\<lambda>rq w. (demo_answer, w)) ''setup/port'' False demo_helper ()) = Inr ''6633'' \<and>
   fst (etcd_get [] document_of (\<lambda>rq w. (demo_error, w)) ''setup/port'' False demo_helper ()) =
     Inl (ReplyException 110 ''denied'' ''/x'')"
proof -
  have h: "\<not> client_header (hclient demo_helper)"
    "''/hvbench/tenants/t1/setup/port'' = basep demo_helper @ ''/'' @ ''setup/port''"
    by (simp_all add: demo_helper_def Client_new_def)
  have a: "ans_code demo_answer = 0" "ans_code demo_error = 0" by (simp_all add: demo_answer_def demo_error_def)
  have b: "concat (ans_body demo_answer) =
      json_text (reply_json ''get'' (Leaf ''/hvbench/tenants/t1/setup/port'' ''6633'' 4))"
    unfolding demo_answer_def demo_leaf_def by (simp only: answer.simps concat.simps append_Nil2)
  have c: "index_ok (Leaf ''/hvbench/tenants/t1/setup/port'' ''6633'' 4)"
    "plain ''/hvbench/tenants/t1/setup/port''" "plain ''6633''"
    by (simp_all add: plain_def)
  have d: "concat (ans_body demo_error) = json_text (error_json 110 ''denied'' ''/x'' 9)"
    unfolding demo_error_def by (simp only: answer.simps concat.simps append_Nil2)
  have e: "plain ''denied''" "plain ''/x''" "- (2 ^ 31) \<le> (110 :: int)" "(110 :: int) < 2 ^ 31"
    "0 \<le> (9 :: int)" "(9 :: int) < 2 ^ 64"
    by (simp_all add: plain_def)
  note leaf = etcd_get_reads_text [where h = demo_helper and path = "''setup/port''" and w = "()" and w' = "()"
      and perform = "\<lambda>rq w. (demo_answer, w)" and act = "''get''" and v = "''6633''" and i = 4
      and what = "[]", OF document_of_ok refl a(1) h, THEN conjunct1]
  note err = etcd_get_reads_text [where h = demo_helper and path = "''setup/port''" and w = "()" and w' = "()"
      and perform = "\<lambda>rq w. (demo_error, w)" and code = 110 and msg = "''denied''" and cause = "''/x''" and i = 9
      and what = "[]", OF document_of_ok refl a(2) h, THEN conjunct2, THEN conjunct2, THEN conjunct1]
  from leaf b c err d e show ?thesis by blast
qed

end
