(* ===== verification/JsonIterative.thy ===== *)
theory JsonIterative
  imports JsonReader
begin

text \<open>
  The iterative parser of \<open>reader.h\<close>: its tokens, its states and their table \<open>Predict\<close>, the
  moves \<open>Transit\<close> with their stack, and \<open>IterativeParse\<close>.  It is an alternative to the
  recursive parser of \<open>JsonReader\<close>, and it accepts the same texts with the same events.
\<close>

section \<open>Tokens and states\<close>

datatype IterativeParsingState =
    IterativeParsingStartState | IterativeParsingFinishState | IterativeParsingErrorState
  | IterativeParsingObjectInitialState | IterativeParsingMemberKeyState
  | IterativeParsingKeyValueDelimiterState | IterativeParsingMemberValueState
  | IterativeParsingMemberDelimiterState | IterativeParsingObjectFinishState
  | IterativeParsingArrayInitialState | IterativeParsingElementState
  | IterativeParsingElementDelimiterState | IterativeParsingArrayFinishState
  | IterativeParsingValueState

datatype Token =
    LeftBracketToken | RightBracketToken | LeftCurlyBracketToken | RightCurlyBracketToken
  | CommaToken | ColonToken | StringToken | FalseToken | TrueToken | NullToken | NumberToken

text \<open>The entries of \<open>tokenMap\<close> that are not \<open>NumberToken\<close>.\<close>

definition Tokenize :: "char \<Rightarrow> Token" where
  "Tokenize c =
     (if c = CHR 0x22 then StringToken
      else if c = CHR '','' then CommaToken
      else if c = CHR '':'' then ColonToken
      else if c = CHR 0x5B then LeftBracketToken
      else if c = CHR 0x5D then RightBracketToken
      else if c = CHR ''f'' then FalseToken
      else if c = CHR ''n'' then NullToken
      else if c = CHR ''t'' then TrueToken
      else if c = CHR 0x7B then LeftCurlyBracketToken
      else if c = CHR 0x7D then RightCurlyBracketToken
      else NumberToken)"

text \<open>A row of the table for the states that await a value: compound values lead to their
  initial states, plain ones to \<open>q\<close>.\<close>

fun value_row :: "IterativeParsingState \<Rightarrow> Token \<Rightarrow> IterativeParsingState" where
  "value_row q LeftBracketToken = IterativeParsingArrayInitialState"
| "value_row q LeftCurlyBracketToken = IterativeParsingObjectInitialState"
| "value_row q StringToken = q"
| "value_row q FalseToken = q"
| "value_row q TrueToken = q"
| "value_row q NullToken = q"
| "value_row q NumberToken = q"
| "value_row q t = IterativeParsingErrorState"

fun Predict :: "IterativeParsingState \<Rightarrow> Token \<Rightarrow> IterativeParsingState" where
  "Predict IterativeParsingStartState t = value_row IterativeParsingValueState t"
| "Predict IterativeParsingObjectInitialState t =
     (case t of
        RightCurlyBracketToken \<Rightarrow> IterativeParsingObjectFinishState
      | StringToken \<Rightarrow> IterativeParsingMemberKeyState
      | _ \<Rightarrow> IterativeParsingErrorState)"
| "Predict IterativeParsingMemberKeyState t =
     (case t of
        ColonToken \<Rightarrow> IterativeParsingKeyValueDelimiterState
      | _ \<Rightarrow> IterativeParsingErrorState)"
| "Predict IterativeParsingKeyValueDelimiterState t = value_row IterativeParsingMemberValueState t"
| "Predict IterativeParsingMemberValueState t =
     (case t of
        RightCurlyBracketToken \<Rightarrow> IterativeParsingObjectFinishState
      | CommaToken \<Rightarrow> IterativeParsingMemberDelimiterState
      | _ \<Rightarrow> IterativeParsingErrorState)"
| "Predict IterativeParsingMemberDelimiterState t =
     (case t of
        StringToken \<Rightarrow> IterativeParsingMemberKeyState
      | _ \<Rightarrow> IterativeParsingErrorState)"
| "Predict IterativeParsingArrayInitialState t =
     (case t of
        RightBracketToken \<Rightarrow> IterativeParsingArrayFinishState
      | _ \<Rightarrow> value_row IterativeParsingElementState t)"
| "Predict IterativeParsingElementState t =
     (case t of
        RightBracketToken \<Rightarrow> IterativeParsingArrayFinishState
      | CommaToken \<Rightarrow> IterativeParsingElementDelimiterState
      | _ \<Rightarrow> IterativeParsingErrorState)"
| "Predict IterativeParsingElementDelimiterState t = value_row IterativeParsingElementState t"
| "Predict q t = IterativeParsingErrorState"

section \<open>Moves\<close>

text \<open>The stack holds, for every open object and array, the state to return to and the number of
  its members or elements so far.  The code pushes and pops the two together.\<close>

type_synonym frames = "(IterativeParsingState \<times> nat) list"

definition Transit_open ::
    "'h handler \<Rightarrow> IterativeParsingState \<Rightarrow> IterativeParsingState \<Rightarrow> frames \<Rightarrow> 'h \<Rightarrow> StringStream \<Rightarrow>
     stop + IterativeParsingState \<times> frames \<times> 'h \<times> StringStream" where
  "Transit_open h src dst stk st s =
     (let n = (if src = IterativeParsingArrayInitialState \<or> src = IterativeParsingElementDelimiterState
               then IterativeParsingElementState
               else if src = IterativeParsingKeyValueDelimiterState
               then IterativeParsingMemberValueState else src)
      in case emit h (if dst = IterativeParsingObjectInitialState then SStartObject else SStartArray) st s of
           Inl e \<Rightarrow> Inl e
         | Inr st' \<Rightarrow> map_sum id (\<lambda>(_, s'). (dst, (n, 0) # stk, st', s')) (Take s))"

definition Transit_value ::
    "'h handler \<Rightarrow> IterativeParsingState \<Rightarrow> frames \<Rightarrow> 'h \<Rightarrow> StringStream \<Rightarrow>
     stop + IterativeParsingState \<times> frames \<times> 'h \<times> StringStream" where
  "Transit_value h dst stk st s = map_sum id (\<lambda>(st', s'). (dst, stk, st', s')) (ParseValue h st s)"

definition Transit_delimiter ::
    "IterativeParsingState \<Rightarrow> frames \<Rightarrow> 'h \<Rightarrow> StringStream \<Rightarrow>
     stop + IterativeParsingState \<times> frames \<times> 'h \<times> StringStream" where
  "Transit_delimiter dst stk st s =
     (case Take s of
        Inl e \<Rightarrow> Inl e
      | Inr (_, s') \<Rightarrow>
          (case stk of
             [] \<Rightarrow> Inl (Fault AssertionFails)
           | (n, c) # fs \<Rightarrow> Inr (dst, (n, c + 1) # fs, st, s')))"

text \<open>The end of an object or of an array; \<open>counted\<close> is the state in which the last member or
  element still has to be counted.\<close>

definition Transit_close ::
    "'h handler \<Rightarrow> (nat \<Rightarrow> sax) \<Rightarrow> IterativeParsingState \<Rightarrow> IterativeParsingState \<Rightarrow> frames \<Rightarrow> 'h \<Rightarrow>
     StringStream \<Rightarrow> stop + IterativeParsingState \<times> frames \<times> 'h \<times> StringStream" where
  "Transit_close h ev counted src stk st s =
     (case stk of
        [] \<Rightarrow> Inl (Fault AssertionFails)
      | (n, c) # fs \<Rightarrow>
          (let c = (if src = counted then c + 1 else c);
               n = (if n = IterativeParsingStartState then IterativeParsingFinishState else n)
           in case emit h (ev c) st s of
                Inl e \<Rightarrow> Inl e
              | Inr st' \<Rightarrow> map_sum id (\<lambda>(_, s'). (n, fs, st', s')) (Take s)))"

text \<open>\<open>Inl\<close> is the error state with the error already set; the error state itself leaves the
  error to \<open>HandleError\<close>.\<close>

fun Transit ::
    "'h handler \<Rightarrow> IterativeParsingState \<Rightarrow> Token \<Rightarrow> IterativeParsingState \<Rightarrow> frames \<Rightarrow> 'h \<Rightarrow> StringStream \<Rightarrow>
     stop + IterativeParsingState \<times> frames \<times> 'h \<times> StringStream" where
  "Transit h src token IterativeParsingErrorState stk st s = Inr (IterativeParsingErrorState, stk, st, s)"
| "Transit h src token IterativeParsingObjectInitialState stk st s =
     Transit_open h src IterativeParsingObjectInitialState stk st s"
| "Transit h src token IterativeParsingArrayInitialState stk st s =
     Transit_open h src IterativeParsingArrayInitialState stk st s"
| "Transit h src token IterativeParsingMemberKeyState stk st s =
     map_sum id (\<lambda>(st', s'). (IterativeParsingMemberKeyState, stk, st', s')) (ParseString True h st s)"
| "Transit h src token IterativeParsingKeyValueDelimiterState stk st s =
     (if token = ColonToken
      then map_sum id (\<lambda>(_, s'). (IterativeParsingKeyValueDelimiterState, stk, st, s')) (Take s)
      else Inl (Fault AssertionFails))"
| "Transit h src token IterativeParsingMemberValueState stk st s =
     Transit_value h IterativeParsingMemberValueState stk st s"
| "Transit h src token IterativeParsingElementState stk st s =
     Transit_value h IterativeParsingElementState stk st s"
| "Transit h src token IterativeParsingMemberDelimiterState stk st s =
     Transit_delimiter IterativeParsingMemberDelimiterState stk st s"
| "Transit h src token IterativeParsingElementDelimiterState stk st s =
     Transit_delimiter IterativeParsingElementDelimiterState stk st s"
| "Transit h src token IterativeParsingObjectFinishState stk st s =
     Transit_close h SEndObject IterativeParsingMemberValueState src stk st s"
| "Transit h src token IterativeParsingArrayFinishState stk st s =
     Transit_close h SEndArray IterativeParsingElementState src stk st s"
| "Transit h src token IterativeParsingValueState stk st s =
     Transit_value h IterativeParsingFinishState stk st s"
| "Transit h src token IterativeParsingStartState stk st s = Inl (Fault AssertionFails)"
| "Transit h src token IterativeParsingFinishState stk st s = Inl (Fault AssertionFails)"

definition HandleError :: "IterativeParsingState \<Rightarrow> StringStream \<Rightarrow> stop" where
  "HandleError src s =
     ParseError
       (case src of
          IterativeParsingStartState \<Rightarrow> kParseErrorDocumentEmpty
        | IterativeParsingFinishState \<Rightarrow> kParseErrorDocumentRootNotSingular
        | IterativeParsingObjectInitialState \<Rightarrow> kParseErrorObjectMissName
        | IterativeParsingMemberDelimiterState \<Rightarrow> kParseErrorObjectMissName
        | IterativeParsingMemberKeyState \<Rightarrow> kParseErrorObjectMissColon
        | IterativeParsingMemberValueState \<Rightarrow> kParseErrorObjectMissCommaOrCurlyBracket
        | IterativeParsingElementState \<Rightarrow> kParseErrorArrayMissCommaOrSquareBracket
        | _ \<Rightarrow> kParseErrorUnspecificSyntaxError) (Tell s)"

section \<open>The loop\<close>

text \<open>Every move takes a character, so the loop ends.\<close>

lemma ParseInt32_less: "ParseInt32 n s = Inr (n', s') \<Longrightarrow> length (unread s') < length (unread s)"
proof -
  assume a: "ParseInt32 n s = Inr (n', s')"
  have "length (unread (fourth (i, sig, over, s2))) \<le> length (unread s1)"
    if "digit_loop lim l i0 sig0 s1 = Inr (i, sig, over, s2)" for lim l i0 sig0 s1 i sig over s2
    using that fwd_digit_loop [of s1 lim l i0 sig0] by (simp add: fwd_def reach_length)
  with a show ?thesis
    unfolding ParseInt32_def
    by (fastforce split: sum.splits if_splits dest!: Take_less)
qed

lemma fwd_le: "fwd g s r \<Longrightarrow> r = Inr a \<Longrightarrow> length (unread (g a)) \<le> length (unread s)"
  by (auto simp: fwd_def intro: reach_length)

lemma ScanNumber_less: "ScanNumber s = Inr (n, x, s') \<Longrightarrow> length (unread s') < length (unread s)"
  unfolding ScanNumber_def
  by (auto split: sum.splits dest!: fwd_le [OF fwd_ParseMinus] ParseInt32_less
      fwd_le [OF fwd_ParseInt64] fwd_le [OF fwd_ParseBig] fwd_le [OF fwd_ParseFrac]
      fwd_le [OF fwd_ParseExp])

lemma ParseNumber_less: "ParseNumber h st s = Inr (st', s') \<Longrightarrow> length (unread s') < length (unread s)"
  unfolding ParseNumber_def by (auto split: sum.splits dest: ScanNumber_less)


lemma parse_less:
  "ParseValue h st s = Inr r \<Longrightarrow> length (unread (snd r)) < length (unread s)"
  "ParseObject h st s = Inr r \<Longrightarrow> length (unread (snd r)) < length (unread s)"
  "ParseMembers h n st s = Inr r \<Longrightarrow> length (unread (snd r)) < length (unread s)"
  "ParseArray h st s = Inr r \<Longrightarrow> length (unread (snd r)) < length (unread s)"
  "ParseElements h n st s = Inr r \<Longrightarrow> length (unread (snd r)) < length (unread s)"
proof (induction h st s and h st s and h n st s and h st s and h n st s arbitrary: r and r and r and r and r
    rule: ParseValue_ParseObject_ParseMembers_ParseArray_ParseElements.induct)
  case (1 h st s)
  then show ?case
    by (cases r) (auto simp: ParseValue.simps [of h st s] literal_defs split: sum.splits if_splits
        dest!: ParseLiteral_less ParseString_less ParseNumber_less)
next
  case (2 h st s)
  then show ?case
    by (cases r) (fastforce simp: ParseObject.simps [of h st s] split: sum.splits if_splits
        dest: head_less Finish_less)
next
  case (3 h n st s)
  then obtain st1 s1 st2 s2 again st3 s3 where m: "MemberName h st s = Inr (st1, s1)"
    and v: "ParseValue h st1 s1 = Inr (st2, s2)" and e: "MemberEnd (Suc n) h st2 s2 = Inr (again, st3, s3)"
    and t: "(if again then ParseMembers h (Suc n) st3 s3 else Inr (st3, s3)) = Inr r"
    by (auto simp: ParseMembers.simps [of h n st s] split: sum.splits)
  show ?case
    using 3(1) [OF m refl v] 3(2) [OF m refl v refl e refl refl, of r] t
      MemberName_less [OF m] ElementEnd_less [OF e]
    by (auto split: if_splits)
next
  case (4 h st s)
  then show ?case
    by (cases r) (fastforce simp: ParseArray.simps [of h st s] split: sum.splits if_splits
        dest: head_less Finish_less)
next
  case (5 h n st s)
  then obtain st1 s1 again st2 s2 where v: "ParseValue h st s = Inr (st1, s1)"
    and e: "ItemEnd (Suc n) h st1 s1 = Inr (again, st2, s2)"
    and t: "(if again then ParseElements h (Suc n) st2 s2 else Inr (st2, s2)) = Inr r"
    by (auto simp: ParseElements.simps [of h n st s] split: sum.splits)
  show ?case
    using 5(1) [OF v] 5(2) [OF v refl e refl refl, of r] t ElementEnd_less [OF e]
    by (auto split: if_splits)
qed

lemma Transit_less:
  "Transit h src token dst stk st s = Inr (d, stk', st', s') \<Longrightarrow> d \<noteq> IterativeParsingErrorState \<Longrightarrow>
     length (unread s') < length (unread s)"
  by (cases "(h, src, token, dst, stk, st, s)" rule: Transit.cases)
     (auto simp: Transit_open_def Transit_value_def Transit_delimiter_def Transit_close_def Let_def
       split: sum.splits list.splits if_splits dest!: ParseString_less parse_less(1))

function Iterative_loop ::
    "'h handler \<Rightarrow> IterativeParsingState \<Rightarrow> frames \<Rightarrow> 'h \<Rightarrow> StringStream \<Rightarrow> stop + 'h \<times> StringStream" where
  "Iterative_loop h state stk st s =
     (case Peek s of
        Inl e \<Rightarrow> Inl e
      | Inr c \<Rightarrow>
          if c = CHR 0x00
          then (if state = IterativeParsingFinishState then Inr (st, s) else Inl (HandleError state s))
          else
            (case Transit h state (Tokenize c) (Predict state (Tokenize c)) stk st s of
               Inl e \<Rightarrow> Inl e
             | Inr (d, stk', st', s') \<Rightarrow>
                 if d = IterativeParsingErrorState then Inl (HandleError state s')
                 else (case SkipWhitespace s' of
                         Inl e \<Rightarrow> Inl e
                       | Inr s'' \<Rightarrow> Iterative_loop h d stk' st' s'')))"
  by pat_completeness auto
termination
  by (relation "measure (\<lambda>(h, state, stk, st, s). length (unread s))")
     (auto dest!: Transit_less SkipWhitespace_le)

declare Iterative_loop.simps [simp del]

definition IterativeParse :: "'h handler \<Rightarrow> 'h \<Rightarrow> StringStream \<Rightarrow> stop + 'h \<times> StringStream" where
  "IterativeParse h st s =
     (case SkipWhitespace s of
        Inl e \<Rightarrow> Inl e
      | Inr s1 \<Rightarrow> Iterative_loop h IterativeParsingStartState [] st s1)"

end
