(* ===== verification/JsonIterativeFacts.thy ===== *)
theory JsonIterativeFacts
  imports JsonIterative
begin

text \<open>
  The iterative parser simulates the recursive one: in every state that awaits a value, a member
  or an element, the loop runs on as the routine of the recursive parser would, and then from the
  state on its stack.
\<close>

section \<open>Outcomes\<close>

text \<open>What a caller sees of a parse but for the code and the position of an error.\<close>

definition outcome :: "stop + 'a \<Rightarrow> fault option + 'a" where
  "outcome r = map_sum (case_stop (\<lambda>code off. None) Some) id r"

lemma outcome_simps [simp]:
  "outcome (Inl (ParseError code off)) = Inl None"
  "outcome (Inl (Fault f)) = Inl (Some f)"
  "outcome (Inr a) = Inr a"
  "outcome (Inl (HandleError q s)) = Inl None"
  by (simp_all add: outcome_def HandleError_def)

lemma outcome_bind:
  "(\<And>a. r = Inr a \<Longrightarrow> outcome (F a) = outcome (G a)) \<Longrightarrow>
     outcome (case r of Inl e \<Rightarrow> Inl e | Inr a \<Rightarrow> F a) = outcome (case r of Inl e \<Rightarrow> Inl e | Inr a \<Rightarrow> G a)"
  by (cases r) simp_all

text \<open>White space after a routine, and then the rest of the loop.\<close>

definition resume ::
    "stop + 'h \<times> StringStream \<Rightarrow> ('h \<Rightarrow> StringStream \<Rightarrow> stop + 'b) \<Rightarrow> stop + 'b" where
  "resume r k =
     (case r of
        Inl e \<Rightarrow> Inl e
      | Inr (st, s) \<Rightarrow> (case SkipWhitespace s of Inl e \<Rightarrow> Inl e | Inr s' \<Rightarrow> k st s'))"

lemma resume_simps [simp]:
  "resume (Inl e) k = Inl e"
  "resume (Inr (st, s)) k = (case SkipWhitespace s of Inl e \<Rightarrow> Inl e | Inr s' \<Rightarrow> k st s')"
  by (simp_all add: resume_def)

lemma Peek_Inr: "Peek s = Inr c \<longleftrightarrow> (\<exists>cs. unread s = c # cs)"
  by (auto simp: Peek_def split: list.splits)

lemma Take_of_Peek: "Peek s = Inr c \<Longrightarrow> \<exists>s'. Take s = Inr (c, s')"
  by (auto simp: Peek_Inr Take_def)

lemma Peek_Inl: "Peek s = Inl e \<Longrightarrow> Take s = Inl e"
  by (auto simp: Peek_def Take_def split: list.splits)

section \<open>States\<close>

fun after_value :: "IterativeParsingState \<Rightarrow> IterativeParsingState" where
  "after_value IterativeParsingStartState = IterativeParsingFinishState"
| "after_value IterativeParsingKeyValueDelimiterState = IterativeParsingMemberValueState"
| "after_value q = IterativeParsingElementState"

definition awaits_value :: "IterativeParsingState \<Rightarrow> bool" where
  "awaits_value q \<longleftrightarrow> q \<in> {IterativeParsingStartState, IterativeParsingKeyValueDelimiterState,
     IterativeParsingArrayInitialState, IterativeParsingElementDelimiterState}"

definition popped :: "IterativeParsingState \<Rightarrow> IterativeParsingState" where
  "popped q = (if q = IterativeParsingStartState then IterativeParsingFinishState else q)"

definition pushed :: "IterativeParsingState \<Rightarrow> IterativeParsingState" where
  "pushed q = (if q = IterativeParsingStartState then q else after_value q)"

lemma popped_pushed: "awaits_value q \<Longrightarrow> popped (pushed q) = after_value q"
  by (auto simp: awaits_value_def popped_def pushed_def)

lemma loop_end: "Peek s = Inl e \<Longrightarrow> Iterative_loop h q stk st s = Inl e"
  by (simp add: Iterative_loop.simps [of h q stk st s])

lemma loop_refuses:
  "Peek s = Inr c \<Longrightarrow> c = CHR 0x00 \<or> Predict q (Tokenize c) = IterativeParsingErrorState \<Longrightarrow>
     q \<noteq> IterativeParsingFinishState \<Longrightarrow> outcome (Iterative_loop h q stk st s) = Inl None"
  by (auto simp: Iterative_loop.simps [of h q stk st s])

lemma loop_moves:
  "Peek s = Inr c \<Longrightarrow> c \<noteq> CHR 0x00 \<Longrightarrow> Predict q (Tokenize c) = d \<Longrightarrow> d \<noteq> IterativeParsingErrorState \<Longrightarrow>
     Transit h q (Tokenize c) d stk st s = map_sum id (\<lambda>(st', s'). (d', stk', st', s')) r \<Longrightarrow>
     d' \<noteq> IterativeParsingErrorState \<Longrightarrow>
     Iterative_loop h q stk st s = resume r (Iterative_loop h d' stk')"
  by (cases r) (auto simp: Iterative_loop.simps [of h q stk st s] resume_def)

section \<open>Values\<close>

definition plain :: "Token \<Rightarrow> bool" where
  "plain t \<longleftrightarrow> t \<in> {StringToken, FalseToken, TrueToken, NullToken, NumberToken}"

fun plain_state :: "IterativeParsingState \<Rightarrow> IterativeParsingState" where
  "plain_state IterativeParsingStartState = IterativeParsingValueState"
| "plain_state q = after_value q"

lemma Predict_plain: "awaits_value q \<Longrightarrow> plain t \<Longrightarrow> Predict q t = plain_state q"
  by (auto simp: awaits_value_def plain_def)

lemma Transit_plain:
  "awaits_value q \<Longrightarrow> Transit h q t (plain_state q) stk st s =
     map_sum id (\<lambda>(st', s'). (after_value q, stk, st', s')) (ParseValue h st s)"
  by (auto simp: awaits_value_def Transit_value_def)

lemma state_no_error [simp]:
  "after_value q \<noteq> IterativeParsingErrorState" "plain_state q \<noteq> IterativeParsingErrorState"
  by (cases q; simp)+

lemma plain_value:
  assumes "Peek s = Inr c" and "c \<noteq> CHR 0x00" and "awaits_value q" and "plain (Tokenize c)"
  shows "Iterative_loop h q stk st s = resume (ParseValue h st s) (Iterative_loop h (after_value q) stk)"
  by (rule loop_moves [OF assms(1,2) Predict_plain [OF assms(3,4)] _ Transit_plain [OF assms(3)]]) simp_all

lemma no_value:
  assumes "Peek s = Inr c"
    and "c = CHR 0x00 \<or> Tokenize c \<in> {RightBracketToken, RightCurlyBracketToken, CommaToken, ColonToken}"
  shows "outcome (resume (ParseValue h st s) k) = Inl None"
proof -
  have c: "c \<in> {CHR 0x00, CHR 0x5D, CHR 0x7D, CHR '','', CHR '':''}"
    using assms(2) by (auto simp: Tokenize_def split: if_splits)
  then have n: "\<not> is_digit c" "c \<noteq> CHR ''-''" "c \<noteq> CHR ''0''" by (auto simp: is_digit_def)
  have "ScanNumber s = Inl (ParseError kParseErrorValueInvalid (Tell s))"
    using assms(1) n by (simp add: ScanNumber_def ParseMinus_def ParseInt32_def)
  moreover have "ParseValue h st s = ParseNumber h st s"
    using assms(1) c by (elim insertE; simp add: ParseValue.simps [of h st s])
  ultimately show ?thesis by (simp add: ParseNumber_def)
qed

section \<open>Objects and arrays\<close>

lemma Tokenize_simps [simp]:
  "Tokenize CHR 0x7B = LeftCurlyBracketToken" "Tokenize CHR 0x7D = RightCurlyBracketToken"
  "Tokenize CHR 0x5B = LeftBracketToken" "Tokenize CHR 0x5D = RightBracketToken"
  "Tokenize CHR '','' = CommaToken" "Tokenize CHR '':'' = ColonToken" "Tokenize CHR 0x22 = StringToken"
  by (simp_all add: Tokenize_def)

lemma Predict_open:
  assumes "awaits_value q"
  shows "Predict q LeftCurlyBracketToken = IterativeParsingObjectInitialState"
    and "Predict q LeftBracketToken = IterativeParsingArrayInitialState"
  using assms by (auto simp: awaits_value_def)

text \<open>The recursive parser takes the bracket before it calls the handler, the iterative one
  after: only the position of an error tells.\<close>

lemma take_swap:
  "Peek s = Inr c \<Longrightarrow>
     outcome (resume (case emit h ev st s of Inl e \<Rightarrow> Inl e
       | Inr st' \<Rightarrow> map_sum id (\<lambda>(_, s'). (st', s')) (Take s)) k) =
     outcome (resume (Finish h ev st s) k)"
proof -
  assume "Peek s = Inr c"
  then obtain s1 where "Take s = Inr (c, s1)" using Take_of_Peek by blast
  then show ?thesis
    by (cases "h ev st" rule: sum.exhaust) (auto simp: Finish_def emit_def split: option.splits)
qed

lemma opens:
  assumes "Peek s = Inr c" and q: "awaits_value q"
    and c: "(c, d, ev) = (CHR 0x7B, IterativeParsingObjectInitialState, SStartObject) \<or>
      (c, d, ev) = (CHR 0x5B, IterativeParsingArrayInitialState, SStartArray)"
  shows "outcome (Iterative_loop h q stk st s) =
    outcome (resume (Finish h ev st s) (Iterative_loop h d ((pushed q, 0) # stk)))"
proof -
  have n: "(if q = IterativeParsingArrayInitialState \<or> q = IterativeParsingElementDelimiterState
      then IterativeParsingElementState
      else if q = IterativeParsingKeyValueDelimiterState then IterativeParsingMemberValueState else q) = pushed q"
    using q by (auto simp: awaits_value_def pushed_def)
  have p: "Predict q (Tokenize c) = d" "c \<noteq> CHR 0x00" "d \<noteq> IterativeParsingErrorState"
    using c by (auto simp: Predict_open [OF q])
  have "Transit h q (Tokenize c) d stk st s = map_sum id (\<lambda>(st', s'). (d, (pushed q, 0) # stk, st', s'))
      (case emit h ev st s of Inl e \<Rightarrow> Inl e | Inr st' \<Rightarrow> map_sum id (\<lambda>(_, s'). (st', s')) (Take s))"
    using c by (elim disjE; cases "Take s")
      (auto simp: Transit_open_def n Let_def split: sum.splits)
  from loop_moves [OF assms(1) p(2,1,3) this p(3)] show ?thesis
    by (simp add: take_swap [OF assms(1)])
qed

lemma closes:
  assumes "Peek s = Inr c"
    and c: "(c, ev, counted, d) = (CHR 0x7D, SEndObject, IterativeParsingMemberValueState,
        IterativeParsingObjectFinishState) \<or>
      (c, ev, counted, d) = (CHR 0x5D, SEndArray, IterativeParsingElementState,
        IterativeParsingArrayFinishState)"
    and p: "Predict q (Tokenize c) = d" and r: "r \<noteq> IterativeParsingErrorState"
  shows "outcome (Iterative_loop h q ((r, n) # stk) st s) =
    outcome (resume (Finish h (ev (if q = counted then Suc n else n)) st s) (Iterative_loop h (popped r) stk))"
proof -
  define m where "m = (if q = counted then Suc n else n)"
  have d: "c \<noteq> CHR 0x00" "d \<noteq> IterativeParsingErrorState" and r': "popped r \<noteq> IterativeParsingErrorState"
    using c r by (auto simp: popped_def)
  have "Transit h q (Tokenize c) d ((r, n) # stk) st s = map_sum id (\<lambda>(st', s'). (popped r, stk, st', s'))
      (case emit h (ev m) st s of Inl e \<Rightarrow> Inl e | Inr st' \<Rightarrow> map_sum id (\<lambda>(_, s'). (st', s')) (Take s))"
    using c by (elim disjE; cases "Take s")
      (auto simp: Transit_close_def popped_def m_def Let_def split: sum.splits)
  from loop_moves [OF assms(1) d(1) p d(2) this r'] show ?thesis
    by (simp add: take_swap [OF assms(1)] m_def)
qed

lemma next_item:
  assumes "r = IterativeParsingMemberDelimiterState \<and> q = IterativeParsingMemberValueState \<or>
      r = IterativeParsingElementDelimiterState \<and> q = IterativeParsingElementState"
    and "Peek s = Inr CHR '',''"
  shows "Iterative_loop h q ((p, n) # stk) st s =
    resume (map_sum id (\<lambda>(c, s'). (st, s')) (Take s)) (Iterative_loop h r ((p, Suc n) # stk))"
proof -
  obtain s1 where t: "Take s = Inr (CHR '','', s1)" using Take_of_Peek [OF assms(2)] by blast
  with assms show ?thesis
    by (auto simp: Iterative_loop.simps [of h q "(p, n) # stk" st s] Tokenize_def Transit_delimiter_def)
qed

text \<open>Which characters a token stands for.\<close>

lemma Tokenize_iff [simp]:
  "Tokenize c = StringToken \<longleftrightarrow> c = CHR 0x22" "Tokenize c = ColonToken \<longleftrightarrow> c = CHR '':''"
  "Tokenize c = CommaToken \<longleftrightarrow> c = CHR '',''" "Tokenize c = RightCurlyBracketToken \<longleftrightarrow> c = CHR 0x7D"
  "Tokenize c = RightBracketToken \<longleftrightarrow> c = CHR 0x5D"
  "Tokenize c = LeftCurlyBracketToken \<longleftrightarrow> c = CHR 0x7B" "Tokenize c = LeftBracketToken \<longleftrightarrow> c = CHR 0x5B"
  by (simp_all add: Tokenize_def)

lemma Predict_refuses:
  "t \<noteq> StringToken \<Longrightarrow> t \<noteq> RightCurlyBracketToken \<Longrightarrow>
     Predict IterativeParsingObjectInitialState t = IterativeParsingErrorState"
  "t \<noteq> StringToken \<Longrightarrow> Predict IterativeParsingMemberDelimiterState t = IterativeParsingErrorState"
  "t \<noteq> ColonToken \<Longrightarrow> Predict IterativeParsingMemberKeyState t = IterativeParsingErrorState"
  "t \<noteq> RightCurlyBracketToken \<Longrightarrow> t \<noteq> CommaToken \<Longrightarrow>
     Predict IterativeParsingMemberValueState t = IterativeParsingErrorState"
  "t \<noteq> RightBracketToken \<Longrightarrow> t \<noteq> CommaToken \<Longrightarrow>
     Predict IterativeParsingElementState t = IterativeParsingErrorState"
  by (cases t; simp)+

lemma after_key:
  "outcome (Iterative_loop h IterativeParsingMemberKeyState stk st s) =
   outcome (case Take s of
       Inl e \<Rightarrow> Inl e
     | Inr (c, s1) \<Rightarrow>
         if c \<noteq> CHR '':'' then Inl (ParseError kParseErrorObjectMissColon (Tell s1))
         else resume (Inr (st, s1)) (Iterative_loop h IterativeParsingKeyValueDelimiterState stk))"
proof (cases "Peek s")
  case (Inl e)
  then show ?thesis by (simp add: Peek_Inl loop_end)
next
  case (Inr c)
  then obtain s1 where t: "Take s = Inr (c, s1)" using Take_of_Peek by blast
  show ?thesis
  proof (cases "c = CHR '':''")
    case True
    with Inr t show ?thesis
      by (simp add: Iterative_loop.simps [of h IterativeParsingMemberKeyState stk st s])
  qed (use Inr t in \<open>simp add: loop_refuses [OF Inr] Predict_refuses del: Predict.simps\<close>)
qed

lemma member_name:
  assumes "q = IterativeParsingMemberDelimiterState \<or>
      q = IterativeParsingObjectInitialState \<and> Peek s \<noteq> Inr CHR 0x7D"
  shows "outcome (Iterative_loop h q stk st s) =
    outcome (case MemberName h st s of Inl e \<Rightarrow> Inl e
      | Inr (st1, s1) \<Rightarrow> Iterative_loop h IterativeParsingKeyValueDelimiterState stk st1 s1)"
proof (cases "Peek s")
  case (Inl e)
  then show ?thesis by (simp add: MemberName_def loop_end)
next
  case (Inr c)
  show ?thesis
  proof (cases "c = CHR 0x22")
    case True
    have "Predict q (Tokenize c) = IterativeParsingMemberKeyState" using assms True by auto
    then have "Iterative_loop h q stk st s =
        resume (ParseString True h st s) (Iterative_loop h IterativeParsingMemberKeyState stk)"
      using True
      by (intro loop_moves [OF Inr, where d = IterativeParsingMemberKeyState and d' = IterativeParsingMemberKeyState])
        simp_all
    also have "outcome \<dots> = outcome (case MemberName h st s of Inl e \<Rightarrow> Inl e
      | Inr (st1, s1) \<Rightarrow> Iterative_loop h IterativeParsingKeyValueDelimiterState stk st1 s1)"
    proof (cases "ParseString True h st s")
      case (Inr p)
      obtain st1 s1 where p: "p = (st1, s1)" by (cases p)
      show ?thesis
      proof (cases "SkipWhitespace s1")
        case (Inr s2)
        show ?thesis
          using \<open>Peek s = Inr c\<close> True p Inr \<open>ParseString True h st s = Inr p\<close>
          by (cases "Take s2")
             (auto simp: MemberName_def after_key split: sum.splits)
      qed (use \<open>Peek s = Inr c\<close> True p Inr in \<open>simp add: MemberName_def\<close>)
    qed (use Inr True in \<open>simp add: MemberName_def\<close>)
    finally show ?thesis .
  next
    case False
    have "Predict q (Tokenize c) = IterativeParsingErrorState"
      using assms Inr False by (auto simp: Predict_refuses simp del: Predict.simps)
    with assms Inr False show ?thesis
      by (auto simp: MemberName_def loop_refuses [OF Inr])
  qed
qed

lemma item_end:
  assumes k: "(close, ev, err, q, r, d) = (CHR 0x7D, SEndObject, kParseErrorObjectMissCommaOrCurlyBracket,
        IterativeParsingMemberValueState, IterativeParsingMemberDelimiterState,
        IterativeParsingObjectFinishState) \<or>
      (close, ev, err, q, r, d) = (CHR 0x5D, SEndArray, kParseErrorArrayMissCommaOrSquareBracket,
        IterativeParsingElementState, IterativeParsingElementDelimiterState,
        IterativeParsingArrayFinishState)"
    and p: "p \<noteq> IterativeParsingErrorState"
  shows "outcome (resume (Inr (st, s)) (Iterative_loop h q ((p, n) # stk))) =
    outcome (case ElementEnd close (ev (Suc n)) err h st s of Inl e \<Rightarrow> Inl e
      | Inr (again, st1, s1) \<Rightarrow>
          if again then Iterative_loop h r ((p, Suc n) # stk) st1 s1
          else resume (Inr (st1, s1)) (Iterative_loop h (popped p) stk))"
proof (cases "SkipWhitespace s")
  case (Inl e)
  then show ?thesis by (simp add: ElementEnd_def)
next
  case (Inr s1)
  show ?thesis
  proof (cases "Peek s1")
    case (Inl e)
    with Inr show ?thesis by (simp add: ElementEnd_def Peek_Inl loop_end)
  next
    case c: (Inr c)
    obtain s2 where t: "Take s1 = Inr (c, s2)" using Take_of_Peek [OF c] by blast
    consider (comma) "c = CHR '',''" | (close) "c = close" | (other) "c \<noteq> CHR '',''" "c \<noteq> close" by blast
    then show ?thesis
    proof cases
      case comma
      have "Iterative_loop h q ((p, n) # stk) st s1 =
          resume (Inr (st, s2)) (Iterative_loop h r ((p, Suc n) # stk))"
        using next_item [of r q s1 h p n stk st] k c comma t by auto
      then show ?thesis
        using Inr t comma by (cases "SkipWhitespace s2") (simp_all add: ElementEnd_def)
    next
      case close
      have "outcome (Iterative_loop h q ((p, n) # stk) st s1) =
          outcome (resume (Finish h (ev (Suc n)) st s1) (Iterative_loop h (popped p) stk))"
        using closes [OF c _ _ p, of ev q d q h n stk st] k close by auto
      moreover have "close \<noteq> CHR '',''" using k by auto
      ultimately show ?thesis
        using Inr t close
        by (cases "emit h (ev (Suc n)) st s2") (simp_all add: ElementEnd_def Finish_def)
    next
      case other
      have "outcome (Iterative_loop h q ((p, n) # stk) st s1) = Inl None"
        using k other by (intro loop_refuses [OF c]) (auto simp: Predict_refuses simp del: Predict.simps)
      then show ?thesis using Inr t other by (simp add: ElementEnd_def)
    qed
  qed
qed

lemma resume_Finish:
  "Peek s = Inr c \<Longrightarrow> (c, ev, Head) = (CHR 0x7B, SStartObject, ObjectHead) \<or>
     (c, ev, Head) = (CHR 0x5B, SStartArray, ArrayHead) \<Longrightarrow>
   resume (Finish h ev st s) k = (case Head h st s of Inl e \<Rightarrow> Inl e | Inr (st1, s1) \<Rightarrow> k st1 s1)"
proof -
  assume a: "Peek s = Inr c" and b: "(c, ev, Head) = (CHR 0x7B, SStartObject, ObjectHead) \<or>
     (c, ev, Head) = (CHR 0x5B, SStartArray, ArrayHead)"
  obtain s1 where t: "Take s = Inr (c, s1)" using Take_of_Peek [OF a] by blast
  from b have "Head h st s =
      (case emit h ev st s1 of Inl e \<Rightarrow> Inl e | Inr st1 \<Rightarrow> map_sum id (Pair st1) (SkipWhitespace s1))"
    using t by (auto simp: ObjectHead_def ArrayHead_def Expect_def)
  with t show ?thesis
    by (cases "emit h ev st s1"; cases "SkipWhitespace s1") (simp_all add: Finish_def)
qed

section \<open>The simulation\<close>

lemma resume_bind:
  "resume (case r of Inl e \<Rightarrow> Inl e | Inr a \<Rightarrow> F a) k = (case r of Inl e \<Rightarrow> Inl e | Inr a \<Rightarrow> resume (F a) k)"
  by (cases r) simp_all

lemma outcome_resume:
  "(\<And>st s. outcome (k st s) = outcome (k' st s)) \<Longrightarrow> outcome (resume r k) = outcome (resume r k')"
  by (auto simp: resume_def split: sum.splits)

lemma pushed_no_error: "awaits_value q \<Longrightarrow> pushed q \<noteq> IterativeParsingErrorState"
  by (auto simp: pushed_def awaits_value_def)

lemma Tokenize_cases:
  "plain (Tokenize c) \<or> Tokenize c \<in> {RightBracketToken, RightCurlyBracketToken, CommaToken, ColonToken} \<or>
     c = CHR 0x7B \<or> c = CHR 0x5B"
  using Tokenize_iff [of c] by (cases "Tokenize c") (auto simp: plain_def simp del: Tokenize_iff)

lemma value_simulation:
  assumes q: "awaits_value q" and b: "q = IterativeParsingArrayInitialState \<longrightarrow> Peek s \<noteq> Inr CHR 0x5D"
    and object: "Peek s = Inr CHR 0x7B \<Longrightarrow> outcome (Iterative_loop h q stk st s) =
      outcome (resume (ParseObject h st s) (Iterative_loop h (after_value q) stk))"
    and array: "Peek s = Inr CHR 0x5B \<Longrightarrow> outcome (Iterative_loop h q stk st s) =
      outcome (resume (ParseArray h st s) (Iterative_loop h (after_value q) stk))"
  shows "outcome (Iterative_loop h q stk st s) =
    outcome (resume (ParseValue h st s) (Iterative_loop h (after_value q) stk))"
proof (cases "Peek s")
  case (Inl e)
  then show ?thesis by (simp add: ParseValue.simps [of h st s] loop_end)
next
  case (Inr c)
  consider "c = CHR 0x00 \<or> Tokenize c \<in> {RightBracketToken, RightCurlyBracketToken, CommaToken, ColonToken}"
    | "c \<noteq> CHR 0x00" "plain (Tokenize c)" | "c = CHR 0x7B" | "c = CHR 0x5B"
    using Tokenize_cases [of c] by blast
  then show ?thesis
  proof cases
    case 1
    have "c = CHR 0x00 \<or> Predict q (Tokenize c) = IterativeParsingErrorState"
      using 1 q b Inr by (auto simp: awaits_value_def simp del: Tokenize_iff) (simp_all add: Tokenize_iff)
    moreover have "q \<noteq> IterativeParsingFinishState" using q by (auto simp: awaits_value_def)
    ultimately show ?thesis by (simp add: loop_refuses [OF Inr] no_value [OF Inr 1])
  next
    case 2
    show ?thesis by (simp only: plain_value [OF Inr 2(1) q 2(2)])
  next
    case 3
    have "ParseValue h st s = ParseObject h st s" using Inr 3 by (simp add: ParseValue.simps [of h st s])
    with object Inr 3 show ?thesis by simp
  next
    case 4
    have "ParseValue h st s = ParseArray h st s" using Inr 4 by (simp add: ParseValue.simps [of h st s])
    with array Inr 4 show ?thesis by simp
  qed
qed

text \<open>The bracket that opens, and either the one that closes or the loop.\<close>

lemma compound_simulation:
  assumes q: "awaits_value q" and c: "Peek s = Inr c"
    and k: "(c, d, ev, Head) = (CHR 0x7B, IterativeParsingObjectInitialState, SStartObject, ObjectHead) \<and>
        (close, ev', counted, e) = (CHR 0x7D, SEndObject, IterativeParsingMemberValueState,
          IterativeParsingObjectFinishState) \<or>
      (c, d, ev, Head) = (CHR 0x5B, IterativeParsingArrayInitialState, SStartArray, ArrayHead) \<and>
        (close, ev', counted, e) = (CHR 0x5D, SEndArray, IterativeParsingElementState,
          IterativeParsingArrayFinishState)"
    and Loop: "\<And>st1 s1 x. Head h st s = Inr (st1, s1) \<Longrightarrow> Peek s1 = Inr x \<Longrightarrow> x \<noteq> close \<Longrightarrow>
      outcome (Iterative_loop h d ((pushed q, 0) # stk) st1 s1) =
      outcome (resume (Loop st1 s1) (Iterative_loop h (popped (pushed q)) stk))"
  shows "outcome (Iterative_loop h q stk st s) =
    outcome (resume
      (case Head h st s of
         Inl e \<Rightarrow> Inl e
       | Inr (st1, s1) \<Rightarrow>
           (case Peek s1 of
              Inl e \<Rightarrow> Inl e
            | Inr x \<Rightarrow> if x = close then Finish h (ev' 0) st1 s1 else Loop st1 s1))
      (Iterative_loop h (after_value q) stk))"
proof -
  have "outcome (Iterative_loop h q stk st s) =
      outcome (resume (Finish h ev st s) (Iterative_loop h d ((pushed q, 0) # stk)))"
    by (rule opens [OF c q]) (use k in auto)
  also have "\<dots> = outcome (case Head h st s of Inl e \<Rightarrow> Inl e
      | Inr (st1, s1) \<Rightarrow> Iterative_loop h d ((pushed q, 0) # stk) st1 s1)"
    using k by (subst resume_Finish [OF c, of ev Head]) auto
  also have "\<dots> = outcome (resume
      (case Head h st s of
         Inl e \<Rightarrow> Inl e
       | Inr (st1, s1) \<Rightarrow>
           (case Peek s1 of
              Inl e \<Rightarrow> Inl e
            | Inr x \<Rightarrow> if x = close then Finish h (ev' 0) st1 s1 else Loop st1 s1))
      (Iterative_loop h (after_value q) stk))"
    unfolding resume_bind
  proof (rule outcome_bind)
    fix a assume a: "Head h st s = Inr a"
    obtain st1 s1 where p: "a = (st1, s1)" by (cases a)
    show "outcome (case a of (st1, s1) \<Rightarrow> Iterative_loop h d ((pushed q, 0) # stk) st1 s1) =
        outcome (resume (case a of (st1, s1) \<Rightarrow>
          (case Peek s1 of
              Inl e \<Rightarrow> Inl e
            | Inr x \<Rightarrow> if x = close then Finish h (ev' 0) st1 s1 else Loop st1 s1))
          (Iterative_loop h (after_value q) stk))"
    proof (cases "Peek s1")
      case (Inr x)
      have "Predict d (Tokenize close) = e" "d \<noteq> counted" using k by auto
      then show ?thesis
        using closes [OF Inr _ _ pushed_no_error [OF q], of ev' counted e d h 0 stk st1] k
          Loop [OF _ Inr, of st1] a p Inr popped_pushed [OF q]
        by auto
    qed (simp add: p loop_end)
  qed
  finally show ?thesis .
qed

lemma item_simulation:
  assumes k: "(close, ev, err, q, r, d) = (CHR 0x7D, SEndObject, kParseErrorObjectMissCommaOrCurlyBracket,
        IterativeParsingMemberValueState, IterativeParsingMemberDelimiterState,
        IterativeParsingObjectFinishState) \<or>
      (close, ev, err, q, r, d) = (CHR 0x5D, SEndArray, kParseErrorArrayMissCommaOrSquareBracket,
        IterativeParsingElementState, IterativeParsingElementDelimiterState,
        IterativeParsingArrayFinishState)"
    and p: "p \<noteq> IterativeParsingErrorState"
    and Loop: "\<And>st1 s1. ElementEnd close (ev (Suc n)) err h st s = Inr (True, st1, s1) \<Longrightarrow>
      outcome (Iterative_loop h r ((p, Suc n) # stk) st1 s1) =
      outcome (resume (Loop st1 s1) (Iterative_loop h (popped p) stk))"
  shows "outcome (resume (Inr (st, s)) (Iterative_loop h q ((p, n) # stk))) =
    outcome (resume
      (case ElementEnd close (ev (Suc n)) err h st s of
         Inl e \<Rightarrow> Inl e
       | Inr (again, st1, s1) \<Rightarrow> if again then Loop st1 s1 else Inr (st1, s1))
      (Iterative_loop h (popped p) stk))"
  unfolding resume_bind item_end [OF k p]
proof (rule outcome_bind)
  fix a assume "ElementEnd close (ev (Suc n)) err h st s = Inr a"
  with Loop show "outcome (case a of (again, st1, s1) \<Rightarrow>
        if again then Iterative_loop h r ((p, Suc n) # stk) st1 s1
        else resume (Inr (st1, s1)) (Iterative_loop h (popped p) stk)) =
      outcome (resume (case a of (again, st1, s1) \<Rightarrow> if again then Loop st1 s1 else Inr (st1, s1))
        (Iterative_loop h (popped p) stk))"
    by (cases a) auto
qed

lemma simulation:
  "awaits_value q \<Longrightarrow> (q = IterativeParsingArrayInitialState \<longrightarrow> Peek s \<noteq> Inr CHR 0x5D) \<Longrightarrow>
     outcome (Iterative_loop h q stk st s) =
     outcome (resume (ParseValue h st s) (Iterative_loop h (after_value q) stk))"
  "awaits_value q \<Longrightarrow> Peek s = Inr CHR 0x7B \<Longrightarrow>
     outcome (Iterative_loop h q stk st s) =
     outcome (resume (ParseObject h st s) (Iterative_loop h (after_value q) stk))"
  "q = IterativeParsingMemberDelimiterState \<or>
       q = IterativeParsingObjectInitialState \<and> Peek s \<noteq> Inr CHR 0x7D \<Longrightarrow>
     p \<noteq> IterativeParsingErrorState \<Longrightarrow>
     outcome (Iterative_loop h q ((p, n) # stk) st s) =
     outcome (resume (ParseMembers h n st s) (Iterative_loop h (popped p) stk))"
  "awaits_value q \<Longrightarrow> Peek s = Inr CHR 0x5B \<Longrightarrow>
     outcome (Iterative_loop h q stk st s) =
     outcome (resume (ParseArray h st s) (Iterative_loop h (after_value q) stk))"
  "q = IterativeParsingElementDelimiterState \<or>
       q = IterativeParsingArrayInitialState \<and> Peek s \<noteq> Inr CHR 0x5D \<Longrightarrow>
     p \<noteq> IterativeParsingErrorState \<Longrightarrow>
     outcome (Iterative_loop h q ((p, n) # stk) st s) =
     outcome (resume (ParseElements h n st s) (Iterative_loop h (popped p) stk))"
proof (induction h st s and h st s and h n st s and h st s and h n st s
    arbitrary: q stk and q stk and q p stk and q stk and q p stk
    rule: ParseValue_ParseObject_ParseMembers_ParseArray_ParseElements.induct)
  case (1 h st s)
  show ?case
    by (rule value_simulation [OF 1(3,4)])
       (use 1 in \<open>simp_all\<close>)
next
  case (2 h st s)
  show ?case
    unfolding ParseObject.simps [of h st s]
    by (rule compound_simulation [OF 2(2,3), of IterativeParsingObjectInitialState SStartObject ObjectHead _ SEndObject
          IterativeParsingMemberValueState IterativeParsingObjectFinishState])
       (use 2(1) pushed_no_error [OF 2(2)] in \<open>auto\<close>)
next
  case (4 h st s)
  show ?case
    unfolding ParseArray.simps [of h st s]
    by (rule compound_simulation [OF 4(2,3), of IterativeParsingArrayInitialState SStartArray ArrayHead _ SEndArray
          IterativeParsingElementState IterativeParsingArrayFinishState])
       (use 4(1) pushed_no_error [OF 4(2)] in \<open>auto\<close>)
next
  case (3 h n st s)
  have "outcome (Iterative_loop h q ((p, n) # stk) st s) =
      outcome (case MemberName h st s of Inl e \<Rightarrow> Inl e | Inr (st1, s1) \<Rightarrow>
        Iterative_loop h IterativeParsingKeyValueDelimiterState ((p, n) # stk) st1 s1)"
    by (rule member_name [OF 3(3)])
  also have "\<dots> = outcome (case MemberName h st s of Inl e \<Rightarrow> Inl e | Inr (st1, s1) \<Rightarrow>
      resume (ParseValue h st1 s1) (Iterative_loop h IterativeParsingMemberValueState ((p, n) # stk)))"
    using 3(1) by (intro outcome_bind) (auto simp: awaits_value_def)
  also have "\<dots> = outcome (resume (ParseMembers h n st s) (Iterative_loop h (popped p) stk))"
    unfolding ParseMembers.simps [of h n st s] resume_bind
  proof (rule outcome_bind)
    fix a assume a: "MemberName h st s = Inr a"
    obtain st1 s1 where p1: "a = (st1, s1)" by (cases a)
    show "outcome (case a of (st1, s1) \<Rightarrow> resume (ParseValue h st1 s1)
          (Iterative_loop h IterativeParsingMemberValueState ((p, n) # stk))) =
        outcome (resume (case a of (st1, s1) \<Rightarrow>
          (case ParseValue h st1 s1 of Inl e \<Rightarrow> Inl e | Inr (st2, s2) \<Rightarrow>
           case MemberEnd (Suc n) h st2 s2 of
             Inl e \<Rightarrow> Inl e
           | Inr (again, st3, s3) \<Rightarrow> if again then ParseMembers h (Suc n) st3 s3 else Inr (st3, s3)))
          (Iterative_loop h (popped p) stk))"
    proof (cases "ParseValue h st1 s1")
      case (Inr b)
      obtain st2 s2 where p2: "b = (st2, s2)" by (cases b)
      show ?thesis
        unfolding p1 Inr p2 prod.case sum.case
        by (rule item_simulation [OF _ 3(4)])
           (use 3(2) [OF a [unfolded p1] refl Inr [unfolded p2] refl _ refl refl] 3(4) in \<open>auto\<close>)
    qed (simp add: p1)
  qed
  finally show ?case .
next
  case (5 h n st s)
  have "outcome (Iterative_loop h q ((p, n) # stk) st s) =
      outcome (resume (ParseValue h st s) (Iterative_loop h IterativeParsingElementState ((p, n) # stk)))"
    using 5(3) by (subst 5(1)) (auto simp: awaits_value_def)
  also have "\<dots> = outcome (resume (ParseElements h n st s) (Iterative_loop h (popped p) stk))"
  proof (cases "ParseValue h st s")
    case (Inr b)
    obtain st1 s1 where p1: "b = (st1, s1)" by (cases b)
    show ?thesis
      unfolding ParseElements.simps [of h n st s] Inr p1 prod.case sum.case
      by (rule item_simulation [OF _ 5(4)])
         (use 5(2) [OF Inr [unfolded p1] refl _ refl refl] 5(4) in \<open>auto\<close>)
  qed (simp add: ParseElements.simps [of h n st s])
  finally show ?case .
qed

text \<open>
  C19. Equivalence of the two parsers, for every text and every handler: \<open>IterativeParse\<close> accepts
  exactly what \<open>Parse\<close> accepts, leaves the handler in the same state (so it has seen the same
  events in the same order) and the stream at the same position, and it runs into a fault exactly
  when the other does; in particular its stack never runs empty.  Only the code and the position
  of an error may differ.
\<close>

theorem IterativeParse_outcome: "outcome (IterativeParse h st s) = outcome (Reader_Parse h st s)"
proof (cases "SkipWhitespace s")
  case (Inr s1)
  show ?thesis
  proof (cases "Peek s1")
    case c: (Inr c)
    show ?thesis
    proof (cases "c = CHR 0x00")
      case False
      have "outcome (IterativeParse h st s) =
          outcome (resume (ParseValue h st s1) (Iterative_loop h IterativeParsingFinishState []))"
        by (simp add: IterativeParse_def Inr simulation(1) awaits_value_def)
      also have "\<dots> = outcome (resume (ParseValue h st s1) (\<lambda>st1 s3. case Peek s3 of
          Inl e \<Rightarrow> Inl e
        | Inr c \<Rightarrow>
            if c \<noteq> CHR 0x00 then Inl (ParseError kParseErrorDocumentRootNotSingular (Tell s3))
            else Inr (st1, s3)))"
        by (rule outcome_resume) (auto simp: Iterative_loop.simps split: sum.split)
      finally show ?thesis
        using False by (simp add: Reader_Parse_def Inr c resume_def)
    qed (simp add: IterativeParse_def Reader_Parse_def Inr c loop_refuses [OF c])
  qed (simp add: IterativeParse_def Reader_Parse_def Inr loop_end)
qed (simp add: IterativeParse_def Reader_Parse_def)

end
