(* ===== verification/JsonAllocator.thy ===== *)
theory JsonAllocator
  imports Prelude
begin

text \<open>
  \<open>MemoryPoolAllocator\<close> of \<open>allocators.h\<close>, from which a document takes its strings and arrays.
  A chunk is memory of its own, numbered in the order in which the base allocator gave it; an
  address is a chunk and an offset behind its header, so addresses of different chunks never
  meet.  Sizes are 64-bit words and wrap around.  The base allocator does not run out of memory,
  and an address that is not \<open>NULL\<close> comes from the pool it is given to.
\<close>

section \<open>The code\<close>

unbundle bit_operations_syntax

type_synonym address = "nat \<times> nat"

type_synonym memory = "address \<Rightarrow> u8"

record ChunkHeader =
  chunk_id :: nat
  chunk_size_limit :: u64
  chunk_used :: u64

record MemoryPool =
  chunkHead :: "ChunkHeader list"
  chunk_capacity :: u64
  userBuffer :: "nat option"
  next_chunk :: nat

definition kDefaultChunkCapacity :: u64 where
  "kDefaultChunkCapacity = 64 * 1024"

definition RAPIDJSON_ALIGN :: "u64 \<Rightarrow> u64" where
  "RAPIDJSON_ALIGN x = (x + 7) AND NOT 7"

definition MemoryPool_new :: "u64 \<Rightarrow> MemoryPool" where
  "MemoryPool_new chunkSize =
     \<lparr>chunkHead = [], chunk_capacity = chunkSize, userBuffer = None, next_chunk = 0\<rparr>"

text \<open>The constructor with a buffer of the user, whose size must exceed that of the header.\<close>

definition MemoryPool_buffer :: "u64 \<Rightarrow> u64 \<Rightarrow> MemoryPool option" where
  "MemoryPool_buffer bytes chunkSize =
     (if bytes \<le> 24 then None
      else Some \<lparr>chunkHead = [\<lparr>chunk_id = 0, chunk_size_limit = bytes - 24, chunk_used = 0\<rparr>],
                 chunk_capacity = chunkSize, userBuffer = Some 0, next_chunk = 1\<rparr>)"

fun Clear_chunks :: "nat option \<Rightarrow> ChunkHeader list \<Rightarrow> ChunkHeader list" where
  "Clear_chunks user [] = []"
| "Clear_chunks user (c # cs) =
     (if user = Some (chunk_id c) then c\<lparr>chunk_used := 0\<rparr> # cs else Clear_chunks user cs)"

definition Pool_Clear :: "MemoryPool \<Rightarrow> MemoryPool" where
  "Pool_Clear P = P\<lparr>chunkHead := Clear_chunks (userBuffer P) (chunkHead P)\<rparr>"

definition Pool_Capacity :: "MemoryPool \<Rightarrow> u64" where
  "Pool_Capacity P = sum_list (map chunk_size_limit (chunkHead P))"

definition Pool_Size :: "MemoryPool \<Rightarrow> u64" where
  "Pool_Size P = sum_list (map chunk_used (chunkHead P))"

definition AddChunk :: "u64 \<Rightarrow> MemoryPool \<Rightarrow> MemoryPool" where
  "AddChunk bytes P =
     P\<lparr>chunkHead := \<lparr>chunk_id = next_chunk P, chunk_size_limit = bytes, chunk_used = 0\<rparr> # chunkHead P,
       next_chunk := next_chunk P + 1\<rparr>"

definition no_room :: "u64 \<Rightarrow> MemoryPool \<Rightarrow> bool" where
  "no_room n P = (case chunkHead P of [] \<Rightarrow> True | c # cs \<Rightarrow> chunk_size_limit c < chunk_used c + n)"

text \<open>\<open>NULL\<close> is \<open>None\<close>.\<close>

definition Pool_Malloc :: "u64 \<Rightarrow> MemoryPool \<Rightarrow> address option \<times> MemoryPool" where
  "Pool_Malloc bytes P =
     (if bytes = 0 then (None, P)
      else
        (let n = RAPIDJSON_ALIGN bytes;
             P = (if no_room n P then AddChunk (if n < chunk_capacity P then chunk_capacity P else n) P else P)
         in case chunkHead P of
              [] \<Rightarrow> (None, P)
            | c # cs \<Rightarrow>
                (Some (chunk_id c, unat (chunk_used c)),
                 P\<lparr>chunkHead := c\<lparr>chunk_used := chunk_used c + n\<rparr> # cs\<rparr>)))"

definition memcpy :: "address \<Rightarrow> address \<Rightarrow> nat \<Rightarrow> memory \<Rightarrow> memory" where
  "memcpy dst src n mem =
     (\<lambda>a. if fst a = fst dst \<and> snd dst \<le> snd a \<and> snd a < snd dst + n
          then mem (fst src, snd src + (snd a - snd dst)) else mem a)"

text \<open>The last allocation of the first chunk, as \<open>Realloc\<close> finds out.\<close>

definition is_last :: "address \<Rightarrow> u64 \<Rightarrow> MemoryPool \<Rightarrow> bool" where
  "is_last p originalSize P =
     (case chunkHead P of
        [] \<Rightarrow> False
      | c # cs \<Rightarrow> fst p = chunk_id c \<and> word_of_nat (snd p) = chunk_used c - originalSize)"

text \<open>The expansion in place, when there is room for it.\<close>

definition expanded :: "address \<Rightarrow> u64 \<Rightarrow> u64 \<Rightarrow> MemoryPool \<Rightarrow> MemoryPool option" where
  "expanded p originalSize newSize P =
     (case chunkHead P of
        [] \<Rightarrow> None
      | c # cs \<Rightarrow>
          (let increment = RAPIDJSON_ALIGN (newSize - originalSize)
           in if is_last p originalSize P \<and> chunk_used c + increment \<le> chunk_size_limit c
              then Some (P\<lparr>chunkHead := c\<lparr>chunk_used := chunk_used c + increment\<rparr> # cs\<rparr>)
              else None))"

definition Pool_Realloc ::
    "address option \<Rightarrow> u64 \<Rightarrow> u64 \<Rightarrow> memory \<Rightarrow> MemoryPool \<Rightarrow> address option \<times> memory \<times> MemoryPool" where
  "Pool_Realloc originalPtr originalSize newSize mem P =
     (case originalPtr of
        None \<Rightarrow> (let (q, P') = Pool_Malloc newSize P in (q, mem, P'))
      | Some p \<Rightarrow>
          if newSize = 0 then (None, mem, P)
          else if newSize \<le> originalSize then (Some p, mem, P)
          else
            (case expanded p originalSize newSize P of
               Some P' \<Rightarrow> (Some p, mem, P')
             | None \<Rightarrow>
                 (case Pool_Malloc newSize P of
                    (None, P') \<Rightarrow> (None, mem, P')
                  | (Some q, P') \<Rightarrow> (Some q, memcpy q p (unat originalSize) mem, P'))))"

section \<open>The invariant\<close>

text \<open>The chunks: each of its own memory, filled in steps of eight bytes and not beyond its end.
  The sizes are those a program can ask for without a wrap-around.\<close>

definition small :: "u64 \<Rightarrow> bool" where
  "small n \<longleftrightarrow> unat n \<le> 2 ^ 61"

definition chunk_ok :: "ChunkHeader \<Rightarrow> bool" where
  "chunk_ok c \<longleftrightarrow> small (chunk_size_limit c) \<and> unat (chunk_used c) \<le> unat (chunk_size_limit c) \<and>
     8 dvd unat (chunk_used c)"

definition chunks_ok :: "MemoryPool \<Rightarrow> bool" where
  "chunks_ok P \<longleftrightarrow> distinct (map chunk_id (chunkHead P)) \<and> small (chunk_capacity P) \<and>
     (\<forall>c\<in>set (chunkHead P). chunk_ok c \<and> chunk_id c < next_chunk P)"

text \<open>The blocks in use, with their sizes: inside their chunk, aligned, and apart.\<close>

type_synonym blocks = "address \<rightharpoonup> nat"

definition inside_chunk :: "MemoryPool \<Rightarrow> address \<Rightarrow> nat \<Rightarrow> bool" where
  "inside_chunk P p n \<longleftrightarrow>
     (\<exists>c\<in>set (chunkHead P). fst p = chunk_id c \<and> snd p + n \<le> unat (chunk_used c))"

definition apart :: "address \<Rightarrow> nat \<Rightarrow> address \<Rightarrow> nat \<Rightarrow> bool" where
  "apart p n q m \<longleftrightarrow> fst p \<noteq> fst q \<or> snd p + n \<le> snd q \<or> snd q + m \<le> snd p"

definition blocks_ok :: "MemoryPool \<Rightarrow> blocks \<Rightarrow> bool" where
  "blocks_ok P live \<longleftrightarrow>
     (\<forall>p n. live p = Some n \<longrightarrow> inside_chunk P p n \<and> 8 dvd snd p \<and> 0 < n) \<and>
     (\<forall>p q n m. live p = Some n \<longrightarrow> live q = Some m \<longrightarrow> p \<noteq> q \<longrightarrow> apart p n q m)"

definition pool_ok :: "MemoryPool \<Rightarrow> blocks \<Rightarrow> bool" where
  "pool_ok P live \<longleftrightarrow> chunks_ok P \<and> blocks_ok P live"

lemma align_mask: "RAPIDJSON_ALIGN x = push_bit 3 (drop_bit 3 (x + 7))"
proof -
  have "w AND NOT (mask 3) = push_bit 3 (drop_bit 3 w)" for w :: u64
    by (rule bit_eqI) (auto simp: bit_simps)
  moreover have "(7 :: u64) = mask 3" by (simp add: mask_eq_exp_minus_1)
  ultimately show ?thesis by (simp only: RAPIDJSON_ALIGN_def)
qed

lemma align_unat:
  assumes "small n"
  shows "unat (RAPIDJSON_ALIGN n) = 8 * ((unat n + 7) div 8)"
proof -
  have n: "unat n \<le> 2 ^ 61" using assms by (simp add: small_def)
  have "unat (n + 7) = unat n + unat (7 :: u64)"
    by (rule unat_add_lem [THEN iffD1]) (use n in simp)
  then have s: "unat (n + 7) = unat n + 7" by simp
  have "unat (drop_bit 3 (n + 7)) = (unat n + 7) div 8"
    unfolding unsigned_drop_bit_eq s using n by (simp add: drop_bit_eq_div take_bit_nat_eq_self)
  then show ?thesis
    unfolding align_mask unsigned_push_bit_eq using n by (simp add: push_bit_eq_mult take_bit_nat_eq_self)
qed

lemma align_ok:
  assumes "small n"
  shows "small (RAPIDJSON_ALIGN n)" and "unat n \<le> unat (RAPIDJSON_ALIGN n)"
    and "8 dvd unat (RAPIDJSON_ALIGN n)" and "n \<noteq> 0 \<Longrightarrow> 0 < unat (RAPIDJSON_ALIGN n)"
proof -
  have n: "unat n \<le> 2 ^ 61" using assms by (simp add: small_def)
  have "8 * ((unat n + 7) div 8) \<le> 8 * ((2 ^ 61 + 7) div 8)"
    using n by (intro mult_le_mono2 div_le_mono) simp
  then show "small (RAPIDJSON_ALIGN n)" unfolding small_def align_unat [OF assms] by simp
  show le: "unat n \<le> unat (RAPIDJSON_ALIGN n)" and "8 dvd unat (RAPIDJSON_ALIGN n)"
    by (simp_all add: align_unat [OF assms])
  show "n \<noteq> 0 \<Longrightarrow> 0 < unat (RAPIDJSON_ALIGN n)" using le by (simp add: unat_gt_0 [symmetric])
qed

lemma unat_add_small:
  "unat a + unat b < 2 ^ 63 \<Longrightarrow> unat (a + b :: u64) = unat a + unat b"
  by (rule unat_add_lem [THEN iffD1]) simp

section \<open>Allocation\<close>

lemma no_room_iff:
  "small n \<Longrightarrow> chunk_ok c \<Longrightarrow> chunkHead P = c # cs \<Longrightarrow>
     no_room n P \<longleftrightarrow> unat (chunk_size_limit c) < unat (chunk_used c) + unat n"
  by (simp add: no_room_def word_less_nat_alt unat_add_small small_def chunk_ok_def)

lemma AddChunk_ok:
  assumes "pool_ok P live" and "small n"
  shows "pool_ok (AddChunk n P) live"
proof -
  have "inside_chunk P p k \<Longrightarrow> inside_chunk (AddChunk n P) p k" for p k
    by (auto simp: inside_chunk_def AddChunk_def)
  then show ?thesis
    using assms by (fastforce simp: pool_ok_def chunks_ok_def chunk_ok_def blocks_ok_def AddChunk_def)
qed

text \<open>The first chunk grows: blocks stay inside, and what lies behind the old end is apart from
  all of them.\<close>

lemma grow:
  assumes P: "pool_ok P live" and c: "chunkHead P = c # cs" and n: "small n" "8 dvd unat n"
    and room: "unat (chunk_used c) + unat n \<le> unat (chunk_size_limit c)"
  defines "P' \<equiv> P\<lparr>chunkHead := c\<lparr>chunk_used := chunk_used c + n\<rparr> # cs\<rparr>"
  shows "pool_ok P' live"
    and "inside_chunk P' (chunk_id c, i) k \<longleftrightarrow> i + k \<le> unat (chunk_used c) + unat n"
proof -
  have ok: "chunk_ok c" using P c by (simp add: pool_ok_def chunks_ok_def)
  then have u: "unat (chunk_used c + n) = unat (chunk_used c) + unat n"
    using room by (intro unat_add_small) (simp add: chunk_ok_def small_def)
  have ok': "chunk_ok (c\<lparr>chunk_used := chunk_used c + n\<rparr>)"
    using ok room n by (simp add: chunk_ok_def u)
  have "inside_chunk P p k \<Longrightarrow> inside_chunk P' p k" for p k
    by (auto simp: inside_chunk_def c P'_def u)
  then show "pool_ok P' live"
    using P c ok' by (auto simp: pool_ok_def chunks_ok_def blocks_ok_def P'_def)
  show "inside_chunk P' (chunk_id c, i) k \<longleftrightarrow> i + k \<le> unat (chunk_used c) + unat n"
    using P c by (auto simp: inside_chunk_def P'_def u pool_ok_def chunks_ok_def)
qed

lemma live_ok: "pool_ok P live \<Longrightarrow> live p = Some n \<Longrightarrow> inside_chunk P p n \<and> 8 dvd snd p \<and> 0 < n"
  unfolding pool_ok_def blocks_ok_def by blast

lemma live_apart:
  "pool_ok P live \<Longrightarrow> live p = Some n \<Longrightarrow> live q = Some m \<Longrightarrow> p \<noteq> q \<Longrightarrow> apart p n q m"
  unfolding pool_ok_def blocks_ok_def by blast

lemma apart_commute: "apart p n q m \<longleftrightarrow> apart q m p n"
  by (auto simp: apart_def)

text \<open>A block apart from all others joins them.\<close>

lemma add_block:
  assumes P: "pool_ok P live" and new: "inside_chunk P q n" "8 dvd snd q" "0 < n"
    and others: "\<And>p k. live p = Some k \<Longrightarrow> p \<noteq> q \<Longrightarrow> apart p k q n"
  shows "pool_ok P (live(q \<mapsto> n))"
proof -
  have "apart p k r m" if "(live(q \<mapsto> n)) p = Some k" "(live(q \<mapsto> n)) r = Some m" "p \<noteq> r" for p r k m
    using that live_apart [OF P, of p k r m] others [of p k] others [of r m] apart_commute [of q n r m]
    by (cases "p = q"; cases "r = q") simp_all
  moreover have "inside_chunk P p k \<and> 8 dvd snd p \<and> 0 < k" if "(live(q \<mapsto> n)) p = Some k" for p k
    using that new live_ok [OF P, of p k] by (cases "p = q") simp_all
  moreover have "chunks_ok P" using P by (simp add: pool_ok_def)
  ultimately show ?thesis unfolding pool_ok_def blocks_ok_def by blast
qed

lemma head_end:
  "pool_ok P live \<Longrightarrow> chunkHead P = c # cs \<Longrightarrow> live p = Some k \<Longrightarrow> fst p = chunk_id c \<Longrightarrow>
     snd p + k \<le> unat (chunk_used c) \<and> 0 < k"
proof -
  assume P: "pool_ok P live" and c: "chunkHead P = c # cs" and p: "live p = Some k" "fst p = chunk_id c"
  have "inside_chunk P p k" "0 < k" using live_ok [OF P p(1)] by simp_all
  then obtain c' where c': "c' \<in> set (chunkHead P)" "chunk_id c' = chunk_id c"
    "snd p + k \<le> unat (chunk_used c')" "0 < k"
    using p(2) unfolding inside_chunk_def by metis
  have "inj_on chunk_id (set (chunkHead P))" using P by (simp add: pool_ok_def chunks_ok_def distinct_map)
  then have "c' = c" by (rule inj_onD) (use c c' in simp_all)
  with c' show ?thesis by simp
qed

lemma pool_ok_drop: "pool_ok P live \<Longrightarrow> pool_ok P (live(p := None))"
proof -
  assume "pool_ok P live"
  moreover have "live q = Some n" if "(live(p := None)) q = Some n" for q n
    using that by (cases "q = p") simp_all
  ultimately show ?thesis unfolding pool_ok_def blocks_ok_def by blast
qed

lemma pool_ok_shrink:
  assumes "pool_ok P live" and "live p = Some n" and "0 < m" and "m \<le> n"
  shows "pool_ok P (live(p \<mapsto> m))"
proof -
  have "pool_ok P ((live(p := None))(p \<mapsto> m))"
  proof (rule add_block [OF pool_ok_drop [OF assms(1)]])
    show "inside_chunk P p m" "8 dvd snd p"
      using live_ok [OF assms(1,2)] assms(4) by (auto simp: inside_chunk_def)
    show "apart q k p m" if "(live(p := None)) q = Some k" "q \<noteq> p" for q k
      using live_apart [OF assms(1) _ assms(2), of q k] that assms(4) by (auto simp: apart_def)
  qed (rule assms(3))
  then show ?thesis by simp
qed

lemma Malloc_contract:
  assumes P: "pool_ok P live" and n: "bytes \<noteq> 0" "small bytes"
  obtains q P' where "Pool_Malloc bytes P = (Some q, P')" and "live q = None"
    and "pool_ok P' (live(q \<mapsto> unat bytes))"
proof -
  define n where "n = RAPIDJSON_ALIGN bytes"
  note a = align_ok [OF n(2), folded n_def]
  define P1 where "P1 = (if no_room n P then AddChunk (if n < chunk_capacity P then chunk_capacity P else n) P else P)"
  have cap: "small (chunk_capacity P)" using P by (simp add: pool_ok_def chunks_ok_def)
  have P1: "pool_ok P1 live"
    using P cap a(1) by (auto simp: P1_def intro: AddChunk_ok)
  have "\<exists>c cs. chunkHead P1 = c # cs \<and> unat (chunk_used c) + unat n \<le> unat (chunk_size_limit c)"
  proof (cases "no_room n P")
    case False
    then obtain c cs where c: "chunkHead P = c # cs" by (auto simp: no_room_def split: list.splits)
    then have "chunk_ok c" using P by (simp add: pool_ok_def chunks_ok_def)
    with c False show ?thesis by (simp add: P1_def no_room_iff [OF a(1) _ c])
  qed (simp add: P1_def AddChunk_def word_less_nat_alt)
  then obtain c cs where c: "chunkHead P1 = c # cs"
    and room: "unat (chunk_used c) + unat n \<le> unat (chunk_size_limit c)" by blast
  define q where "q = (chunk_id c, unat (chunk_used c))"
  define P' where "P' = P1\<lparr>chunkHead := c\<lparr>chunk_used := chunk_used c + n\<rparr> # cs\<rparr>"
  note g = grow [OF P1 c a(1,3) room, folded P'_def]
  have "Pool_Malloc bytes P = (Some q, P')"
    using n(1) c by (simp add: Pool_Malloc_def Let_def q_def P'_def flip: n_def P1_def)
  moreover have "live q = None"
    using head_end [OF P1 c, of q] by (cases "live q") (auto simp: q_def)
  moreover have "pool_ok P' (live(q \<mapsto> unat bytes))"
  proof (rule add_block [OF g(1)])
    show "inside_chunk P' q (unat bytes)" using a(2) by (simp add: q_def g(2))
    have "chunk_ok c" using P1 c by (simp add: pool_ok_def chunks_ok_def)
    then show "8 dvd snd q" by (simp add: q_def chunk_ok_def)
    show "0 < unat bytes" using n(1) by (simp add: unat_gt_0)
    show "apart p k q (unat bytes)" if "live p = Some k" for p k
      using head_end [OF P1 c that] by (auto simp: q_def apart_def)
  qed
  ultimately show ?thesis by (rule that)
qed

lemma expanded_contract:
  assumes P: "pool_ok P live" and p: "live p = Some (unat old)" and n: "small new" "old < new"
    and e: "expanded p old new P = Some P'"
  shows "pool_ok P' (live(p \<mapsto> unat new))"
proof -
  define inc where "inc = RAPIDJSON_ALIGN (new - old)"
  obtain c cs where c: "chunkHead P = c # cs"
    using e by (cases "chunkHead P") (simp_all add: expanded_def)
  have last: "fst p = chunk_id c" "word_of_nat (snd p) = chunk_used c - old"
    and fits: "chunk_used c + inc \<le> chunk_size_limit c"
    and P': "P' = P\<lparr>chunkHead := c\<lparr>chunk_used := chunk_used c + inc\<rparr> # cs\<rparr>"
    using e by (auto simp: expanded_def c Let_def is_last_def inc_def split: if_splits)
  have ok: "chunk_ok c" using P c by (simp add: pool_ok_def chunks_ok_def)
  have d: "unat (new - old) = unat new - unat old" using n(2) by (simp add: unat_sub word_less_nat_alt word_le_nat_alt)
  then have "small (new - old)" using n(1) by (simp add: small_def)
  note a = align_ok [OF this, folded inc_def]
  have room: "unat (chunk_used c) + unat inc \<le> unat (chunk_size_limit c)"
    using fits a(1) ok by (simp add: word_le_nat_alt unat_add_small small_def chunk_ok_def)
  have h: "snd p + unat old \<le> unat (chunk_used c)" using head_end [OF P c p last(1)] by simp
  have "unat (chunk_used c - old) = unat (chunk_used c) - unat old"
    using h by (intro unat_sub) (simp add: word_le_nat_alt)
  moreover have "unat (word_of_nat (snd p) :: u64) = snd p"
    using h ok by (simp add: unsigned_of_nat take_bit_nat_eq_self chunk_ok_def small_def)
  ultimately have at_end: "snd p + unat old = unat (chunk_used c)" using last(2) h by simp
  note g = grow [OF P c a(1,3) room, folded P']
  have "pool_ok P' ((live(p := None))(p \<mapsto> unat new))"
  proof (rule add_block [OF pool_ok_drop [OF g(1)]])
    have "snd p + unat new \<le> unat (chunk_used c) + unat inc" using at_end a(2) d by simp
    then show "inside_chunk P' p (unat new)" using g(2) [of "snd p"] last(1) by (cases p) simp
    show "8 dvd snd p" using live_ok [OF P p] by simp
    show "0 < unat new" using n(2) by (simp add: word_less_nat_alt)
    show "apart r k p (unat new)" if "(live(p := None)) r = Some k" "r \<noteq> p" for r k
    proof (cases "fst r = fst p")
      case True
      have r: "live r = Some k" using that by simp
      have "apart r k p (unat old)" by (rule live_apart [OF P r p that(2)])
      moreover have "snd r + k \<le> unat (chunk_used c)" "0 < k"
        using head_end [OF P c r] True last(1) by simp_all
      ultimately show ?thesis using True at_end by (auto simp: apart_def)
    qed (simp add: apart_def)
  qed
  then show ?thesis by simp
qed

text \<open>The bytes of a block.\<close>

definition contents :: "memory \<Rightarrow> address \<Rightarrow> nat \<Rightarrow> u8 list" where
  "contents mem p n = map (\<lambda>i. mem (fst p, snd p + i)) [0..<n]"

lemma memcpy_copied: "contents (memcpy q p n mem) q n = contents mem p n"
  by (simp add: contents_def memcpy_def)

lemma memcpy_apart:
  "apart r k q m \<Longrightarrow> n \<le> m \<Longrightarrow> contents (memcpy q p n mem) r k = contents mem r k"
  by (auto simp: contents_def memcpy_def apart_def)

lemma take_contents: "n \<le> m \<Longrightarrow> take n (contents mem p m) = contents mem p n"
  by (simp add: contents_def take_map)

section \<open>Beginnings\<close>

lemma no_blocks: "blocks_ok P Map.empty"
  by (simp add: blocks_ok_def)

lemma pool_ok_new: "small n \<Longrightarrow> pool_ok (MemoryPool_new n) Map.empty"
  by (simp add: pool_ok_def chunks_ok_def MemoryPool_new_def no_blocks)

lemma pool_ok_buffer:
  "MemoryPool_buffer bytes n = Some P \<Longrightarrow> small bytes \<Longrightarrow> small n \<Longrightarrow> pool_ok P Map.empty"
proof -
  assume P: "MemoryPool_buffer bytes n = Some P" and "small bytes" "small n"
  moreover have "24 \<le> bytes" using P by (auto simp: MemoryPool_buffer_def split: if_splits)
  then have "unat (bytes - 24) = unat bytes - 24" by (simp add: unat_sub)
  ultimately show ?thesis
    by (auto simp: MemoryPool_buffer_def pool_ok_def chunks_ok_def chunk_ok_def small_def no_blocks
        split: if_splits)
qed

text \<open>\<open>Clear\<close> keeps at most the buffer of the user, now empty, and gives all blocks up.\<close>

lemma Clear_chunks_ok:
  "distinct (map chunk_id cs) \<Longrightarrow> \<forall>c\<in>set cs. chunk_ok c \<and> chunk_id c < n \<Longrightarrow>
     distinct (map chunk_id (Clear_chunks u cs)) \<and>
     (\<forall>c\<in>set (Clear_chunks u cs). chunk_ok c \<and> chunk_id c < n)"
  by (induction u cs rule: Clear_chunks.induct) (auto simp: chunk_ok_def)

lemma pool_ok_Clear: "pool_ok P live \<Longrightarrow> pool_ok (Pool_Clear P) Map.empty"
  using Clear_chunks_ok [of "chunkHead P" "next_chunk P" "userBuffer P"]
  by (simp add: pool_ok_def chunks_ok_def Pool_Clear_def no_blocks)

text \<open>A size close to the end of the 64 bits wraps around when it is aligned, and the block has no
  byte: two such blocks have the same address.\<close>

lemma Malloc_wraps:
  "fst (Pool_Malloc 0xFFFFFFFFFFFFFFFF (MemoryPool_new kDefaultChunkCapacity)) = Some (0, 0) \<and>
   fst (Pool_Malloc 8 (snd (Pool_Malloc 0xFFFFFFFFFFFFFFFF (MemoryPool_new kDefaultChunkCapacity)))) = Some (0, 0)"
  by code_simp

section \<open>The contract\<close>

text \<open>
  C22. Contract of \<open>MemoryPoolAllocator::Realloc\<close>, which \<open>Malloc\<close>, chunks and alignment serve:
  whatever blocks are in use, the block it returns lies inside its chunk, at an offset aligned to
  eight bytes, and apart from all other blocks; it begins with the bytes of the old one, and the
  bytes of every other block stay as they were.
\<close>

theorem Realloc_contract:
  assumes P: "pool_ok P live" and p: "live p = Some (unat old)" and n: "new \<noteq> 0" "small new"
  shows "\<exists>q mem' P'. Pool_Realloc (Some p) old new mem P = (Some q, mem', P') \<and>
    pool_ok P' ((live(p := None))(q \<mapsto> unat new)) \<and> (q = p \<or> live q = None) \<and>
    take (unat old) (contents mem' q (unat new)) = take (unat new) (contents mem p (unat old)) \<and>
    (\<forall>r k. r \<noteq> p \<longrightarrow> live r = Some k \<longrightarrow> contents mem' r k = contents mem r k)"
proof (cases "new \<le> old")
  case True
  then have "unat new \<le> unat old" by (simp add: word_le_nat_alt)
  moreover have "0 < unat new" using n(1) by (simp add: unat_gt_0)
  ultimately show ?thesis
    using True n(1) pool_ok_shrink [OF P p, of "unat new"]
    by (simp add: Pool_Realloc_def take_contents) (simp add: contents_def)
next
  case False
  then have less: "old < new" and le: "unat old \<le> unat new" by (simp_all add: word_le_nat_alt word_less_nat_alt)
  show ?thesis
  proof (cases "expanded p old new P")
    case (Some P')
    have "pool_ok P' (live(p \<mapsto> unat new))" by (rule expanded_contract [OF P p n(2) less Some])
    then show ?thesis
      using Some False n(1) le by (simp add: Pool_Realloc_def take_contents) (simp add: contents_def)
  next
    case None
    obtain q P' where m: "Pool_Malloc new P = (Some q, P')" and fresh: "live q = None"
      and ok: "pool_ok P' (live(q \<mapsto> unat new))"
      by (rule Malloc_contract [OF P n])
    have pq: "p \<noteq> q" using p fresh by auto
    have "pool_ok P' ((live(q \<mapsto> unat new))(p := None))" by (rule pool_ok_drop [OF ok])
    then have "pool_ok P' ((live(p := None))(q \<mapsto> unat new))" using pq by (simp add: fun_upd_twist)
    moreover have "contents (memcpy q p (unat old) mem) r k = contents mem r k" if "r \<noteq> p" "live r = Some k" for r k
    proof -
      have "r \<noteq> q" using that(2) fresh by auto
      then have "apart r k q (unat new)" using that(2) by (intro live_apart [OF ok]) simp_all
      then show ?thesis using le by (rule memcpy_apart)
    qed
    moreover have "take (unat old) (contents (memcpy q p (unat old) mem) q (unat new)) = contents mem p (unat old)"
      using le by (simp add: take_contents memcpy_copied)
    moreover have "take (unat new) (contents mem p (unat old)) = contents mem p (unat old)"
      using le by (simp add: contents_def)
    ultimately show ?thesis
      using None False n(1) m fresh by (simp add: Pool_Realloc_def)
  qed
qed

definition one_block :: MemoryPool where
  "one_block = snd (Pool_Malloc 16 (MemoryPool_new kDefaultChunkCapacity))"

lemma Realloc_contract_witness:
  "\<exists>q mem' P'. Pool_Realloc (Some (0, 0)) 16 100 (\<lambda>a. 7) one_block = (Some q, mem', P') \<and>
    pool_ok P' ((([(0, 0) \<mapsto> 16])((0, 0) := None))(q \<mapsto> 100)) \<and> (q = (0, 0) \<or> [(0, 0) \<mapsto> (16 :: nat)] q = None) \<and>
    take 16 (contents mem' q 100) = take 100 (contents (\<lambda>a. 7) (0, 0) 16) \<and>
    (\<forall>r k. r \<noteq> (0, 0) \<longrightarrow> [(0, 0) \<mapsto> (16 :: nat)] r = Some k \<longrightarrow> contents mem' r k = contents (\<lambda>a. 7) r k)"
proof -
  have "pool_ok (MemoryPool_new kDefaultChunkCapacity) Map.empty"
    by (rule pool_ok_new) (simp add: small_def kDefaultChunkCapacity_def)
  then obtain q P' where m: "Pool_Malloc 16 (MemoryPool_new kDefaultChunkCapacity) = (Some q, P')"
    and P': "pool_ok P' (Map.empty(q \<mapsto> unat (16 :: u64)))"
    by (rule Malloc_contract [where bytes = 16]) (simp_all add: small_def)
  moreover have "fst (Pool_Malloc 16 (MemoryPool_new kDefaultChunkCapacity)) = Some (0, 0)" by code_simp
  ultimately have "pool_ok one_block [(0, 0) \<mapsto> 16]" by (simp add: one_block_def)
  from Realloc_contract [OF this, of "(0, 0)" 16 100 "\<lambda>a. 7"] show ?thesis
    by (simp add: small_def)
qed

end
