(* ===== verification/Spec2Isabelle.thy ===== *)
theory Spec2Isabelle
  imports ControllerFacts DataNode KRequestFacts KIteratorFacts KConnectionFacts Output EtcdFacts BenchFacts
    JsonProperties JsonIterativeFacts JsonAllocator
begin

text \<open>
  \<^bold>\<open>hvbench\<close>, a benchmark for SDN hypervisors, as an Isabelle library.  All paths below are
  relative to \<open>src/src\<close>.

  \<^bold>\<open>The program.\<close>  An instance (\<open>HVBench\<close>) follows its configuration in etcd.  For every entry
  that names a tenant it starts a \<open>Tenant\<close>, whose thread runs an OpenFlow controller
  (\<open>HVBenchController\<close>) towards the hypervisor: a generator says which message is due when,
  the controller sends it, notes the requests that await a reply (\<open>OFLatencyStats\<close>, on a
  lock-free queue), measures the replies, and once a second has a \<open>Collector\<close> visit the
  statistics and hands the report to the output, which writes it to Kafka.  For every entry
  that names a node it starts a \<open>Node\<close>, which plays a switch towards the hypervisor
  (\<open>HVBenchNode\<close>).  Changes of the configuration of a tenant are routed to its generator.

  \<^bold>\<open>Theories.\<close>
  \<^item> \<open>Prelude\<close>: machine words, bytes, the layout of integers in memory.  \<open>Digits\<close>: decimal
    text.  \<open>Doubles\<close>, \<open>DoubleFacts\<close>: binary64 values and their exact rounding.  \<open>Globals\<close>:
    \<open>globals.h\<close>, \<open>conf.h\<close>, time, the type \<open>exn\<close> of what can leave a function.  \<open>StdMap\<close>:
    \<open>std::map\<close> as an association list in the order of its keys.
  \<^item> \<open>Messages\<close>, \<open>Generators\<close>, \<open>GeneratorFacts\<close>: \<open>of/messages.hpp\<close> and \<open>generators/\<close>.  Each
    generator is a record with \<open>peek\<close>, \<open>next\<close>, \<open>update\<close>; the locale \<open>generator\<close> states
    what a client of the abstract class relies on (a message is due when \<open>peek\<close> says) and is
    interpreted on every subclass and on their containers.
  \<^item> \<open>ConcurrentQueue\<close>, \<open>QueueFacts\<close>: the part of \<open>concurrentqueue/concurrentqueue.h\<close> that runs
    (one implicit producer, block index, free list), which refines a bounded list: the locale
    \<open>fifo\<close>, interpreted on \<open>try_enqueue\<close> and \<open>try_dequeue\<close>.
  \<^item> \<open>LatencyStats\<close>, \<open>Collector\<close>, \<open>Controller\<close>, \<open>ControllerFacts\<close>: \<open>statistics/\<close> and
    \<open>HVBenchController.cpp\<close>.  The callbacks and one turn of the sending loop are the steps of
    the relation \<open>ctrl_step\<close>; \<open>ctrl_reach\<close> are its reachable states, and the invariant gives
    that no handler fails, that messages leave in the order and not before the time of the
    generator, and that counters and bytes account for what was sent.
  \<^item> \<open>DataNode\<close>: \<open>HVBenchNode.cpp\<close>, a callback being the list of what it asks of libfluid.
    The locale \<open>message_owner\<close> is the duty to hand every message back once.
  \<^item> \<open>KWire\<close>, \<open>KError\<close>, \<open>KMessages\<close>, \<open>KRequests\<close>, \<open>KResponses\<close>, \<open>KIterators\<close>, \<open>KConnection\<close>
    and their \<open>Facts\<close>: \<open>libs/libkafka_asio\<close>.  Bytes on the wire are lists, streams keep their
    state and their failure.  The locale \<open>codec\<close> is a writer with its reader,
    \<open>request_builder\<close> and \<open>sized_request\<close> what all requests share, \<open>topic_reader\<close> the loop
    all responses share, \<open>forward_iterator\<close> an iterator and the loop of its client.  The
    connection is a state machine: \<open>conn_handle\<close> is one event (a call of the user, a task of
    the \<open>io_service\<close>, a completion of the socket, a deadline), \<open>conn_trace\<close> a run.
  \<^item> \<open>Output\<close>: \<open>statistics/output\<close>, from a collector to a posted produce request.
  \<^item> \<open>Json\<close>, \<open>JsonFacts\<close>: the accessors of \<open>libs/etcd/rapidjson/document.h\<close> the program calls and
    \<open>libs/etcd/etcd_reply.hpp\<close>, against the abstract tree \<open>etcd_node\<close> of a store.
  \<^item> \<open>JsonStream\<close>, \<open>JsonNumber\<close>, \<open>JsonReader\<close>, \<open>JsonDocument\<close> and their \<open>Facts\<close>: the recursive
    parser of \<open>libs/etcd/rapidjson/reader.h\<close> with \<open>rapidjson.h\<close>, \<open>internal/strtod.h\<close> and
    \<open>internal/pow10.h\<close>, and the document that handles its events.  \<open>JsonIterative\<close>,
    \<open>JsonIterativeFacts\<close>: the iterative parser, a machine of states and a stack, which does what
    the recursive one does.  \<open>Itoa\<close>, \<open>Dtoa\<close>,
    \<open>JsonWriter\<close>, \<open>JsonWriterFacts\<close>: \<open>internal/itoa.h\<close>, \<open>internal/dtoa.h\<close>,
    \<open>internal/diyfp.h\<close>, \<open>writer.h\<close> and \<open>Print\<close> of the replies.  \<open>JsonRoundtrip\<close>: reading what
    was written.  The printing of \<open>double\<close>s: \<open>DtoaPowers\<close>, which cached power is chosen;
    \<open>DtoaTable\<close>, how accurate it is; \<open>DtoaDigits\<close>, the digits and the interval they stay in;
    \<open>DtoaFacts\<close>, the boundaries of a value and their scaling; \<open>DtoaText\<close>, the text, its length
    and the exact number it denotes; \<open>JsonPrint\<close>, the \<open>double\<close>s of a document.  \<open>JsonProperties\<close>: what the
    etcd client gets of it.  \<open>JsonAllocator\<close>: the memory pool of a document, \<open>allocators.h\<close>.
  \<^item> \<open>Etcd\<close>, \<open>EtcdFacts\<close>, \<open>Watch\<close>, \<open>WatchFacts\<close>: \<open>libs/etcd/etcd.hpp\<close> and \<open>etcd_helper.hpp\<close>: the
    requests of the client, its wrapper of curl, and the watch with its recovery.  The locale
    \<open>watch_owner\<close> is the contract between a watch and its callback.
  \<^item> \<open>Bench\<close>, \<open>BenchFacts\<close>: \<open>Tenant.cpp\<close>, \<open>Node.cpp\<close>, \<open>HVBench.cpp\<close>.  The replies of the three
    watches are the steps \<open>bench_step\<close> of an instance; its callbacks interpret
    \<open>watch_owner\<close>.

  \<^bold>\<open>How code became definitions.\<close>  A class is a record, a method a function of that record that
  returns it updated; what can be thrown, a failed assertion and undefined behaviour are the
  left part of a sum over \<open>exn\<close>, and \<open>catchable\<close> tells exceptions from the other two.
  Integers have their width (\<open>w word\<close>) where the code depends on it: indices of the queue,
  sizes and lengths on the wire, counters, the index of a watch, the integers of JSON.  Times
  are nanoseconds.  A \<open>double\<close> of JSON is its sign, significand and exponent, and every
  operation rounds its exact result once, to nearest and ties to even.  A loop that may not end
  (matching a reply, the watch, the loop over a message set, zlib) is a partial function, so a
  theorem that it returns is a theorem that it gives \<open>Some\<close>; in \<open>Dtoa\<close> it is a
  \<open>while_option\<close> whose missing result is the fault \<open>NeverReturns\<close>.  There is no fuel.  In
  \<open>rapidjson\<close>, what would be undefined or abort is a \<open>fault\<close>: a read past the text, a failed
  assertion, a signed overflow, an index past a table, a loop that does not end.

  \<^bold>\<open>Parameters.\<close>  Code outside the repository is an argument: libfluid (packing and parsing of
  OpenFlow messages, its settings), the random numbers and the accumulators of Boost,
  \<open>lexical_cast\<close>, zlib and CRC, clocks, curl with the server behind it (\<open>perform\<close>).  The
  etcd client takes the parser of JSON as an argument as well: its theorems hold for every
  parser, and \<open>JsonProperties\<close> takes one that leaves the document the model of the reader leaves,
  wherever that has a result.  Hypotheses about them are those of the documentation (a server that keeps
  its history, zlib that inverts itself) and every theorem with one has a witness with a
  concrete function.

  \<^bold>\<open>What is proved.\<close>  For the controller and its statistics: safety, the schedule, accounting,
  exact matching of replies, and the capacity of the waiting list.  For Kafka: round trips of
  messages, sets and responses without errors, the declared sizes of requests, the builders as
  maps, the iteration over nested sets, that no handler is lost or called twice, and that a
  response that has been read reaches its handler.  For etcd: the tree
  of a store is flattened as it should be, a watch delivers every change once and in order,
  and it ends when the server is gone.  For the instance: every tenant is started once, and
  changes reach exactly their generator.  For JSON: parsing is safe on every text and leaves a
  well-typed document, what the writer prints is read back, the integers of \<open>itoa.h\<close> are the
  decimal ones, what \<open>dtoa\<close> writes rounds to the value it was written for and has at most 25
  characters, unless the value has more than ten significant digits and the table of its
  powers of ten is read past its end, the iterative parser accepts what the recursive one does, the memory pool keeps its blocks apart,
  the flags of a number say which integers it fits, and a reply of etcd is read
  from its text to the tree of the store.  Theorems also state where the code does not do what
  it means to: replies with unknown transaction numbers, responses that are never read,
  overlapping writes, sizes that are too small, versions that are never refused, a recovery
  that forgets to be recursive, changes that stop the watch of all tenants, an exponent that
  overflows, and an index past the powers of ten of \<open>internal/dtoa.h\<close>.

  \<^bold>\<open>Not modelled.\<close>  Threads, locks and memory orders: each callback, turn of a loop or event is
  one step, and calls of different threads interleave only as steps; the unsynchronised access
  of a tenant's generator by two threads is therefore not visible.  \<open>base/BaseOFClient\<close>
  (sockets and threads), \<open>main.cpp\<close>, the starting of the threads of \<open>HVBench::run\<close>, the
  other producers and the bulk operations of the queue, Snappy (compiled out), \<open>etcd::Server\<close>
  and \<open>Watch::RunOnce\<close> (never used), \<open>of/controllerevents.hpp\<close>.  Of \<open>rapidjson\<close>, what the
  program never instantiates: the in-situ parser, the flags for comments and
  for full precision, encodings other than UTF-8, the variants for SIMD, the pretty writer,
  \<open>pointer.h\<close>, the mutation of values.  Its base allocator and its \<open>Stack\<close> have no failure
  here, so a document is as large as memory allows; \<open>SizeType\<close> is a natural number, and the
  depth of the recursion of the parser has no bound.
\<close>

end
